(* ===== verification/Prelude.thy ===== *)
theory Prelude
  imports Main "HOL-Library.Word"
begin

text \<open>
  Shared vocabulary of the development: Go's fixed-width integers written over \<open>int\<close>, the
  helpers \<open>minInt\<close>/\<open>maxInt\<close> that several packages declare for themselves, the
  propagation of an error result, and generic facts on lists that the component theories
  use through the collections declared here.
\<close>

named_theorems row_upd \<open>effect of a guarded UPDATE on a table of rows\<close>
named_theorems limits \<open>bounds that configuration clamps establish\<close>
named_theorems trim \<open>facts on whitespace trimming of Go strings\<close>

subsection \<open>Go integers\<close>

text \<open>
  An \<open>int64\<close> (and \<open>int\<close> on the supported platforms) is an \<open>int\<close> in the range below; where
  the source's arithmetic can leave the range, \<open>wrap64\<close> writes the wrap-around out.
\<close>

abbreviation int64_max :: int where "int64_max \<equiv> 9223372036854775807"
abbreviation int64_min :: int where "int64_min \<equiv> - 9223372036854775808"

definition wrap64 :: "int \<Rightarrow> int" where
  "wrap64 x = (x + 9223372036854775808) mod 18446744073709551616 - 9223372036854775808"

lemma wrap64_id [simp]: "int64_min \<le> x \<Longrightarrow> x \<le> int64_max \<Longrightarrow> wrap64 x = x"
  by (simp add: wrap64_def)

lemma wrap64_range: "int64_min \<le> wrap64 x \<and> wrap64 x \<le> int64_max"
proof -
  have "0 \<le> (x + 9223372036854775808) mod 18446744073709551616"
    and "(x + 9223372036854775808) mod 18446744073709551616 < 18446744073709551616"
    by simp_all
  then show ?thesis by (simp add: wrap64_def)
qed

abbreviation MiB :: int where "MiB \<equiv> 1048576"
abbreviation GiB :: int where "GiB \<equiv> 1073741824"

definition minInt :: "int \<Rightarrow> int \<Rightarrow> int" where
  "minInt a b = (if a < b then a else b)"

definition maxInt :: "int \<Rightarrow> int \<Rightarrow> int" where
  "maxInt a b = (if a > b then a else b)"

lemma minInt_min [simp]: "minInt a b = min a b"
  by (simp add: minInt_def)

lemma maxInt_max [simp]: "maxInt a b = max a b"
  by (simp add: maxInt_def max_def)

subsection \<open>Results\<close>

text \<open>\<open>if err != nil \{ return err \}\<close>: the continuation runs on success only.\<close>

fun bindr :: "'e + 'a \<Rightarrow> ('a \<Rightarrow> 'e + 'b) \<Rightarrow> 'e + 'b" where
  "bindr (Inl e) f = Inl e"
| "bindr (Inr x) f = f x"

lemma bindr_Inr: "bindr m f = Inr y \<longleftrightarrow> (\<exists>x. m = Inr x \<and> f x = Inr y)"
  by (cases m) auto

lemma bindr_Inl: "bindr m f = Inl e \<longleftrightarrow> m = Inl e \<or> (\<exists>x. m = Inr x \<and> f x = Inl e)"
  by (cases m) auto

subsection \<open>Counters held in a Go map\<close>

text \<open>Reading a missing key of a \<open>map[string]int\<close> gives 0.\<close>

definition getc :: "('k \<rightharpoonup> int) \<Rightarrow> 'k \<Rightarrow> int" where
  "getc m k = (case m k of None \<Rightarrow> 0 | Some v \<Rightarrow> v)"

lemma getc_upd [simp]: "getc (m(k \<mapsto> v)) k' = (if k' = k then v else getc m k')"
  by (simp add: getc_def)

lemma getc_del [simp]: "getc (m(k := None)) k' = (if k' = k then 0 else getc m k')"
  by (simp add: getc_def)

lemma getc_empty [simp]: "getc Map.empty k = 0"
  by (simp add: getc_def)

subsection \<open>Lists\<close>

lemma filter_count_remove1:
  "x \<in> set xs \<Longrightarrow>
     int (length (filter P (remove1 x xs))) = int (length (filter P xs)) - (if P x then 1 else 0)"
  by (induction xs) auto

lemma sum_list_map_remove1:
  fixes f :: "'a \<Rightarrow> int"
  shows "x \<in> set xs \<Longrightarrow> sum_list (map f (remove1 x xs)) = sum_list (map f xs) - f x"
  by (induction xs) auto

lemma sum_list_nonneg_int:
  fixes f :: "'a \<Rightarrow> int"
  shows "(\<And>x. x \<in> set xs \<Longrightarrow> 0 \<le> f x) \<Longrightarrow> 0 \<le> sum_list (map f xs)"
  by (induction xs) auto

lemma find_Some_mem: "find P xs = Some x \<Longrightarrow> x \<in> set xs \<and> P x"
  by (auto simp: find_Some_iff)

lemma length_filter_map_le:
  assumes "\<And>x. x \<in> set xs \<Longrightarrow> P (f x) \<Longrightarrow> P x"
  shows "length (filter P (map f xs)) \<le> length (filter P xs)"
  using assms
proof (induction xs)
  case (Cons a xs)
  then have "length (filter P (map f xs)) \<le> length (filter P xs)" by simp
  with Cons.prems [of a] show ?case by auto
qed simp

lemma length_filter_map_less:
  assumes "\<And>x. x \<in> set xs \<Longrightarrow> P (f x) \<Longrightarrow> P x" "x \<in> set xs" "P x" "\<not> P (f x)"
  shows "length (filter P (map f xs)) < length (filter P xs)"
  using assms
proof (induction xs)
  case (Cons a xs)
  have le: "length (filter P (map f xs)) \<le> length (filter P xs)"
    by (rule length_filter_map_le) (simp add: Cons.prems(1))
  show ?case
  proof (cases "x = a")
    case True
    with Cons.prems le show ?thesis by simp
  next
    case False
    with Cons have "length (filter P (map f xs)) < length (filter P xs)" by auto
    with Cons.prems(1) [of a] show ?thesis by auto
  qed
qed simp

end
