(* ===== verification/Tables.thy ===== *)
theory Tables
  imports Prelude
begin

text \<open>
  SQL tables as lists of rows in insertion order. A \<open>SELECT ... WHERE id = ?\<close> finds the row of
  a key, an \<open>UPDATE ... WHERE id = ? AND guard\<close> rewrites it when the guard holds, an \<open>INSERT\<close>
  appends it. The locale \<open>row_store\<close> states what the service relies on of a table with a unique
  key; each table of the development interprets it with its own key column.
\<close>

definition sel_by :: "('r \<Rightarrow> 'k) \<Rightarrow> 'r list \<Rightarrow> 'k \<Rightarrow> 'r option" where
  "sel_by key rows k = find (\<lambda>r. key r = k) rows"

definition upd_by :: "('r \<Rightarrow> 'k) \<Rightarrow> 'k \<Rightarrow> ('r \<Rightarrow> bool) \<Rightarrow> ('r \<Rightarrow> 'r) \<Rightarrow> 'r list \<Rightarrow> 'r list" where
  "upd_by key k g f rows = map (\<lambda>r. if key r = k \<and> g r then f r else r) rows"

definition ins_by :: "'r \<Rightarrow> 'r list \<Rightarrow> 'r list" where
  "ins_by r rows = rows @ [r]"

definition uniq_by :: "('r \<Rightarrow> 'k) \<Rightarrow> 'r list \<Rightarrow> bool" where
  "uniq_by key rows \<longleftrightarrow> distinct (map key rows)"

text \<open>\<open>RowsAffected\<close> of an update: the rows its \<open>WHERE\<close> selects.\<close>

definition affected_by :: "('r \<Rightarrow> 'k) \<Rightarrow> 'k \<Rightarrow> ('r \<Rightarrow> bool) \<Rightarrow> 'r list \<Rightarrow> nat" where
  "affected_by key k g rows = length (filter (\<lambda>r. key r = k \<and> g r) rows)"

subsection \<open>The interface\<close>

locale row_store =
  fixes sel :: "'db \<Rightarrow> 'k \<Rightarrow> 'r option"
    and upd :: "'k \<Rightarrow> ('r \<Rightarrow> bool) \<Rightarrow> ('r \<Rightarrow> 'r) \<Rightarrow> 'db \<Rightarrow> 'db"
    and ins :: "'r \<Rightarrow> 'db \<Rightarrow> 'db"
    and key :: "'r \<Rightarrow> 'k"
    and wf :: "'db \<Rightarrow> bool"
  assumes sel_key: "sel db k = Some r \<Longrightarrow> key r = k"
    and sel_upd: "(\<And>r. key (f r) = key r) \<Longrightarrow> sel (upd k g f db) k' =
      (if k' = k then map_option (\<lambda>r. if g r then f r else r) (sel db k) else sel db k')"
    and wf_upd: "(\<And>r. key (f r) = key r) \<Longrightarrow> wf db \<Longrightarrow> wf (upd k g f db)"
    and sel_ins: "sel db (key r) = None \<Longrightarrow>
      sel (ins r db) k = (if k = key r then Some r else sel db k)"
    and wf_ins: "wf db \<Longrightarrow> sel db (key r) = None \<Longrightarrow> wf (ins r db)"
begin

lemma upd_other: "(\<And>r. key (f r) = key r) \<Longrightarrow> k' \<noteq> k \<Longrightarrow> sel (upd k g f db) k' = sel db k'"
  by (simp add: sel_upd)

lemma upd_hit:
  "(\<And>r. key (f r) = key r) \<Longrightarrow> sel db k = Some r \<Longrightarrow> g r \<Longrightarrow> sel (upd k g f db) k = Some (f r)"
  by (simp add: sel_upd)

lemma upd_miss:
  "(\<And>r. key (f r) = key r) \<Longrightarrow> (\<And>r. sel db k = Some r \<Longrightarrow> \<not> g r) \<Longrightarrow> sel (upd k g f db) k' = sel db k'"
  by (cases "sel db k") (auto simp: sel_upd)

text \<open>
  Compare-and-set: a guarded update whose new row fails the guard excludes every later update
  under the same guard, so a second attempt with the same arguments changes nothing.
\<close>

lemma cas_once:
  assumes "\<And>r. key (f r) = key r" "\<And>r. key (h r) = key r" "\<And>r. g r \<Longrightarrow> \<not> g (f r)"
  shows "sel (upd k g h (upd k g f db)) k' = sel (upd k g f db) k'"
  using assms by (cases "sel db k") (auto simp: sel_upd)

lemma some_after_upd:
  "(\<And>r. key (f r) = key r) \<Longrightarrow> sel (upd k g f db) k' = Some r' \<Longrightarrow>
     \<exists>r. sel db k' = Some r \<and> (r' = r \<or> k' = k \<and> g r \<and> r' = f r)"
  by (cases "sel db k") (auto simp: sel_upd split: if_splits)

end

subsection \<open>Tables keep the interface\<close>

lemma find_map_upd:
  assumes "\<And>r. key (f r) = key r"
  shows "sel_by key (upd_by key k g f rows) k' =
    (if k' = k then map_option (\<lambda>r. if g r then f r else r) (sel_by key rows k) else sel_by key rows k')"
  using assms by (induction rows) (auto simp: sel_by_def upd_by_def)

lemma sel_by_map: "(\<And>r. key (f r) = key r) \<Longrightarrow> sel_by key (map f rows) k = map_option f (sel_by key rows k)"
  by (induction rows) (auto simp: sel_by_def)

lemma sel_by_None: "sel_by key rows k = None \<longleftrightarrow> k \<notin> key ` set rows"
  by (auto simp: sel_by_def find_None_iff)

lemma sel_by_mem: "sel_by key rows k = Some r \<Longrightarrow> r \<in> set rows \<and> key r = k"
  by (auto simp: sel_by_def dest: find_Some_mem)

lemma sel_by_uniq: "uniq_by key rows \<Longrightarrow> r \<in> set rows \<Longrightarrow> sel_by key rows (key r) = Some r"
  by (induction rows) (auto simp: sel_by_def uniq_by_def image_iff)

lemma upd_by_keys: "(\<And>r. key (f r) = key r) \<Longrightarrow> map key (upd_by key k g f rows) = map key rows"
  by (simp add: upd_by_def)

lemma sel_by_append:
  "sel_by key (rows @ [r]) k = (case sel_by key rows k of Some x \<Rightarrow> Some x
     | None \<Rightarrow> if key r = k then Some r else None)"
  by (induction rows) (auto simp: sel_by_def)

lemma row_store_by: "row_store (sel_by key) (upd_by key) ins_by key (uniq_by key)"
proof unfold_locales
  fix db k r
  assume "sel_by key db k = Some r"
  then show "key r = k" by (auto dest: sel_by_mem)
next
  fix f k g db k'
  assume "\<And>r. key (f r) = key r"
  then show "sel_by key (upd_by key k g f db) k' =
     (if k' = k then map_option (\<lambda>r. if g r then f r else r) (sel_by key db k) else sel_by key db k')"
    by (rule find_map_upd)
next
  fix f k g db
  assume "\<And>r. key (f r) = key r" "uniq_by key db"
  then show "uniq_by key (upd_by key k g f db)"
    by (simp add: uniq_by_def upd_by_keys)
next
  fix db r k
  assume "sel_by key db (key r) = None"
  then show "sel_by key (ins_by r db) k = (if k = key r then Some r else sel_by key db k)"
    by (auto simp: ins_by_def sel_by_append split: option.splits)
next
  fix db r
  assume "uniq_by key db" "sel_by key db (key r) = None"
  then show "uniq_by key (ins_by r db)"
    by (auto simp: uniq_by_def ins_by_def sel_by_None)
qed

lemma affected_by_uniq:
  "uniq_by key rows \<Longrightarrow> affected_by key k g rows =
     (case sel_by key rows k of Some r \<Rightarrow> if g r then 1 else 0 | None \<Rightarrow> 0)"
proof (induction rows)
  case (Cons a rows)
  have "filter (\<lambda>r. key r = key a \<and> g r) rows = []"
    using Cons.prems by (auto simp: uniq_by_def filter_empty_conv image_iff)
  with Cons show ?case
    by (auto simp: affected_by_def sel_by_def uniq_by_def)
qed (simp add: affected_by_def sel_by_def)

lemma set_upd_by:
  "r' \<in> set (upd_by key k g f rows) \<Longrightarrow> \<exists>r \<in> set rows. r' = (if key r = k \<and> g r then f r else r)"
  by (auto simp: upd_by_def)

lemma list_all_upd_by:
  "(\<And>r. r \<in> set rows \<Longrightarrow> P r) \<Longrightarrow> (\<And>r. r \<in> set rows \<Longrightarrow> key r = k \<Longrightarrow> g r \<Longrightarrow> P r \<Longrightarrow> P (f r))
     \<Longrightarrow> r' \<in> set (upd_by key k g f rows) \<Longrightarrow> P r'"
  by (auto simp: upd_by_def)

end
