(* ===== verification/Admission.thy ===== *)
theory Admission
  imports Prelude "HOL-Library.Multiset"
begin

text \<open>
  The admission contract shared by the operation scheduler and the process-wide semaphore
  (\<open>internal/scheduler/admission.go\<close>): capacity is granted or refused, a refusal changes
  nothing, and giving a grant back restores what was held before it. The contract is the locale
  \<open>admission\<close>; its client is the loop that takes the first candidate whose reservation is
  granted, and the semaphore is its first provider.
\<close>

subsection \<open>The contract\<close>

fun first_granted :: "('r \<Rightarrow> 's \<Rightarrow> 's \<times> bool) \<Rightarrow> ('c \<Rightarrow> 'r) \<Rightarrow> 'c list \<Rightarrow> 's \<Rightarrow> 's \<times> 'c option" where
  "first_granted rsv acc [] s = (s, None)"
| "first_granted rsv acc (c # cs) s =
     (let (s', ok) = rsv (acc c) s
      in if ok then (s', Some c) else first_granted rsv acc cs s')"

locale admission =
  fixes rsv :: "'r \<Rightarrow> 's \<Rightarrow> 's \<times> bool"
    and rel :: "'r \<Rightarrow> 's \<Rightarrow> 's"
    and holds :: "'s \<Rightarrow> 'r multiset \<Rightarrow> bool"
    and proper :: "'r \<Rightarrow> bool"
  assumes grant: "holds s R \<Longrightarrow> proper r \<Longrightarrow> rsv r s = (s', True) \<Longrightarrow> holds s' (add_mset r R)"
    and refuse: "rsv r s = (s', False) \<Longrightarrow> s' = s"
    and give_back: "holds s (add_mset r R) \<Longrightarrow> holds (rel r s) R"
begin

lemma grant_release: "holds s R \<Longrightarrow> proper r \<Longrightarrow> rsv r s = (s', True) \<Longrightarrow> holds (rel r s') R"
  by (blast intro: grant give_back)

lemma first_granted_None:
  "first_granted rsv acc cs s = (s', None) \<Longrightarrow> s' = s \<and> (\<forall>c \<in> set cs. \<not> snd (rsv (acc c) s))"
proof (induction cs arbitrary: s)
  case (Cons c cs)
  then show ?case
    by (cases "rsv (acc c) s") (auto split: if_splits dest: refuse)
qed simp

lemma first_granted_Some:
  assumes "first_granted rsv acc cs s = (s', Some c)"
  shows "\<exists>xs ys. cs = xs @ c # ys \<and> (\<forall>x \<in> set xs. \<not> snd (rsv (acc x) s)) \<and> rsv (acc c) s = (s', True)"
  using assms
proof (induction cs arbitrary: s)
  case (Cons d cs)
  obtain t ok where t: "rsv (acc d) s = (t, ok)" by fastforce
  show ?case
  proof (cases ok)
    case True
    with Cons.prems t have "d = c" "t = s'" by auto
    with True t have "d # cs = [] @ c # cs \<and> (\<forall>x \<in> set []. \<not> snd (rsv (acc x) s)) \<and> rsv (acc c) s = (s', True)"
      by simp
    then show ?thesis by blast
  next
    case False
    with t have "t = s" by (simp add: refuse)
    with Cons.prems False t have "first_granted rsv acc cs s = (s', Some c)" by simp
    from Cons.IH [OF this] obtain xs ys where *: "cs = xs @ c # ys"
      "\<forall>x \<in> set xs. \<not> snd (rsv (acc x) s)" "rsv (acc c) s = (s', True)"
      by blast
    with False t have "d # cs = (d # xs) @ c # ys \<and> (\<forall>x \<in> set (d # xs). \<not> snd (rsv (acc x) s))
        \<and> rsv (acc c) s = (s', True)"
      by simp
    then show ?thesis by blast
  qed
qed simp

lemma first_granted_holds:
  "first_granted rsv acc cs s = (s', Some c) \<Longrightarrow> holds s R \<Longrightarrow> proper (acc c)
     \<Longrightarrow> holds s' (add_mset (acc c) R)"
  by (drule first_granted_Some) (blast intro: grant)

end

subsection \<open>The semaphore\<close>

text \<open>
  \<open>Semaphore\<close> is a buffered channel of empty structs: \<open>used\<close> is the number of elements in it.
  \<open>Acquire\<close> succeeds at once when a slot is free; when none is free it waits, which is the
  refusal here (the caller stays blocked or its context ends). The release closure runs its body
  once (\<open>sync.Once\<close>): \<open>spent\<close> holds the grants whose closure has run.
\<close>

record semaphore =
  capacity :: nat
  used :: nat
  issued :: nat
  spent :: "nat set"

definition NewSemaphore :: "int \<Rightarrow> semaphore" where
  "NewSemaphore cap = \<lparr>capacity = nat (if cap < 1 then 1 else cap), used = 0, issued = 0, spent = {}\<rparr>"

definition Acquire :: "semaphore \<Rightarrow> semaphore \<times> nat option" where
  "Acquire s = (if used s < capacity s
     then (s\<lparr>used := Suc (used s), issued := Suc (issued s)\<rparr>, Some (issued s)) else (s, None))"

definition releaseOnce :: "nat \<Rightarrow> semaphore \<Rightarrow> semaphore" where
  "releaseOnce h s = (if h \<in> spent s then s
     else s\<lparr>used := used s - 1, spent := insert h (spent s)\<rparr>)"

text \<open>The slots in use are exactly the grants whose closure has not run.\<close>

definition sem_inv :: "semaphore \<Rightarrow> bool" where
  "sem_inv s \<longleftrightarrow> 0 < capacity s \<and> used s \<le> capacity s \<and> spent s \<subseteq> {..<issued s}
     \<and> used s = card ({..<issued s} - spent s)"

lemma sem_inv_New: "sem_inv (NewSemaphore c)"
  by (simp add: sem_inv_def NewSemaphore_def)

lemma sem_inv_Acquire: "sem_inv s \<Longrightarrow> sem_inv (fst (Acquire s))"
proof -
  assume inv: "sem_inv s"
  have "{..<Suc (issued s)} - spent s = insert (issued s) ({..<issued s} - spent s)"
    if "spent s \<subseteq> {..<issued s}"
    using that by auto
  with inv show ?thesis
    by (auto simp: sem_inv_def Acquire_def)
qed

lemma sem_inv_release: "sem_inv s \<Longrightarrow> h < issued s \<Longrightarrow> sem_inv (releaseOnce h s)"
proof (cases "h \<in> spent s")
  case False
  assume inv: "sem_inv s" and h: "h < issued s"
  have "{..<issued s} - insert h (spent s) = ({..<issued s} - spent s) - {h}" by auto
  with inv h False show ?thesis
    by (auto simp: sem_inv_def releaseOnce_def)
qed (simp add: releaseOnce_def)

lemma releaseOnce_idem [simp]: "releaseOnce h (releaseOnce h s) = releaseOnce h s"
  by (simp add: releaseOnce_def)

text \<open>The semaphore provides the contract: what it holds is one unit per outstanding grant.\<close>

definition sem_reserve :: "nat \<Rightarrow> semaphore \<Rightarrow> semaphore \<times> bool" where
  "sem_reserve h s = (if issued s = h then (case Acquire s of (s', r) \<Rightarrow> (s', r \<noteq> None)) else (s, False))"

definition sem_holds :: "semaphore \<Rightarrow> nat multiset \<Rightarrow> bool" where
  "sem_holds s R \<longleftrightarrow> sem_inv s \<and> R = mset_set ({..<issued s} - spent s)"

lemma sem_holds_size: "sem_holds s R \<Longrightarrow> size R = used s \<and> used s \<le> capacity s"
  by (simp add: sem_holds_def sem_inv_def)

interpretation sem: admission sem_reserve releaseOnce sem_holds "\<lambda>_. True"
proof unfold_locales
  fix s R r s'
  assume h: "sem_holds s R" and r: "sem_reserve r s = (s', True)"
  then have eq: "r = issued s" "used s < capacity s"
      "s' = s\<lparr>used := Suc (used s), issued := Suc (issued s)\<rparr>"
    by (auto simp: sem_reserve_def Acquire_def split: if_splits)
  have "{..<Suc (issued s)} - spent s = insert (issued s) ({..<issued s} - spent s)"
    using h by (auto simp: sem_holds_def sem_inv_def)
  moreover have "sem_inv s'"
    using h eq sem_inv_Acquire [of s] by (simp add: sem_holds_def Acquire_def)
  ultimately show "sem_holds s' (add_mset r R)"
    using h eq by (simp add: sem_holds_def)
next
  fix r s s'
  assume "sem_reserve r s = (s', False)"
  then show "s' = s"
    by (auto simp: sem_reserve_def Acquire_def split: if_splits)
next
  fix s r R
  assume h: "sem_holds s (add_mset r R)"
  then have m: "add_mset r R = mset_set ({..<issued s} - spent s)" and inv: "sem_inv s"
    by (auto simp: sem_holds_def)
  then have r: "r \<in> {..<issued s} - spent s"
    by (metis elem_mset_set finite_Diff finite_lessThan union_single_eq_member)
  have "R = mset_set ({..<issued s} - spent s) - {#r#}"
    by (simp add: m [symmetric])
  also have "\<dots> = mset_set (({..<issued s} - spent s) - {r})"
    using r by (simp add: mset_set_Diff)
  finally have "R = mset_set ({..<issued s} - insert r (spent s))"
    by (metis Diff_insert)
  with inv r show "sem_holds (releaseOnce r s) R"
    by (simp add: sem_holds_def sem_inv_release) (simp add: releaseOnce_def)
qed

end
