(* ===== verification/OpScheduler.thy ===== *)
theory OpScheduler
  imports Admission
begin

text \<open>
  The admission side of \<open>internal/operations/service.go\<close>: resource limits and their
  normalisation, the declared budget of a command, the process-local scheduler that reserves a
  base slot and memory/disk/temp bytes for a claimed operation and gives them back, and the
  priority arithmetic of the claim query.
\<close>

subsection \<open>Resource classes and limits\<close>

definition ResourceIO :: string where "ResourceIO = ''io''"
definition ResourceDBWrite :: string where "ResourceDBWrite = ''db_write''"
definition ResourceDisk :: string where "ResourceDisk = ''disk''"
definition ResourceNetwork :: string where "ResourceNetwork = ''network''"
definition ResourceModel :: string where "ResourceModel = ''model''"
definition ResourceMaintenance :: string where "ResourceMaintenance = ''maintenance''"

lemmas resource_class_defs = ResourceIO_def ResourceDBWrite_def ResourceDisk_def
  ResourceNetwork_def ResourceModel_def ResourceMaintenance_def

record ResourceLimits =
  lIO :: int
  lDBWrite :: int
  lDisk :: int
  lNetwork :: int
  lModel :: int
  lMaintenance :: int
  lMaxPerBase :: int
  lMemoryBytes :: int
  lDiskBytes :: int
  lDiskLowWaterBytes :: int
  lUploadBytes :: int
  lTempBytes :: int

record ResourceBudget =
  bMemoryBytes :: int
  bDiskBytes :: int
  bTempBytes :: int

definition clampLimit :: "int \<Rightarrow> int" where
  "clampLimit value = (if value < 1 then 1 else if value > 64 then 64 else value)"

definition defaultedBytes :: "int \<Rightarrow> int \<Rightarrow> int" where
  "defaultedBytes fallback value =
     (let v = (if value \<le> 0 then fallback else value)
      in if v > 100 * GiB then 100 * GiB else v)"

definition normalizeLimits :: "ResourceLimits \<Rightarrow> ResourceLimits" where
  "normalizeLimits l = l\<lparr>
     lIO := clampLimit (lIO l),
     lDBWrite := clampLimit (lDBWrite l),
     lDisk := clampLimit (lDisk l),
     lNetwork := clampLimit (lNetwork l),
     lModel := clampLimit (lModel l),
     lMaintenance := clampLimit (lMaintenance l),
     lMaxPerBase := (if lMaxPerBase l < 1 then 2 else lMaxPerBase l),
     lMemoryBytes := defaultedBytes (2 * GiB) (lMemoryBytes l),
     lDiskBytes := defaultedBytes (10 * GiB) (lDiskBytes l),
     lDiskLowWaterBytes := defaultedBytes (256 * MiB) (lDiskLowWaterBytes l),
     lUploadBytes := defaultedBytes (512 * MiB) (lUploadBytes l),
     lTempBytes := defaultedBytes GiB (lTempBytes l)\<rparr>"

definition laneLimit :: "ResourceLimits \<Rightarrow> string \<Rightarrow> int" where
  "laneLimit l class =
     (if class = ResourceDBWrite then lDBWrite l
      else if class = ResourceDisk then lDisk l
      else if class = ResourceNetwork then lNetwork l
      else if class = ResourceModel then lModel l
      else if class = ResourceMaintenance then lMaintenance l
      else lIO l)"

definition schedulerClasses :: "string list" where
  "schedulerClasses = [ResourceIO, ResourceDBWrite, ResourceDisk, ResourceNetwork,
     ResourceModel, ResourceMaintenance]"

text \<open>What a normalised configuration guarantees to the scheduler.\<close>

definition limits_ok :: "ResourceLimits \<Rightarrow> bool" where
  "limits_ok l \<longleftrightarrow>
     (\<forall>class \<in> set schedulerClasses. 1 \<le> laneLimit l class \<and> laneLimit l class \<le> 64)
     \<and> 1 \<le> lMaxPerBase l
     \<and> (\<forall>b \<in> {lMemoryBytes l, lDiskBytes l, lDiskLowWaterBytes l, lUploadBytes l, lTempBytes l}.
          0 < b \<and> b \<le> 100 * GiB)"

lemma clampLimit_range [limits]: "1 \<le> clampLimit v" "clampLimit v \<le> 64"
  by (auto simp: clampLimit_def)

lemma clampLimit_id [limits]: "1 \<le> v \<Longrightarrow> v \<le> 64 \<Longrightarrow> clampLimit v = v"
  by (simp add: clampLimit_def)

lemma defaultedBytes_range [limits]:
  "0 < d \<Longrightarrow> 0 < defaultedBytes d v" "defaultedBytes d v \<le> 107374182400"
  by (auto simp: defaultedBytes_def Let_def)

lemma defaultedBytes_id [limits]: "0 < v \<Longrightarrow> v \<le> 107374182400 \<Longrightarrow> defaultedBytes d v = v"
  by (simp add: defaultedBytes_def)

lemma normalizeLimits_ok: "limits_ok (normalizeLimits l)"
  unfolding limits_ok_def
  by (simp add: normalizeLimits_def schedulerClasses_def laneLimit_def resource_class_defs
      clampLimit_range defaultedBytes_range)

lemma normalizeLimits_id: "limits_ok l \<Longrightarrow> normalizeLimits l = l"
  unfolding limits_ok_def
  by (simp add: normalizeLimits_def schedulerClasses_def laneLimit_def resource_class_defs
      clampLimit_id defaultedBytes_id)

subsection \<open>Budgets\<close>

definition safeDouble :: "int \<Rightarrow> int \<times> bool" where
  "safeDouble value = (if value > int64_max div 2 then (0, False) else (wrap64 (value * 2), True))"

definition minInt64 :: "int \<Rightarrow> int \<Rightarrow> int" where
  "minInt64 left right = (if left < right then left else right)"

definition classBudget :: "string \<Rightarrow> ResourceBudget" where
  "classBudget resourceClass =
     (if resourceClass = ResourceModel then
        \<lparr>bMemoryBytes = 512 * MiB, bDiskBytes = GiB, bTempBytes = 256 * MiB\<rparr>
      else if resourceClass = ResourceMaintenance then
        \<lparr>bMemoryBytes = 64 * MiB, bDiskBytes = 512 * MiB, bTempBytes = 128 * MiB\<rparr>
      else \<lparr>bMemoryBytes = 128 * MiB, bDiskBytes = 256 * MiB, bTempBytes = 64 * MiB\<rparr>)"

definition defaultResourceBudget :: "string \<Rightarrow> int option \<Rightarrow> ResourceBudget" where
  "defaultResourceBudget resourceClass totalBytes =
     (let budget = classBudget resourceClass in
      case totalBytes of None \<Rightarrow> budget
      | Some tb \<Rightarrow>
          if tb > 0 then
            (let (scaled, ok) = safeDouble tb;
                 budget1 = (if ok \<and> scaled > bDiskBytes budget
                            then budget\<lparr>bDiskBytes := minInt64 scaled GiB\<rparr> else budget)
             in if tb > bTempBytes budget1
                then budget1\<lparr>bTempBytes := minInt64 tb (512 * MiB)\<rparr> else budget1)
          else budget)"

datatype budget_error = NegativeBudget | BudgetExceeded ResourceBudget

definition resolveResourceBudget ::
  "ResourceLimits \<Rightarrow> string \<Rightarrow> int option \<Rightarrow> ResourceBudget \<Rightarrow> budget_error + ResourceBudget" where
  "resolveResourceBudget l class totalBytes req =
     (if bMemoryBytes req < 0 \<or> bDiskBytes req < 0 \<or> bTempBytes req < 0 then Inl NegativeBudget
      else
        let defaults = defaultResourceBudget class totalBytes;
            budget = \<lparr>bMemoryBytes = (if bMemoryBytes req \<le> 0 then bMemoryBytes defaults else bMemoryBytes req),
                      bDiskBytes = (if bDiskBytes req \<le> 0 then bDiskBytes defaults else bDiskBytes req),
                      bTempBytes = (if bTempBytes req \<le> 0 then bTempBytes defaults else bTempBytes req)\<rparr>
        in if bMemoryBytes budget > lMemoryBytes l \<or> bDiskBytes budget > lDiskBytes l
              \<or> bTempBytes budget > lTempBytes l
           then Inl (BudgetExceeded budget) else Inr budget)"

text \<open>A budget that fits the limits and reserves something in every pool.\<close>

definition budget_ok :: "ResourceLimits \<Rightarrow> ResourceBudget \<Rightarrow> bool" where
  "budget_ok l b \<longleftrightarrow> 0 < bMemoryBytes b \<and> bMemoryBytes b \<le> lMemoryBytes l
     \<and> 0 < bDiskBytes b \<and> bDiskBytes b \<le> lDiskBytes l
     \<and> 0 < bTempBytes b \<and> bTempBytes b \<le> lTempBytes l"

lemma safeDouble_exact:
  "0 \<le> v \<Longrightarrow> v \<le> int64_max \<Longrightarrow> safeDouble v = (w, True) \<Longrightarrow> w = 2 * v \<and> w \<le> int64_max"
  by (auto simp: safeDouble_def split: if_splits)

lemma classBudget_pos [limits]:
  "0 < bMemoryBytes (classBudget c)" "0 < bDiskBytes (classBudget c)" "0 < bTempBytes (classBudget c)"
  by (auto simp: classBudget_def)

lemma defaultResourceBudget_pos [limits]:
  "0 < bMemoryBytes (defaultResourceBudget c tb)"
  "0 < bDiskBytes (defaultResourceBudget c tb)"
  "0 < bTempBytes (defaultResourceBudget c tb)"
  using classBudget_pos [of c]
  by (auto simp: defaultResourceBudget_def Let_def minInt64_def split: option.splits prod.splits)

lemma resolveResourceBudget_ok:
  "resolveResourceBudget l c tb req = Inr b \<Longrightarrow> budget_ok l b"
  using defaultResourceBudget_pos [of c tb]
  by (auto simp: resolveResourceBudget_def budget_ok_def Let_def split: if_splits)

subsection \<open>Priorities\<close>

abbreviation priorityAgingMS :: int where "priorityAgingMS \<equiv> 1000"

definition effectivePriority :: "int \<Rightarrow> int \<Rightarrow> int \<Rightarrow> int" where
  "effectivePriority priority requestedAt at =
     (if at \<le> requestedAt then priority else priority + (at - requestedAt) div priorityAgingMS)"

fun has_prefix :: "string \<Rightarrow> string \<Rightarrow> bool" where
  "has_prefix s [] = True"
| "has_prefix [] (p # ps) = False"
| "has_prefix (c # s) (p # ps) = (c = p \<and> has_prefix s ps)"

definition schedulingPriority :: "string \<Rightarrow> int \<Rightarrow> int" where
  "schedulingPriority operationType priority =
     (if has_prefix operationType ''delete_'' then (if priority < 100 then 100 else priority)
      else if has_prefix operationType ''maintenance_'' then
        (if priority > -100 then -100 else priority)
      else priority)"

subsection \<open>The scheduler\<close>

type_synonym reservation = "string \<times> ResourceBudget"

record scheduler =
  sLimits :: ResourceLimits
  sBase :: "string \<rightharpoonup> int"
  sActive :: "string \<rightharpoonup> int"
  sMemoryBytes :: int
  sDiskBytes :: int
  sTempBytes :: int

definition newScheduler :: "ResourceLimits \<Rightarrow> scheduler" where
  "newScheduler l = \<lparr>sLimits = normalizeLimits l, sBase = Map.empty, sActive = Map.empty,
     sMemoryBytes = 0, sDiskBytes = 0, sTempBytes = 0\<rparr>"

definition reserve :: "string \<Rightarrow> ResourceBudget \<Rightarrow> scheduler \<Rightarrow> scheduler \<times> bool" where
  "reserve baseID budget s =
     (if baseID \<noteq> [] \<and> getc (sBase s) baseID \<ge> lMaxPerBase (sLimits s) then (s, False)
      else if sMemoryBytes s + bMemoryBytes budget > lMemoryBytes (sLimits s)
           \<or> sDiskBytes s + bDiskBytes budget > lDiskBytes (sLimits s)
           \<or> sTempBytes s + bTempBytes budget > lTempBytes (sLimits s) then (s, False)
      else (s\<lparr>sBase := (if baseID \<noteq> [] then (sBase s)(baseID \<mapsto> getc (sBase s) baseID + 1) else sBase s),
              sMemoryBytes := sMemoryBytes s + bMemoryBytes budget,
              sDiskBytes := sDiskBytes s + bDiskBytes budget,
              sTempBytes := sTempBytes s + bTempBytes budget\<rparr>, True))"

definition nonneg :: "int \<Rightarrow> int" where
  "nonneg v = (if v < 0 then 0 else v)"

definition release :: "string \<Rightarrow> ResourceBudget \<Rightarrow> scheduler \<Rightarrow> scheduler" where
  "release baseID budget s =
     s\<lparr>sBase := (if baseID = [] then sBase s
                 else if getc (sBase s) baseID > 1 then (sBase s)(baseID \<mapsto> getc (sBase s) baseID - 1)
                 else (sBase s)(baseID := None)),
       sMemoryBytes := nonneg (sMemoryBytes s - bMemoryBytes budget),
       sDiskBytes := nonneg (sDiskBytes s - bDiskBytes budget),
       sTempBytes := nonneg (sTempBytes s - bTempBytes budget)\<rparr>"

definition beginRun :: "string \<Rightarrow> scheduler \<Rightarrow> scheduler" where
  "beginRun class s = s\<lparr>sActive := (sActive s)(class \<mapsto> getc (sActive s) class + 1)\<rparr>"

definition endRun :: "string \<Rightarrow> scheduler \<Rightarrow> scheduler" where
  "endRun class s = s\<lparr>sActive := (if getc (sActive s) class > 1
       then (sActive s)(class \<mapsto> getc (sActive s) class - 1) else (sActive s)(class := None))\<rparr>"

record LaneSnapshot =
  laneLim :: int
  laneActive :: int
  laneQueued :: int

record SchedulerSnapshot =
  snLimits :: ResourceLimits
  snLanes :: "(string \<times> LaneSnapshot) list"
  snActiveBases :: "string \<rightharpoonup> int"
  snActiveTotal :: int
  snQueuedTotal :: int
  snReserved :: ResourceBudget

definition snapshot :: "(string \<rightharpoonup> int) \<Rightarrow> scheduler \<Rightarrow> SchedulerSnapshot" where
  "snapshot queued s = \<lparr>snLimits = sLimits s,
     snLanes = map (\<lambda>class. (class, \<lparr>laneLim = laneLimit (sLimits s) class,
                 laneActive = getc (sActive s) class, laneQueued = getc queued class\<rparr>)) schedulerClasses,
     snActiveBases = sBase s,
     snActiveTotal = sum_list (map (getc (sActive s)) schedulerClasses),
     snQueuedTotal = sum_list (map (getc queued) schedulerClasses),
     snReserved = \<lparr>bMemoryBytes = sMemoryBytes s, bDiskBytes = sDiskBytes s, bTempBytes = sTempBytes s\<rparr>\<rparr>"

text \<open>
  The abstract scheduler is the multiset of reservations handed out. The concrete counters
  represent it: each byte pool is the sum over the multiset and stays within its limit, and each
  base's counter is the number of its reservations.
\<close>

definition pool :: "(ResourceBudget \<Rightarrow> int) \<Rightarrow> reservation multiset \<Rightarrow> int" where
  "pool f R = sum_mset (image_mset (\<lambda>r. f (snd r)) R)"

definition base_count :: "reservation multiset \<Rightarrow> string \<Rightarrow> int" where
  "base_count R b = (if b = [] then 0 else int (size (filter_mset (\<lambda>r. fst r = b) R)))"

definition proper_budget :: "ResourceBudget \<Rightarrow> bool" where
  "proper_budget b \<longleftrightarrow> 0 \<le> bMemoryBytes b \<and> 0 \<le> bDiskBytes b \<and> 0 \<le> bTempBytes b"

definition sched_holds :: "scheduler \<Rightarrow> reservation multiset \<Rightarrow> bool" where
  "sched_holds s R \<longleftrightarrow>
     sMemoryBytes s = pool bMemoryBytes R \<and> sMemoryBytes s \<le> lMemoryBytes (sLimits s)
     \<and> sDiskBytes s = pool bDiskBytes R \<and> sDiskBytes s \<le> lDiskBytes (sLimits s)
     \<and> sTempBytes s = pool bTempBytes R \<and> sTempBytes s \<le> lTempBytes (sLimits s)
     \<and> (\<forall>b. getc (sBase s) b = base_count R b \<and> base_count R b \<le> lMaxPerBase (sLimits s))
     \<and> limits_ok (sLimits s) \<and> (\<forall>r \<in># R. proper_budget (snd r))"

lemma pool_simps [simp]:
  "pool f {#} = 0" "pool f (add_mset r R) = f (snd r) + pool f R"
  by (simp_all add: pool_def)

lemma base_count_simps [simp]:
  "base_count {#} b = 0"
  "base_count (add_mset r R) b = (if b \<noteq> [] \<and> fst r = b then 1 else 0) + base_count R b"
  by (simp_all add: base_count_def)

lemma base_count_nonneg: "0 \<le> base_count R b"
  by (simp add: base_count_def)

lemma pool_nonneg: "\<forall>r \<in># R. 0 \<le> f (snd r) \<Longrightarrow> 0 \<le> pool f R"
  by (induction R) auto

lemma sched_holds_pools:
  "sched_holds s R \<Longrightarrow> 0 \<le> pool bMemoryBytes R \<and> 0 \<le> pool bDiskBytes R \<and> 0 \<le> pool bTempBytes R"
  by (auto simp: sched_holds_def proper_budget_def intro!: pool_nonneg)

lemma sched_holds_new: "sched_holds (newScheduler l) {#}"
  using normalizeLimits_ok [of l] by (simp add: sched_holds_def newScheduler_def limits_ok_def)

definition reserve_r :: "reservation \<Rightarrow> scheduler \<Rightarrow> scheduler \<times> bool" where
  "reserve_r r = reserve (fst r) (snd r)"

definition release_r :: "reservation \<Rightarrow> scheduler \<Rightarrow> scheduler" where
  "release_r r = release (fst r) (snd r)"

lemma reserve_holds:
  assumes "sched_holds s R" "proper_budget b" "reserve base b s = (s', True)"
  shows "sched_holds s' (add_mset (base, b) R)"
  using assms unfolding reserve_def sched_holds_def
  by (auto split: if_splits)

lemma reserve_refuses: "reserve base b s = (s', False) \<Longrightarrow> s' = s"
  by (auto simp: reserve_def split: if_splits)

lemma release_holds:
  assumes h: "sched_holds s (add_mset (base, b) R)"
  shows "sched_holds (release base b s) R"
proof -
  have R: "\<forall>r \<in># R. proper_budget (snd r)" and b: "proper_budget b"
    using h by (auto simp: sched_holds_def)
  then have pools: "0 \<le> pool bMemoryBytes R" "0 \<le> pool bDiskBytes R" "0 \<le> pool bTempBytes R"
    by (auto simp: proper_budget_def intro!: pool_nonneg)
  have base: "getc (sBase (release base b s)) c = base_count R c" for c
    using h base_count_nonneg [of R c] by (auto simp: sched_holds_def release_def)
  have le: "base_count R c \<le> base_count (add_mset (base, b) R) c" for c
    by simp
  have lim: "base_count R c \<le> lMaxPerBase (sLimits s)" for c
    using h le [of c] by (meson order_trans sched_holds_def)
  from h pools b R base lim show ?thesis
    by (auto simp: sched_holds_def proper_budget_def release_def nonneg_def)
qed

text \<open>The scheduler provides the admission contract.\<close>

interpretation sched: admission reserve_r release_r sched_holds "\<lambda>r. proper_budget (snd r)"
proof unfold_locales
  fix s R r s'
  assume "sched_holds s R" "proper_budget (snd r)" "reserve_r r s = (s', True)"
  then show "sched_holds s' (add_mset r R)"
    using reserve_holds [of s R "snd r" "fst r" s'] by (simp add: reserve_r_def)
next
  fix r s s'
  assume "reserve_r r s = (s', False)"
  then show "s' = s" by (auto simp: reserve_r_def dest: reserve_refuses)
next
  fix s r R
  assume "sched_holds s (add_mset r R)"
  then show "sched_holds (release_r r s) R"
    using release_holds [of s "fst r" "snd r" R] by (simp add: release_r_def)
qed

lemma beginRun_endRun:
  "getc (sActive s) c \<ge> 0 \<Longrightarrow> getc (sActive (endRun c (beginRun c s))) c' = getc (sActive s) c'"
  by (auto simp: beginRun_def endRun_def)

lemma runs_keep_holds [simp]:
  "sched_holds (beginRun c s) R = sched_holds s R" "sched_holds (endRun c s) R = sched_holds s R"
  by (simp_all add: sched_holds_def beginRun_def endRun_def)

end
