(* ===== verification/GoText.thy ===== *)
theory GoText
  imports Prelude "HOL-Library.Sublist"
begin

text \<open>
  Go strings are byte sequences; here they are HOL strings, whose characters are bytes. This
  theory models the parts of \<open>strings\<close>, \<open>unicode\<close> and \<open>utf8\<close> that the verified packages
  call: prefix tests, first and last index, splitting and joining, trimming, and the rune
  decoding of a range loop.
\<close>

subsection \<open>Search\<close>

definition hasPrefix :: "string \<Rightarrow> string \<Rightarrow> bool" where
  "hasPrefix s p = (take (length p) s = p)"

lemma hasPrefix_append: "hasPrefix s p \<longleftrightarrow> (\<exists>t. s = p @ t)"
  unfolding hasPrefix_def by (metis append_eq_conv_conj append_take_drop_id)

lemma hasPrefix_length: "hasPrefix s p \<Longrightarrow> length p \<le> length s"
  by (auto simp: hasPrefix_append)

lemma take_eq_length: "take n xs = p \<Longrightarrow> length p = n \<Longrightarrow> n \<le> length xs"
  by (metis length_take min.cobounded1)

text \<open>\<open>strings.Index\<close>: the first position, or None for -1.\<close>

fun indexOf :: "string \<Rightarrow> string \<Rightarrow> nat option" where
  "indexOf [] p = (if p = [] then Some 0 else None)"
| "indexOf (c # s) p = (if hasPrefix (c # s) p then Some 0 else map_option Suc (indexOf s p))"

text \<open>\<open>strings.LastIndex\<close>: the last position at which the separator starts.\<close>

fun lastIndexOf :: "string \<Rightarrow> string \<Rightarrow> nat option" where
  "lastIndexOf [] p = (if p = [] then Some 0 else None)"
| "lastIndexOf (c # s) p = (case lastIndexOf s p of Some i \<Rightarrow> Some (Suc i)
     | None \<Rightarrow> if hasPrefix (c # s) p then Some 0 else None)"

definition contains :: "string \<Rightarrow> string \<Rightarrow> bool" where
  "contains s p = (indexOf s p \<noteq> None)"

lemma indexOf_Some: "indexOf s p = Some i \<Longrightarrow> i + length p \<le> length s \<and> take (length p) (drop i s) = p"
  by (induction s arbitrary: i) (auto simp: hasPrefix_def split: if_splits dest: take_eq_length)

lemma lastIndexOf_Some: "lastIndexOf s p = Some i \<Longrightarrow> i + length p \<le> length s \<and> take (length p) (drop i s) = p"
  by (induction s arbitrary: i)
    (auto simp: hasPrefix_def split: if_splits option.splits dest: take_eq_length)

subsection \<open>Splitting and joining\<close>

text \<open>\<open>strings.Split(s, sep)\<close> for a non-empty separator.\<close>

function splitOn :: "string \<Rightarrow> string \<Rightarrow> string list" where
  "splitOn s sep = (if sep = [] then [s] else
     (case indexOf s sep of None \<Rightarrow> [s]
      | Some i \<Rightarrow> take i s # splitOn (drop (i + length sep) s) sep))"
  by pat_completeness auto
termination
proof (relation "measure (\<lambda>(s, sep). length s)")
  fix s sep :: string and i
  assume "sep \<noteq> []" "indexOf s sep = Some i"
  then show "((drop (i + length sep) s, sep), (s, sep)) \<in> measure (\<lambda>(s, sep). length s)"
    using indexOf_Some [of s sep i] by (cases sep) auto
qed simp

declare splitOn.simps [simp del]

fun joinWith :: "string \<Rightarrow> string list \<Rightarrow> string" where
  "joinWith sep [] = []"
| "joinWith sep [x] = x"
| "joinWith sep (x # y # ys) = x @ sep @ joinWith sep (y # ys)"

lemma splitOn_nonempty: "splitOn s sep \<noteq> []"
  by (subst splitOn.simps) (auto split: option.splits)

lemma joinWith_Cons: "ys \<noteq> [] \<Longrightarrow> joinWith sep (x # ys) = x @ sep @ joinWith sep ys"
  by (cases ys) auto

lemma joinWith_splitOn: "joinWith sep (splitOn s sep) = s"
proof (induction s sep rule: splitOn.induct)
  case (1 s sep)
  show ?case
  proof (cases "sep = [] \<or> indexOf s sep = None")
    case True
    then show ?thesis by (subst splitOn.simps) auto
  next
    case False
    then obtain i where i: "indexOf s sep = Some i" and ne: "sep \<noteq> []" by auto
    let ?rest = "drop (i + length sep) s"
    have "joinWith sep (splitOn s sep) = take i s @ sep @ joinWith sep (splitOn ?rest sep)"
      using i ne by (subst splitOn.simps) (simp add: joinWith_Cons splitOn_nonempty)
    also have "\<dots> = take i s @ take (length sep) (drop i s) @ drop (length sep) (drop i s)"
      using "1.IH" [OF ne i] indexOf_Some [OF i] by (simp add: add.commute)
    also have "\<dots> = s" by (simp del: drop_drop)
    finally show ?thesis .
  qed
qed

subsection \<open>Trimming\<close>

text \<open>
  \<open>unicode.IsSpace\<close> holds for the six ASCII spaces and the code points whose UTF-8 encodings are
  listed; a string starts (ends) with such a rune exactly when it starts (ends) with its bytes.
\<close>

definition spaceEncodings :: "string list" where
  "spaceEncodings = [[CHR '' ''], [CHR 0x09], [CHR 0x0A], [CHR 0x0B], [CHR 0x0C], [CHR 0x0D],
     [CHR 0xC2, CHR 0x85], [CHR 0xC2, CHR 0xA0], [CHR 0xE1, CHR 0x9A, CHR 0x80],
     [CHR 0xE2, CHR 0x80, CHR 0x80], [CHR 0xE2, CHR 0x80, CHR 0x81], [CHR 0xE2, CHR 0x80, CHR 0x82],
     [CHR 0xE2, CHR 0x80, CHR 0x83], [CHR 0xE2, CHR 0x80, CHR 0x84], [CHR 0xE2, CHR 0x80, CHR 0x85],
     [CHR 0xE2, CHR 0x80, CHR 0x86], [CHR 0xE2, CHR 0x80, CHR 0x87], [CHR 0xE2, CHR 0x80, CHR 0x88],
     [CHR 0xE2, CHR 0x80, CHR 0x89], [CHR 0xE2, CHR 0x80, CHR 0x8A], [CHR 0xE2, CHR 0x80, CHR 0xA8],
     [CHR 0xE2, CHR 0x80, CHR 0xA9], [CHR 0xE2, CHR 0x80, CHR 0xAF], [CHR 0xE2, CHR 0x81, CHR 0x9F],
     [CHR 0xE3, CHR 0x80, CHR 0x80]]"

lemma spaceEncodings_nonempty: "e \<in> set spaceEncodings \<Longrightarrow> e \<noteq> []"
  by (auto simp: spaceEncodings_def)

definition leading :: "string list \<Rightarrow> string \<Rightarrow> string option" where
  "leading encs s = find (\<lambda>e. e \<noteq> [] \<and> hasPrefix s e) encs"

lemma leading_Some: "leading encs s = Some e \<Longrightarrow> e \<in> set encs \<and> e \<noteq> [] \<and> (\<exists>t. s = e @ t)"
  by (auto simp: leading_def hasPrefix_append dest: find_Some_mem)

function stripLeading :: "string list \<Rightarrow> string \<Rightarrow> string" where
  "stripLeading encs s = (case leading encs s of None \<Rightarrow> s
     | Some e \<Rightarrow> stripLeading encs (drop (length e) s))"
  by pat_completeness auto
termination
  by (relation "measure (\<lambda>(encs, s). length s)") (auto dest!: leading_Some)

declare stripLeading.simps [simp del]

definition trimLeft :: "string list \<Rightarrow> string \<Rightarrow> string" where
  "trimLeft encs s = stripLeading encs s"

definition trimRight :: "string list \<Rightarrow> string \<Rightarrow> string" where
  "trimRight encs s = rev (stripLeading (map rev encs) (rev s))"

definition trimSpace :: "string \<Rightarrow> string" where
  "trimSpace s = trimRight spaceEncodings (trimLeft spaceEncodings s)"

text \<open>\<open>blankText\<close>: text made of space runes only.\<close>

definition blankText :: "string \<Rightarrow> bool" where
  "blankText s \<longleftrightarrow> (\<exists>es. set es \<subseteq> set spaceEncodings \<and> s = concat es)"

lemma blankText_simps [trim]: "blankText []" "blankText a \<Longrightarrow> blankText b \<Longrightarrow> blankText (a @ b)"
proof -
  show "blankText []" unfolding blankText_def by (rule exI [of _ "[]"]) simp
  show "blankText (a @ b)" if "blankText a" "blankText b"
  proof -
    from that obtain xs ys where "set xs \<subseteq> set spaceEncodings" "a = concat xs"
      "set ys \<subseteq> set spaceEncodings" "b = concat ys"
      unfolding blankText_def by blast
    then show ?thesis unfolding blankText_def by (intro exI [of _ "xs @ ys"]) simp
  qed
qed

lemma stripLeading_split: "\<exists>es. set es \<subseteq> set encs \<and> s = concat es @ stripLeading encs s"
proof (induction encs s rule: stripLeading.induct)
  case (1 encs s)
  show ?case
  proof (cases "leading encs s")
    case None
    then show ?thesis by (intro exI [of _ "[]"]) (simp add: stripLeading.simps [of encs s])
  next
    case (Some e)
    with "1.IH" obtain es where es: "set es \<subseteq> set encs"
      "drop (length e) s = concat es @ stripLeading encs (drop (length e) s)" by blast
    from leading_Some [OF Some] obtain t where t: "e \<in> set encs" "s = e @ t" by blast
    have "stripLeading encs s = stripLeading encs (drop (length e) s)"
      using Some by (simp add: stripLeading.simps [of encs s])
    then have "stripLeading encs s = stripLeading encs t"
      using t by simp
    then have "s = concat (e # es) @ stripLeading encs s"
      using es t by simp
    with es t show ?thesis by (intro exI [of _ "e # es"]) simp
  qed
qed

lemma trimSpace_split: "\<exists>a b. s = a @ trimSpace s @ b \<and> blankText a \<and> blankText b"
proof -
  obtain es where es: "set es \<subseteq> set spaceEncodings" "s = concat es @ trimLeft spaceEncodings s"
    using stripLeading_split [of spaceEncodings s] by (auto simp: trimLeft_def)
  let ?m = "trimLeft spaceEncodings s"
  obtain fs where fs: "set fs \<subseteq> set (map rev spaceEncodings)"
     "rev ?m = concat fs @ stripLeading (map rev spaceEncodings) (rev ?m)"
    using stripLeading_split by blast
  have "?m = trimSpace s @ concat (rev (map rev fs))"
    using arg_cong [OF fs(2), of rev] by (simp add: trimSpace_def trimRight_def rev_concat rev_map)
  moreover have "blankText (concat (rev (map rev fs)))"
    unfolding blankText_def using fs(1) by (intro exI [of _ "rev (map rev fs)"]) auto
  moreover have "blankText (concat es)"
    unfolding blankText_def using es(1) by blast
  ultimately show ?thesis using es(2) by metis
qed

lemma trimSpace_length [trim]: "length (trimSpace s) \<le> length s"
proof -
  obtain a b where "s = a @ trimSpace s @ b" using trimSpace_split by blast
  then have "length s = length a + length (trimSpace s) + length b"
    by (metis add.assoc length_append)
  then show ?thesis by simp
qed

lemma trimSpace_Nil [simp]: "trimSpace [] = []"
  using trimSpace_length [of "[]"] by simp

lemma stripLeading_done: "leading encs (stripLeading encs s) = None"
proof (induction encs s rule: stripLeading.induct)
  case (1 encs s)
  then show ?case by (cases "leading encs s") (simp_all add: stripLeading.simps [of encs s])
qed

lemma stripLeading_id: "leading encs s = None \<Longrightarrow> stripLeading encs s = s"
  by (simp add: stripLeading.simps [of encs s])

lemma leading_prefix: "leading encs (s @ t) = None \<Longrightarrow> leading encs s = None"
  by (auto simp: leading_def find_None_iff hasPrefix_append)

lemma trimSpace_idem [simp]: "trimSpace (trimSpace s) = trimSpace s"
proof -
  let ?m = "trimLeft spaceEncodings s" and ?r = "map rev spaceEncodings"
  have t: "trimSpace s = rev (stripLeading ?r (rev ?m))" by (simp add: trimSpace_def trimRight_def)
  obtain fs where "rev ?m = concat fs @ stripLeading ?r (rev ?m)" using stripLeading_split [of ?r "rev ?m"] by blast
  then have "?m = trimSpace s @ rev (concat fs)" unfolding t by (metis rev_append rev_rev_ident)
  then have "leading spaceEncodings (trimSpace s) = None"
    using stripLeading_done [of spaceEncodings s] leading_prefix unfolding trimLeft_def by metis
  moreover have "leading ?r (rev (trimSpace s)) = None" unfolding t using stripLeading_done by simp
  ultimately show ?thesis by (simp add: trimSpace_def [of "trimSpace s"] trimLeft_def trimRight_def stripLeading_id)
qed

subsection \<open>Runes\<close>

text \<open>
  \<open>utf8.DecodeRuneInString\<close>: the code point and width of the first rune; an invalid or truncated
  sequence is U+FFFD of width 1, as in the loop \<open>for _, r := range s\<close>.
\<close>

definition byteOf :: "char \<Rightarrow> nat" where
  "byteOf c = of_char c"

definition contByte :: "nat \<Rightarrow> bool" where
  "contByte b = (128 \<le> b \<and> b \<le> 191)"

definition decodeRune :: "string \<Rightarrow> nat \<times> nat" where
  "decodeRune s = (case map byteOf s of [] \<Rightarrow> (65533, 0)
     | b0 # bs \<Rightarrow>
       if b0 < 128 then (b0, 1)
       else if 194 \<le> b0 \<and> b0 \<le> 223 then
         (case bs of b1 # _ \<Rightarrow> if contByte b1 then ((b0 - 192) * 64 + (b1 - 128), 2) else (65533, 1)
          | _ \<Rightarrow> (65533, 1))
       else if 224 \<le> b0 \<and> b0 \<le> 239 then
         (case bs of b1 # b2 # _ \<Rightarrow>
            if (if b0 = 224 then 160 else 128) \<le> b1 \<and> b1 \<le> (if b0 = 237 then 159 else 191) \<and> contByte b2
            then ((b0 - 224) * 4096 + (b1 - 128) * 64 + (b2 - 128), 3) else (65533, 1)
          | _ \<Rightarrow> (65533, 1))
       else if 240 \<le> b0 \<and> b0 \<le> 244 then
         (case bs of b1 # b2 # b3 # _ \<Rightarrow>
            if (if b0 = 240 then 144 else 128) \<le> b1 \<and> b1 \<le> (if b0 = 244 then 143 else 191)
               \<and> contByte b2 \<and> contByte b3
            then ((b0 - 240) * 262144 + (b1 - 128) * 4096 + (b2 - 128) * 64 + (b3 - 128), 4)
            else (65533, 1)
          | _ \<Rightarrow> (65533, 1))
       else (65533, 1))"

lemma decodeRune_width: "s \<noteq> [] \<Longrightarrow> 1 \<le> snd (decodeRune s) \<and> snd (decodeRune s) \<le> length s"
proof -
  assume "s \<noteq> []"
  then consider (one) a where "s = [a]" | (two) a b where "s = [a, b]" | (three) a b c where "s = [a, b, c]"
    | (more) a b c d t where "s = a # b # c # d # t"
    by (metis list.exhaust)
  then show ?thesis by cases (simp_all add: decodeRune_def)
qed

text \<open>The rune slices of a string: \<open>[]rune(s)\<close> with the bytes of each rune.\<close>

function runeSlices :: "string \<Rightarrow> string list" where
  "runeSlices s = (if s = [] then [] else
     take (snd (decodeRune s)) s # runeSlices (drop (snd (decodeRune s)) s))"
  by pat_completeness auto
termination
  by (relation "measure length") (auto dest: decodeRune_width)

declare runeSlices.simps [simp del]

lemma runeSlices_Nil [simp]: "runeSlices [] = []"
  by (simp add: runeSlices.simps)

lemma concat_runeSlices [simp]: "concat (runeSlices s) = s"
  by (induction s rule: runeSlices.induct) (subst runeSlices.simps, simp)

lemma runeSlices_length: "length (runeSlices s) \<le> length s"
proof (induction s rule: runeSlices.induct)
  case (1 s)
  show ?case
  proof (cases "s = []")
    case False
    with 1 decodeRune_width [OF False] show ?thesis
      by (subst runeSlices.simps) auto
  qed simp
qed

lemma runeSlices_eq_Nil [simp]: "runeSlices s = [] \<longleftrightarrow> s = []"
  by (subst runeSlices.simps) simp

definition runes :: "string \<Rightarrow> nat list" where
  "runes s = map (\<lambda>e. fst (decodeRune e)) (runeSlices s)"

text \<open>The text of a rune as \<open>string([]rune(s))\<close> writes it back: a byte that is no UTF-8 becomes U+FFFD.\<close>

definition runeText :: "string \<Rightarrow> string" where
  "runeText s = (if decodeRune s = (0xFFFD, 1) then [CHR 0xEF, CHR 0xBF, CHR 0xBD] else s)"

lemma runeText_code [code]:
  "runeText s = (case s of [] \<Rightarrow> [] | c # _ \<Rightarrow> if byteOf c < 128 then s
     else if decodeRune s = (0xFFFD, 1) then [CHR 0xEF, CHR 0xBF, CHR 0xBD] else s)"
  by (auto simp: runeText_def decodeRune_def split: list.split)

subsection \<open>Runs and fields\<close>

text \<open>The maximal runs of elements of a class: \<open>FindAllString\<close> of a pattern \<open>[...]+\<close>.\<close>

function runsOf :: "('a \<Rightarrow> bool) \<Rightarrow> 'a list \<Rightarrow> 'a list list" where
  "runsOf P xs = (case dropWhile (\<lambda>x. \<not> P x) xs of [] \<Rightarrow> []
     | y # ys \<Rightarrow> (y # takeWhile P ys) # runsOf P (dropWhile P ys))"
  by pat_completeness auto
termination
proof (relation "measure (\<lambda>(P, xs). length xs)")
  fix P :: "'a \<Rightarrow> bool" and xs y ys
  assume d: "dropWhile (\<lambda>x. \<not> P x) xs = y # ys"
  have "length (dropWhile P ys) \<le> length ys" by (rule length_dropWhile_le)
  moreover have "length (y # ys) \<le> length xs" using length_dropWhile_le [of "\<lambda>x. \<not> P x" xs] by (simp add: d)
  ultimately show "((P, dropWhile P ys), (P, xs)) \<in> measure (\<lambda>(P, xs). length xs)" by simp
qed simp

declare runsOf.simps [simp del]

text \<open>\<open>strings.Fields\<close>: the runs of runes that are not spaces.\<close>

definition fieldsOf :: "string \<Rightarrow> string list" where
  "fieldsOf s = map concat (runsOf (\<lambda>e. e \<notin> set spaceEncodings) (runeSlices s))"

text \<open>\<open>strings.ReplaceAll\<close> for a non-empty old string.\<close>

definition replaceAll :: "string \<Rightarrow> string \<Rightarrow> string \<Rightarrow> string" where
  "replaceAll s old new = joinWith new (splitOn s old)"

subsection \<open>Decimal numbers\<close>

text \<open>\<open>strconv.FormatInt(v, 10)\<close>.\<close>

definition digitChar :: "nat \<Rightarrow> char" where
  "digitChar d = char_of (48 + d)"

fun natDigits :: "nat \<Rightarrow> string" where
  "natDigits n = (if n < 10 then [digitChar n] else natDigits (n div 10) @ [digitChar (n mod 10)])"

declare natDigits.simps [simp del]

definition formatInt :: "int \<Rightarrow> string" where
  "formatInt v = (if v < 0 then CHR ''-'' # natDigits (nat (- v)) else natDigits (nat v))"

end
