(* ===== verification/OpRows.thy ===== *)
theory OpRows
  imports Tables OpScheduler GoText
begin

text \<open>
  The durable tables of \<open>internal/operations\<close>: the rows of \<open>operations\<close> (columns of
  \<open>operationColumns\<close> and of the claim, with the command envelope that an accepted row never
  changes kept as one record), the event log and the upload sessions. Times are milliseconds,
  passed in by the operations where the code calls \<open>now()\<close>; nullable columns are options.
\<close>

datatype OpState = Queued | Running | Succeeded | Failed | Cancelled | Cancelling | Interrupted

definition terminal :: "OpState \<Rightarrow> bool" where
  "terminal s = (case s of Succeeded \<Rightarrow> True | Failed \<Rightarrow> True | Cancelled \<Rightarrow> True | _ \<Rightarrow> False)"

abbreviation DefaultMaxAttempts :: int where "DefaultMaxAttempts \<equiv> 3"
abbreviation CommandSchemaV1 :: int where "CommandSchemaV1 \<equiv> 1"

text \<open>Columns written once, when the command is accepted.\<close>

record Envelope =
  eType :: string
  eSchema :: int
  eFingerprint :: string
  eIdempotencyKey :: "string option"
  eBaseID :: "string option"
  eDocumentID :: "string option"
  eParentOperationID :: "string option"
  ePrincipalRef :: "string option"
  eScopeRef :: "string option"
  eInputRef :: "string option"
  eInputSHA256 :: "string option"
  eSourceVersion :: "string option"
  eConfigSnapshotRef :: "string option"
  eModelSnapshotRef :: "string option"
  eExpectedTargetEpoch :: "int option"
  eExpectedAncestorEpoch :: "int option"
  eAllocatedDocumentID :: "string option"
  eAllocatedGeneration :: "int option"
  eResourceClass :: string
  ePriority :: int
  eBudget :: ResourceBudget
  eRequestedAt :: int

record OpRow =
  oID :: string
  oEnv :: Envelope
  oPayload :: string
  oState :: OpState
  oRevision :: int
  oPhase :: "string option"
  oAttempt :: int
  oInstance :: "string option"
  oCancelRequested :: bool
  oRetryable :: bool
  oCompletedUnits :: int
  oTotalUnits :: "int option"
  oCompletedBytes :: int
  oTotalBytes :: "int option"
  oErrorCode :: "string option"
  oErrorMessage :: "string option"
  oResult :: "string option"
  oStartedAt :: "int option"
  oFinishedAt :: "int option"
  oUpdatedAt :: int
  oIdempotencyExpiresAt :: "int option"
  oNextAttemptAt :: "int option"
  oRecoveryBasis :: "string option"
  oResultExpiresAt :: "int option"
  oRetainedUntil :: "int option"

text \<open>Event payloads, one constructor per call of \<open>insertEvent\<close>.\<close>

datatype EventPayload =
    EvSubmitted string
  | EvClaimed string
  | EvPhase string int "int option" int "int option"
  | EvFinished OpState string
  | EvRetryQueued int "string option"
  | EvCancelRequested

record OpEvent =
  evOperation :: string
  evRevision :: int
  evKind :: string
  evPayload :: EventPayload
  evCreatedAt :: int

datatype UploadState = Uploading | Complete | Bound | Released | Expired

record Upload =
  uID :: string
  uBaseID :: string
  uParentDirectoryID :: "string option"
  uFileName :: string
  uState :: UploadState
  uExpectedSize :: "int option"
  uExpectedSHA256 :: "string option"
  uSizeBytes :: int
  uSHA256 :: "string option"
  uOperationID :: "string option"
  uCreatedAt :: int
  uUpdatedAt :: int
  uExpiresAt :: int

record OpDB =
  dbOps :: "OpRow list"
  dbEvents :: "OpEvent list"
  dbUploads :: "Upload list"

abbreviation op_row :: "OpDB \<Rightarrow> string \<Rightarrow> OpRow option" where
  "op_row db \<equiv> sel_by oID (dbOps db)"

abbreviation upload_row :: "OpDB \<Rightarrow> string \<Rightarrow> Upload option" where
  "upload_row db \<equiv> sel_by uID (dbUploads db)"

definition upd_op :: "string \<Rightarrow> (OpRow \<Rightarrow> bool) \<Rightarrow> (OpRow \<Rightarrow> OpRow) \<Rightarrow> OpDB \<Rightarrow> OpDB" where
  "upd_op oid g f db = db\<lparr>dbOps := upd_by oID oid g f (dbOps db)\<rparr>"

definition upd_upload :: "string \<Rightarrow> (Upload \<Rightarrow> bool) \<Rightarrow> (Upload \<Rightarrow> Upload) \<Rightarrow> OpDB \<Rightarrow> OpDB" where
  "upd_upload oid g f db = db\<lparr>dbUploads := upd_by uID oid g f (dbUploads db)\<rparr>"

definition insertEvent :: "string \<Rightarrow> int \<Rightarrow> string \<Rightarrow> EventPayload \<Rightarrow> int \<Rightarrow> OpDB \<Rightarrow> OpDB" where
  "insertEvent oid revision kind payload t db = db\<lparr>dbEvents := dbEvents db @
     [\<lparr>evOperation = oid, evRevision = revision, evKind = kind, evPayload = payload, evCreatedAt = t\<rparr>]\<rparr>"

interpretation ops: row_store "sel_by oID" "upd_by oID" ins_by oID "uniq_by oID"
  by (rule row_store_by)

interpretation ups: row_store "sel_by uID" "upd_by uID" ins_by uID "uniq_by uID"
  by (rule row_store_by)

lemma upd_op_simps [simp]:
  "dbOps (upd_op oid g f db) = upd_by oID oid g f (dbOps db)"
  "dbEvents (upd_op oid g f db) = dbEvents db"
  "dbUploads (upd_op oid g f db) = dbUploads db"
  "dbOps (upd_upload oid g' f' db) = dbOps db"
  "dbEvents (upd_upload oid g' f' db) = dbEvents db"
  "dbUploads (upd_upload oid g' f' db) = upd_by uID oid g' f' (dbUploads db)"
  by (simp_all add: upd_op_def upd_upload_def)

lemma insertEvent_simps [simp]:
  "dbOps (insertEvent oid rv k p t db) = dbOps db"
  "dbUploads (insertEvent oid rv k p t db) = dbUploads db"
  by (simp_all add: insertEvent_def)

text \<open>\<open>nullString\<close> stores blank text as NULL.\<close>

definition nullString :: "string \<Rightarrow> string option" where
  "nullString v = (if trimSpace v = [] then None else Some v)"

text \<open>\<open>sql.NullString.String\<close> reads NULL back as the empty string.\<close>

definition strOf :: "string option \<Rightarrow> string" where
  "strOf v = (case v of None \<Rightarrow> [] | Some s \<Rightarrow> s)"

end
