(* ===== verification/OpLifecycle.thy ===== *)
theory OpLifecycle
  imports OpRows "HOL-Library.Char_ord" "HOL-Library.List_Lexorder" "HOL-Library.Product_Lexorder"
begin

text \<open>
  The transitions of a durable operation (\<open>internal/operations/service.go\<close>, \<open>query.go\<close>): claim,
  progress report, finish with its automatic retry, cancel, retry and the reconciliation after a
  restart. Each transaction is a function on the tables; what the caller read before the
  transaction (the snapshot of \<open>Cancel\<close> and \<open>Retry\<close>, the cancel flag that \<open>finish\<close> looks up) is
  an argument, since other transactions may commit in between.
\<close>

subsection \<open>Service state\<close>

text \<open>
  \<open>svClaims\<close> is what the running workers keep in their stack frames: the claimed operation with
  the base and budget to release. \<open>svLost\<close> records reservations no frame will release any more.
\<close>

record Service =
  svDB :: OpDB
  svSched :: scheduler
  svInstanceID :: string
  svRegistry :: "string list"
  svMaxPending :: int
  svMaxPayload :: int
  svIdempotencyMS :: int
  svLimits :: ResourceLimits
  svRejected :: "string \<rightharpoonup> int"
  svClaims :: "(string \<times> reservation) list"
  svLost :: "reservation list"

subsection \<open>Claiming\<close>

text \<open>SQLite's integer division truncates towards zero.\<close>

definition sqlDiv :: "int \<Rightarrow> int \<Rightarrow> int" where
  "sqlDiv a b = sgn a * sgn b * (\<bar>a\<bar> div \<bar>b\<bar>)"

definition claimable :: "int \<Rightarrow> string \<Rightarrow> OpRow \<Rightarrow> bool" where
  "claimable claimAt class r \<longleftrightarrow> oState r = Queued \<and> eResourceClass (oEnv r) = class
     \<and> (case oNextAttemptAt r of None \<Rightarrow> True | Some t \<Rightarrow> t \<le> claimAt)"

definition claimKey :: "int \<Rightarrow> OpRow \<Rightarrow> int \<times> int \<times> string" where
  "claimKey claimAt r =
     (- (ePriority (oEnv r) + sqlDiv (claimAt - eRequestedAt (oEnv r)) priorityAgingMS),
      eRequestedAt (oEnv r), oID r)"

definition claimCandidates :: "int \<Rightarrow> string \<Rightarrow> OpDB \<Rightarrow> OpRow list" where
  "claimCandidates claimAt class db =
     take 32 (sort_key (claimKey claimAt) (filter (claimable claimAt class) (dbOps db)))"

definition rowReservation :: "OpRow \<Rightarrow> reservation" where
  "rowReservation r = (strOf (eBaseID (oEnv r)), eBudget (oEnv r))"

definition claimRow :: "string \<Rightarrow> int \<Rightarrow> OpRow \<Rightarrow> OpRow" where
  "claimRow inst t r = r\<lparr>oState := Running, oAttempt := oAttempt r + 1, oRevision := oRevision r + 1,
     oInstance := Some inst, oStartedAt := Some t, oNextAttemptAt := None, oUpdatedAt := t\<rparr>"

definition claimTx :: "int \<Rightarrow> int \<Rightarrow> string \<Rightarrow> Service \<Rightarrow> OpDB \<times> scheduler \<times> OpRow option \<times> bool" where
  "claimTx claimAt t class sv =
     (let db = svDB sv;
          (sch, picked) = first_granted reserve_r rowReservation (claimCandidates claimAt class db) (svSched sv)
      in case picked of None \<Rightarrow> (db, sch, None, False)
         | Some c \<Rightarrow>
             if affected_by oID (oID c) (\<lambda>r. oState r = Queued) (dbOps db) = 1 then
               (insertEvent (oID c) (oRevision c + 1) ''claimed'' (EvClaimed (svInstanceID sv)) t
                  (upd_op (oID c) (\<lambda>r. oState r = Queued) (claimRow (svInstanceID sv) t) db),
                sch, Some c, True)
             else (db, sch, Some c, False))"

text \<open>
  How a write transaction ends for its caller: committed; failed and rolled back; failed before the
  callback ran; or \<open>ErrWriteUnknown\<close> (the caller's deadline passed after admission), where the
  callback may still have committed or not.
\<close>

datatype TxOutcome = TxCommitted | TxRolledBack | TxNotRun | TxUnknown bool

definition claimNext :: "TxOutcome \<Rightarrow> int \<Rightarrow> int \<Rightarrow> string \<Rightarrow> Service \<Rightarrow> Service \<times> OpRow option" where
  "claimNext out claimAt t class sv =
     (let (db', sch', picked, prepared) = claimTx claimAt t class sv in
      case out of
        TxNotRun \<Rightarrow> (sv, None)
      | TxCommitted \<Rightarrow>
          (case picked of None \<Rightarrow> (sv\<lparr>svDB := db', svSched := sch'\<rparr>, None)
           | Some c \<Rightarrow>
               if prepared then (sv\<lparr>svDB := db', svSched := sch',
                   svClaims := (oID c, rowReservation c) # svClaims sv\<rparr>, Some c)
               else (sv\<lparr>svDB := db', svSched := release_r (rowReservation c) sch'\<rparr>, None))
      | TxRolledBack \<Rightarrow>
          (case picked of None \<Rightarrow> (sv\<lparr>svSched := sch'\<rparr>, None)
           | Some c \<Rightarrow> (sv\<lparr>svSched := release_r (rowReservation c) sch'\<rparr>, None))
      | TxUnknown committed \<Rightarrow>
          (case picked of None \<Rightarrow> (sv\<lparr>svSched := sch'\<rparr>, None)
           | Some c \<Rightarrow>
               if prepared then (sv\<lparr>svDB := (if committed then db' else svDB sv), svSched := sch',
                   svLost := rowReservation c # svLost sv\<rparr>, None)
               else (sv\<lparr>svSched := release_r (rowReservation c) sch'\<rparr>, None)))"

subsection \<open>Progress\<close>

record Progress =
  pPhase :: string
  pCompleted :: int
  pTotal :: int
  pCompletedBytes :: int
  pTotalBytes :: int

definition owned :: "int \<Rightarrow> OpRow \<Rightarrow> bool" where
  "owned attempt r \<longleftrightarrow> (oState r = Running \<or> oState r = Cancelling) \<and> oAttempt r = attempt"

definition reportUnits :: "Progress \<Rightarrow> int \<times> int option \<times> int option" where
  "reportUnits p = (if pTotal p > 0 then pCompleted p else 0,
     if pTotal p > 0 then Some (pTotal p) else None,
     if pTotalBytes p > 0 then Some (pTotalBytes p) else None)"

definition reportRow :: "int \<Rightarrow> Progress \<Rightarrow> OpRow \<Rightarrow> OpRow" where
  "reportRow t p r = (let (completed, totalUnits, totalBytes) = reportUnits p in
     r\<lparr>oPhase := Some (pPhase p), oCompletedUnits := completed, oTotalUnits := totalUnits,
       oCompletedBytes := pCompletedBytes p, oTotalBytes := totalBytes,
       oRevision := oRevision r + 1, oUpdatedAt := t\<rparr>)"

definition reportContext :: "int \<Rightarrow> string \<Rightarrow> int \<Rightarrow> Progress \<Rightarrow> OpDB \<Rightarrow> OpDB" where
  "reportContext t oid attempt p db =
     (case op_row db oid of None \<Rightarrow> db
      | Some r \<Rightarrow>
          if \<not> owned attempt r then db
          else
            let db' = upd_op oid (owned attempt) (reportRow t p) db;
                (completed, totalUnits, totalBytes) = reportUnits p
            in if strOf (oPhase r) = pPhase p then db'
               else insertEvent oid (oRevision r + 1) ''phase''
                      (EvPhase (pPhase p) completed totalUnits (pCompletedBytes p) totalBytes) t db')"

subsection \<open>Finishing\<close>

text \<open>
  The error classes that \<open>errors.Is\<close> distinguishes, and what \<open>json.Marshal\<close> made of the
  executor's result.
\<close>

datatype RunErr = ErrCanceled | ErrDeadlineExceeded | ErrWriteUnknown | ErrOther string

datatype ExecResult = NoResult | Encoded string | EncodeFailed string

record FinishDecision =
  fdState :: OpState
  fdErrorCode :: string
  fdErrorMessage :: string
  fdResult :: "string option"
  fdRetryable :: bool
  fdRecoveryBasis :: string

text \<open>\<open>safe\<close> is \<open>SafeErrorMessage\<close>, \<open>requested\<close> the cancel flag read before the transaction.\<close>

definition finishState :: "(string \<Rightarrow> string) \<Rightarrow> bool \<Rightarrow> RunErr option \<Rightarrow> OpState \<times> string \<times> string \<times> string" where
  "finishState safe requested runErr =
     (case runErr of
        None \<Rightarrow> (Succeeded, [], [], ''executor_complete'')
      | Some (ErrOther e) \<Rightarrow> (Failed, ''operation_failed'', safe e, ''executor_error'')
      | Some e \<Rightarrow>
          if requested then (Cancelled, ''cancelled'', ''operation was cancelled'', ''cancel_intent'')
          else if e = ErrDeadlineExceeded
          then (Failed, ''timeout'', ''operation deadline exceeded'', ''deadline_exceeded'')
          else (Interrupted, ''interrupted'', ''worker stopped before completion'', ''worker_interrupted''))"

definition finishDecision :: "(string \<Rightarrow> string) \<Rightarrow> int \<Rightarrow> bool \<Rightarrow> ExecResult \<Rightarrow> RunErr option \<Rightarrow> FinishDecision" where
  "finishDecision safe maxPayload requested result runErr =
     (let (st, code, msg, basis) = finishState safe requested runErr in
      case result of
        NoResult \<Rightarrow> \<lparr>fdState = st, fdErrorCode = code, fdErrorMessage = msg, fdResult = None,
                     fdRetryable = True, fdRecoveryBasis = basis\<rparr>
      | EncodeFailed e \<Rightarrow> \<lparr>fdState = Failed, fdErrorCode = ''result_encode_failed'', fdErrorMessage = safe e,
                     fdResult = None, fdRetryable = False, fdRecoveryBasis = ''result_encoding''\<rparr>
      | Encoded s \<Rightarrow>
          if int (length s) > maxPayload then
            \<lparr>fdState = Failed, fdErrorCode = ''result_too_large'',
             fdErrorMessage = ''operation result exceeds '' @ formatInt maxPayload @ '' bytes'',
             fdResult = None, fdRetryable = False, fdRecoveryBasis = ''result_retention_limit''\<rparr>
          else \<lparr>fdState = st, fdErrorCode = code, fdErrorMessage = msg, fdResult = Some s,
                     fdRetryable = True, fdRecoveryBasis = basis\<rparr>)"

definition autoRetry :: "FinishDecision \<Rightarrow> int \<Rightarrow> bool" where
  "autoRetry d attempt \<longleftrightarrow> fdState d = Interrupted \<and> fdRetryable d \<and> attempt < DefaultMaxAttempts"

definition finishRow :: "int \<Rightarrow> int \<Rightarrow> FinishDecision \<Rightarrow> OpRow \<Rightarrow> OpRow" where
  "finishRow idempotencyMS finished d r =
     (let expiry = (if terminal (fdState d) \<and> idempotencyMS > 0 then Some (finished + idempotencyMS) else None)
      in r\<lparr>oState := fdState d, oRevision := oRevision r + 1, oErrorCode := Some (fdErrorCode d),
         oErrorMessage := Some (fdErrorMessage d), oResult := fdResult d, oRetryable := fdRetryable d,
         oFinishedAt := Some finished, oUpdatedAt := finished, oIdempotencyExpiresAt := expiry,
         oRecoveryBasis := Some (fdRecoveryBasis d), oResultExpiresAt := expiry, oRetainedUntil := expiry\<rparr>)"

definition requeueRow :: "int \<Rightarrow> OpRow \<Rightarrow> OpRow" where
  "requeueRow finished r = r\<lparr>oState := Queued, oRevision := oRevision r + 1, oErrorCode := None,
     oErrorMessage := None, oResult := None, oFinishedAt := None, oNextAttemptAt := Some finished,
     oUpdatedAt := finished\<rparr>"

definition finishTx :: "int \<Rightarrow> int \<Rightarrow> string \<Rightarrow> int \<Rightarrow> FinishDecision \<Rightarrow> OpDB \<Rightarrow> OpDB" where
  "finishTx idempotencyMS finished oid attempt d db =
     (case op_row db oid of None \<Rightarrow> db
      | Some r \<Rightarrow>
          if \<not> owned attempt r then db
          else
            let db1 = insertEvent oid (oRevision r + 1) ''finished'' (EvFinished (fdState d) (fdErrorCode d)) finished
                        (upd_op oid (owned attempt) (finishRow idempotencyMS finished d) db)
            in if autoRetry d attempt
               then insertEvent oid (oRevision r + 2) ''retry_queued'' (EvRetryQueued attempt (Some ''interrupted'')) finished
                      (upd_op oid (\<lambda>r. oState r = Interrupted \<and> oAttempt r = attempt) (requeueRow finished) db1)
               else db1)"

text \<open>
  \<open>finishWorker\<close> calls \<open>finishContext\<close> again when the first call reports an error, which it may do
  after its write has committed. Each call takes its own time and reads the cancel flag again.
\<close>

definition finishWorker :: "(string \<Rightarrow> string) \<Rightarrow> Service \<Rightarrow> (int \<times> bool) \<Rightarrow> (int \<times> bool) \<Rightarrow> TxOutcome \<Rightarrow> TxOutcome
    \<Rightarrow> string \<Rightarrow> int \<Rightarrow> ExecResult \<Rightarrow> RunErr option \<Rightarrow> OpDB \<Rightarrow> OpDB" where
  "finishWorker safe sv first second out1 out2 oid attempt result runErr db =
     (let call = (\<lambda>(t, requested) out db'.
            (if out = TxCommitted \<or> out = TxUnknown True
             then finishTx (svIdempotencyMS sv) t oid attempt
                    (finishDecision safe (svMaxPayload sv) requested result runErr) db'
             else db'))
      in if out1 = TxCommitted then call first out1 db else call second out2 (call first out1 db))"

subsection \<open>Cancel and retry\<close>

definition cancelTx :: "int \<Rightarrow> OpRow \<Rightarrow> OpDB \<Rightarrow> OpDB \<times> bool" where
  "cancelTx t op db =
     (let nextRevision = oRevision op + 1;
          guard = (\<lambda>r. (oState r = Queued \<or> oState r = Running) \<and> oRevision r = oRevision op)
      in if affected_by oID (oID op) guard (dbOps db) = 0 then (db, False)
         else
           let db1 = insertEvent (oID op) nextRevision ''cancel_requested'' EvCancelRequested t
                       (upd_op (oID op) guard
                         (\<lambda>r. r\<lparr>oCancelRequested := True, oState := Cancelling, oRevision := nextRevision,
                                oUpdatedAt := t\<rparr>) db)
           in if oState op = Queued
              then (insertEvent (oID op) (nextRevision + 1) ''finished'' (EvFinished Cancelled ''cancelled'') t
                      (upd_op (oID op) (\<lambda>r. oState r = Cancelling \<and> oCancelRequested r)
                        (\<lambda>r. r\<lparr>oState := Cancelled, oRevision := nextRevision + 1, oFinishedAt := Some t,
                               oUpdatedAt := t\<rparr>) db1), True)
              else (db1, True))"

definition CancelContext :: "int \<Rightarrow> OpRow \<Rightarrow> OpDB \<Rightarrow> OpDB" where
  "CancelContext t op db = (if terminal (oState op) then db else fst (cancelTx t op db))"

datatype RetryError = RetryBadState OpState | RetryNotRetryable | RetryAttemptsExhausted

definition retryTx :: "int \<Rightarrow> OpRow \<Rightarrow> OpDB \<Rightarrow> OpDB" where
  "retryTx t op db =
     insertEvent (oID op) (oRevision op + 1) ''retry_queued'' (EvRetryQueued (oAttempt op) None) t
       (upd_op (oID op) (\<lambda>r. oState r = oState op)
         (\<lambda>r. r\<lparr>oState := Queued, oCancelRequested := False, oRevision := oRevision op + 1,
                oErrorCode := None, oErrorMessage := None, oResult := None, oFinishedAt := None,
                oNextAttemptAt := Some t, oUpdatedAt := t\<rparr>) db)"

definition RetryContext :: "int \<Rightarrow> OpRow \<Rightarrow> OpDB \<Rightarrow> RetryError + OpDB" where
  "RetryContext t op db =
     (if oState op \<noteq> Failed \<and> oState op \<noteq> Interrupted then Inl (RetryBadState (oState op))
      else if \<not> oRetryable op then Inl RetryNotRetryable
      else if oAttempt op \<ge> DefaultMaxAttempts then Inl RetryAttemptsExhausted
      else Inr (retryTx t op db))"

subsection \<open>Recovery after a restart\<close>

definition interruptRow :: "int \<Rightarrow> OpRow \<Rightarrow> OpRow" where
  "interruptRow t r = (if oState r = Running \<or> oState r = Cancelling
     then r\<lparr>oState := Interrupted, oErrorCode := Some ''interrupted'',
            oErrorMessage := Some ''worker lost during process restart'', oRevision := oRevision r + 1,
            oFinishedAt := Some t, oUpdatedAt := t\<rparr> else r)"

definition cancelIntentRow :: "int \<Rightarrow> OpRow \<Rightarrow> OpRow" where
  "cancelIntentRow t r = (if oState r = Interrupted \<and> oCancelRequested r
     then r\<lparr>oState := Cancelled, oRevision := oRevision r + 1, oFinishedAt := Some t, oUpdatedAt := t\<rparr> else r)"

definition replayable :: "string list \<Rightarrow> OpRow \<Rightarrow> bool" where
  "replayable registry r \<longleftrightarrow> oState r = Interrupted \<and> eType (oEnv r) \<in> set registry
     \<and> oRetryable r \<and> oAttempt r < DefaultMaxAttempts"

definition replayRow :: "string list \<Rightarrow> int \<Rightarrow> OpRow \<Rightarrow> OpRow" where
  "replayRow registry t r = (if replayable registry r
     then r\<lparr>oState := Queued, oRevision := oRevision r + 1, oErrorCode := None, oErrorMessage := None,
            oFinishedAt := None, oUpdatedAt := t\<rparr> else r)"

definition cancelIntentEvents :: "int \<Rightarrow> OpRow list \<Rightarrow> OpEvent list" where
  "cancelIntentEvents t rows =
     map (\<lambda>r. \<lparr>evOperation = oID r, evRevision = oRevision r + 1, evKind = ''finished'',
                evPayload = EvFinished Cancelled ''cancelled'', evCreatedAt = t\<rparr>)
       (filter (\<lambda>r. oState r = Interrupted \<and> oCancelRequested r) rows)"

definition recoverOps :: "string list \<Rightarrow> int \<Rightarrow> OpDB \<Rightarrow> OpDB" where
  "recoverOps registry t db =
     (let interrupted = map (interruptRow t) (dbOps db);
          cancelled = map (cancelIntentRow t) interrupted
      in db\<lparr>dbOps := map (replayRow registry t) cancelled,
            dbEvents := dbEvents db @ cancelIntentEvents t interrupted\<rparr>)"

text \<open>\<open>Start\<close> in a new process: reconciled rows, an empty scheduler and no worker frames.\<close>

definition restart :: "string \<Rightarrow> int \<Rightarrow> Service \<Rightarrow> Service" where
  "restart inst t sv = sv\<lparr>svDB := recoverOps (svRegistry sv) t (svDB sv), svInstanceID := inst,
     svSched := newScheduler (svLimits sv), svClaims := [], svLost := [], svRejected := Map.empty\<rparr>"

text \<open>A worker that leaves \<open>run\<close> gives its reservation back.\<close>

definition endClaim :: "string \<times> reservation \<Rightarrow> Service \<Rightarrow> Service" where
  "endClaim c sv = (if c \<in> set (svClaims sv)
     then sv\<lparr>svSched := release_r (snd c) (svSched sv), svClaims := remove1 c (svClaims sv)\<rparr> else sv)"

definition terminalInputLease :: "OpRow \<Rightarrow> bool" where
  "terminalInputLease op \<longleftrightarrow> oState op = Succeeded \<or> oState op = Cancelled
     \<or> ((oState op = Failed \<or> oState op = Interrupted) \<and> (\<not> oRetryable op \<or> oAttempt op \<ge> DefaultMaxAttempts))"

end
