(* ===== verification/OpRowMachine.thy ===== *)
theory OpRowMachine
  imports OpLifecycle
begin

text \<open>
  The state machine of one operation row, as the abstract specification of the lifecycle
  transactions: \<open>op_step\<close> lists the moves a row may make, and every transaction of
  \<open>OpLifecycle\<close> is shown to move each row by a sequence of them. The facts about attempts,
  revisions and frozen states are proved once, on \<open>op_step\<close>.
\<close>

subsection \<open>Moves of a row\<close>

definition expireRow :: "int \<Rightarrow> OpRow \<Rightarrow> OpRow" where
  "expireRow t r = r\<lparr>oPayload := [], oResult := None, oUpdatedAt := t\<rparr>"

definition spent_state :: "OpRow \<Rightarrow> bool" where
  "spent_state r \<longleftrightarrow> oState r = Succeeded \<or> oState r = Cancelled \<or> (oState r = Failed \<and> \<not> oRetryable r)"

inductive op_step :: "OpRow \<Rightarrow> OpRow \<Rightarrow> bool" where
  claim: "oState r = Queued \<Longrightarrow> op_step r (claimRow inst t r)"
| report: "owned a r \<Longrightarrow> op_step r (reportRow t p r)"
| finish: "owned a r \<Longrightarrow> fdState d \<in> {Succeeded, Failed, Cancelled, Interrupted}
    \<Longrightarrow> op_step r (finishRow ms t d r)"
| requeue: "oState r = Interrupted \<Longrightarrow> oAttempt r < DefaultMaxAttempts \<Longrightarrow> op_step r (requeueRow t r)"
| cancel_request: "oState r = Queued \<or> oState r = Running \<Longrightarrow>
    op_step r (r\<lparr>oCancelRequested := True, oState := Cancelling, oRevision := oRevision r + 1, oUpdatedAt := t\<rparr>)"
| cancelled: "oState r = Cancelling \<Longrightarrow> oCancelRequested r \<Longrightarrow>
    op_step r (r\<lparr>oState := Cancelled, oRevision := oRevision r + 1, oFinishedAt := Some t, oUpdatedAt := t\<rparr>)"
| retry: "oState r = Failed \<or> oState r = Interrupted \<Longrightarrow> oRetryable r \<Longrightarrow> oAttempt r < DefaultMaxAttempts
    \<Longrightarrow> op_step r (r\<lparr>oState := Queued, oCancelRequested := False, oRevision := oRevision r + 1,
         oErrorCode := None, oErrorMessage := None, oResult := None, oFinishedAt := None,
         oNextAttemptAt := Some t, oUpdatedAt := t\<rparr>)"
| interrupt: "oState r = Running \<or> oState r = Cancelling \<Longrightarrow> op_step r (interruptRow t r)"
| intent: "oState r = Interrupted \<Longrightarrow> oCancelRequested r \<Longrightarrow> op_step r (cancelIntentRow t r)"
| replay: "replayable registry r \<Longrightarrow> op_step r (replayRow registry t r)"
| expire: "spent_state r \<Longrightarrow> op_step r (expireRow t r)"

abbreviation op_steps :: "OpRow \<Rightarrow> OpRow \<Rightarrow> bool" where
  "op_steps \<equiv> op_step\<^sup>*\<^sup>*"

lemmas row_defs = claimRow_def reportRow_def finishRow_def requeueRow_def interruptRow_def
  cancelIntentRow_def replayRow_def expireRow_def Let_def

lemmas row_guards = owned_def replayable_def spent_state_def

subsection \<open>What every move keeps\<close>

definition row_ok :: "OpRow \<Rightarrow> bool" where
  "row_ok r \<longleftrightarrow> 0 \<le> oAttempt r \<and> oAttempt r \<le> DefaultMaxAttempts
     \<and> (oState r = Queued \<longrightarrow> oAttempt r < DefaultMaxAttempts) \<and> 1 \<le> oRevision r"

lemma op_step_identity: "op_step r r' \<Longrightarrow> oID r' = oID r \<and> oEnv r' = oEnv r"
  by (induction rule: op_step.induct) (auto simp: row_defs split: prod.splits)

lemma op_step_ok: "op_step r r' \<Longrightarrow> row_ok r \<Longrightarrow> row_ok r'"
  by (induction rule: op_step.induct) (auto simp: row_ok_def row_defs row_guards split: prod.splits)

text \<open>
  A move either bumps the revision by one, or (payload expiry) keeps every column but the payload
  and the result.
\<close>

lemma op_step_revision:
  "op_step r r' \<Longrightarrow> oRevision r' = oRevision r + 1
     \<or> (spent_state r \<and> (\<exists>t. r' = expireRow t r))"
  by (induction rule: op_step.induct) (auto simp: row_defs row_guards split: prod.splits)

lemma op_step_attempt: "op_step r r' \<Longrightarrow> oAttempt r \<le> oAttempt r' \<and> oAttempt r' \<le> oAttempt r + 1"
  by (induction rule: op_step.induct) (auto simp: row_defs split: prod.splits)

lemma op_step_frozen:
  "op_step r r' \<Longrightarrow> oState r = Succeeded \<or> oState r = Cancelled \<Longrightarrow> \<exists>t. r' = expireRow t r"
  by (induction rule: op_step.induct) (auto simp: row_guards)

text \<open>The columns that a payload expiry leaves alone.\<close>

definition same_lifecycle :: "OpRow \<Rightarrow> OpRow \<Rightarrow> bool" where
  "same_lifecycle r r' \<longleftrightarrow> oState r' = oState r \<and> oAttempt r' = oAttempt r \<and> oRevision r' = oRevision r
     \<and> oCancelRequested r' = oCancelRequested r \<and> oRetryable r' = oRetryable r
     \<and> oErrorCode r' = oErrorCode r \<and> oFinishedAt r' = oFinishedAt r
     \<and> oIdempotencyExpiresAt r' = oIdempotencyExpiresAt r
     \<and> (oResult r' = oResult r \<or> oResult r' = None)"

lemma same_lifecycle_refl [simp]: "same_lifecycle r r"
  by (simp add: same_lifecycle_def)

lemma same_lifecycle_trans: "same_lifecycle a b \<Longrightarrow> same_lifecycle b c \<Longrightarrow> same_lifecycle a c"
  by (auto simp: same_lifecycle_def)

lemma expireRow_same [simp]: "same_lifecycle r (expireRow t r)"
  by (simp add: same_lifecycle_def expireRow_def)

lemma op_steps_identity: "op_steps r r' \<Longrightarrow> oID r' = oID r \<and> oEnv r' = oEnv r"
  by (induction rule: rtranclp_induct) (auto dest: op_step_identity)

lemma op_steps_ok: "op_steps r r' \<Longrightarrow> row_ok r \<Longrightarrow> row_ok r'"
  by (induction rule: rtranclp_induct) (auto dest: op_step_ok)

lemma op_steps_revision:
  "op_steps r r' \<Longrightarrow> oRevision r \<le> oRevision r' \<and> (oRevision r' = oRevision r \<longrightarrow> same_lifecycle r r')"
proof (induction rule: rtranclp_induct)
  case (step y z)
  from op_step_revision [OF step.hyps(2)] show ?case
  proof
    assume "oRevision z = oRevision y + 1"
    with step.IH show ?thesis by simp
  next
    assume "spent_state y \<and> (\<exists>t. z = expireRow t y)"
    then have "same_lifecycle y z" by auto
    with step.IH show ?thesis
      by (auto intro: same_lifecycle_trans simp: same_lifecycle_def)
  qed
qed simp

lemma op_steps_frozen:
  "op_steps r r' \<Longrightarrow> oState r = Succeeded \<or> oState r = Cancelled \<Longrightarrow> same_lifecycle r r'"
proof (induction rule: rtranclp_induct)
  case (step y z)
  then have y: "same_lifecycle r y" by blast
  with step.prems have "oState y = Succeeded \<or> oState y = Cancelled"
    by (auto simp: same_lifecycle_def)
  with step.hyps(2) have "\<exists>t. z = expireRow t y" by (rule op_step_frozen)
  with y show ?case by (auto intro: same_lifecycle_trans)
qed simp

lemma op_steps_attempt: "op_steps r r' \<Longrightarrow> oAttempt r \<le> oAttempt r'"
  by (induction rule: rtranclp_induct) (auto dest: op_step_attempt)

subsection \<open>Transactions move rows by \<open>op_step\<close>\<close>

definition db_steps :: "OpDB \<Rightarrow> OpDB \<Rightarrow> bool" where
  "db_steps db db' \<longleftrightarrow> (\<forall>x r. op_row db x = Some r \<longrightarrow> (\<exists>r'. op_row db' x = Some r' \<and> op_steps r r'))"

lemma db_steps_refl [simp, intro]: "db_steps db db"
  by (auto simp: db_steps_def)

lemma db_steps_trans [trans]: "db_steps a b \<Longrightarrow> db_steps b c \<Longrightarrow> db_steps a c"
  by (auto simp: db_steps_def) (meson rtranclp_trans)

lemma db_steps_same_ops: "dbOps db' = dbOps db \<Longrightarrow> db_steps db db'"
  by (auto simp: db_steps_def)

lemma db_steps_insertEvent [simp]: "db_steps db (insertEvent x rv k p t db') = db_steps db db'"
  by (simp add: db_steps_def)

lemma db_steps_upd:
  assumes "\<And>r. oID (f r) = oID r" "\<And>r. op_row db x = Some r \<Longrightarrow> g r \<Longrightarrow> op_step r (f r)"
  shows "db_steps db (upd_op x g f db)"
  unfolding db_steps_def
proof (intro allI impI)
  fix y r
  assume r: "op_row db y = Some r"
  show "\<exists>r'. op_row (upd_op x g f db) y = Some r' \<and> op_steps r r'"
    using assms r by (cases "y = x") (auto simp: ops.sel_upd)
qed

lemma db_steps_map:
  assumes "\<And>r. oID (f r) = oID r" "\<And>r. op_steps r (f r)" "dbOps db' = map f (dbOps db)"
  shows "db_steps db db'"
proof -
  have "sel_by oID (map f rs) x = map_option f (sel_by oID rs x)" for x and rs :: "OpRow list"
    unfolding sel_by_def using assms(1) by (induction rs) auto
  then have "op_row db' x = map_option f (op_row db x)" for x
    by (simp add: assms(3))
  with assms(2) show ?thesis by (auto simp: db_steps_def)
qed

lemma row_fun_ids [simp]:
  "oID (claimRow i t r) = oID r" "oID (reportRow t p r) = oID r" "oID (finishRow ms t d r) = oID r"
  "oID (requeueRow t r) = oID r" "oID (interruptRow t r) = oID r" "oID (cancelIntentRow t r) = oID r"
  "oID (replayRow reg t r) = oID r" "oID (expireRow t r) = oID r"
  by (simp_all add: row_defs split: prod.splits)

lemma claimTx_steps: "claimTx claimAt t class sv = (db', rest) \<Longrightarrow> db_steps (svDB sv) db'"
  by (auto simp: claimTx_def Let_def split: prod.splits option.splits if_splits
      intro!: db_steps_upd op_step.claim)

lemma claimNext_steps: "db_steps (svDB sv) (svDB (fst (claimNext out claimAt t class sv)))"
proof -
  obtain db' sch picked prepared where c: "claimTx claimAt t class sv = (db', sch, picked, prepared)"
    by (metis prod_cases4)
  then have "db_steps (svDB sv) db'" by (rule claimTx_steps)
  then show ?thesis
    by (auto simp: claimNext_def c split: TxOutcome.splits option.splits)
qed

lemma reportContext_steps: "db_steps db (reportContext t x a p db)"
  by (auto simp: reportContext_def Let_def split: option.splits prod.splits
      intro!: db_steps_upd op_step.report)

lemma finishDecision_states:
  "fdState (finishDecision safe mp rq res err) \<in> {Succeeded, Failed, Cancelled, Interrupted}"
  by (auto simp: finishDecision_def finishState_def split: ExecResult.splits option.splits RunErr.splits)

lemma finishTx_steps:
  assumes "fdState d \<in> {Succeeded, Failed, Cancelled, Interrupted}"
  shows "db_steps db (finishTx ms t x a d db)"
proof -
  let ?db1 = "upd_op x (owned a) (finishRow ms t d) db"
  have 1: "db_steps db ?db1"
    using assms by (intro db_steps_upd) (auto intro: op_step.finish)
  have "db_steps ?db1 (upd_op x (\<lambda>r. oState r = Interrupted \<and> oAttempt r = a) (requeueRow t) ?db1)"
    if "autoRetry d a"
    using that by (intro db_steps_upd) (auto simp: autoRetry_def intro: op_step.requeue)
  then have 2: "autoRetry d a \<Longrightarrow>
      db_steps db (upd_op x (\<lambda>r. oState r = Interrupted \<and> oAttempt r = a) (requeueRow t) ?db1)"
    using 1 db_steps_trans by blast
  have ev: "upd_op x g f (insertEvent x rv k p t db') = insertEvent x rv k p t (upd_op x g f db')"
    for g f rv k p db'
    by (simp add: upd_op_def insertEvent_def)
  show ?thesis
    using 1 2 by (auto simp: finishTx_def Let_def ev split: option.splits)
qed

lemma cancel_insertEvent:
  "upd_op x g f (insertEvent y rv k p t db) = insertEvent y rv k p t (upd_op x g f db)"
  by (simp add: upd_op_def insertEvent_def)

lemma cancelTx_steps:
  assumes uniq: "uniq_by oID (dbOps db)"
  shows "db_steps db (fst (cancelTx t op db))"
proof -
  let ?g = "\<lambda>r. (oState r = Queued \<or> oState r = Running) \<and> oRevision r = oRevision op"
  let ?f = "\<lambda>r. r\<lparr>oCancelRequested := True, oState := Cancelling, oRevision := oRevision op + 1, oUpdatedAt := t\<rparr>"
  let ?h = "\<lambda>r. r\<lparr>oState := Cancelled, oRevision := oRevision op + 1 + 1, oFinishedAt := Some t, oUpdatedAt := t\<rparr>"
  let ?db1 = "upd_op (oID op) ?g ?f db"
  let ?db2 = "upd_op (oID op) (\<lambda>r. oState r = Cancelling \<and> oCancelRequested r) ?h ?db1"
  have request: "op_step r (?f r)" if "?g r" for r
    using that op_step.cancel_request [of r t] by auto
  have 1: "db_steps db ?db1"
    by (intro db_steps_upd request) auto
  have 2: "db_steps ?db1 ?db2" if hit: "affected_by oID (oID op) ?g (dbOps db) \<noteq> 0"
  proof (rule db_steps_upd)
    fix r1
    assume r1: "op_row ?db1 (oID op) = Some r1" "oState r1 = Cancelling \<and> oCancelRequested r1"
    from hit uniq obtain r where "op_row db (oID op) = Some r" "?g r"
      by (auto simp: affected_by_uniq split: option.splits if_splits)
    then have "op_row ?db1 (oID op) = Some (?f r)"
      by (simp add: ops.sel_upd)
    with r1 have "oRevision r1 = oRevision op + 1" by auto
    with r1 op_step.cancelled [of r1 t] show "op_step r1 (?h r1)"
      by (simp add: add.commute)
  qed simp
  show ?thesis
    using 1 2 db_steps_trans by (auto simp: cancelTx_def Let_def cancel_insertEvent) 
qed

lemma CancelContext_steps: "uniq_by oID (dbOps db) \<Longrightarrow> db_steps db (CancelContext t op db)"
  by (simp add: CancelContext_def cancelTx_steps)

text \<open>A retry whose snapshot is still the current row.\<close>

lemma RetryContext_steps:
  assumes "op_row db (oID op) = Some op" "RetryContext t op db = Inr db'"
  shows "db_steps db db'"
proof -
  have ok: "oState op = Failed \<or> oState op = Interrupted" "oRetryable op" "oAttempt op < DefaultMaxAttempts"
    and db': "db' = retryTx t op db"
    using assms(2) by (auto simp: RetryContext_def split: if_splits)
  show ?thesis
    unfolding db' retryTx_def using assms(1) ok
    by (auto intro!: db_steps_upd op_step.retry)
qed

lemma recover_row_steps:
  "op_steps r (replayRow reg t (cancelIntentRow t (interruptRow t r)))"
proof -
  have 1: "op_steps r (interruptRow t r)" for r
  proof (cases "oState r = Running \<or> oState r = Cancelling")
    case True
    then show ?thesis by (intro r_into_rtranclp op_step.interrupt)
  qed (simp add: interruptRow_def)
  have 2: "op_steps r (cancelIntentRow t r)" for r
  proof (cases "oState r = Interrupted \<and> oCancelRequested r")
    case True
    then show ?thesis by (intro r_into_rtranclp op_step.intent) auto
  qed (auto simp add: cancelIntentRow_def)
  have 3: "op_steps r (replayRow reg t r)" for r
  proof (cases "replayable reg r")
    case True
    then show ?thesis by (intro r_into_rtranclp op_step.replay)
  qed (simp add: replayRow_def)
  show ?thesis using 1 2 3 by (meson rtranclp_trans)
qed

lemma recoverOps_steps: "db_steps db (recoverOps reg t db)"
  by (rule db_steps_map [where f = "\<lambda>r. replayRow reg t (cancelIntentRow t (interruptRow t r))"])
    (auto simp: recoverOps_def recover_row_steps)

subsection \<open>Transactions keep the set of rows\<close>

text \<open>
  No transaction but \<open>Submit\<close> adds a row and none removes one: each maps the table row by row.
\<close>

definition row_ids :: "OpDB \<Rightarrow> string list" where
  "row_ids db = map oID (dbOps db)"

lemma row_ids_uniq: "row_ids db' = row_ids db \<Longrightarrow> uniq_by oID (dbOps db') = uniq_by oID (dbOps db)"
  by (simp add: row_ids_def uniq_by_def)

lemma row_ids_upd [simp]: "(\<And>r. oID (f r) = oID r) \<Longrightarrow> row_ids (upd_op x g f db) = row_ids db"
  by (simp add: row_ids_def upd_by_keys)

lemma row_ids_insertEvent [simp]: "row_ids (insertEvent x rv k p t db) = row_ids db"
  by (simp add: row_ids_def)

lemma txs_row_ids [simp]:
  "row_ids (reportContext t x a p db) = row_ids db"
  "row_ids (finishTx ms t x a d db) = row_ids db"
  "row_ids (CancelContext t op db) = row_ids db"
  "row_ids (retryTx t op db) = row_ids db"
  "row_ids (recoverOps reg t db) = row_ids db"
proof -
  show "row_ids (reportContext t x a p db) = row_ids db"
    by (auto simp: reportContext_def Let_def split: option.splits prod.splits)
  show "row_ids (finishTx ms t x a d db) = row_ids db"
    by (auto simp: finishTx_def Let_def split: option.splits)
  show "row_ids (CancelContext t op db) = row_ids db"
    by (auto simp: CancelContext_def cancelTx_def Let_def)
  show "row_ids (retryTx t op db) = row_ids db"
    by (simp add: retryTx_def)
  show "row_ids (recoverOps reg t db) = row_ids db"
    by (simp add: recoverOps_def row_ids_def Let_def comp_def)
qed

lemma claimTx_row_ids: "claimTx claimAt t class sv = (db', rest) \<Longrightarrow> row_ids db' = row_ids (svDB sv)"
  by (auto simp: claimTx_def Let_def split: prod.splits option.splits if_splits)

lemma claimNext_row_ids [simp]:
  "row_ids (svDB (fst (claimNext out claimAt t class sv))) = row_ids (svDB sv)"
proof -
  obtain db' sch picked prepared where c: "claimTx claimAt t class sv = (db', sch, picked, prepared)"
    by (metis prod_cases4)
  then have "row_ids db' = row_ids (svDB sv)" by (rule claimTx_row_ids)
  then show ?thesis
    by (auto simp: claimNext_def c split: TxOutcome.splits option.splits)
qed

lemma op_row_None_ids: "op_row db x = None \<longleftrightarrow> x \<notin> set (row_ids db)"
  by (auto simp: sel_by_None row_ids_def)

lemma db_steps_back:
  assumes "row_ids db' = row_ids db" "db_steps db db'" "op_row db' x = Some r'"
  shows "\<exists>r. op_row db x = Some r \<and> op_steps r r'"
proof -
  have "op_row db x \<noteq> None"
    using assms(1,3) op_row_None_ids [of db x] op_row_None_ids [of db' x] by auto
  with assms(2,3) show ?thesis by (fastforce simp: db_steps_def)
qed

end
