(* ===== verification/OpUploads.thy ===== *)
theory OpUploads
  imports OpRows Admission
begin

text \<open>
  Staged uploads (\<open>internal/operations/upload.go\<close> and the sweeps of \<open>service.go\<close>): creation,
  streaming with the temporary-space reservation, completion under the aggregate quota, release of
  an input lease and the expiry sweep. The staging directory maps an upload id to the bytes of its
  \<open>.staging\<close> file; \<open>sha\<close> is the hex SHA-256 of the bytes.
\<close>

abbreviation MaxUploadBytes :: int where "MaxUploadBytes \<equiv> 104857600"

datatype UploadError =
    UploadNotFound
  | UploadBadState UploadState
  | UploadNotComplete
  | UploadScopeMismatch
  | UploadSizeMismatch
  | UploadHashMismatch
  | UploadTooLarge
  | UploadQuotaExceeded
  | TempQuotaExceeded
  | UploadStorageNotSet
  | UploadMissingField
  | UploadBadDigest
  | UploadScanNull
  | UploadIO string

record Staging =
  stDB :: OpDB
  stFiles :: "string \<rightharpoonup> string"
  stRootSet :: bool
  stTempReserved :: int
  stTempLimit :: int
  stUploadLimit :: int

definition hexDigit :: "char \<Rightarrow> bool" where
  "hexDigit c = (let n = byteOf c in (48 \<le> n \<and> n \<le> 57) \<or> (97 \<le> n \<and> n \<le> 102) \<or> (65 \<le> n \<and> n \<le> 70))"

text \<open>\<open>uploadPath\<close> accepts 32 hex digits only, so an id never escapes the staging directory.\<close>

definition uploadPath :: "bool \<Rightarrow> string \<Rightarrow> UploadError + string" where
  "uploadPath rootSet uid =
     (if \<not> rootSet then Inl UploadStorageNotSet
      else if length uid \<noteq> 32 \<or> \<not> (\<forall>c \<in> set uid. hexDigit c) then Inl UploadNotFound
      else Inr (uid @ ''.staging''))"

definition GetUploadContext :: "string \<Rightarrow> OpDB \<Rightarrow> UploadError + Upload" where
  "GetUploadContext uid db = (case upload_row db uid of None \<Rightarrow> Inl UploadNotFound | Some u \<Rightarrow> Inr u)"

subsection \<open>Creation\<close>

record UploadCreate =
  ucBaseID :: string
  ucParentDirectoryID :: string
  ucFileName :: string
  ucExpectedSize :: "int option"
  ucExpectedSHA256 :: string

definition CreateUpload :: "string \<Rightarrow> int \<Rightarrow> UploadCreate \<Rightarrow> Staging \<Rightarrow> UploadError + (Upload \<times> Staging)" where
  "CreateUpload uid current c st =
     (if \<not> stRootSet st then Inl UploadStorageNotSet
      else if trimSpace (ucBaseID c) = [] \<or> trimSpace (ucFileName c) = [] then Inl UploadMissingField
      else if (case ucExpectedSize c of None \<Rightarrow> False | Some n \<Rightarrow> n < 0 \<or> n > MaxUploadBytes) then Inl UploadTooLarge
      else if (case ucExpectedSize c of None \<Rightarrow> False | Some n \<Rightarrow> n > stUploadLimit st) then Inl UploadQuotaExceeded
      else if ucExpectedSHA256 c \<noteq> [] \<and> length (ucExpectedSHA256 c) \<noteq> 64 then Inl UploadBadDigest
      else bindr (uploadPath (stRootSet st) uid) (\<lambda>path.
        let session = \<lparr>uID = uid, uBaseID = ucBaseID c, uParentDirectoryID = nullString (ucParentDirectoryID c),
              uFileName = trimSpace (ucFileName c), uState = Uploading, uExpectedSize = ucExpectedSize c,
              uExpectedSHA256 = nullString (ucExpectedSHA256 c), uSizeBytes = 0, uSHA256 = None,
              uOperationID = None, uCreatedAt = current, uUpdatedAt = current,
              uExpiresAt = current + 86400000\<rparr>
        in Inr (session, st\<lparr>stDB := (stDB st)\<lparr>dbUploads := ins_by session (dbUploads (stDB st))\<rparr>\<rparr>)))"

subsection \<open>Temporary space\<close>

definition reserveTemp :: "int \<Rightarrow> Staging \<Rightarrow> Staging \<times> bool" where
  "reserveTemp bytes st =
     (if stTempLimit st > 0 \<and> stTempReserved st + bytes > stTempLimit st then (st, False)
      else (st\<lparr>stTempReserved := stTempReserved st + bytes\<rparr>, True))"

definition releaseTemp :: "int \<Rightarrow> Staging \<Rightarrow> Staging" where
  "releaseTemp bytes st = st\<lparr>stTempReserved := nonneg (stTempReserved st - bytes)\<rparr>"

definition temp_holds :: "Staging \<Rightarrow> int multiset \<Rightarrow> bool" where
  "temp_holds st R \<longleftrightarrow> stTempReserved st = sum_mset R \<and> (\<forall>b \<in># R. 0 \<le> b)
     \<and> (stTempLimit st > 0 \<longrightarrow> stTempReserved st \<le> stTempLimit st)"

lemma sum_mset_nonneg_int: "\<forall>b \<in># R. (0::int) \<le> b \<Longrightarrow> 0 \<le> sum_mset R"
  by (induction R) auto

interpretation temp: admission reserveTemp releaseTemp temp_holds "\<lambda>b. 0 \<le> b"
proof unfold_locales
  fix s R r s'
  assume "temp_holds s R" "0 \<le> (r::int)" "reserveTemp r s = (s', True)"
  then show "temp_holds s' (add_mset r R)"
    by (auto simp: temp_holds_def reserveTemp_def split: if_splits)
next
  fix r s s'
  assume "reserveTemp r s = (s', False)"
  then show "s' = s" by (auto simp: reserveTemp_def split: if_splits)
next
  fix s r R
  assume "temp_holds s (add_mset (r::int) R)"
  then show "temp_holds (releaseTemp r s) R"
    using sum_mset_nonneg_int [of R] by (auto simp: temp_holds_def releaseTemp_def nonneg_def)
qed

subsection \<open>Content\<close>

definition putReservation :: "Upload \<Rightarrow> int" where
  "putReservation session = (case uExpectedSize session of
       Some n \<Rightarrow> if n > 0 \<and> n < MaxUploadBytes then n else MaxUploadBytes
     | None \<Rightarrow> MaxUploadBytes)"

text \<open>
  \<open>PutUploadContent\<close> up to the rename: the state check on the row read first, the reservation and
  the checks on the streamed bytes (\<open>io.LimitReader\<close> reads one byte more than the limit).
\<close>

definition putCheck :: "(string \<Rightarrow> string) \<Rightarrow> string \<Rightarrow> string \<Rightarrow> Staging \<Rightarrow> UploadError + (string \<times> int \<times> string)" where
  "putCheck sha uid body st =
     (if \<not> stRootSet st then Inl UploadStorageNotSet
      else bindr (GetUploadContext uid (stDB st)) (\<lambda>session.
        if uState session \<noteq> Uploading then Inl (UploadBadState (uState session))
        else bindr (uploadPath (stRootSet st) uid) (\<lambda>path.
          if \<not> snd (reserveTemp (putReservation session) st) then Inl TempQuotaExceeded
          else
            let data = take (nat (MaxUploadBytes + 1)) body; sz = int (length data)
            in if sz > MaxUploadBytes then Inl UploadTooLarge
               else if (case uExpectedSize session of None \<Rightarrow> False | Some n \<Rightarrow> sz \<noteq> n) then Inl UploadSizeMismatch
               else if strOf (uExpectedSHA256 session) \<noteq> [] \<and> sha data \<noteq> strOf (uExpectedSHA256 session)
               then Inl UploadHashMismatch
               else Inr (data, sz, sha data))))"

text \<open>The rename and the row update; the update applies while the session is still uploading.\<close>

definition putPublish :: "int \<Rightarrow> string \<Rightarrow> string \<times> int \<times> string \<Rightarrow> Staging \<Rightarrow> Staging" where
  "putPublish t uid content st = (case content of (data, sz, checksum) \<Rightarrow>
     st\<lparr>stFiles := (stFiles st)(uid \<mapsto> data),
        stDB := upd_upload uid (\<lambda>u. uState u = Uploading)
          (\<lambda>u. u\<lparr>uSizeBytes := sz, uSHA256 := Some checksum, uUpdatedAt := t\<rparr>) (stDB st)\<rparr>)"

definition PutUploadContent :: "(string \<Rightarrow> string) \<Rightarrow> int \<Rightarrow> string \<Rightarrow> string \<Rightarrow> Staging \<Rightarrow> UploadError + Staging" where
  "PutUploadContent sha t uid body st = bindr (putCheck sha uid body st) (\<lambda>c. Inr (putPublish t uid c st))"

subsection \<open>Completion\<close>

definition retainedState :: "UploadState \<Rightarrow> bool" where
  "retainedState s \<longleftrightarrow> s = Uploading \<or> s = Complete \<or> s = Bound"

definition retainedBytes :: "string \<Rightarrow> OpDB \<Rightarrow> int" where
  "retainedBytes uid db =
     sum_list (map uSizeBytes (filter (\<lambda>u. uID u \<noteq> uid \<and> retainedState (uState u)) (dbUploads db)))"

definition CompleteUpload :: "int \<Rightarrow> string \<Rightarrow> Staging \<Rightarrow> UploadError + Staging" where
  "CompleteUpload t uid st =
     bindr (uploadPath (stRootSet st) uid) (\<lambda>_.
     case upload_row (stDB st) uid of
       None \<Rightarrow> Inl UploadNotFound
     | Some u \<Rightarrow>
       (case uSHA256 u of
          None \<Rightarrow> Inl UploadScanNull
        | Some sha \<Rightarrow>
          if uState u = Complete \<or> uState u = Bound then Inr st
          else if uState u \<noteq> Uploading then Inl (UploadBadState (uState u))
          else if uSizeBytes u \<le> 0 \<or> sha = [] then Inl UploadNotComplete
          else if (case uExpectedSize u of None \<Rightarrow> False | Some n \<Rightarrow> uSizeBytes u \<noteq> n) then Inl UploadSizeMismatch
          else if strOf (uExpectedSHA256 u) \<noteq> [] \<and> sha \<noteq> strOf (uExpectedSHA256 u) then Inl UploadHashMismatch
          else if stUploadLimit st > 0 \<and> retainedBytes uid (stDB st) + uSizeBytes u > stUploadLimit st
          then Inl UploadQuotaExceeded
          else if affected_by uID uid (\<lambda>u. uState u = Uploading) (dbUploads (stDB st)) \<noteq> 1
          then Inl (UploadBadState (uState u))
          else Inr (st\<lparr>stDB := upd_upload uid (\<lambda>u. uState u = Uploading)
                   (\<lambda>u. u\<lparr>uState := Complete, uUpdatedAt := t\<rparr>) (stDB st)\<rparr>)))"

subsection \<open>Binding and release\<close>

definition UploadForOperation :: "string \<Rightarrow> string \<Rightarrow> Staging \<Rightarrow> UploadError + (Upload \<times> string)" where
  "UploadForOperation operationID uid st =
     bindr (GetUploadContext uid (stDB st)) (\<lambda>session.
       if uState session \<noteq> Bound \<or> strOf (uOperationID session) \<noteq> operationID
       then Inl (UploadBadState (uState session))
       else bindr (uploadPath (stRootSet st) uid) (\<lambda>path. Inr (session, path)))"

definition removeStaged :: "string \<Rightarrow> Staging \<Rightarrow> Staging" where
  "removeStaged uid st = st\<lparr>stFiles := (stFiles st)(uid := None)\<rparr>"

text \<open>
  The lease release removes the bytes before it publishes the state; \<open>reached\<close> is how far a process
  gets before it dies (0: nothing, 1: the file is gone, 2: the row is updated too).
\<close>

definition releaseUpload :: "nat \<Rightarrow> int \<Rightarrow> string \<Rightarrow> Staging \<Rightarrow> UploadError + Staging" where
  "releaseUpload reached t operationID st =
     (case find (\<lambda>u. uOperationID u = Some operationID \<and> uState u = Bound) (dbUploads (stDB st)) of
        None \<Rightarrow> Inr st
      | Some u \<Rightarrow> bindr (uploadPath (stRootSet st) (uID u)) (\<lambda>path.
          let st1 = (if reached \<ge> 1 then removeStaged (uID u) st else st)
          in Inr (if reached \<ge> 2 then st1\<lparr>stDB := upd_upload (uID u) (\<lambda>u. uState u = Bound)
                     (\<lambda>u. u\<lparr>uState := Released, uUpdatedAt := t\<rparr>) (stDB st1)\<rparr> else st1)))"

definition expirable :: "int \<Rightarrow> Upload \<Rightarrow> bool" where
  "expirable t u \<longleftrightarrow> (uState u = Uploading \<or> uState u = Complete) \<and> uExpiresAt u < t"

definition expireOne :: "int \<Rightarrow> string \<Rightarrow> Staging \<Rightarrow> Staging" where
  "expireOne t uid st = (let st1 = removeStaged uid st in
     st1\<lparr>stDB := upd_upload uid (\<lambda>u. uState u = Uploading \<or> uState u = Complete)
       (\<lambda>u. u\<lparr>uState := Expired, uUpdatedAt := t\<rparr>) (stDB st1)\<rparr>)"

definition cleanupBatchSize :: nat where "cleanupBatchSize = 100"

end
