(* ===== verification/OpSubmit.thy ===== *)
theory OpSubmit
  imports OpLifecycle OpUploads
begin

text \<open>
  Acceptance of a command (\<open>Submit\<close> and \<open>FindIdempotencyOperation\<close> of
  \<open>internal/operations/service.go\<close>): request defaults, the fingerprint, the idempotency lookup
  that wins over every admission check, the admission checks and the insert transaction. \<open>sha\<close>
  is the hex SHA-256 digest and \<open>enc\<close> is \<open>json.Marshal\<close> of the fingerprint envelope.
\<close>

record Request =
  rqType :: string
  rqSchema :: int
  rqBaseID :: string
  rqDocumentID :: string
  rqParentOperationID :: string
  rqPrincipalRef :: string
  rqScopeRef :: string
  rqInputRef :: string
  rqInputSHA256 :: string
  rqSourceVersion :: string
  rqConfigSnapshotRef :: string
  rqModelSnapshotRef :: string
  rqExpectedTargetEpoch :: "int option"
  rqExpectedAncestorEpoch :: "int option"
  rqAllocatedGeneration :: "int option"
  rqPayload :: string
  rqIdempotencyKey :: string
  rqPriority :: int
  rqResourceClass :: string
  rqTotalUnits :: "int option"
  rqTotalBytes :: "int option"
  rqBudget :: ResourceBudget
  rqUploadID :: string
  rqPreallocateDocument :: bool

datatype FingerprintEnvelope = FingerprintEnvelope
  (fpType: string) (fpSchema: int) (fpBaseID: string) (fpParent: string) (fpPrincipal: string)
  (fpScope: string) (fpInputRef: string) (fpInputSHA256: string) (fpSourceVersion: string)
  (fpConfig: string) (fpModel: string) (fpTargetEpoch: "int option") (fpAncestorEpoch: "int option")
  (fpGeneration: "int option") (fpPayload: string)

definition fingerprintEnvelope :: "(string \<Rightarrow> string) \<Rightarrow> Request \<Rightarrow> FingerprintEnvelope" where
  "fingerprintEnvelope sha rq = FingerprintEnvelope (rqType rq) (rqSchema rq) (rqBaseID rq)
     (rqParentOperationID rq) (rqPrincipalRef rq) (rqScopeRef rq) (rqInputRef rq)
     (if rqInputSHA256 rq = [] then sha (rqPayload rq) else rqInputSHA256 rq)
     (rqSourceVersion rq) (rqConfigSnapshotRef rq) (rqModelSnapshotRef rq)
     (rqExpectedTargetEpoch rq) (rqExpectedAncestorEpoch rq) (rqAllocatedGeneration rq) (rqPayload rq)"

definition requestFingerprint :: "(string \<Rightarrow> string) \<Rightarrow> (FingerprintEnvelope \<Rightarrow> string) \<Rightarrow> Request \<Rightarrow> string" where
  "requestFingerprint sha enc rq = sha (enc (fingerprintEnvelope sha rq))"

definition legacyRequestFingerprint :: "(string \<Rightarrow> string) \<Rightarrow> string \<Rightarrow> int \<Rightarrow> string \<Rightarrow> string" where
  "legacyRequestFingerprint sha operationType schema payload =
     sha (operationType @ [CHR 0x00] @ formatInt schema @ [CHR 0x00] @ payload)"

definition fingerprintsMatch :: "(string \<Rightarrow> string) \<Rightarrow> (FingerprintEnvelope \<Rightarrow> string) \<Rightarrow> Request \<Rightarrow> OpRow \<Rightarrow> bool" where
  "fingerprintsMatch sha enc rq r =
     (eFingerprint (oEnv r) = requestFingerprint sha enc rq
      \<or> eFingerprint (oEnv r) = legacyRequestFingerprint sha (eType (oEnv r)) (eSchema (oEnv r)) (oPayload r))"

datatype SubmitError =
    UnsupportedSchema int
  | UnsupportedCommand string
  | PayloadTooLarge
  | OperationExpired
  | IdempotencyConflict
  | EnrichError string
  | DiskLowWater
  | SubmitUploadError UploadError
  | SubmitBudgetError budget_error
  | QueueFull
  | UniqueViolation
  | WriteError TxOutcome

text \<open>The defaults that are filled in before the fingerprint is taken.\<close>

definition requestDefaults :: "(string \<Rightarrow> string) \<Rightarrow> Request \<Rightarrow> Request" where
  "requestDefaults sha rq = rq\<lparr>
     rqInputRef := (if rqInputRef rq = [] \<and> rqUploadID rq \<noteq> [] then rqUploadID rq else rqInputRef rq),
     rqInputSHA256 := (if rqInputSHA256 rq = [] then sha (rqPayload rq) else rqInputSHA256 rq)\<rparr>"

text \<open>The idempotency lookup: no binding, a live operation to return, or an error.\<close>

definition bindingOf :: "string \<Rightarrow> OpDB \<Rightarrow> OpRow option" where
  "bindingOf key db = find (\<lambda>r. eIdempotencyKey (oEnv r) = Some key) (dbOps db)"

definition sameCommand :: "(string \<Rightarrow> string) \<Rightarrow> (FingerprintEnvelope \<Rightarrow> string) \<Rightarrow> Request \<Rightarrow> OpRow \<Rightarrow> bool" where
  "sameCommand sha enc rq r \<longleftrightarrow> eType (oEnv r) = rqType rq \<and> eSchema (oEnv r) = rqSchema rq
     \<and> fingerprintsMatch sha enc rq r \<and> strOf (eBaseID (oEnv r)) = rqBaseID rq
     \<and> strOf (eParentOperationID (oEnv r)) = rqParentOperationID rq
     \<and> (rqDocumentID rq = [] \<or> strOf (eDocumentID (oEnv r)) = rqDocumentID rq)"

definition lookupIdempotent :: "(string \<Rightarrow> string) \<Rightarrow> (FingerprintEnvelope \<Rightarrow> string) \<Rightarrow> int \<Rightarrow> Request \<Rightarrow> OpDB
    \<Rightarrow> SubmitError + OpRow option" where
  "lookupIdempotent sha enc t rq db =
     (if rqIdempotencyKey rq = [] then Inr None
      else case bindingOf (rqIdempotencyKey rq) db of None \<Rightarrow> Inr None
        | Some r \<Rightarrow>
            if (case oIdempotencyExpiresAt r of None \<Rightarrow> False | Some e \<Rightarrow> e \<le> t) then Inl OperationExpired
            else if \<not> sameCommand sha enc rq r then Inl IdempotencyConflict
            else Inr (Some r))"

definition FindIdempotencyOperation :: "(string \<Rightarrow> string) \<Rightarrow> (FingerprintEnvelope \<Rightarrow> string) \<Rightarrow> int \<Rightarrow> Request
    \<Rightarrow> OpDB \<Rightarrow> SubmitError + OpRow option" where
  "FindIdempotencyOperation sha enc t rq db = lookupIdempotent sha enc t (requestDefaults sha rq) db"

definition pendingState :: "OpState \<Rightarrow> bool" where
  "pendingState s \<longleftrightarrow> s = Queued \<or> s = Running \<or> s = Cancelling"

definition pendingCount :: "OpDB \<Rightarrow> int" where
  "pendingCount db = int (length (filter (\<lambda>r. pendingState (oState r)) (dbOps db)))"

definition newRow :: "string \<Rightarrow> string \<Rightarrow> int \<Rightarrow> ResourceBudget \<Rightarrow> Request \<Rightarrow> OpRow" where
  "newRow oid fingerprint t budget rq = \<lparr>oID = oid,
     oEnv = \<lparr>eType = rqType rq, eSchema = rqSchema rq, eFingerprint = fingerprint,
       eIdempotencyKey = nullString (rqIdempotencyKey rq), eBaseID = nullString (rqBaseID rq),
       eDocumentID = nullString (rqDocumentID rq), eParentOperationID = nullString (rqParentOperationID rq),
       ePrincipalRef = nullString (rqPrincipalRef rq), eScopeRef = nullString (rqScopeRef rq),
       eInputRef = nullString (rqInputRef rq), eInputSHA256 = nullString (rqInputSHA256 rq),
       eSourceVersion = nullString (rqSourceVersion rq), eConfigSnapshotRef = nullString (rqConfigSnapshotRef rq),
       eModelSnapshotRef = nullString (rqModelSnapshotRef rq), eExpectedTargetEpoch = rqExpectedTargetEpoch rq,
       eExpectedAncestorEpoch = rqExpectedAncestorEpoch rq, eAllocatedDocumentID = nullString (rqDocumentID rq),
       eAllocatedGeneration = rqAllocatedGeneration rq, eResourceClass = rqResourceClass rq,
       ePriority = rqPriority rq, eBudget = budget, eRequestedAt = t\<rparr>,
     oPayload = rqPayload rq, oState = Queued, oRevision = 1, oPhase = None, oAttempt = 0, oInstance = None,
     oCancelRequested = False, oRetryable = True, oCompletedUnits = 0, oTotalUnits = rqTotalUnits rq,
     oCompletedBytes = 0, oTotalBytes = rqTotalBytes rq, oErrorCode = None, oErrorMessage = None,
     oResult = None, oStartedAt = None, oFinishedAt = None, oUpdatedAt = t, oIdempotencyExpiresAt = None,
     oNextAttemptAt = None, oRecoveryBasis = None, oResultExpiresAt = None, oRetainedUntil = None\<rparr>"

definition bindUpload :: "int \<Rightarrow> string \<Rightarrow> Request \<Rightarrow> OpDB \<Rightarrow> SubmitError + OpDB" where
  "bindUpload t oid rq db =
     (let guard = (\<lambda>u. uBaseID u = rqBaseID rq \<and> uState u = Complete
                     \<and> (uOperationID u = None \<or> uOperationID u = Some oid))
      in if rqUploadID rq = [] then Inr db
         else if affected_by uID (rqUploadID rq) guard (dbUploads db) \<noteq> 1
         then Inl (SubmitUploadError UploadNotComplete)
         else Inr (upd_upload (rqUploadID rq) guard
                (\<lambda>u. u\<lparr>uState := Bound, uOperationID := Some oid, uUpdatedAt := t\<rparr>) db))"

text \<open>The insert transaction; the partial unique index rejects a second row with the same key.\<close>

definition submitTx :: "int \<Rightarrow> string \<Rightarrow> string \<Rightarrow> int \<Rightarrow> ResourceBudget \<Rightarrow> Request \<Rightarrow> OpDB \<Rightarrow> SubmitError + OpDB" where
  "submitTx maxPending oid fingerprint t budget rq db =
     (if pendingCount db \<ge> maxPending then Inl QueueFull
      else if op_row db oid \<noteq> None \<or> (case nullString (rqIdempotencyKey rq) of None \<Rightarrow> False
               | Some k \<Rightarrow> bindingOf k db \<noteq> None) then Inl UniqueViolation
      else bindr (bindUpload t oid rq (db\<lparr>dbOps := ins_by (newRow oid fingerprint t budget rq) (dbOps db)\<rparr>))
             (\<lambda>db1. Inr (insertEvent oid 1 ''submitted'' (EvSubmitted fingerprint) t db1)))"

definition uploadAdmission :: "Request \<Rightarrow> OpDB \<Rightarrow> SubmitError + Request" where
  "uploadAdmission rq db =
     (if rqUploadID rq = [] then Inr rq
      else case GetUploadContext (rqUploadID rq) db of Inl e \<Rightarrow> Inl (SubmitUploadError e)
        | Inr u \<Rightarrow>
            if uBaseID u \<noteq> rqBaseID rq then Inl (SubmitUploadError UploadScopeMismatch)
            else if uState u \<noteq> Complete \<and> uState u \<noteq> Bound then Inl (SubmitUploadError UploadNotComplete)
            else Inr (if rqTotalBytes rq = None then rq\<lparr>rqTotalBytes := Some (uSizeBytes u)\<rparr> else rq))"

definition diskLow :: "int option \<Rightarrow> ResourceLimits \<Rightarrow> bool" where
  "diskLow freeBytes l = (case freeBytes of None \<Rightarrow> False
     | Some n \<Rightarrow> lDiskLowWaterBytes l > 0 \<and> n > 0 \<and> n < lDiskLowWaterBytes l)"

text \<open>
  Everything after the idempotency lookup found no binding. \<open>enrich\<close> is the application's snapshot
  resolver, \<open>freeBytes\<close> the disk probe, \<open>docID\<close> and \<open>oid\<close> the fresh random identifiers.
\<close>

definition admitNew :: "(Request \<Rightarrow> string + Request) \<Rightarrow> int option \<Rightarrow> string \<Rightarrow> string \<Rightarrow> int \<Rightarrow> string \<Rightarrow> Request
    \<Rightarrow> Service \<Rightarrow> SubmitError + OpDB" where
  "admitNew enrich freeBytes docID oid t fingerprint rq sv =
     (case enrich rq of Inl e \<Rightarrow> Inl (EnrichError e)
      | Inr rq1 \<Rightarrow>
          if diskLow freeBytes (svLimits sv) then Inl DiskLowWater
          else bindr (uploadAdmission rq1 (svDB sv)) (\<lambda>rq2.
            case resolveResourceBudget (svLimits sv) (rqResourceClass rq2) (rqTotalBytes rq2) (rqBudget rq2) of
              Inl e \<Rightarrow> Inl (SubmitBudgetError e)
            | Inr budget \<Rightarrow>
                let rq3 = (if rqPreallocateDocument rq2 then rq2\<lparr>rqDocumentID := docID\<rparr> else rq2)
                in submitTx (svMaxPending sv) oid fingerprint t budget rq3 (svDB sv)))"

definition recordRejected :: "string \<Rightarrow> Service \<Rightarrow> Service" where
  "recordRejected ty sv =
     (let ty' = (if trimSpace ty = [] then ''unknown'' else ty)
      in sv\<lparr>svRejected := (svRejected sv)(ty' \<mapsto> getc (svRejected sv) ty' + 1)\<rparr>)"

definition Submit :: "(string \<Rightarrow> string) \<Rightarrow> (FingerprintEnvelope \<Rightarrow> string) \<Rightarrow> (Request \<Rightarrow> string + Request)
    \<Rightarrow> int option \<Rightarrow> string \<Rightarrow> string \<Rightarrow> TxOutcome \<Rightarrow> int \<Rightarrow> Request \<Rightarrow> Service
    \<Rightarrow> Service \<times> (SubmitError + OpRow)" where
  "Submit sha enc enrich freeBytes docID oid out t rq0 sv =
     (let reject = (\<lambda>e. (recordRejected (rqType rq0) sv, Inl e)) in
      if rqSchema rq0 \<noteq> CommandSchemaV1 then reject (UnsupportedSchema (rqSchema rq0))
      else if int (length (rqPayload rq0)) > svMaxPayload sv then reject PayloadTooLarge
      else if rqType rq0 \<notin> set (svRegistry sv) then reject (UnsupportedCommand (rqType rq0))
      else
        let rq1 = requestDefaults sha (if rqResourceClass rq0 = [] then rq0\<lparr>rqResourceClass := ''io''\<rparr> else rq0);
            fingerprint = requestFingerprint sha enc rq1;
            rq = rq1\<lparr>rqPriority := schedulingPriority (rqType rq1) (rqPriority rq1)\<rparr>
        in case lookupIdempotent sha enc t rq (svDB sv) of
             Inl e \<Rightarrow> reject e
           | Inr (Some r) \<Rightarrow> (sv, Inr r)
           | Inr None \<Rightarrow>
               (case admitNew enrich freeBytes docID oid t fingerprint rq sv of
                  Inl e \<Rightarrow> reject e
                | Inr db' \<Rightarrow>
                    (case out of
                       TxCommitted \<Rightarrow> (case op_row db' oid of
                           None \<Rightarrow> reject (WriteError out) | Some r \<Rightarrow> (sv\<lparr>svDB := db'\<rparr>, Inr r))
                     | TxUnknown True \<Rightarrow> (recordRejected (rqType rq0) (sv\<lparr>svDB := db'\<rparr>), Inl (WriteError out))
                     | _ \<Rightarrow> reject (WriteError out))))"

end
