(* ===== verification/OpService.thy ===== *)
theory OpService
  imports OpRowMachine OpSubmit
begin

text \<open>
  Releasing the payloads of operations whose idempotency window is over
  (\<open>expireTerminalOperationPayloads\<close> of \<open>internal/operations/service.go\<close>), batch by batch.
\<close>

subsection \<open>Releasing expired payloads\<close>

definition payloadExpirable :: "int \<Rightarrow> OpRow \<Rightarrow> bool" where
  "payloadExpirable t r \<longleftrightarrow> (case oIdempotencyExpiresAt r of None \<Rightarrow> False | Some e \<Rightarrow> e < t)
     \<and> spent_state r \<and> (oPayload r \<noteq> [] \<or> oResult r \<noteq> None)"

definition expireBatchIDs :: "int \<Rightarrow> OpDB \<Rightarrow> string list" where
  "expireBatchIDs t db = map oID (take cleanupBatchSize
     (sort_key (\<lambda>r. (case oIdempotencyExpiresAt r of None \<Rightarrow> 0 | Some e \<Rightarrow> e, oID r))
       (filter (payloadExpirable t) (dbOps db))))"

definition expireBatch :: "int \<Rightarrow> OpDB \<Rightarrow> OpDB" where
  "expireBatch t db = (let ids = expireBatchIDs t db in
     db\<lparr>dbOps := map (\<lambda>r. if oID r \<in> set ids \<and> (oPayload r \<noteq> [] \<or> oResult r \<noteq> None)
        then expireRow t r else r) (dbOps db)\<rparr>)"

definition expireAffected :: "int \<Rightarrow> OpDB \<Rightarrow> nat" where
  "expireAffected t db = (let ids = expireBatchIDs t db in
     length (filter (\<lambda>r. oID r \<in> set ids \<and> (oPayload r \<noteq> [] \<or> oResult r \<noteq> None)) (dbOps db)))"

definition payloadBacklog :: "int \<Rightarrow> OpDB \<Rightarrow> nat" where
  "payloadBacklog t db = length (filter (payloadExpirable t) (dbOps db))"

lemma expireRow_not_expirable [simp]: "\<not> payloadExpirable t (expireRow t' r)"
  by (simp add: payloadExpirable_def expireRow_def)

lemma expireBatch_backlog:
  assumes "expireAffected t db \<noteq> 0"
  shows "payloadBacklog t (expireBatch t db) < payloadBacklog t db"
proof -
  let ?f = "\<lambda>r. if oID r \<in> set (expireBatchIDs t db) \<and> (oPayload r \<noteq> [] \<or> oResult r \<noteq> None)
    then expireRow t r else r"
  have "expireBatchIDs t db \<noteq> []"
    using assms by (auto simp: expireAffected_def Let_def)
  then obtain i where i: "i \<in> set (expireBatchIDs t db)"
    by (cases "expireBatchIDs t db") auto
  then obtain r where "oID r = i" "r \<in> set (filter (payloadExpirable t) (dbOps db))"
    unfolding expireBatchIDs_def by (auto dest!: in_set_takeD)
  with i have r: "r \<in> set (filter (payloadExpirable t) (dbOps db))" "oID r \<in> set (expireBatchIDs t db)"
    by auto
  then have pe: "payloadExpirable t r" and mem: "r \<in> set (dbOps db)" by simp_all
  then have "oPayload r \<noteq> [] \<or> oResult r \<noteq> None" by (simp add: payloadExpirable_def)
  with r have "?f r = expireRow t r" by simp
  then have gone: "\<not> payloadExpirable t (?f r)" by simp
  have bwd: "payloadExpirable t (?f q) \<Longrightarrow> payloadExpirable t q" for q
    using expireRow_not_expirable [of t t q] by presburger
  have "length (filter (payloadExpirable t) (map ?f (dbOps db))) < length (filter (payloadExpirable t) (dbOps db))"
    using length_filter_map_less [where P = "payloadExpirable t" and f = ?f and xs = "dbOps db" and x = r,
      OF bwd mem pe gone] .
  then show ?thesis
    by (simp add: payloadBacklog_def expireBatch_def Let_def)
qed

text \<open>The loop runs batches until one is not full.\<close>

function expireTerminalOperationPayloads :: "int \<Rightarrow> OpDB \<Rightarrow> OpDB" where
  "expireTerminalOperationPayloads t db =
     (if expireAffected t db < cleanupBatchSize then expireBatch t db
      else expireTerminalOperationPayloads t (expireBatch t db))"
  by pat_completeness auto
termination
  by (relation "measure (\<lambda>(t, db). payloadBacklog t db)")
    (auto intro!: expireBatch_backlog simp: cleanupBatchSize_def)

declare expireTerminalOperationPayloads.simps [simp del]

lemma expireBatch_row_ids [simp]: "row_ids (expireBatch t db) = row_ids db"
  by (auto simp: expireBatch_def row_ids_def Let_def comp_def intro!: map_cong)

lemma expireBatchIDs_expirable:
  assumes "uniq_by oID (dbOps db)" "r \<in> set (dbOps db)" "oID r \<in> set (expireBatchIDs t db)"
  shows "payloadExpirable t r"
proof -
  from assms(3) obtain r' where r': "oID r' = oID r" "r' \<in> set (dbOps db)" "payloadExpirable t r'"
    by (auto simp: expireBatchIDs_def dest!: in_set_takeD)
  then have "r' = r"
    using assms(1,2) by (metis option.inject sel_by_uniq)
  with r' show ?thesis by simp
qed

lemma expireBatch_row:
  "op_row (expireBatch t db) x = map_option (\<lambda>r. if oID r \<in> set (expireBatchIDs t db)
     \<and> (oPayload r \<noteq> [] \<or> oResult r \<noteq> None) then expireRow t r else r) (op_row db x)"
proof -
  let ?f = "\<lambda>r. if oID r \<in> set (expireBatchIDs t db) \<and> (oPayload r \<noteq> [] \<or> oResult r \<noteq> None)
    then expireRow t r else r"
  have "find (\<lambda>r. oID r = x) (map ?f xs) = map_option ?f (find (\<lambda>r. oID r = x) xs)" for xs
    by (induction xs) auto
  then show ?thesis by (simp add: expireBatch_def Let_def sel_by_def)
qed

lemma expireBatch_steps:
  assumes "uniq_by oID (dbOps db)"
  shows "db_steps db (expireBatch t db)"
  unfolding db_steps_def
proof (intro allI impI)
  fix x r
  assume r: "op_row db x = Some r"
  let ?r' = "if oID r \<in> set (expireBatchIDs t db) \<and> (oPayload r \<noteq> [] \<or> oResult r \<noteq> None)
    then expireRow t r else r"
  have "op_steps r ?r'"
  proof (cases "oID r \<in> set (expireBatchIDs t db)")
    case True
    then have "spent_state r"
      using assms r expireBatchIDs_expirable by (auto simp: payloadExpirable_def dest!: sel_by_mem)
    then show ?thesis using op_step.expire by auto
  qed simp
  with r show "\<exists>r'. op_row (expireBatch t db) x = Some r' \<and> op_steps r r'"
    by (simp add: expireBatch_row)
qed

lemma expireLoop_evolves:
  "uniq_by oID (dbOps db) \<Longrightarrow>
     row_ids (expireTerminalOperationPayloads t db) = row_ids db
     \<and> db_steps db (expireTerminalOperationPayloads t db)"
proof (induction t db rule: expireTerminalOperationPayloads.induct)
  case (1 t db)
  show ?case
  proof (cases "expireAffected t db < cleanupBatchSize")
    case True
    with 1 show ?thesis
      by (simp add: expireTerminalOperationPayloads.simps [of t db] expireBatch_steps)
  next
    case False
    have "uniq_by oID (dbOps (expireBatch t db))"
      using "1.prems" row_ids_uniq [of "expireBatch t db" db] by simp
    with "1.IH" False have "row_ids (expireTerminalOperationPayloads t (expireBatch t db)) = row_ids db
       \<and> db_steps (expireBatch t db) (expireTerminalOperationPayloads t (expireBatch t db))" by simp
    with False "1.prems" show ?thesis
      by (auto simp: expireTerminalOperationPayloads.simps [of t db] intro: db_steps_trans expireBatch_steps)
  qed
qed

end
