(* ===== verification/OpMachine.thy ===== *)
theory OpMachine
  imports OpService
begin

text \<open>
  The operation service as a machine: construction and configuration, the steps that clients,
  workers and restarts make in any order, the invariant of the reachable states, and the
  properties of the durable queue that rest on it.
\<close>

subsection \<open>Construction and configuration\<close>

definition defaultLimits :: "int \<Rightarrow> ResourceLimits" where
  "defaultLimits workers = \<lparr>lIO = (if workers < 1 then 1 else workers), lDBWrite = 1, lDisk = 1,
     lNetwork = 1, lModel = 1, lMaintenance = 1, lMaxPerBase = 2, lMemoryBytes = 2 * GiB,
     lDiskBytes = 10 * GiB, lDiskLowWaterBytes = 256 * MiB, lUploadBytes = 512 * MiB, lTempBytes = GiB\<rparr>"

abbreviation DefaultIdempotencyRetentionHours :: int where "DefaultIdempotencyRetentionHours \<equiv> 168"

definition NewWithUploadRoot :: "string \<Rightarrow> int \<Rightarrow> OpDB \<Rightarrow> Service" where
  "NewWithUploadRoot inst workers db = \<lparr>svDB = db, svSched = newScheduler (defaultLimits workers),
     svInstanceID = inst, svRegistry = [], svMaxPending = 1000, svMaxPayload = MiB,
     svIdempotencyMS = DefaultIdempotencyRetentionHours * 3600000, svLimits = defaultLimits workers,
     svRejected = Map.empty, svClaims = [], svLost = []\<rparr>"

definition SetResourceLimits :: "ResourceLimits \<Rightarrow> Service \<Rightarrow> Service" where
  "SetResourceLimits l sv = (let l' = normalizeLimits l
     in sv\<lparr>svLimits := l', svSched := newScheduler l'\<rparr>)"

definition SetQueueLimit :: "int \<Rightarrow> Service \<Rightarrow> Service" where
  "SetQueueLimit limit sv = sv\<lparr>svMaxPending :=
     (if limit < 1 then 1 else if limit > 100000 then 100000 else limit)\<rparr>"

definition SetIdempotencyRetentionHours :: "int \<Rightarrow> Service \<Rightarrow> Service" where
  "SetIdempotencyRetentionHours hours sv = sv\<lparr>svIdempotencyMS :=
     (if hours < 0 then 0 else hours) * 3600000\<rparr>"

definition Register :: "string \<Rightarrow> Service \<Rightarrow> Service" where
  "Register ty sv = sv\<lparr>svRegistry := (if ty \<in> set (svRegistry sv) then svRegistry sv else ty # svRegistry sv)\<rparr>"

definition emptyDB :: OpDB where "emptyDB = \<lparr>dbOps = [], dbEvents = [], dbUploads = []\<rparr>"

subsection \<open>Steps\<close>

text \<open>
  The parameters are the digest, the envelope encoding and \<open>SafeErrorMessage\<close>. The worker's report
  and finish carry any attempt number (a late worker may hold an old one); a cancel acts on any
  snapshot; the retry's snapshot is the current row; \<open>uploads\<close> stands for the upload handlers,
  which leave the operation rows alone. Configuration happens before \<open>Start\<close>, so no step changes it.
\<close>

inductive svc_step :: "(string \<Rightarrow> string) \<Rightarrow> (FingerprintEnvelope \<Rightarrow> string) \<Rightarrow> (string \<Rightarrow> string)
    \<Rightarrow> Service \<Rightarrow> Service \<Rightarrow> bool"
  for sha enc safe where
  submit: "Submit sha enc enrich free docID oid out t rq sv = (sv', res) \<Longrightarrow> svc_step sha enc safe sv sv'"
| claim: "claimNext out claimAt t class sv = (sv', res) \<Longrightarrow> svc_step sha enc safe sv sv'"
| report: "svc_step sha enc safe sv (sv\<lparr>svDB := reportContext t oid a p (svDB sv)\<rparr>)"
| finish: "d = finishDecision safe (svMaxPayload sv) requested result runErr
    \<Longrightarrow> svc_step sha enc safe sv (sv\<lparr>svDB := finishTx (svIdempotencyMS sv) t oid a d (svDB sv)\<rparr>)"
| cancel: "svc_step sha enc safe sv (sv\<lparr>svDB := CancelContext t op (svDB sv)\<rparr>)"
| retry: "op_row (svDB sv) (oID op) = Some op \<Longrightarrow> RetryContext t op (svDB sv) = Inr db'
    \<Longrightarrow> svc_step sha enc safe sv (sv\<lparr>svDB := db'\<rparr>)"
| leave: "svc_step sha enc safe sv (endClaim c sv)"
| expire: "svc_step sha enc safe sv (sv\<lparr>svDB := expireTerminalOperationPayloads t (svDB sv)\<rparr>)"
| uploads: "dbOps db' = dbOps (svDB sv) \<Longrightarrow> svc_step sha enc safe sv (sv\<lparr>svDB := db'\<rparr>)"
| restart: "svc_step sha enc safe sv (restart inst t sv)"

inductive_cases svc_stepE: "svc_step sha enc safe sv sv'"

abbreviation svc_steps where "svc_steps sha enc safe \<equiv> (svc_step sha enc safe)\<^sup>*\<^sup>*"

text \<open>A service freshly configured over an empty database.\<close>

definition svc_init :: "Service \<Rightarrow> bool" where
  "svc_init sv \<longleftrightarrow> (\<exists>inst workers l limit hours reg.
     sv = foldr Register reg (SetIdempotencyRetentionHours hours (SetQueueLimit limit
            (SetResourceLimits l (NewWithUploadRoot inst workers emptyDB)))))"

definition svc_reachable where
  "svc_reachable sha enc safe sv \<longleftrightarrow> (\<exists>sv0. svc_init sv0 \<and> svc_steps sha enc safe sv0 sv)"

subsection \<open>Acceptance\<close>

lemma bindUpload_ops: "bindUpload t oid rq db = Inr db' \<Longrightarrow> dbOps db' = dbOps db"
  by (auto simp: bindUpload_def Let_def split: if_splits)

lemma submitTx_Inr:
  assumes "submitTx mp oid fp t b rq db = Inr db'"
  shows "pendingCount db < mp" "op_row db oid = None"
    "case nullString (rqIdempotencyKey rq) of None \<Rightarrow> True | Some k \<Rightarrow> bindingOf k db = None"
    "dbOps db' = dbOps db @ [newRow oid fp t b rq]"
  using assms
  by (auto simp: submitTx_def ins_by_def bindr_Inr dest!: bindUpload_ops split: if_splits option.splits)

lemma uploadAdmission_Inr:
  "uploadAdmission rq db = Inr rq' \<Longrightarrow> rq' = rq\<lparr>rqTotalBytes := rqTotalBytes rq'\<rparr>"
  by (auto simp: uploadAdmission_def split: if_splits sum.splits)

text \<open>The request whose columns the new row holds: enriched, sized from its upload, with its document.\<close>

definition admitted_request :: "(Request \<Rightarrow> string + Request) \<Rightarrow> string \<Rightarrow> Request \<Rightarrow> Request \<Rightarrow> bool" where
  "admitted_request enrich docID rq rq' \<longleftrightarrow> (\<exists>rq1 tb. enrich rq = Inr rq1
     \<and> rq' = (if rqPreallocateDocument rq1 then rq1\<lparr>rqTotalBytes := tb, rqDocumentID := docID\<rparr>
              else rq1\<lparr>rqTotalBytes := tb\<rparr>))"

lemma admitNew_Inr:
  assumes "admitNew enrich free docID oid t fp rq sv = Inr db'"
  shows "\<exists>rq' b. admitted_request enrich docID rq rq' \<and> budget_ok (svLimits sv) b
     \<and> submitTx (svMaxPending sv) oid fp t b rq' (svDB sv) = Inr db'"
proof -
  obtain rq1 where rq1: "enrich rq = Inr rq1" using assms by (auto simp: admitNew_def split: sum.splits)
  with assms obtain rq2 where rq2: "uploadAdmission rq1 (svDB sv) = Inr rq2"
    by (auto simp: admitNew_def bindr_Inr split: if_splits)
  let ?rq3 = "if rqPreallocateDocument rq2 then rq2\<lparr>rqDocumentID := docID\<rparr> else rq2"
  from assms rq1 rq2 obtain b where
    b: "resolveResourceBudget (svLimits sv) (rqResourceClass rq2) (rqTotalBytes rq2) (rqBudget rq2) = Inr b"
      "submitTx (svMaxPending sv) oid fp t b ?rq3 (svDB sv) = Inr db'"
    by (auto simp: admitNew_def Let_def split: if_splits sum.splits)
  from rq2 have "rq2 = rq1\<lparr>rqTotalBytes := rqTotalBytes rq2\<rparr>" by (rule uploadAdmission_Inr)
  then obtain tb where "rq2 = rq1\<lparr>rqTotalBytes := tb\<rparr>" by blast
  with rq1 have "admitted_request enrich docID rq ?rq3"
    by (auto simp: admitted_request_def)
  with b show ?thesis using resolveResourceBudget_ok by blast
qed

lemma recordRejected_simps [simp]:
  "svDB (recordRejected ty sv) = svDB sv" "svLimits (recordRejected ty sv) = svLimits sv"
  "svSched (recordRejected ty sv) = svSched sv" "svClaims (recordRejected ty sv) = svClaims sv"
  "svLost (recordRejected ty sv) = svLost sv" "svMaxPending (recordRejected ty sv) = svMaxPending sv"
  by (simp_all add: recordRejected_def Let_def)

text \<open>The request as the admission checks see it, and its fingerprint.\<close>

definition looked_up :: "(string \<Rightarrow> string) \<Rightarrow> Request \<Rightarrow> Request" where
  "looked_up sha rq0 = (let rq1 = requestDefaults sha (if rqResourceClass rq0 = [] then rq0\<lparr>rqResourceClass := ''io''\<rparr> else rq0)
     in rq1\<lparr>rqPriority := schedulingPriority (rqType rq1) (rqPriority rq1)\<rparr>)"

definition command_print :: "(string \<Rightarrow> string) \<Rightarrow> (FingerprintEnvelope \<Rightarrow> string) \<Rightarrow> Request \<Rightarrow> string" where
  "command_print sha enc rq0 =
     requestFingerprint sha enc (requestDefaults sha (if rqResourceClass rq0 = [] then rq0\<lparr>rqResourceClass := ''io''\<rparr> else rq0))"

lemma Submit_cases:
  assumes "Submit sha enc enrich free docID oid out t rq0 sv = (sv', res)"
  obtains (same) "svDB sv' = svDB sv" "svLimits sv' = svLimits sv" "svSched sv' = svSched sv"
      "svClaims sv' = svClaims sv" "svLost sv' = svLost sv"
  | (stored) db' where "svDB sv' = db'" "svLimits sv' = svLimits sv" "svSched sv' = svSched sv"
      "svClaims sv' = svClaims sv" "svLost sv' = svLost sv"
      "admitNew enrich free docID oid t (command_print sha enc rq0) (looked_up sha rq0) sv = Inr db'"
  using assms
  by (auto simp: Submit_def Let_def looked_up_def command_print_def
      split: if_splits sum.splits option.splits TxOutcome.splits bool.splits)

lemma Submit_eq:
  "Submit sha enc enrich free docID oid out t rq0 sv =
     (let reject = (\<lambda>e. (recordRejected (rqType rq0) sv, Inl e)) in
      if rqSchema rq0 \<noteq> CommandSchemaV1 then reject (UnsupportedSchema (rqSchema rq0))
      else if int (length (rqPayload rq0)) > svMaxPayload sv then reject PayloadTooLarge
      else if rqType rq0 \<notin> set (svRegistry sv) then reject (UnsupportedCommand (rqType rq0))
      else case lookupIdempotent sha enc t (looked_up sha rq0) (svDB sv) of
             Inl e \<Rightarrow> reject e
           | Inr (Some r) \<Rightarrow> (sv, Inr r)
           | Inr None \<Rightarrow>
               (case admitNew enrich free docID oid t (command_print sha enc rq0) (looked_up sha rq0) sv of
                  Inl e \<Rightarrow> reject e
                | Inr db' \<Rightarrow>
                    (case out of
                       TxCommitted \<Rightarrow> (case op_row db' oid of
                           None \<Rightarrow> reject (WriteError out) | Some r \<Rightarrow> (sv\<lparr>svDB := db'\<rparr>, Inr r))
                     | TxUnknown True \<Rightarrow> (recordRejected (rqType rq0) (sv\<lparr>svDB := db'\<rparr>), Inl (WriteError out))
                     | _ \<Rightarrow> reject (WriteError out))))"
  unfolding Submit_def looked_up_def command_print_def Let_def ..

lemma Submit_accepted:
  assumes sub: "Submit sha enc enrich free docID oid out t rq0 sv = (sv', Inr r)"
    and new: "lookupIdempotent sha enc t (looked_up sha rq0) (svDB sv) = Inr None"
  shows "admitNew enrich free docID oid t (command_print sha enc rq0) (looked_up sha rq0) sv = Inr (svDB sv')"
    "op_row (svDB sv') oid = Some r" "sv' = sv\<lparr>svDB := svDB sv'\<rparr>"
    "rqSchema rq0 = CommandSchemaV1" "int (length (rqPayload rq0)) \<le> svMaxPayload sv"
    "rqType rq0 \<in> set (svRegistry sv)"
proof -
  show 1: "rqSchema rq0 = CommandSchemaV1"
    by (rule ccontr) (use sub in \<open>simp add: Submit_eq\<close>)
  show 2: "int (length (rqPayload rq0)) \<le> svMaxPayload sv"
    by (rule ccontr) (use sub 1 in \<open>simp add: Submit_eq\<close>)
  show 3: "rqType rq0 \<in> set (svRegistry sv)"
    by (rule ccontr) (use sub 1 2 in \<open>simp add: Submit_eq\<close>)
  obtain db' where adm: "admitNew enrich free docID oid t (command_print sha enc rq0) (looked_up sha rq0) sv = Inr db'"
    using sub 1 2 3 new
    by (cases "admitNew enrich free docID oid t (command_print sha enc rq0) (looked_up sha rq0) sv")
      (auto simp: Submit_eq Let_def)
  have out: "out = TxCommitted"
    using sub 1 2 3 new adm by (cases out) (auto simp: Submit_eq Let_def split: bool.splits)
  obtain r' where r': "op_row db' oid = Some r'"
    using sub 1 2 3 new adm out by (cases "op_row db' oid") (auto simp: Submit_eq Let_def)
  have "sv' = sv\<lparr>svDB := db'\<rparr> \<and> r' = r"
    using sub 1 2 3 new adm out r' by (simp add: Submit_eq Let_def)
  with adm r' show "admitNew enrich free docID oid t (command_print sha enc rq0) (looked_up sha rq0) sv = Inr (svDB sv')"
    "op_row (svDB sv') oid = Some r" "sv' = sv\<lparr>svDB := svDB sv'\<rparr>"
    by auto
qed

subsection \<open>The invariant\<close>

definition rows_inv :: "ResourceLimits \<Rightarrow> OpDB \<Rightarrow> bool" where
  "rows_inv l db \<longleftrightarrow> uniq_by oID (dbOps db)
     \<and> (\<forall>r \<in> set (dbOps db). row_ok r \<and> budget_ok l (eBudget (oEnv r)))
     \<and> (\<forall>r \<in> set (dbOps db). \<forall>q \<in> set (dbOps db). \<forall>k.
          eIdempotencyKey (oEnv r) = Some k \<and> eIdempotencyKey (oEnv q) = Some k \<longrightarrow> oID r = oID q)"

definition reserved :: "Service \<Rightarrow> reservation multiset" where
  "reserved sv = mset (map snd (svClaims sv)) + mset (svLost sv)"

definition svc_inv :: "Service \<Rightarrow> bool" where
  "svc_inv sv \<longleftrightarrow> rows_inv (svLimits sv) (svDB sv) \<and> limits_ok (svLimits sv)
     \<and> sLimits (svSched sv) = svLimits sv \<and> sched_holds (svSched sv) (reserved sv)"

lemma svc_inv_rows: "svc_inv sv \<Longrightarrow> rows_inv (svLimits sv) (svDB sv)"
  by (simp add: svc_inv_def)

lemma rows_inv_uniq: "rows_inv l db \<Longrightarrow> uniq_by oID (dbOps db)"
  by (simp only: rows_inv_def)

lemma rows_inv_row: "rows_inv l db \<Longrightarrow> op_row db x = Some r \<Longrightarrow> row_ok r \<and> budget_ok l (eBudget (oEnv r))"
  by (auto simp: rows_inv_def dest!: sel_by_mem)

lemma rows_inv_steps:
  assumes inv: "rows_inv l db" and ids: "row_ids db' = row_ids db" and steps: "db_steps db db'"
  shows "rows_inv l db'"
proof -
  have uniq: "uniq_by oID (dbOps db')" using inv row_ids_uniq [OF ids] by (simp add: rows_inv_def)
  have origin: "\<exists>r \<in> set (dbOps db). op_steps r r'" if "r' \<in> set (dbOps db')" for r'
  proof -
    have "op_row db' (oID r') = Some r'" using that uniq by (simp add: sel_by_uniq)
    then obtain r where "op_row db (oID r') = Some r" "op_steps r r'"
      using db_steps_back [OF ids steps] by blast
    then show ?thesis by (auto dest!: sel_by_mem)
  qed
  have "row_ok r' \<and> budget_ok l (eBudget (oEnv r'))" if r': "r' \<in> set (dbOps db')" for r'
  proof -
    obtain r where "r \<in> set (dbOps db)" "op_steps r r'" using origin [OF r'] by blast
    with inv show ?thesis by (auto simp: rows_inv_def dest: op_steps_ok op_steps_identity)
  qed
  moreover have "oID r' = oID q'" if m: "r' \<in> set (dbOps db')" "q' \<in> set (dbOps db')"
    "eIdempotencyKey (oEnv r') = Some k" "eIdempotencyKey (oEnv q') = Some k" for r' q' k
  proof -
    obtain r where r: "r \<in> set (dbOps db)" "op_steps r r'" using origin [OF m(1)] by blast
    obtain q where q: "q \<in> set (dbOps db)" "op_steps q q'" using origin [OF m(2)] by blast
    note same = op_steps_identity [OF r(2)] op_steps_identity [OF q(2)]
    have "\<forall>k. eIdempotencyKey (oEnv r) = Some k \<and> eIdempotencyKey (oEnv q) = Some k \<longrightarrow> oID r = oID q"
      using inv r(1) q(1) unfolding rows_inv_def by blast
    with same m(3,4) show ?thesis by simp
  qed
  ultimately show ?thesis using uniq unfolding rows_inv_def by blast
qed

lemma bindingOf_None: "bindingOf k db = None \<longleftrightarrow> (\<forall>r \<in> set (dbOps db). eIdempotencyKey (oEnv r) \<noteq> Some k)"
  by (auto simp: bindingOf_def find_None_iff)

lemma newRow_simps [simp]:
  "oID (newRow oid fp t b rq) = oid" "oState (newRow oid fp t b rq) = Queued"
  "eBudget (oEnv (newRow oid fp t b rq)) = b" "row_ok (newRow oid fp t b rq)"
  "eIdempotencyKey (oEnv (newRow oid fp t b rq)) = nullString (rqIdempotencyKey rq)"
  by (simp_all add: newRow_def row_ok_def)

lemma submitTx_inv:
  assumes inv: "rows_inv l db" and tx: "submitTx mp oid fp t b rq db = Inr db'" and b: "budget_ok l b"
  shows "rows_inv l db'" "db_steps db db'"
proof -
  note new = submitTx_Inr [OF tx]
  have "uniq_by oID (dbOps db')"
    using inv new(2,4) ops.wf_ins [of "dbOps db" "newRow oid fp t b rq"]
    by (simp add: rows_inv_def ins_by_def)
  moreover have "\<forall>r \<in> set (dbOps db). nullString (rqIdempotencyKey rq) = Some k \<longrightarrow> eIdempotencyKey (oEnv r) \<noteq> Some k" for k
    using new(3) by (auto simp: bindingOf_None split: option.splits)
  ultimately show "rows_inv l db'"
    using inv b new(4) unfolding rows_inv_def by auto
  show "db_steps db db'"
    using new(2,4) by (auto simp: db_steps_def sel_by_append)
qed

text \<open>Claims and releases keep what the scheduler holds equal to what the workers hold.\<close>

lemma claimCandidates_mem:
  "c \<in> set (claimCandidates a class db) \<Longrightarrow> c \<in> set (dbOps db) \<and> claimable a class c"
  by (auto simp: claimCandidates_def dest!: in_set_takeD)

lemma first_granted_mem: "first_granted rsv acc cs s = (s', Some c) \<Longrightarrow> c \<in> set cs"
  by (induction cs arbitrary: s) (auto split: prod.splits if_splits)

lemma claimTx_sched:
  assumes inv: "svc_inv sv" and tx: "claimTx a t class sv = (db', sch, picked, prepared)"
  shows "case picked of None \<Rightarrow> sch = svSched sv
     | Some c \<Rightarrow> sched_holds sch (add_mset (rowReservation c) (reserved sv)) \<and> sLimits sch = svLimits sv"
proof -
  have fg: "first_granted reserve_r rowReservation (claimCandidates a class (svDB sv)) (svSched sv) = (sch, picked)"
    using tx by (auto simp: claimTx_def Let_def split: prod.splits option.splits if_splits)
  show ?thesis
  proof (cases picked)
    case None
    with fg show ?thesis by (auto dest: sched.first_granted_None)
  next
    case (Some c)
    have "c \<in> set (claimCandidates a class (svDB sv))"
      using fg Some by (auto dest: first_granted_mem)
    then have "budget_ok (svLimits sv) (eBudget (oEnv c))"
      using inv claimCandidates_mem [of c] by (auto simp: svc_inv_def rows_inv_def)
    then have "proper_budget (snd (rowReservation c))"
      by (simp add: rowReservation_def proper_budget_def budget_ok_def)
    then have "sched_holds sch (add_mset (rowReservation c) (reserved sv))"
      using inv fg Some sched.first_granted_holds by (auto simp: svc_inv_def)
    moreover from fg Some have "\<exists>s0. reserve_r (rowReservation c) (svSched sv) = (sch, True)"
      by (auto dest: sched.first_granted_Some)
    then have "sLimits sch = sLimits (svSched sv)"
      by (auto simp: reserve_r_def reserve_def split: if_splits)
    ultimately show ?thesis using Some inv by (simp add: svc_inv_def)
  qed
qed

lemma release_r_limits [simp]: "sLimits (release_r r s) = sLimits s"
  by (simp add: release_r_def release_def)

lemma claimNext_inv:
  assumes inv: "svc_inv sv" and cl: "claimNext out a t class sv = (sv', res)"
  shows "svc_inv sv'"
proof -
  obtain db' sch picked prepared where tx: "claimTx a t class sv = (db', sch, picked, prepared)"
    by (metis prod_cases4)
  note held = claimTx_sched [OF inv tx]
  have rows: "rows_inv (svLimits sv) (svDB sv')"
  proof (rule rows_inv_steps [of "svLimits sv" "svDB sv"])
    show "rows_inv (svLimits sv) (svDB sv)" using inv by (simp add: svc_inv_def)
    show "row_ids (svDB sv') = row_ids (svDB sv)"
      using claimNext_row_ids [of out a t "class" sv] by (simp add: cl)
    show "db_steps (svDB sv) (svDB sv')"
      using claimNext_steps [of sv out a t "class"] by (simp add: cl)
  qed
  have "svLimits sv' = svLimits sv \<and> sLimits (svSched sv') = svLimits sv
      \<and> sched_holds (svSched sv') (reserved sv')"
  proof (cases picked)
    case None
    with held cl tx inv show ?thesis
      by (auto simp: claimNext_def svc_inv_def reserved_def split: TxOutcome.splits)
  next
    case (Some c)
    with held have h: "sched_holds sch (add_mset (rowReservation c) (reserved sv))" "sLimits sch = svLimits sv"
      by auto
    then have "sched_holds (release_r (rowReservation c) sch) (reserved sv)"
      by (intro sched.give_back)
    with h Some cl tx inv show ?thesis
      by (cases out; cases prepared) (auto simp: claimNext_def svc_inv_def reserved_def)
  qed
  with rows inv show ?thesis by (simp add: svc_inv_def)
qed

lemma endClaim_inv:
  assumes "svc_inv sv" shows "svc_inv (endClaim c sv)"
proof (cases "c \<in> set (svClaims sv)")
  case True
  then have "mset (svClaims sv) = add_mset c (mset (remove1 c (svClaims sv)))" by simp
  then have "image_mset snd (mset (svClaims sv)) = add_mset (snd c) (image_mset snd (mset (remove1 c (svClaims sv))))"
    by (metis image_mset_add_mset)
  then have "mset (map snd (svClaims sv)) = add_mset (snd c) (mset (map snd (remove1 c (svClaims sv))))"
    by simp
  then have "reserved sv = add_mset (snd c) (reserved (endClaim c sv))"
    using True by (simp add: reserved_def endClaim_def)
  with assms have "sched_holds (release_r (snd c) (svSched sv)) (reserved (endClaim c sv))"
    by (intro sched.give_back) (simp add: svc_inv_def)
  with assms True show ?thesis by (simp add: svc_inv_def endClaim_def)
qed (simp add: endClaim_def assms)

text \<open>Fields that no step of a running service touches.\<close>

lemma svc_step_config:
  "svc_step sha enc safe sv sv' \<Longrightarrow> svLimits sv' = svLimits sv \<and> svRegistry sv' = svRegistry sv
     \<and> svMaxPending sv' = svMaxPending sv \<and> svMaxPayload sv' = svMaxPayload sv \<and> svIdempotencyMS sv' = svIdempotencyMS sv"
proof (induction rule: svc_step.induct)
  case (submit enrich free docID oid out t rq sv sv' res)
  have rej: "svRegistry (recordRejected ty sv) = svRegistry sv" "svMaxPayload (recordRejected ty sv) = svMaxPayload sv"
    "svIdempotencyMS (recordRejected ty sv) = svIdempotencyMS sv" for ty and sv :: Service
    by (simp_all add: recordRejected_def Let_def)
  show ?case using submit
    by (auto simp: Submit_eq Let_def rej split: if_splits sum.splits option.splits TxOutcome.splits bool.splits)
next
  case (claim out claimAt t "class" sv sv' res)
  obtain db' sch picked prepared where "claimTx claimAt t class sv = (db', sch, picked, prepared)"
    by (metis prod_cases4)
  with claim show ?case
    by (auto simp: claimNext_def split: TxOutcome.splits option.splits if_splits)
qed (auto simp: endClaim_def restart_def)

lemma svc_step_inv_steps:
  assumes step: "svc_step sha enc safe sv sv'" and inv: "svc_inv sv"
  shows "svc_inv sv' \<and> db_steps (svDB sv) (svDB sv')"
proof -
  note rows = svc_inv_rows [OF inv]
  note uniq = rows_inv_uniq [OF rows]
  have tx: "svc_inv (sv\<lparr>svDB := db'\<rparr>) \<and> db_steps (svDB sv) (svDB (sv\<lparr>svDB := db'\<rparr>))"
    if "row_ids db' = row_ids (svDB sv)" "db_steps (svDB sv) db'" for db'
    using rows_inv_steps [OF rows that] inv that by (simp add: svc_inv_def reserved_def)
  from step show ?thesis
  proof (cases rule: svc_step.cases)
    case (submit enrich free docID oid out t rq res)
    from submit(1) show ?thesis
    proof (cases rule: Submit_cases)
      case same
      with inv show ?thesis by (simp add: svc_inv_def reserved_def)
    next
      case (stored db')
      from admitNew_Inr [OF stored(6)] obtain rq' b where
        "budget_ok (svLimits sv) b" "submitTx (svMaxPending sv) oid (command_print sha enc rq) t b rq' (svDB sv) = Inr db'"
        by blast
      with rows stored inv show ?thesis
        using submitTx_inv by (simp add: svc_inv_def reserved_def)
    qed
  next
    case (claim out claimAt t "class" res)
    then show ?thesis
      using claimNext_inv [OF inv claim] claimNext_steps [of sv out claimAt t "class"] by simp
  next
    case (finish d requested result runErr t oid a)
    show ?thesis unfolding finish(1)
      by (rule tx) (simp_all add: finish(2) finishTx_steps finishDecision_states del: insert_iff)
  next
    case (retry op t db')
    have "row_ids db' = row_ids (svDB sv)"
      using retry(3) by (auto simp: RetryContext_def split: if_splits)
    with retry RetryContext_steps [OF retry(2,3)] show ?thesis using tx by simp
  next
    case (uploads db')
    then show ?thesis using tx [of db'] by (simp add: row_ids_def db_steps_same_ops)
  next
    case (restart inst t)
    have "svc_inv (sv\<lparr>svDB := recoverOps (svRegistry sv) t (svDB sv)\<rparr>)"
      using tx [OF txs_row_ids(5) recoverOps_steps] by blast
    then have "svc_inv sv'"
      using inv by (simp add: restart svc_inv_def restart_def reserved_def sched_holds_new
          newScheduler_def normalizeLimits_id)
        (metis newScheduler_def normalizeLimits_id sched_holds_new)
    then show ?thesis using restart by (simp add: restart_def recoverOps_steps)
  next
    case (leave c)
    then show ?thesis using endClaim_inv [OF inv] by (simp add: endClaim_def)
  next
    case (cancel t op)
    then show ?thesis using tx [OF txs_row_ids(3) CancelContext_steps [OF uniq]] by simp
  next
    case (report t oid a p)
    then show ?thesis using tx [OF txs_row_ids(1) reportContext_steps] by simp
  next
    case (expire t)
    then show ?thesis using tx expireLoop_evolves [OF uniq] by simp
  qed
qed

lemma svc_steps_inv: "svc_steps sha enc safe sv sv' \<Longrightarrow> svc_inv sv \<Longrightarrow> svc_inv sv' \<and> db_steps (svDB sv) (svDB sv')"
  by (induction rule: rtranclp_induct) (auto dest: svc_step_inv_steps intro: db_steps_trans)

lemma svc_steps_config:
  "svc_steps sha enc safe sv sv' \<Longrightarrow> svLimits sv' = svLimits sv \<and> svRegistry sv' = svRegistry sv
     \<and> svMaxPending sv' = svMaxPending sv \<and> svMaxPayload sv' = svMaxPayload sv \<and> svIdempotencyMS sv' = svIdempotencyMS sv"
  by (induction rule: rtranclp_induct) (auto dest: svc_step_config)

lemma svc_init_inv: "svc_init sv \<Longrightarrow> svc_inv sv"
proof -
  assume "svc_init sv"
  then obtain inst workers l limit hours reg where
    sv: "sv = foldr Register reg (SetIdempotencyRetentionHours hours (SetQueueLimit limit
            (SetResourceLimits l (NewWithUploadRoot inst workers emptyDB))))"
    by (auto simp: svc_init_def)
  have "svDB (Register x s) = svDB s" "svLimits (Register x s) = svLimits s"
    "svSched (Register x s) = svSched s" "svClaims (Register x s) = svClaims s"
    "svLost (Register x s) = svLost s" for x s
    by (simp_all add: Register_def)
  then have "svc_inv (foldr Register reg s) = svc_inv s" for s
    by (induction reg) (auto simp: svc_inv_def reserved_def)
  moreover have "sched_holds (newScheduler (normalizeLimits l)) {#}" by (rule sched_holds_new)
  moreover have "normalizeLimits (normalizeLimits l) = normalizeLimits l"
    by (rule normalizeLimits_id) (rule normalizeLimits_ok)
  ultimately show ?thesis
    using normalizeLimits_ok [of l] unfolding sv
    by (simp add: svc_inv_def SetIdempotencyRetentionHours_def SetQueueLimit_def SetResourceLimits_def
        NewWithUploadRoot_def emptyDB_def rows_inv_def uniq_by_def reserved_def Let_def newScheduler_def)
qed

lemma svc_reachable_inv: "svc_reachable sha enc safe sv \<Longrightarrow> svc_inv sv"
  by (auto simp: svc_reachable_def dest: svc_init_inv svc_steps_inv)

lemma svc_reachable_steps:
  "svc_reachable sha enc safe sv \<Longrightarrow> svc_steps sha enc safe sv sv' \<Longrightarrow> svc_reachable sha enc safe sv'"
  by (auto simp: svc_reachable_def intro: rtranclp_trans)

end
