(* ===== verification/OpProperties.thy ===== *)
theory OpProperties
  imports OpMachine
begin

text \<open>
  What the durable queue promises: lifecycle properties of every reachable state, the claim order,
  idempotent acceptance, single effect of a finish, and what recovery and expiry leave behind.
\<close>

subsection \<open>A concrete run\<close>

text \<open>
  A service with one registered command type and a few steps of it, on which the witnesses
  evaluate the definitions. The digest is the identity and the encoding keeps the payload.
\<close>

definition demo_enc :: "FingerprintEnvelope \<Rightarrow> string" where
  "demo_enc e = fpType e @ fpPayload e"

definition demoRequest :: Request where
  "demoRequest = \<lparr>rqType = ''t'', rqSchema = 1, rqBaseID = ''b'', rqDocumentID = [],
     rqParentOperationID = [], rqPrincipalRef = [], rqScopeRef = [], rqInputRef = [], rqInputSHA256 = [],
     rqSourceVersion = [], rqConfigSnapshotRef = [], rqModelSnapshotRef = [], rqExpectedTargetEpoch = None,
     rqExpectedAncestorEpoch = None, rqAllocatedGeneration = None, rqPayload = ''p'', rqIdempotencyKey = ''k'',
     rqPriority = 0, rqResourceClass = [], rqTotalUnits = None, rqTotalBytes = None,
     rqBudget = \<lparr>bMemoryBytes = 0, bDiskBytes = 0, bTempBytes = 0\<rparr>, rqUploadID = [],
     rqPreallocateDocument = False\<rparr>"

definition demo0 :: Service where
  "demo0 = foldr Register [''t''] (SetIdempotencyRetentionHours 1 (SetQueueLimit 5
     (SetResourceLimits (defaultLimits 1) (NewWithUploadRoot ''i'' 1 emptyDB))))"

definition demo1 :: Service where
  "demo1 = fst (Submit id demo_enc Inr None [] ''1'' TxCommitted 10 demoRequest demo0)"

definition demo2 :: Service where
  "demo2 = fst (claimNext TxCommitted 20 20 ''io'' demo1)"

definition demo3 :: Service where
  "demo3 = demo2\<lparr>svDB := finishTx (svIdempotencyMS demo2) 30 ''1'' 1
     (finishDecision id (svMaxPayload demo2) False (Encoded ''r'') None) (svDB demo2)\<rparr>"

lemma demo_states:
  "map_option oState (op_row (svDB demo1) ''1'') = Some Queued"
  "map_option oState (op_row (svDB demo2) ''1'') = Some Running"
  "map_option oState (op_row (svDB demo3) ''1'') = Some Succeeded"
  "svClaims demo2 \<noteq> []"
  by code_simp+

lemma demo_init: "svc_init demo0"
  unfolding svc_init_def demo0_def by blast

lemma demo_steps:
  "svc_step id demo_enc id demo0 demo1" "svc_step id demo_enc id demo1 demo2" "svc_step id demo_enc id demo2 demo3"
proof -
  show "svc_step id demo_enc id demo0 demo1"
    by (rule svc_step.submit [where enrich = Inr and free = None and docID = "[]" and oid = "''1''"
          and out = TxCommitted and t = 10 and rq = demoRequest]) (simp add: demo1_def prod_eq_iff)
  show "svc_step id demo_enc id demo1 demo2"
    by (rule svc_step.claim [of TxCommitted 20 20 "''io''"])
      (simp add: demo2_def prod_eq_iff)
  show "svc_step id demo_enc id demo2 demo3"
    unfolding demo3_def by (rule svc_step.finish) (rule refl)
qed

lemma demo_reachable:
  "svc_reachable id demo_enc id demo0" "svc_reachable id demo_enc id demo1"
  "svc_reachable id demo_enc id demo2" "svc_reachable id demo_enc id demo3"
proof -
  show 0: "svc_reachable id demo_enc id demo0" using demo_init by (auto simp: svc_reachable_def)
  show 1: "svc_reachable id demo_enc id demo1" using svc_reachable_steps [OF 0] demo_steps(1) by blast
  show 2: "svc_reachable id demo_enc id demo2" using svc_reachable_steps [OF 1] demo_steps(2) by blast
  show 3: "svc_reachable id demo_enc id demo3" using svc_reachable_steps [OF 2] demo_steps(3) by blast
qed

subsection \<open>Lifecycle\<close>







subsection \<open>Reservations\<close>

text \<open>
  C4: In every reachable state the scheduler's counters are exactly the reservations that claimed
  operations hold (those whose claim ended in an unknown write included): memory, disk and temp
  bytes are the sums of their budgets and never exceed the pools, and no base has more running
  operations than \<open>MaxPerBase\<close>.
\<close>

theorem reservations_conserved:
  assumes "svc_reachable sha enc safe sv"
  shows "sMemoryBytes (svSched sv) = pool bMemoryBytes (reserved sv)
     \<and> sDiskBytes (svSched sv) = pool bDiskBytes (reserved sv)
     \<and> sTempBytes (svSched sv) = pool bTempBytes (reserved sv)
     \<and> pool bMemoryBytes (reserved sv) \<le> lMemoryBytes (svLimits sv)
     \<and> pool bDiskBytes (reserved sv) \<le> lDiskBytes (svLimits sv)
     \<and> pool bTempBytes (reserved sv) \<le> lTempBytes (svLimits sv)
     \<and> (\<forall>base. getc (sBase (svSched sv)) base = base_count (reserved sv) base
            \<and> base_count (reserved sv) base \<le> lMaxPerBase (svLimits sv))"
proof -
  have h: "sched_holds (svSched sv) (reserved sv)" "sLimits (svSched sv) = svLimits sv"
    using svc_reachable_inv [OF assms] by (auto simp only: svc_inv_def)
  show ?thesis using h(1) unfolding sched_holds_def h(2) by metis
qed

lemma reservations_conserved_witness:
  "sMemoryBytes (svSched demo2) = pool bMemoryBytes (reserved demo2) \<and> svClaims demo2 \<noteq> []"
  using reservations_conserved [OF demo_reachable(3)] demo_states(4) by blast

lemma reserve_idle:
  assumes "sched_holds s {#}" "budget_ok (sLimits s) b"
  shows "snd (reserve_r (base, b) s)"
proof -
  have "getc (sBase s) base = 0" "1 \<le> lMaxPerBase (sLimits s)"
    using assms(1) by (auto simp: sched_holds_def limits_ok_def)
  then show ?thesis
    using assms by (auto simp: reserve_r_def reserve_def sched_holds_def budget_ok_def)
qed

subsection \<open>Claim order\<close>

lemma sorted_prefix_key:
  assumes "sort_key f zs = xs @ c # ys" "q \<in> set zs" "(f q :: 'b :: linorder) < f c"
  shows "q \<in> set xs"
proof -
  have "sorted (map f (xs @ c # ys))" using assms(1) by (metis sorted_sort_key)
  then have "\<forall>y \<in> set (c # ys). f c \<le> f y" by (auto simp: sorted_append)
  moreover have "q \<in> set (xs @ c # ys)" using assms(1,2) by (metis set_sort)
  ultimately show ?thesis using assms(3) by (auto simp: leD)
qed

lemma claimNext_Some:
  assumes "claimNext TxCommitted a t cls sv = (sv', Some c)"
  shows "\<exists>sch. first_granted reserve_r rowReservation (claimCandidates a cls (svDB sv)) (svSched sv) = (sch, Some c)
     \<and> affected_by oID (oID c) (\<lambda>r. oState r = Queued) (dbOps (svDB sv)) = 1
     \<and> sv' = sv\<lparr>svDB := insertEvent (oID c) (oRevision c + 1) ''claimed'' (EvClaimed (svInstanceID sv)) t
           (upd_op (oID c) (\<lambda>r. oState r = Queued) (claimRow (svInstanceID sv) t) (svDB sv)),
         svSched := sch, svClaims := (oID c, rowReservation c) # svClaims sv\<rparr>"
  using assms by (auto simp: claimNext_def claimTx_def Let_def split: prod.splits option.splits if_splits)

lemma claimed_before:
  assumes fg: "first_granted reserve_r rowReservation (claimCandidates a cls db) s = (sch, Some c)"
    and q: "q \<in> set (dbOps db)" "claimable a cls q" "claimKey a q < claimKey a c"
  shows "\<not> snd (reserve_r (rowReservation q) s)"
proof -
  let ?all = "filter (claimable a cls) (dbOps db)"
  from sched.first_granted_Some [OF fg] obtain xs ys where
    split: "claimCandidates a cls db = xs @ c # ys" and refused: "\<forall>x \<in> set xs. \<not> snd (reserve_r (rowReservation x) s)"
    by blast
  then have "sort_key (claimKey a) ?all = xs @ c # (ys @ drop 32 (sort_key (claimKey a) ?all))"
    by (metis append.assoc append_Cons append_take_drop_id claimCandidates_def)
  with q have "q \<in> set xs" using sorted_prefix_key [of "claimKey a" ?all xs c _ q] by auto
  with refused show ?thesis by blast
qed

lemma claimKey_effective:
  "eRequestedAt (oEnv r) \<le> a \<Longrightarrow>
     claimKey a r = (- effectivePriority (ePriority (oEnv r)) (eRequestedAt (oEnv r)) a, eRequestedAt (oEnv r), oID r)"
  by (auto simp: claimKey_def effectivePriority_def sqlDiv_def sgn_if)

text \<open>
  C5: A committed claim takes a queued operation of the worker's class that is due, reserves its
  budget and marks it running with one more attempt; and every due operation that ranks before it
  (higher priority after one point of aging per second, then older, then smaller id) was one the
  scheduler refuses, so an operation is overtaken only when its own resources are not available.
\<close>

theorem claim_takes_first_admissible:
  assumes reach: "svc_reachable sha enc safe sv"
    and claim: "claimNext TxCommitted a t cls sv = (sv', Some c)"
  shows "claimable a cls c \<and> op_row (svDB sv) (oID c) = Some c
     \<and> op_row (svDB sv') (oID c) = Some (claimRow (svInstanceID sv) t c)
     \<and> reserved sv' = add_mset (rowReservation c) (reserved sv)
     \<and> (\<forall>q \<in> set (dbOps (svDB sv)). claimable a cls q \<and> claimKey a q < claimKey a c
           \<longrightarrow> \<not> snd (reserve_r (rowReservation q) (svSched sv)))"
proof -
  note uniq = rows_inv_uniq [OF svc_inv_rows [OF svc_reachable_inv [OF reach]]]
  from claimNext_Some [OF claim] obtain sch where
    fg: "first_granted reserve_r rowReservation (claimCandidates a cls (svDB sv)) (svSched sv) = (sch, Some c)"
    and sv': "sv' = sv\<lparr>svDB := insertEvent (oID c) (oRevision c + 1) ''claimed'' (EvClaimed (svInstanceID sv)) t
           (upd_op (oID c) (\<lambda>r. oState r = Queued) (claimRow (svInstanceID sv) t) (svDB sv)),
         svSched := sch, svClaims := (oID c, rowReservation c) # svClaims sv\<rparr>"
    by blast
  from fg have c: "c \<in> set (dbOps (svDB sv))" "claimable a cls c"
    using claimCandidates_mem first_granted_mem by metis+
  then have row: "op_row (svDB sv) (oID c) = Some c" using uniq by (simp add: sel_by_uniq)
  have "op_row (svDB sv') (oID c) = Some (claimRow (svInstanceID sv) t c)"
    using row c(2) by (simp add: sv' ops.sel_upd claimable_def)
  moreover have "reserved sv' = add_mset (rowReservation c) (reserved sv)"
    by (simp add: sv' reserved_def)
  ultimately show ?thesis using c row claimed_before [OF fg] by blast
qed

lemma claim_takes_first_admissible_witness:
  "\<exists>c. claimNext TxCommitted 20 20 ''io'' demo1 = (demo2, Some c)
     \<and> op_row (svDB demo2) (oID c) = Some (claimRow (svInstanceID demo1) 20 c)"
proof -
  have "snd (claimNext TxCommitted 20 20 ''io'' demo1) \<noteq> None" by code_simp
  then obtain c where c: "claimNext TxCommitted 20 20 ''io'' demo1 = (demo2, Some c)"
    by (cases "claimNext TxCommitted 20 20 ''io'' demo1") (auto simp: demo2_def)
  from claim_takes_first_admissible [OF demo_reachable(2) this] c show ?thesis by blast
qed



subsection \<open>Acceptance\<close>

text \<open>
  C8: A command accepted under a new key adds exactly one row and counts once against the queue
  limit, which it never exceeds: the row is queued at revision 1 with no attempt used, carries the
  fingerprint of the request as submitted and a budget within the limits, and every other row is
  as before.
\<close>

theorem Submit_accepts:
  assumes sub: "Submit sha enc enrich free docID oid out t rq sv = (sv', Inr r)"
    and new: "lookupIdempotent sha enc t (looked_up sha rq) (svDB sv) = Inr None"
  shows "dbOps (svDB sv') = dbOps (svDB sv) @ [r] \<and> oID r = oid \<and> op_row (svDB sv) oid = None
     \<and> pendingCount (svDB sv') = pendingCount (svDB sv) + 1 \<and> pendingCount (svDB sv') \<le> svMaxPending sv
     \<and> oState r = Queued \<and> oRevision r = 1 \<and> oAttempt r = 0
     \<and> eFingerprint (oEnv r) = command_print sha enc rq \<and> budget_ok (svLimits sv) (eBudget (oEnv r))"
proof -
  note acc = Submit_accepted [OF sub new]
  from admitNew_Inr [OF acc(1)] obtain rq' b where b: "budget_ok (svLimits sv) b"
    and tx: "submitTx (svMaxPending sv) oid (command_print sha enc rq) t b rq' (svDB sv) = Inr (svDB sv')" by blast
  note tx' = submitTx_Inr [OF tx]
  have r: "r = newRow oid (command_print sha enc rq) t b rq'"
    using acc(2) tx'(2,4) by (simp add: sel_by_append)
  have "pendingCount (svDB sv') = pendingCount (svDB sv) + 1"
    by (simp add: pendingCount_def tx'(4) pendingState_def)
  with tx' b show ?thesis unfolding r by (simp add: newRow_def)
qed

lemma demo_lookup: "lookupIdempotent id demo_enc 10 (looked_up id demoRequest) (svDB demo0) = Inr None"
  by code_simp

lemma demo_accepted: "\<exists>r. Submit id demo_enc Inr None [] ''1'' TxCommitted 10 demoRequest demo0 = (demo1, Inr r)"
proof -
  have "\<not> isl (snd (Submit id demo_enc Inr None [] ''1'' TxCommitted 10 demoRequest demo0))" by code_simp
  then show ?thesis unfolding demo1_def
    by (metis Inl_Inr_False isl_def prod.collapse sum.exhaust)
qed

lemma Submit_accepts_witness: "\<exists>r. dbOps (svDB demo1) = dbOps (svDB demo0) @ [r] \<and> oID r = ''1''"
proof -
  obtain r where "Submit id demo_enc Inr None [] ''1'' TxCommitted 10 demoRequest demo0 = (demo1, Inr r)"
    using demo_accepted by blast
  from Submit_accepts [OF this demo_lookup] show ?thesis by blast
qed

text \<open>
  A request whose text columns survive \<open>nullString\<close>, and a resolver that completes a request
  without changing which command it is.
\<close>

definition plain :: "string \<Rightarrow> bool" where
  "plain s \<longleftrightarrow> s = [] \<or> trimSpace s \<noteq> []"

definition keeps_command :: "(Request \<Rightarrow> string + Request) \<Rightarrow> Request \<Rightarrow> bool" where
  "keeps_command enrich rq \<longleftrightarrow> (case enrich rq of Inl _ \<Rightarrow> False | Inr rq' \<Rightarrow>
     rqType rq' = rqType rq \<and> rqSchema rq' = rqSchema rq \<and> rqBaseID rq' = rqBaseID rq
     \<and> rqDocumentID rq' = rqDocumentID rq \<and> rqParentOperationID rq' = rqParentOperationID rq
     \<and> rqIdempotencyKey rq' = rqIdempotencyKey rq
     \<and> rqPreallocateDocument rq' = rqPreallocateDocument rq)"

lemma strOf_nullString: "plain s \<Longrightarrow> strOf (nullString s) = s"
  by (auto simp: plain_def strOf_def nullString_def)

lemma requestDefaults_simps [simp]:
  "rqType (requestDefaults sha rq) = rqType rq" "rqSchema (requestDefaults sha rq) = rqSchema rq"
  "rqBaseID (requestDefaults sha rq) = rqBaseID rq" "rqDocumentID (requestDefaults sha rq) = rqDocumentID rq"
  "rqParentOperationID (requestDefaults sha rq) = rqParentOperationID rq"
  "rqIdempotencyKey (requestDefaults sha rq) = rqIdempotencyKey rq"
  "rqPreallocateDocument (requestDefaults sha rq) = rqPreallocateDocument rq"
  by (simp_all add: requestDefaults_def)

lemma looked_up_simps [simp]:
  "rqType (looked_up sha rq) = rqType rq" "rqSchema (looked_up sha rq) = rqSchema rq"
  "rqBaseID (looked_up sha rq) = rqBaseID rq" "rqDocumentID (looked_up sha rq) = rqDocumentID rq"
  "rqParentOperationID (looked_up sha rq) = rqParentOperationID rq"
  "rqIdempotencyKey (looked_up sha rq) = rqIdempotencyKey rq"
  "rqPreallocateDocument (looked_up sha rq) = rqPreallocateDocument rq"
  by (simp_all add: looked_up_def Let_def)

lemma looked_up_print [simp]: "requestFingerprint sha enc (looked_up sha rq) = command_print sha enc rq"
  by (simp add: looked_up_def command_print_def requestFingerprint_def fingerprintEnvelope_def Let_def)

lemma bindingOf_uniq:
  assumes inv: "rows_inv l db" and r: "op_row db x = Some r" "eIdempotencyKey (oEnv r) = Some k"
  shows "bindingOf k db = Some r"
proof -
  from r have mem: "r \<in> set (dbOps db)" by (auto dest: sel_by_mem)
  with r have "bindingOf k db \<noteq> None" by (auto simp: bindingOf_None)
  then obtain q where q: "bindingOf k db = Some q" by blast
  then have q': "q \<in> set (dbOps db)" "eIdempotencyKey (oEnv q) = Some k"
    by (auto simp: bindingOf_def dest: find_Some_mem)
  have "oID r = oID q" using inv mem q' r(2) unfolding rows_inv_def by blast
  then have "q = r" using rows_inv_uniq [OF inv] mem q'(1) by (metis option.inject sel_by_uniq)
  with q show ?thesis by simp
qed



subsection \<open>Finishing\<close>

lemma finishTx_not_owned:
  "(case op_row db x of None \<Rightarrow> True | Some r \<Rightarrow> \<not> owned a r) \<Longrightarrow> finishTx ms t x a d db = db"
  by (auto simp: finishTx_def split: option.splits)

lemma finishTx_row:
  "op_row (finishTx ms t x a d db) x = (case op_row db x of None \<Rightarrow> None | Some r \<Rightarrow>
     if \<not> owned a r then Some r
     else if autoRetry d a then Some (requeueRow t (finishRow ms t d r)) else Some (finishRow ms t d r))"
proof -
  have "oState (finishRow ms t d r) = fdState d" "oAttempt (finishRow ms t d r) = oAttempt r" for r
    by (simp_all add: finishRow_def Let_def)
  then show ?thesis
    by (auto simp: finishTx_def Let_def ops.sel_upd cancel_insertEvent autoRetry_def owned_def split: option.splits)
qed

text \<open>
  C9: The outcome of a run is recorded once. When the first attempt to store it committed, even
  if its caller only saw an unknown write, the second attempt and every later finish for that
  run (a retry of the worker, a late worker of an older attempt) leave rows and events untouched.
\<close>

theorem finish_records_once:
  assumes "out1 = TxCommitted \<or> out1 = TxUnknown True"
  shows "finishWorker safe sv (t1, c1) (t2, c2) out1 out2 x a result runErr db =
      finishTx (svIdempotencyMS sv) t1 x a (finishDecision safe (svMaxPayload sv) c1 result runErr) db
    \<and> finishWorker safe sv (t3, c3) (t4, c4) out3 out4 x a result' runErr'
        (finishWorker safe sv (t1, c1) (t2, c2) out1 out2 x a result runErr db)
      = finishWorker safe sv (t1, c1) (t2, c2) out1 out2 x a result runErr db"
proof -
  let ?d = "finishDecision safe (svMaxPayload sv) c1 result runErr"
  let ?db1 = "finishTx (svIdempotencyMS sv) t1 x a ?d db"
  have "case op_row ?db1 x of None \<Rightarrow> True | Some r \<Rightarrow> \<not> owned a r"
    using finishDecision_states [of safe "svMaxPayload sv" c1 result runErr]
    by (auto simp: finishTx_row owned_def finishRow_def requeueRow_def Let_def split: option.splits if_splits)
  note again = finishTx_not_owned [OF this]
  have first: "finishWorker safe sv (t1, c1) (t2, c2) out1 out2 x a result runErr db = ?db1"
    using assms by (auto simp: finishWorker_def Let_def again)
  then show ?thesis by (auto simp: finishWorker_def Let_def again)
qed

lemma finish_records_once_witness:
  "finishWorker id demo2 (30, False) (31, True) (TxUnknown True) TxCommitted ''1'' 1 (Encoded ''r'') None (svDB demo2)
     = svDB demo3"
  using finish_records_once [of "TxUnknown True" id demo2 30 False 31 True TxCommitted "''1''" 1 "Encoded ''r''" None "svDB demo2"]
  by (simp add: demo3_def)

subsection \<open>Recovery\<close>

lemma recoverOps_row:
  "op_row (recoverOps reg t db) x =
     map_option (\<lambda>r. replayRow reg t (cancelIntentRow t (interruptRow t r))) (op_row db x)"
  by (simp add: recoverOps_def Let_def sel_by_map comp_def)

lemma recovered_fields:
  "oState (interruptRow t r) = (if oState r = Running \<or> oState r = Cancelling then Interrupted else oState r)"
  "oAttempt (interruptRow t r) = oAttempt r" "oEnv (interruptRow t r) = oEnv r"
  "oCancelRequested (interruptRow t r) = oCancelRequested r" "oRetryable (interruptRow t r) = oRetryable r"
  "oState (cancelIntentRow t r) = (if oState r = Interrupted \<and> oCancelRequested r then Cancelled else oState r)"
  "oAttempt (cancelIntentRow t r) = oAttempt r" "oEnv (cancelIntentRow t r) = oEnv r"
  "oRetryable (cancelIntentRow t r) = oRetryable r"
  "oFinishedAt (cancelIntentRow t r) = (if oState r = Interrupted \<and> oCancelRequested r then Some t else oFinishedAt r)"
  "oState (replayRow reg t r) = (if replayable reg r then Queued else oState r)"
  "oAttempt (replayRow reg t r) = oAttempt r" "oEnv (replayRow reg t r) = oEnv r"
  "oErrorCode (replayRow reg t r) = (if replayable reg r then None else oErrorCode r)"
  "oFinishedAt (replayRow reg t r) = (if replayable reg r then None else oFinishedAt r)"
  "replayable reg r \<longleftrightarrow> oState r = Interrupted \<and> eType (oEnv r) \<in> set reg \<and> oRetryable r
     \<and> oAttempt r < DefaultMaxAttempts"
  by (simp_all add: interruptRow_def cancelIntentRow_def replayRow_def replayable_def)

lemma recovered_same:
  "oState r \<noteq> Running \<Longrightarrow> oState r \<noteq> Cancelling \<Longrightarrow> oState r \<noteq> Interrupted \<Longrightarrow>
     replayRow reg t (cancelIntentRow t (interruptRow t r)) = r"
  by (simp add: interruptRow_def cancelIntentRow_def replayRow_def replayable_def)

text \<open>
  Reconciliation after a restart leaves no operation running or cancelling. One that was lost
  with its worker (or interrupted before) ends cancelled when a cancel had been requested, whatever
  its command; otherwise it is queued again with the same attempt count exactly when its command
  is registered, retryable and has an attempt left, and stays interrupted when not. Every other
  operation is untouched.
\<close>

theorem recovery_outcome:
  "(case op_row db x of
      None \<Rightarrow> op_row (recoverOps reg t db) x = None
    | Some r \<Rightarrow> (\<exists>r'. op_row (recoverOps reg t db) x = Some r' \<and> oState r' \<noteq> Running \<and> oState r' \<noteq> Cancelling
        \<and> oAttempt r' = oAttempt r \<and> oEnv r' = oEnv r
        \<and> (if oState r \<notin> {Running, Cancelling, Interrupted} then r' = r
           else if oCancelRequested r then oState r' = Cancelled \<and> oFinishedAt r' = Some t
           else if eType (oEnv r) \<in> set reg \<and> oRetryable r \<and> oAttempt r < DefaultMaxAttempts
                then oState r' = Queued \<and> oErrorCode r' = None
           else oState r' = Interrupted)))"
proof (cases "op_row db x")
  case (Some r)
  let ?r' = "replayRow reg t (cancelIntentRow t (interruptRow t r))"
  have "op_row (recoverOps reg t db) x = Some ?r'" using Some by (simp add: recoverOps_row)
  moreover have "oState ?r' \<noteq> Running \<and> oState ?r' \<noteq> Cancelling \<and> oAttempt ?r' = oAttempt r \<and> oEnv ?r' = oEnv r"
    by (simp add: recovered_fields)
  moreover have "if oState r \<notin> {Running, Cancelling, Interrupted} then ?r' = r
       else if oCancelRequested r then oState ?r' = Cancelled \<and> oFinishedAt ?r' = Some t
       else if eType (oEnv r) \<in> set reg \<and> oRetryable r \<and> oAttempt r < DefaultMaxAttempts
            then oState ?r' = Queued \<and> oErrorCode ?r' = None
       else oState ?r' = Interrupted"
    by (simp add: recovered_fields recovered_same)
  ultimately show ?thesis unfolding Some option.case by blast
qed (simp add: recoverOps_row)

subsection \<open>Cancelling\<close>

text \<open>
  A cancel on the current row takes effect at once: a queued operation is cancelled and can no
  longer be claimed, a running one keeps its worker but carries the intent that recovery and finish
  honour, and a finished, cancelling or interrupted one is not touched.
\<close>

theorem cancel_outcome:
  assumes reach: "svc_reachable sha enc safe sv" and row: "op_row (svDB sv) x = Some op"
  shows "\<exists>r'. op_row (CancelContext t op (svDB sv)) x = Some r' \<and> oAttempt r' = oAttempt op
     \<and> (if oState op = Queued then oState r' = Cancelled \<and> oCancelRequested r' \<and> oRevision r' = oRevision op + 2
                              \<and> \<not> claimable a cls r'
        else if oState op = Running then oState r' = Cancelling \<and> oCancelRequested r' \<and> oRevision r' = oRevision op + 1
        else CancelContext t op (svDB sv) = svDB sv)"
proof -
  note uniq = rows_inv_uniq [OF svc_inv_rows [OF svc_reachable_inv [OF reach]]]
  have x: "oID op = x" using row by (auto dest: sel_by_mem)
  show ?thesis
    using row uniq
    by (cases "oState op")
      (auto simp: CancelContext_def terminal_def cancelTx_def Let_def x affected_by_uniq cancel_insertEvent
        ops.sel_upd claimable_def)
qed

lemma cancel_outcome_witness:
  "\<exists>r'. op_row (CancelContext 15 (the (op_row (svDB demo1) ''1'')) (svDB demo1)) ''1'' = Some r' \<and> oState r' = Cancelled"
proof -
  obtain op where op: "op_row (svDB demo1) ''1'' = Some op" "oState op = Queued"
    using demo_states(1) by (cases "op_row (svDB demo1) ''1''") auto
  from cancel_outcome [OF demo_reachable(2) op(1), of 15] op show ?thesis by auto
qed

text \<open>
  The revision guard makes a cancel conditional on the row not having moved since it was read:
  if any other transaction (a progress report is enough) changed the revision in between, the
  cancel changes nothing, neither the row nor the event log.
\<close>

theorem stale_cancel_dropped:
  assumes reach: "svc_reachable sha enc safe sv" and row: "op_row (svDB sv) (oID op) = Some r"
    and stale: "oRevision r \<noteq> oRevision op"
  shows "CancelContext t op (svDB sv) = svDB sv"
proof -
  note uniq = rows_inv_uniq [OF svc_inv_rows [OF svc_reachable_inv [OF reach]]]
  show ?thesis
    using row stale by (simp add: CancelContext_def cancelTx_def Let_def affected_by_uniq [OF uniq])
qed

lemma stale_cancel_dropped_witness:
  "let op = the (op_row (svDB demo2) ''1'');
       db = reportContext 25 ''1'' 1 \<lparr>pPhase = ''x'', pCompleted = 1, pTotal = 2, pCompletedBytes = 0, pTotalBytes = 0\<rparr> (svDB demo2)
   in CancelContext 26 op db = db"
proof -
  let ?p = "\<lparr>pPhase = ''x'', pCompleted = 1, pTotal = 2, pCompletedBytes = 0, pTotalBytes = 0\<rparr>"
  let ?sv = "demo2\<lparr>svDB := reportContext 25 ''1'' 1 ?p (svDB demo2)\<rparr>"
  have reach: "svc_reachable id demo_enc id ?sv"
    using svc_reachable_steps [OF demo_reachable(3)] svc_step.report by blast
  have rev: "map_option oRevision (op_row (svDB ?sv) ''1'') = Some 3" by code_simp
  have op: "oRevision (the (op_row (svDB demo2) ''1'')) = 2" "oID (the (op_row (svDB demo2) ''1'')) = ''1''" by code_simp+
  from rev obtain r where r: "op_row (svDB ?sv) (oID (the (op_row (svDB demo2) ''1''))) = Some r" "oRevision r = 3"
    using op(2) by auto
  show ?thesis
    using stale_cancel_dropped [OF reach r(1), of 26] r(2) op(1) by (simp add: Let_def)
qed

subsection \<open>Retry\<close>

text \<open>
  A retry checks only the state of the row it updates. When the row still has the state of the
  snapshot, its revision becomes the snapshot's plus one, whatever revision the row had reached.
\<close>

theorem retry_ignores_revision:
  assumes "op_row db (oID op) = Some r" "oState r = oState op" "RetryContext t op db = Inr db'"
  shows "\<exists>r'. op_row db' (oID op) = Some r' \<and> oState r' = Queued \<and> oAttempt r' = oAttempt r
     \<and> oRevision r' = oRevision op + 1 \<and> oIdempotencyExpiresAt r' = oIdempotencyExpiresAt r"
  using assms by (auto simp: RetryContext_def retryTx_def ops.sel_upd split: if_splits)

lemma retry_ignores_revision_witness:
  "\<exists>db'. RetryContext 50 ((the (op_row (svDB demo3) ''1''))\<lparr>oState := Failed\<rparr>)
        ((svDB demo3)\<lparr>dbOps := map (\<lambda>r. r\<lparr>oState := Failed, oRevision := 9\<rparr>) (dbOps (svDB demo3))\<rparr>) = Inr db'
     \<and> map_option oRevision (op_row db' ''1'') = Some 4"
proof -
  let ?op = "(the (op_row (svDB demo3) ''1''))\<lparr>oState := Failed\<rparr>"
  let ?db = "(svDB demo3)\<lparr>dbOps := map (\<lambda>r. r\<lparr>oState := Failed, oRevision := 9\<rparr>) (dbOps (svDB demo3))\<rparr>"
  have op: "oID ?op = ''1''" "oRevision ?op = 3" "oState ?op = Failed" by code_simp+
  have "map_option (\<lambda>r. (oState r, oRevision r)) (op_row ?db ''1'') = Some (Failed, 9)" by code_simp
  then obtain r where r: "op_row ?db (oID ?op) = Some r" "oState r = oState ?op" using op by auto
  have "oRetryable ?op" "oAttempt ?op < 3" by code_simp+
  then have "RetryContext 50 ?op ?db = Inr (retryTx 50 ?op ?db)"
    using op(3) by (simp add: RetryContext_def)
  from this retry_ignores_revision [OF r this] op show ?thesis by auto
qed

subsection \<open>Expiry\<close>

lemma expireBatch_all:
  assumes uniq: "uniq_by oID (dbOps db)" and short: "expireAffected t db < cleanupBatchSize"
    and r: "r \<in> set (dbOps db)" "payloadExpirable t r"
  shows "oID r \<in> set (expireBatchIDs t db)"
proof -
  let ?key = "\<lambda>r. (case oIdempotencyExpiresAt r of None \<Rightarrow> 0 | Some e \<Rightarrow> e, oID r)"
  let ?all = "sort_key ?key (filter (payloadExpirable t) (dbOps db))"
  have ids: "expireBatchIDs t db = map oID (take cleanupBatchSize ?all)" by (simp add: expireBatchIDs_def)
  have d: "distinct (map oID (dbOps db))" using uniq by (simp add: uniq_by_def)
  then have "distinct (map oID (filter (payloadExpirable t) (dbOps db)))" by (simp add: distinct_map_filter)
  then have "distinct (map oID ?all)"
    by (simp add: distinct_map)
  then have dt: "distinct (expireBatchIDs t db)" unfolding ids take_map [symmetric] by (rule distinct_take)
  let ?hit = "filter (\<lambda>r. oID r \<in> set (expireBatchIDs t db) \<and> (oPayload r \<noteq> [] \<or> oResult r \<noteq> None)) (dbOps db)"
  have sub: "set (expireBatchIDs t db) \<subseteq> set (map oID ?hit)"
  proof
    fix i assume i: "i \<in> set (expireBatchIDs t db)"
    then obtain q where q: "oID q = i" "q \<in> set (dbOps db)" "payloadExpirable t q"
      by (auto simp: ids dest!: in_set_takeD)
    with i show "i \<in> set (map oID ?hit)" by (force simp: payloadExpirable_def)
  qed
  have "length (expireBatchIDs t db) = card (set (expireBatchIDs t db))" using dt by (simp add: distinct_card)
  also have "\<dots> \<le> card (set (map oID ?hit))" using sub by (intro card_mono) auto
  also have "\<dots> \<le> length ?hit" using card_length [of "map oID ?hit"] by simp
  finally have "length (expireBatchIDs t db) < cleanupBatchSize"
    using short by (simp add: expireAffected_def)
  then have "take cleanupBatchSize ?all = ?all" by (simp add: ids)
  with r show ?thesis by (simp add: ids)
qed

text \<open>
  The sweep for expired payloads runs to the end: afterwards no finished operation whose key
  expired before the sweep still stores its payload or result, an operation that was not due is
  untouched, and a swept one keeps its lifecycle.
\<close>

theorem expiry_sweep_complete:
  assumes reach: "svc_reachable sha enc safe sv"
  shows "(\<forall>r \<in> set (dbOps (expireTerminalOperationPayloads t (svDB sv))). \<not> payloadExpirable t r)
    \<and> (\<forall>x r. op_row (svDB sv) x = Some r \<longrightarrow> op_row (expireTerminalOperationPayloads t (svDB sv)) x =
          Some (if payloadExpirable t r then expireRow t r else r))"
proof -
  have "uniq_by oID (dbOps db) \<Longrightarrow>
      (\<forall>r \<in> set (dbOps (expireTerminalOperationPayloads t db)). \<not> payloadExpirable t r)
    \<and> (\<forall>x r. op_row db x = Some r \<longrightarrow> op_row (expireTerminalOperationPayloads t db) x =
          Some (if payloadExpirable t r then expireRow t r else r))" for db
  proof (induction t db rule: expireTerminalOperationPayloads.induct)
    case (1 t db)
    note uniq = "1.prems"
    have one: "op_row (expireBatch t db) x = Some (if oID r \<in> set (expireBatchIDs t db) \<and> payloadExpirable t r
        then expireRow t r else r)" if "op_row db x = Some r" for x r
      using that expireBatchIDs_expirable [OF uniq, of r t]
      by (auto simp: expireBatch_row payloadExpirable_def dest!: sel_by_mem)
    show ?case
    proof (cases "expireAffected t db < cleanupBatchSize")
      case True
      have row: "op_row (expireBatch t db) x = Some (if payloadExpirable t r then expireRow t r else r)"
        if "op_row db x = Some r" for x r
      proof -
        have "r \<in> set (dbOps db)" using sel_by_mem [OF that] by blast
        from one [OF that] expireBatch_all [OF uniq True this] show ?thesis
          by (cases "payloadExpirable t r") simp_all
      qed
      have "\<not> payloadExpirable t r'" if r': "r' \<in> set (dbOps (expireBatch t db))" for r'
      proof -
        have "op_row (expireBatch t db) (oID r') = Some r'"
          using r' uniq row_ids_uniq [OF expireBatch_row_ids, of t db] by (simp add: sel_by_uniq)
        moreover from this obtain r where "op_row db (oID r') = Some r"
          by (auto simp: expireBatch_row)
        ultimately have "r' = (if payloadExpirable t r then expireRow t r else r)" using row by simp
        then show ?thesis by (cases "payloadExpirable t r") simp_all
      qed
      with row True show ?thesis by (simp add: expireTerminalOperationPayloads.simps [of t db])
    next
      case False
      have uniq': "uniq_by oID (dbOps (expireBatch t db))"
        using uniq row_ids_uniq [OF expireBatch_row_ids, of t db] by simp
      note IH = "1.IH" [OF False uniq']
      have "op_row (expireTerminalOperationPayloads t (expireBatch t db)) x =
          Some (if payloadExpirable t r then expireRow t r else r)" if "op_row db x = Some r" for x r
      proof (cases "oID r \<in> set (expireBatchIDs t db) \<and> payloadExpirable t r")
        case True
        then have "op_row (expireBatch t db) x = Some (expireRow t r)" using one [OF that] by simp
        from IH [THEN conjunct2, rule_format, OF this] True show ?thesis by simp
      next
        case False
        then have "op_row (expireBatch t db) x = Some r" using one [OF that] by auto
        with IH show ?thesis by blast
      qed
      with IH False show ?thesis by (simp add: expireTerminalOperationPayloads.simps [of t db])
    qed
  qed
  then show ?thesis using rows_inv_uniq [OF svc_inv_rows [OF svc_reachable_inv [OF reach]]] by blast
qed

lemma demo_expirable: "\<not> list_all (\<lambda>r. \<not> payloadExpirable 9999999 r) (dbOps (svDB demo3))"
  by code_simp

lemma expiry_sweep_complete_witness:
  "\<not> list_all (\<lambda>r. \<not> payloadExpirable 9999999 r) (dbOps (svDB demo3))
   \<and> list_all (\<lambda>r. \<not> payloadExpirable 9999999 r) (dbOps (expireTerminalOperationPayloads 9999999 (svDB demo3)))"
  using expiry_sweep_complete [OF demo_reachable(4), of 9999999] demo_expirable by (simp add: list_all_iff)

end
