(* ===== verification/OpUploadProperties.thy ===== *)
theory OpUploadProperties
  imports OpSubmit
begin

text \<open>
  Properties of staged uploads under any interleaving of their handlers: what is sealed (completed
  or bound) was checked against what the client announced, the sealed bytes stay within the
  aggregate quota, and a session belongs to one operation for good. The write of the content is
  two steps, the checks and the publication, since other handlers run in between.
\<close>

definition sealed :: "Upload \<Rightarrow> bool" where
  "sealed u \<longleftrightarrow> uState u = Complete \<or> uState u = Bound"

definition seal_ok :: "Upload \<Rightarrow> bool" where
  "seal_ok u \<longleftrightarrow> 0 < uSizeBytes u \<and> uSizeBytes u \<le> MaxUploadBytes
     \<and> (case uExpectedSize u of None \<Rightarrow> True | Some n \<Rightarrow> uSizeBytes u = n)
     \<and> (case uSHA256 u of None \<Rightarrow> False | Some h \<Rightarrow>
          h \<noteq> [] \<and> (strOf (uExpectedSHA256 u) = [] \<or> h = strOf (uExpectedSHA256 u)))"

definition sealedBytes :: "OpDB \<Rightarrow> int" where
  "sealedBytes db = sum_list (map (\<lambda>u. if sealed u then uSizeBytes u else 0) (dbUploads db))"

inductive upload_step :: "(string \<Rightarrow> string) \<Rightarrow> Staging \<Rightarrow> Staging \<Rightarrow> bool" for sha where
  create: "CreateUpload uid t c st = Inr (session, st') \<Longrightarrow> upload_row (stDB st) uid = None \<Longrightarrow> upload_step sha st st'"
| reserve: "upload_step sha st (fst (reserveTemp b st))"
| release: "upload_step sha st (releaseTemp b st)"
| publish: "putCheck sha uid body st0 = Inr content \<Longrightarrow> upload_step sha st (putPublish t uid content st)"
| complete: "CompleteUpload t uid st = Inr st' \<Longrightarrow> upload_step sha st st'"
| bind: "bindUpload t oid rq (stDB st) = Inr db' \<Longrightarrow> upload_step sha st (st\<lparr>stDB := db'\<rparr>)"
| let_go: "releaseUpload reached t oid st = Inr st' \<Longrightarrow> upload_step sha st st'"
| expire: "upload_step sha st (expireOne t uid st)"

definition uploads_inv :: "Staging \<Rightarrow> bool" where
  "uploads_inv st \<longleftrightarrow> uniq_by uID (dbUploads (stDB st))
     \<and> (\<forall>u \<in> set (dbUploads (stDB st)). 0 \<le> uSizeBytes u \<and> uSizeBytes u \<le> MaxUploadBytes \<and> (sealed u \<longrightarrow> seal_ok u))
     \<and> (stUploadLimit st > 0 \<longrightarrow> sealedBytes (stDB st) \<le> stUploadLimit st)"

subsection \<open>One update\<close>

lemma upd_by_none: "sel_by key rows k = None \<Longrightarrow> upd_by key k g h rows = rows"
  by (auto simp: sel_by_None upd_by_def intro!: map_idI)

lemma sum_upd_by:
  fixes f :: "'r \<Rightarrow> int"
  shows "uniq_by key rows \<Longrightarrow> sel_by key rows k = Some u \<Longrightarrow>
     sum_list (map f (upd_by key k g h rows)) = sum_list (map f rows) - f u + f (if g u then h u else u)"
proof (induction rows)
  case (Cons a rows)
  show ?case
  proof (cases "key a = k")
    case True
    have "upd_by key k g h rows = rows"
      using Cons.prems(1) True by (intro upd_by_none) (auto simp: uniq_by_def sel_by_None)
    with True Cons.prems(2) show ?thesis by (simp add: upd_by_def sel_by_def)
  next
    case False
    with Cons.prems have "uniq_by key rows" "sel_by key rows k = Some u" by (auto simp: uniq_by_def sel_by_def)
    from Cons.IH [OF this] False show ?thesis by (simp add: upd_by_def)
  qed
qed (simp add: sel_by_def)

text \<open>
  An update of one session keeps the invariant when the new row is sound and does not enlarge
  the sealed total beyond the quota.
\<close>

lemma uploads_inv_upd:
  assumes inv: "uploads_inv st"
    and st': "stDB st' = upd_upload k g h (stDB st)" "stUploadLimit st' = stUploadLimit st"
    and key: "\<And>u. uID (h u) = uID u"
    and ok: "\<And>u. upload_row (stDB st) k = Some u \<Longrightarrow> g u \<Longrightarrow>
       0 \<le> uSizeBytes (h u) \<and> uSizeBytes (h u) \<le> MaxUploadBytes \<and> (sealed (h u) \<longrightarrow> seal_ok (h u))
       \<and> (sealed (h u) \<and> stUploadLimit st > 0 \<longrightarrow>
            sealedBytes (stDB st) - (if sealed u then uSizeBytes u else 0) + uSizeBytes (h u) \<le> stUploadLimit st)"
  shows "uploads_inv st'"
proof (cases "upload_row (stDB st) k")
  case None
  then have "dbUploads (stDB st') = dbUploads (stDB st)" by (simp add: st'(1) upd_by_none)
  with inv st'(2) show ?thesis by (simp add: uploads_inv_def sealedBytes_def)
next
  case (Some u)
  have uniq: "uniq_by uID (dbUploads (stDB st))" using inv by (simp add: uploads_inv_def)
  have mem: "u \<in> set (dbUploads (stDB st))" using sel_by_mem [OF Some] by blast
  let ?f = "\<lambda>u. if sealed u then uSizeBytes u else 0"
  have sum: "sealedBytes (stDB st') = sealedBytes (stDB st) - ?f u + ?f (if g u then h u else u)"
    unfolding sealedBytes_def st'(1) upd_op_simps by (rule sum_upd_by [OF uniq Some])
  have rows: "0 \<le> uSizeBytes v \<and> uSizeBytes v \<le> MaxUploadBytes \<and> (sealed v \<longrightarrow> seal_ok v)"
    if v: "v \<in> set (dbUploads (stDB st'))" for v
  proof -
    from v obtain w where w: "w \<in> set (dbUploads (stDB st))" "v = (if uID w = k \<and> g w then h w else w)"
      unfolding st'(1) upd_op_simps by (blast dest: set_upd_by)
    show ?thesis
    proof (cases "uID w = k \<and> g w")
      case True
      then have "upload_row (stDB st) k = Some w" using sel_by_uniq [OF uniq w(1)] by simp
      with ok [OF this] True w(2) show ?thesis by simp
    next
      case False
      with w(2) have "v = w" by auto
      with inv w(1) show ?thesis by (simp add: uploads_inv_def)
    qed
  qed
  have "0 \<le> uSizeBytes u" using inv mem by (simp add: uploads_inv_def)
  with sum ok [OF Some] inv have "stUploadLimit st > 0 \<longrightarrow> sealedBytes (stDB st') \<le> stUploadLimit st"
    by (auto simp: uploads_inv_def split: if_splits)
  with rows uniq st' key show ?thesis
    unfolding uploads_inv_def by (simp add: ups.wf_upd)
qed

lemma sealed_le_retained:
  assumes pos: "\<forall>u \<in> set us. 0 \<le> uSizeBytes u" and un: "\<forall>u \<in> set us. uID u = k \<longrightarrow> \<not> sealed u"
  shows "sum_list (map (\<lambda>u. if sealed u then uSizeBytes u else 0) us)
    \<le> sum_list (map uSizeBytes (filter (\<lambda>u. uID u \<noteq> k \<and> retainedState (uState u)) us))"
  using assms by (induction us) (auto simp: sealed_def retainedState_def)

lemma CompleteUpload_Inr:
  assumes "CompleteUpload t uid st = Inr st'"
  obtains (already) u where "st' = st" "upload_row (stDB st) uid = Some u" "sealed u"
  | (sealed_now) u h where "upload_row (stDB st) uid = Some u" "uState u = Uploading" "uSHA256 u = Some h" "h \<noteq> []"
      "0 < uSizeBytes u" "case uExpectedSize u of None \<Rightarrow> True | Some n \<Rightarrow> uSizeBytes u = n"
      "strOf (uExpectedSHA256 u) = [] \<or> h = strOf (uExpectedSHA256 u)"
      "stUploadLimit st > 0 \<longrightarrow> retainedBytes uid (stDB st) + uSizeBytes u \<le> stUploadLimit st"
      "st' = st\<lparr>stDB := upd_upload uid (\<lambda>u. uState u = Uploading)
                   (\<lambda>u. u\<lparr>uState := Complete, uUpdatedAt := t\<rparr>) (stDB st)\<rparr>"
proof -
  obtain u where u: "upload_row (stDB st) uid = Some u"
    using assms by (auto simp: CompleteUpload_def bindr_Inr split: option.splits)
  then obtain h where h: "uSHA256 u = Some h"
    using assms by (auto simp: CompleteUpload_def bindr_Inr split: option.splits)
  show thesis
  proof (cases "sealed u")
    case True
    with assms u h have "st' = st" by (auto simp: CompleteUpload_def bindr_Inr sealed_def)
    with True u show ?thesis using already by blast
  next
    case False
    with assms u h show ?thesis
      by (intro sealed_now [of u h]) (auto simp: CompleteUpload_def bindr_Inr sealed_def split: if_splits option.splits)
  qed
qed

lemma putCheck_Inr:
  assumes "putCheck sha uid body st0 = Inr (data, sz, h)"
  shows "data = take (nat (MaxUploadBytes + 1)) body" "sz = int (length data)" "0 \<le> sz" "sz \<le> MaxUploadBytes" "h = sha data"
  using assms by (auto simp: putCheck_def bindr_Inr Let_def split: if_splits)

lemma releaseUpload_Inr:
  assumes "releaseUpload reached t oid st = Inr st'"
  shows "(dbUploads (stDB st') = dbUploads (stDB st) \<and> stUploadLimit st' = stUploadLimit st)
    \<or> (\<exists>k. stDB st' = upd_upload k (\<lambda>u. uState u = Bound) (\<lambda>u. u\<lparr>uState := Released, uUpdatedAt := t\<rparr>) (stDB st)
          \<and> stUploadLimit st' = stUploadLimit st)"
  using assms
  by (auto simp: releaseUpload_def bindr_Inr removeStaged_def Let_def split: option.splits if_splits)

lemma bindUpload_Inr:
  assumes "bindUpload t oid rq db = Inr db'"
  shows "dbUploads db' = dbUploads db
    \<or> (\<exists>k. db' = upd_upload k (\<lambda>u. uBaseID u = rqBaseID rq \<and> uState u = Complete
            \<and> (uOperationID u = None \<or> uOperationID u = Some oid))
          (\<lambda>u. u\<lparr>uState := Bound, uOperationID := Some oid, uUpdatedAt := t\<rparr>) db)"
  using assms by (auto simp: bindUpload_def Let_def split: if_splits)

lemma uploads_inv_same:
  "uploads_inv st \<Longrightarrow> dbUploads (stDB st') = dbUploads (stDB st) \<Longrightarrow> stUploadLimit st' = stUploadLimit st
     \<Longrightarrow> uploads_inv st'"
  by (simp add: uploads_inv_def sealedBytes_def)

lemma seal_ok_moves [simp]:
  "seal_ok (u\<lparr>uState := s, uUpdatedAt := t\<rparr>) = seal_ok u"
  "seal_ok (u\<lparr>uState := s, uOperationID := x, uUpdatedAt := t\<rparr>) = seal_ok u"
  by (simp_all add: seal_ok_def cong: option.case_cong)

lemma uploads_inv_row:
  "uploads_inv st \<Longrightarrow> upload_row (stDB st) k = Some u \<Longrightarrow>
     0 \<le> uSizeBytes u \<and> uSizeBytes u \<le> MaxUploadBytes \<and> (sealed u \<longrightarrow> seal_ok u)"
  by (drule sel_by_mem) (simp add: uploads_inv_def)

lemma CreateUpload_Inr:
  assumes "CreateUpload uid t c st = Inr (session, st')"
  shows "dbUploads (stDB st') = ins_by session (dbUploads (stDB st))" "stUploadLimit st' = stUploadLimit st"
    "uID session = uid" "uState session = Uploading" "uSizeBytes session = 0" "uOperationID session = None"
  using assms by (auto simp: CreateUpload_def bindr_Inr Let_def split: if_splits)

lemma upload_step_inv: "upload_step sha st st' \<Longrightarrow> uploads_inv st \<Longrightarrow> uploads_inv st'"
proof (induction rule: upload_step.induct)
  case (create uid t c st session st')
  note new = CreateUpload_Inr [OF create(1)]
  have "uniq_by uID (ins_by session (dbUploads (stDB st)))"
    using create(2,3) new(3) by (intro ups.wf_ins) (auto simp: uploads_inv_def)
  moreover have "sealedBytes (stDB st') = sealedBytes (stDB st)"
    using new by (simp add: sealedBytes_def ins_by_def sealed_def)
  ultimately show ?case
    using create(3) new unfolding uploads_inv_def by (auto simp: ins_by_def sealed_def)
next
  case (reserve st b)
  then show ?case by (rule uploads_inv_same) (simp_all add: reserveTemp_def)
next
  case (release st b)
  then show ?case by (rule uploads_inv_same) (simp_all add: releaseTemp_def)
next
  case (publish uid body st0 content st t)
  obtain data sz h where content: "content = (data, sz, h)" by (cases content)
  note checked = putCheck_Inr [OF publish(1) [unfolded content]]
  show ?case
  proof (rule uploads_inv_upd [OF publish(2)])
    show "stDB (putPublish t uid content st) = upd_upload uid (\<lambda>u. uState u = Uploading)
        (\<lambda>u. u\<lparr>uSizeBytes := sz, uSHA256 := Some h, uUpdatedAt := t\<rparr>) (stDB st)"
      by (simp add: putPublish_def content)
  qed (use checked in \<open>auto simp: putPublish_def content sealed_def\<close>)
next
  case (complete t uid st st')
  from complete(1) show ?case
  proof (cases rule: CompleteUpload_Inr)
    case already
    with complete show ?thesis by simp
  next
    case (sealed_now u h)
    have pos: "\<forall>v \<in> set (dbUploads (stDB st)). 0 \<le> uSizeBytes v" and uniq: "uniq_by uID (dbUploads (stDB st))"
      using complete(2) by (auto simp: uploads_inv_def)
    have "\<not> sealed v" if "v \<in> set (dbUploads (stDB st))" "uID v = uid" for v
      using sel_by_uniq [OF uniq that(1)] that(2) sealed_now(1,2) by (simp add: sealed_def)
    then have "sealedBytes (stDB st) \<le> retainedBytes uid (stDB st)"
      unfolding sealedBytes_def retainedBytes_def by (intro sealed_le_retained [OF pos]) blast
    with sealed_now(8) have quota: "stUploadLimit st > 0 \<longrightarrow> sealedBytes (stDB st) + uSizeBytes u \<le> stUploadLimit st"
      by linarith
    have "uSizeBytes u \<le> MaxUploadBytes" using uploads_inv_row [OF complete(2) sealed_now(1)] by blast
    with sealed_now have good: "seal_ok (u\<lparr>uState := Complete, uUpdatedAt := t\<rparr>)" unfolding seal_ok_moves by (simp add: seal_ok_def)
    show ?thesis
    proof (rule uploads_inv_upd [OF complete(2)])
      show "stDB st' = upd_upload uid (\<lambda>u. uState u = Uploading) (\<lambda>u. u\<lparr>uState := Complete, uUpdatedAt := t\<rparr>) (stDB st)"
        using sealed_now(9) by simp
      fix v assume "upload_row (stDB st) uid = Some v" "uState v = Uploading"
      with sealed_now(1) have "v = u" by simp
      with good quota uploads_inv_row [OF complete(2) sealed_now(1)] sealed_now(2)
      show "0 \<le> uSizeBytes (v\<lparr>uState := Complete, uUpdatedAt := t\<rparr>)
        \<and> uSizeBytes (v\<lparr>uState := Complete, uUpdatedAt := t\<rparr>) \<le> MaxUploadBytes
        \<and> (sealed (v\<lparr>uState := Complete, uUpdatedAt := t\<rparr>) \<longrightarrow> seal_ok (v\<lparr>uState := Complete, uUpdatedAt := t\<rparr>))
        \<and> (sealed (v\<lparr>uState := Complete, uUpdatedAt := t\<rparr>) \<and> stUploadLimit st > 0 \<longrightarrow>
            sealedBytes (stDB st) - (if sealed v then uSizeBytes v else 0)
              + uSizeBytes (v\<lparr>uState := Complete, uUpdatedAt := t\<rparr>) \<le> stUploadLimit st)"
        by (simp add: sealed_def)
    qed (use sealed_now(9) in auto)
  qed
next
  case (bind t oid rq st db')
  from bindUpload_Inr [OF bind(1)] show ?case
  proof
    assume "dbUploads db' = dbUploads (stDB st)"
    then show ?thesis using bind(2) by (auto intro: uploads_inv_same)
  next
    assume "\<exists>k. db' = upd_upload k (\<lambda>u. uBaseID u = rqBaseID rq \<and> uState u = Complete
            \<and> (uOperationID u = None \<or> uOperationID u = Some oid))
          (\<lambda>u. u\<lparr>uState := Bound, uOperationID := Some oid, uUpdatedAt := t\<rparr>) (stDB st)"
    then obtain k where k: "db' = upd_upload k (\<lambda>u. uBaseID u = rqBaseID rq \<and> uState u = Complete
            \<and> (uOperationID u = None \<or> uOperationID u = Some oid))
          (\<lambda>u. u\<lparr>uState := Bound, uOperationID := Some oid, uUpdatedAt := t\<rparr>) (stDB st)" by blast
    show ?thesis
    proof (rule uploads_inv_upd [OF bind(2)])
      show "stDB (st\<lparr>stDB := db'\<rparr>) = upd_upload k (\<lambda>u. uBaseID u = rqBaseID rq \<and> uState u = Complete
            \<and> (uOperationID u = None \<or> uOperationID u = Some oid))
          (\<lambda>u. u\<lparr>uState := Bound, uOperationID := Some oid, uUpdatedAt := t\<rparr>) (stDB st)"
        by (simp add: k)
    qed (use bind(2) in \<open>auto simp: sealed_def uploads_inv_def [of st] dest!: uploads_inv_row [OF bind(2)]\<close>)
  qed
next
  case (let_go reached t oid st st')
  from releaseUpload_Inr [OF let_go(1)] show ?case
  proof
    assume "\<exists>k. stDB st' = upd_upload k (\<lambda>u. uState u = Bound) (\<lambda>u. u\<lparr>uState := Released, uUpdatedAt := t\<rparr>) (stDB st)
          \<and> stUploadLimit st' = stUploadLimit st"
    then obtain k where k: "stDB st' = upd_upload k (\<lambda>u. uState u = Bound) (\<lambda>u. u\<lparr>uState := Released, uUpdatedAt := t\<rparr>) (stDB st)"
      "stUploadLimit st' = stUploadLimit st" by blast
    show ?thesis
      by (rule uploads_inv_upd [OF let_go(2) k]) (auto simp: sealed_def dest!: uploads_inv_row [OF let_go(2)])
  qed (use let_go(2) uploads_inv_same in blast)
next
  case (expire st t uid)
  show ?case
  proof (rule uploads_inv_upd [OF expire])
    show "stDB (expireOne t uid st) = upd_upload uid (\<lambda>u. uState u = Uploading \<or> uState u = Complete)
       (\<lambda>u. u\<lparr>uState := Expired, uUpdatedAt := t\<rparr>) (stDB st)"
      by (simp add: expireOne_def removeStaged_def Let_def)
  qed (auto simp: sealed_def expireOne_def removeStaged_def Let_def dest!: uploads_inv_row [OF expire])
qed

lemma upload_steps_inv: "(upload_step sha)\<^sup>*\<^sup>* st st' \<Longrightarrow> uploads_inv st \<Longrightarrow> uploads_inv st'"
  by (induction rule: rtranclp_induct) (auto intro: upload_step_inv)

subsection \<open>A bound session keeps its operation\<close>

definition belongs :: "string \<Rightarrow> string \<Rightarrow> Staging \<Rightarrow> bool" where
  "belongs uid oid st \<longleftrightarrow> (case upload_row (stDB st) uid of None \<Rightarrow> False
     | Some u \<Rightarrow> (uState u = Bound \<or> uState u = Released) \<and> uOperationID u = Some oid)"

lemma belongs_upd:
  assumes "belongs uid oid st" "stDB st' = upd_upload k g h (stDB st)" "\<And>u. uID (h u) = uID u"
    "\<And>u. g u \<Longrightarrow> uState u = Bound \<or> uState u = Released
       \<Longrightarrow> (uState (h u) = Bound \<or> uState (h u) = Released) \<and> uOperationID (h u) = uOperationID u"
  shows "belongs uid oid st'"
proof -
  obtain u where u: "upload_row (stDB st) uid = Some u" "uState u = Bound \<or> uState u = Released" "uOperationID u = Some oid"
    using assms(1) by (auto simp: belongs_def split: option.splits)
  have "upload_row (stDB st') uid = Some (if uid = k \<and> g u then h u else u)"
    using u(1) assms(3) by (cases "uid = k") (auto simp: assms(2) ups.sel_upd)
  then show ?thesis using u assms(4) [of u] by (cases "uid = k \<and> g u") (auto simp: belongs_def)
qed

lemma belongs_same: "belongs uid oid st \<Longrightarrow> dbUploads (stDB st') = dbUploads (stDB st) \<Longrightarrow> belongs uid oid st'"
  by (simp add: belongs_def)

lemma upload_step_belongs: "upload_step sha st st' \<Longrightarrow> belongs uid oid st \<Longrightarrow> belongs uid oid st'"
proof (induction rule: upload_step.induct)
  case (create k t c st session st')
  then show ?case using CreateUpload_Inr [OF create(1)]
    by (auto simp: belongs_def ins_by_def sel_by_append split: option.splits)
next
  case (publish k body st0 content st t)
  obtain data sz h where content: "content = (data, sz, h)" by (cases content)
  show ?case
  proof (rule belongs_upd [OF publish(2)])
    show "stDB (putPublish t k content st) = upd_upload k (\<lambda>u. uState u = Uploading)
        (\<lambda>u. u\<lparr>uSizeBytes := sz, uSHA256 := Some h, uUpdatedAt := t\<rparr>) (stDB st)"
      by (simp add: putPublish_def content)
  qed auto
next
  case (complete t k st st')
  from complete(1) show ?case
  proof (cases rule: CompleteUpload_Inr)
    case (sealed_now u h)
    show ?thesis
    proof (rule belongs_upd [OF complete(2)])
      show "stDB st' = upd_upload k (\<lambda>u. uState u = Uploading) (\<lambda>u. u\<lparr>uState := Complete, uUpdatedAt := t\<rparr>) (stDB st)"
        using sealed_now(9) by simp
    qed auto
  qed (use complete in simp)
next
  case (bind t x rq st db')
  from bindUpload_Inr [OF bind(1)] show ?case
  proof
    assume "\<exists>k. db' = upd_upload k (\<lambda>u. uBaseID u = rqBaseID rq \<and> uState u = Complete
            \<and> (uOperationID u = None \<or> uOperationID u = Some x))
          (\<lambda>u. u\<lparr>uState := Bound, uOperationID := Some x, uUpdatedAt := t\<rparr>) (stDB st)"
    then obtain k where k: "stDB (st\<lparr>stDB := db'\<rparr>) = upd_upload k (\<lambda>u. uBaseID u = rqBaseID rq \<and> uState u = Complete
            \<and> (uOperationID u = None \<or> uOperationID u = Some x))
          (\<lambda>u. u\<lparr>uState := Bound, uOperationID := Some x, uUpdatedAt := t\<rparr>) (stDB st)" by auto
    show ?thesis by (rule belongs_upd [OF bind(2) k]) auto
  qed (use bind(2) in \<open>simp add: belongs_def\<close>)
next
  case (let_go reached t x st st')
  from releaseUpload_Inr [OF let_go(1)] show ?case
  proof
    assume "\<exists>k. stDB st' = upd_upload k (\<lambda>u. uState u = Bound) (\<lambda>u. u\<lparr>uState := Released, uUpdatedAt := t\<rparr>) (stDB st)
          \<and> stUploadLimit st' = stUploadLimit st"
    then obtain k where k: "stDB st' = upd_upload k (\<lambda>u. uState u = Bound) (\<lambda>u. u\<lparr>uState := Released, uUpdatedAt := t\<rparr>) (stDB st)"
      by blast
    show ?thesis by (rule belongs_upd [OF let_go(2) k]) auto
  qed (use let_go(2) in \<open>simp add: belongs_def\<close>)
next
  case (expire st t k)
  show ?case
  proof (rule belongs_upd [OF expire])
    show "stDB (expireOne t k st) = upd_upload k (\<lambda>u. uState u = Uploading \<or> uState u = Complete)
       (\<lambda>u. u\<lparr>uState := Expired, uUpdatedAt := t\<rparr>) (stDB st)"
      by (simp add: expireOne_def removeStaged_def Let_def)
  qed auto
qed (auto simp: belongs_def reserveTemp_def releaseTemp_def)

lemma upload_steps_belongs: "(upload_step sha)\<^sup>*\<^sup>* st st' \<Longrightarrow> belongs uid oid st \<Longrightarrow> belongs uid oid st'"
  by (induction rule: rtranclp_induct) (auto intro: upload_step_belongs)

subsection \<open>Properties\<close>

definition demo_uid :: string where
  "demo_uid = ''0123456789abcdef0123456789abcdef''"

definition demoStaging :: Staging where
  "demoStaging = \<lparr>stDB = \<lparr>dbOps = [], dbEvents = [], dbUploads = []\<rparr>, stFiles = Map.empty, stRootSet = True,
     stTempReserved = 0, stTempLimit = GiB, stUploadLimit = 512 * MiB\<rparr>"

definition demoCreate :: UploadCreate where
  "demoCreate = \<lparr>ucBaseID = ''b'', ucParentDirectoryID = [], ucFileName = ''f'', ucExpectedSize = Some 3, ucExpectedSHA256 = []\<rparr>"

definition demoCreated :: Staging where
  "demoCreated = (case CreateUpload demo_uid 0 demoCreate demoStaging of Inl _ \<Rightarrow> demoStaging | Inr r \<Rightarrow> snd r)"

definition demoPut :: Staging where
  "demoPut = putPublish 1 demo_uid (''abc'', 3, ''abc'') demoCreated"

definition demoSealed :: Staging where
  "demoSealed = (case CompleteUpload 2 demo_uid demoPut of Inl _ \<Rightarrow> demoPut | Inr s \<Rightarrow> s)"

lemma demo_put_checked: "putCheck id demo_uid ''abc'' demoCreated = Inr (''abc'', 3, ''abc'')"
proof -
  have u: "uploadPath (stRootSet demoCreated) demo_uid = Inr (demo_uid @ ''.staging'')" "stRootSet demoCreated"
    "map_option (\<lambda>u. (uState u, uExpectedSize u, uExpectedSHA256 u)) (upload_row (stDB demoCreated) demo_uid) = Some (Uploading, Some 3, None)"
    "stTempReserved demoCreated = 0" "stTempLimit demoCreated = GiB"
    by code_simp+
  have t: "take (nat (MaxUploadBytes + 1)) ''abc'' = ''abc''" by simp
  from u(3) obtain r where r: "upload_row (stDB demoCreated) demo_uid = Some r" "uState r = Uploading"
    "uExpectedSize r = Some 3" "uExpectedSHA256 r = None" by auto
  show ?thesis
    unfolding putCheck_def GetUploadContext_def r(1) option.case bindr.simps u(1) t Let_def
    by (simp add: u r reserveTemp_def putReservation_def strOf_def)
qed

lemma demo_upload_steps:
  "(upload_step id)\<^sup>*\<^sup>* demoStaging demoPut" "(upload_step id)\<^sup>*\<^sup>* demoStaging demoSealed"
proof -
  have "\<not> isl (CreateUpload demo_uid 0 demoCreate demoStaging)" by code_simp
  then have "\<exists>s. CreateUpload demo_uid 0 demoCreate demoStaging = Inr (s, demoCreated)"
    unfolding demoCreated_def by (cases "CreateUpload demo_uid 0 demoCreate demoStaging") auto
  moreover have "upload_row (stDB demoStaging) demo_uid = None" by code_simp
  ultimately have 1: "upload_step id demoStaging demoCreated" by (blast intro: upload_step.create)
  have 2: "upload_step id demoCreated demoPut"
    unfolding demoPut_def by (rule upload_step.publish [OF demo_put_checked])
  have "\<not> isl (CompleteUpload 2 demo_uid demoPut)" by code_simp
  then have "CompleteUpload 2 demo_uid demoPut = Inr demoSealed"
    unfolding demoSealed_def by (cases "CompleteUpload 2 demo_uid demoPut") auto
  then have 3: "upload_step id demoPut demoSealed" by (rule upload_step.complete)
  show "(upload_step id)\<^sup>*\<^sup>* demoStaging demoPut" "(upload_step id)\<^sup>*\<^sup>* demoStaging demoSealed"
    using 1 2 3 by (meson converse_rtranclp_into_rtranclp r_into_rtranclp)+
qed

text \<open>
  C10: However the upload handlers interleave, an upload that is completed or bound to an
  operation has content that was measured within 100 MiB, has the size and the digest the client
  announced (when it announced them), and together the completed and bound uploads stay within the
  configured aggregate quota.
\<close>

theorem sealed_uploads_sound:
  assumes "dbUploads (stDB st0) = []" "(upload_step sha)\<^sup>*\<^sup>* st0 st"
  shows "(\<forall>u \<in> set (dbUploads (stDB st)). sealed u \<longrightarrow> seal_ok u)
     \<and> (stUploadLimit st > 0 \<longrightarrow> sealedBytes (stDB st) \<le> stUploadLimit st)"
proof -
  have "uploads_inv st0" using assms(1) by (simp add: uploads_inv_def uniq_by_def sealedBytes_def)
  from upload_steps_inv [OF assms(2) this] show ?thesis unfolding uploads_inv_def by blast
qed

lemma sealed_uploads_sound_witness:
  "\<exists>u \<in> set (dbUploads (stDB demoSealed)). sealed u \<and> seal_ok u"
proof -
  have "list_ex sealed (dbUploads (stDB demoSealed))" by code_simp
  then obtain u where u: "u \<in> set (dbUploads (stDB demoSealed))" "sealed u" by (auto simp: list_ex_iff)
  have "dbUploads (stDB demoStaging) = []" by (simp add: demoStaging_def)
  from sealed_uploads_sound [OF this demo_upload_steps(2)] u show ?thesis by blast
qed

text \<open>
  C11: An upload bound to an operation is that operation's alone: no later step of any handler
  rebinds or reopens it, and \<open>UploadForOperation\<close> hands its bytes to no other operation.
\<close>

theorem upload_belongs_to_one_operation:
  assumes "belongs uid oid st" "(upload_step sha)\<^sup>*\<^sup>* st st'"
  shows "belongs uid oid st' \<and> (\<forall>other r. UploadForOperation other uid st' = Inr r \<longrightarrow> other = oid)"
proof -
  have "belongs uid oid st'" using upload_steps_belongs [OF assms(2,1)] .
  then show ?thesis
    by (auto simp: belongs_def UploadForOperation_def GetUploadContext_def strOf_def split: option.splits if_splits)
qed

lemma upload_belongs_to_one_operation_witness:
  "belongs demo_uid ''1'' (expireOne 9 demo_uid
     (demoSealed\<lparr>stDB := upd_upload demo_uid (\<lambda>u. True) (\<lambda>u. u\<lparr>uState := Bound, uOperationID := Some ''1''\<rparr>) (stDB demoSealed)\<rparr>))"
proof -
  let ?st = "demoSealed\<lparr>stDB := upd_upload demo_uid (\<lambda>u. True) (\<lambda>u. u\<lparr>uState := Bound, uOperationID := Some ''1''\<rparr>) (stDB demoSealed)\<rparr>"
  have b: "belongs demo_uid ''1'' ?st" by code_simp
  have s: "(upload_step id)\<^sup>*\<^sup>* ?st (expireOne 9 demo_uid ?st)" by (rule r_into_rtranclp) (rule upload_step.expire)
  from upload_belongs_to_one_operation [OF b s] show ?thesis by blast
qed

text \<open>
  The checks of a content write and its publication are not one transaction: content that was
  checked while the session was uploading still replaces the staged file when the session has been
  completed in between, and the row keeps describing the old bytes.
\<close>

theorem late_publish_replaces_sealed_bytes:
  assumes "upload_row (stDB st) uid = Some u" "sealed u" "putCheck sha uid body st0 = Inr (data, sz, h)"
  shows "stFiles (putPublish t uid (data, sz, h) st) uid = Some data
     \<and> upload_row (stDB (putPublish t uid (data, sz, h) st)) uid = Some u"
  using assms by (auto simp: putPublish_def sealed_def ups.sel_upd)

lemma late_publish_replaces_sealed_bytes_witness:
  "stFiles (putPublish 3 demo_uid (''abc'', 3, ''abc'') demoSealed) demo_uid = Some ''abc''"
proof -
  have "map_option sealed (upload_row (stDB demoSealed) demo_uid) = Some True" by code_simp
  then obtain u where u: "upload_row (stDB demoSealed) demo_uid = Some u" "sealed u" by auto
  from late_publish_replaces_sealed_bytes [OF u demo_put_checked, of 3] show ?thesis by blast
qed

end
