(* ===== verification/Channels.thy ===== *)
theory Channels
  imports Prelude
begin

text \<open>
  Go's buffered channels as bounded FIFO queues. \<open>fifo\<close> is what the writer and the job manager
  rely on of a channel: a send succeeds exactly when there is room and appends, a receive takes
  the oldest element. Draining a closed queue is proved once for the interface.
\<close>

record 'a chan =
  chCap :: nat
  chItems :: "'a list"

definition makeChan :: "nat \<Rightarrow> 'a chan" where
  "makeChan n = \<lparr>chCap = n, chItems = []\<rparr>"

definition chRoom :: "'a chan \<Rightarrow> bool" where
  "chRoom c \<longleftrightarrow> length (chItems c) < chCap c"

definition chSend :: "'a \<Rightarrow> 'a chan \<Rightarrow> 'a chan option" where
  "chSend x c = (if chRoom c then Some (c\<lparr>chItems := chItems c @ [x]\<rparr>) else None)"

definition chRecv :: "'a chan \<Rightarrow> ('a \<times> 'a chan) option" where
  "chRecv c = (case chItems c of [] \<Rightarrow> None | x # xs \<Rightarrow> Some (x, c\<lparr>chItems := xs\<rparr>))"

text \<open>The loop \<open>for \{ select \{ case x := <-c: ...; default: return \} \}\<close>, with fuel.\<close>

fun drainN :: "nat \<Rightarrow> ('q \<Rightarrow> ('a \<times> 'q) option) \<Rightarrow> 'q \<Rightarrow> 'a list \<times> 'q" where
  "drainN 0 recv c = ([], c)"
| "drainN (Suc n) recv c = (case recv c of None \<Rightarrow> ([], c)
     | Some (x, c') \<Rightarrow> (let (xs, c'') = drainN n recv c' in (x # xs, c'')))"

locale fifo =
  fixes items :: "'q \<Rightarrow> 'a list"
    and room :: "'q \<Rightarrow> bool"
    and send :: "'a \<Rightarrow> 'q \<Rightarrow> 'q option"
    and recv :: "'q \<Rightarrow> ('a \<times> 'q) option"
  assumes send_Some: "send x c = Some c' \<Longrightarrow> room c \<and> items c' = items c @ [x]"
    and send_None: "send x c = None \<longleftrightarrow> \<not> room c"
    and recv_Some: "recv c = Some (x, c') \<Longrightarrow> items c = x # items c'"
    and recv_None: "recv c = None \<longleftrightarrow> items c = []"
begin

lemma drainN_all:
  "length (items c) \<le> n \<Longrightarrow> fst (drainN n recv c) = items c \<and> items (snd (drainN n recv c)) = []"
proof (induction n arbitrary: c)
  case (Suc n)
  show ?case
  proof (cases "recv c")
    case None
    moreover from this have "items c = []" using recv_None by blast
    ultimately show ?thesis by simp
  next
    case (Some p)
    obtain x c' where p: "p = (x, c')" by (cases p)
    with Some have it: "items c = x # items c'" by (simp add: recv_Some)
    with Suc.prems have "length (items c') \<le> n" by simp
    from Suc.IH [OF this] it Some p show ?thesis by (auto split: prod.splits)
  qed
qed simp

lemma recv_iff: "(\<exists>x c'. recv c = Some (x, c')) \<longleftrightarrow> items c \<noteq> []"
  by (cases "recv c") (auto simp: recv_None dest: recv_Some)

end

interpretation ch: fifo chItems chRoom chSend chRecv
  by unfold_locales (auto simp: chSend_def chRecv_def split: if_splits list.splits)

definition chan_ok :: "'a chan \<Rightarrow> bool" where
  "chan_ok c \<longleftrightarrow> length (chItems c) \<le> chCap c"

lemma chan_ok_ops [simp]:
  "chan_ok (makeChan n)"
  "chSend x c = Some c' \<Longrightarrow> chan_ok c'"
  "chRecv c = Some (x, c') \<Longrightarrow> chan_ok c \<Longrightarrow> chan_ok c'"
  by (auto simp: chan_ok_def makeChan_def chSend_def chRoom_def chRecv_def split: if_splits list.splits)

end
