(* ===== verification/Writer.thy ===== *)
theory Writer
  imports Channels
begin

text \<open>
  The single SQLite writer (\<open>internal/storage/writer.go\<close>): three bounded queues by priority, the
  fail-fast admission of \<open>do\<close>, the loop with its two selects and the control burst, the rejection
  of queued work after \<open>Stop\<close>, and the counters. A select with several ready cases picks any of
  them: each select is the list of its possible choices, and the step relation allows each.
\<close>

subsection \<open>Priorities\<close>

type_synonym WritePriority = "8 word"

abbreviation ControlWrite :: WritePriority where "ControlWrite \<equiv> 0"
abbreviation NormalWrite :: WritePriority where "NormalWrite \<equiv> 1"
abbreviation MaintenanceWrite :: WritePriority where "MaintenanceWrite \<equiv> 2"

definition normalizeWritePriority :: "WritePriority \<Rightarrow> WritePriority" where
  "normalizeWritePriority p = (if p = ControlWrite \<or> p = NormalWrite \<or> p = MaintenanceWrite then p else NormalWrite)"

subsection \<open>Counters\<close>

record ClassCounters =
  ccAdmitted :: int
  ccRejected :: int
  ccDropped :: int
  ccSucceeded :: int
  ccFailed :: int
  ccQueueWaitMS :: int
  ccRunTimeMS :: int
  ccTransactions :: int
  ccTransactionRunTimeMS :: int
  ccDBWaitMS :: int
  ccDBTransactionMS :: int
  ccDBSQLMS :: int
  ccDBCommitMS :: int

record Counters =
  wcTotal :: ClassCounters
  wcControl :: ClassCounters
  wcNormal :: ClassCounters
  wcMaintenance :: ClassCounters

definition zeroClass :: ClassCounters where
  "zeroClass = \<lparr>ccAdmitted = 0, ccRejected = 0, ccDropped = 0, ccSucceeded = 0, ccFailed = 0, ccQueueWaitMS = 0,
     ccRunTimeMS = 0, ccTransactions = 0, ccTransactionRunTimeMS = 0, ccDBWaitMS = 0, ccDBTransactionMS = 0,
     ccDBSQLMS = 0, ccDBCommitMS = 0\<rparr>"

definition zeroCounters :: Counters where
  "zeroCounters = \<lparr>wcTotal = zeroClass, wcControl = zeroClass, wcNormal = zeroClass, wcMaintenance = zeroClass\<rparr>"

text \<open>\<open>class\<close> selects the counters of a priority; every record function adds to both views.\<close>

definition classCounters :: "WritePriority \<Rightarrow> Counters \<Rightarrow> ClassCounters" where
  "classCounters p c = (if p = ControlWrite then wcControl c else if p = MaintenanceWrite then wcMaintenance c
     else wcNormal c)"

definition record_in :: "WritePriority \<Rightarrow> (ClassCounters \<Rightarrow> ClassCounters) \<Rightarrow> Counters \<Rightarrow> Counters" where
  "record_in p f c = (let c1 = c\<lparr>wcTotal := f (wcTotal c)\<rparr> in
     if p = ControlWrite then c1\<lparr>wcControl := f (wcControl c1)\<rparr>
     else if p = MaintenanceWrite then c1\<lparr>wcMaintenance := f (wcMaintenance c1)\<rparr>
     else c1\<lparr>wcNormal := f (wcNormal c1)\<rparr>)"

definition recordAdmitted where
  "recordAdmitted p = record_in p (\<lambda>k. k\<lparr>ccAdmitted := ccAdmitted k + 1\<rparr>)"
definition recordRejected where
  "recordRejected p = record_in p (\<lambda>k. k\<lparr>ccRejected := ccRejected k + 1\<rparr>)"
definition recordDropped where
  "recordDropped p = record_in p (\<lambda>k. k\<lparr>ccDropped := ccDropped k + 1\<rparr>)"
definition recordSucceeded where
  "recordSucceeded p = record_in p (\<lambda>k. k\<lparr>ccSucceeded := ccSucceeded k + 1\<rparr>)"
definition recordFailed where
  "recordFailed p = record_in p (\<lambda>k. k\<lparr>ccFailed := ccFailed k + 1\<rparr>)"
definition recordQueueWait where
  "recordQueueWait p ms = record_in p (\<lambda>k. k\<lparr>ccQueueWaitMS := ccQueueWaitMS k + ms\<rparr>)"
definition recordRunTime where
  "recordRunTime p ms = record_in p (\<lambda>k. k\<lparr>ccRunTimeMS := ccRunTimeMS k + ms\<rparr>)"
definition recordTransactionRunTime where
  "recordTransactionRunTime p ms = record_in p (\<lambda>k. k\<lparr>ccTransactions := ccTransactions k + 1,
     ccTransactionRunTimeMS := ccTransactionRunTimeMS k + ms\<rparr>)"
definition recordDBWait where
  "recordDBWait p ms = record_in p (\<lambda>k. k\<lparr>ccDBWaitMS := ccDBWaitMS k + ms\<rparr>)"
definition recordDBTransaction where
  "recordDBTransaction p ms = record_in p (\<lambda>k. k\<lparr>ccDBTransactionMS := ccDBTransactionMS k + ms\<rparr>)"
definition recordDBSQL where
  "recordDBSQL p ms = record_in p (\<lambda>k. k\<lparr>ccDBSQLMS := ccDBSQLMS k + ms\<rparr>)"
definition recordDBCommit where
  "recordDBCommit p ms = record_in p (\<lambda>k. k\<lparr>ccDBCommitMS := ccDBCommitMS k + ms\<rparr>)"

lemmas record_defs = recordAdmitted_def recordRejected_def recordDropped_def recordSucceeded_def recordFailed_def
  recordQueueWait_def recordRunTime_def recordTransactionRunTime_def recordDBWait_def recordDBTransaction_def
  recordDBSQL_def recordDBCommit_def

subsection \<open>State\<close>

record writeRequest =
  wrID :: nat
  wrPriority :: WritePriority
  wrTransaction :: bool
  wrQueuedAt :: int

datatype WriteReply = ReplyOk | ReplyErr string | ReplyCtx | ReplyStopped

text \<open>
  Where the loop stands: before the first select, at the second one, running a callback, returned.
  \<open>wReplies\<close> are the results sent to the requests' channels and \<open>wRuns\<close> the callbacks executed.
\<close>

datatype LoopState = NotStarted | FirstSelect | SecondSelect | Running writeRequest | LoopDone

record Writer =
  wControl :: "writeRequest chan"
  wNormal :: "writeRequest chan"
  wMaintenance :: "writeRequest chan"
  wStop :: bool
  wStarted :: bool
  wLoop :: LoopState
  wBurst :: int
  wCounters :: Counters
  wNext :: nat
  wRuns :: "nat list"
  wReplies :: "(nat \<times> WriteReply) list"

abbreviation defaultWriterQueueCapacity :: int where "defaultWriterQueueCapacity \<equiv> 256"

definition NewWriter :: "int \<Rightarrow> Writer" where
  "NewWriter capacity = (let n = nat (if capacity < 1 then defaultWriterQueueCapacity else capacity) in
     \<lparr>wControl = makeChan n, wNormal = makeChan n, wMaintenance = makeChan n, wStop = False, wStarted = False,
      wLoop = NotStarted, wBurst = 0, wCounters = zeroCounters, wNext = 0, wRuns = [], wReplies = []\<rparr>)"

datatype StartError = AlreadyStarted | StartStopped

definition StartWriter :: "Writer \<Rightarrow> StartError + Writer" where
  "StartWriter w = (if wStarted w then Inl AlreadyStarted else if wStop w then Inl StartStopped
     else Inr (w\<lparr>wStarted := True, wLoop := FirstSelect\<rparr>))"

definition StopWriter :: "Writer \<Rightarrow> Writer" where
  "StopWriter w = w\<lparr>wStop := True\<rparr>"

definition queueOf :: "WritePriority \<Rightarrow> Writer \<Rightarrow> writeRequest chan" where
  "queueOf p w = (if p = ControlWrite then wControl w else if p = MaintenanceWrite then wMaintenance w else wNormal w)"

definition setQueue :: "WritePriority \<Rightarrow> writeRequest chan \<Rightarrow> Writer \<Rightarrow> Writer" where
  "setQueue p c w = (if p = ControlWrite then w\<lparr>wControl := c\<rparr> else if p = MaintenanceWrite then w\<lparr>wMaintenance := c\<rparr>
     else w\<lparr>wNormal := c\<rparr>)"

definition count_up :: "(Counters \<Rightarrow> Counters) \<Rightarrow> Writer \<Rightarrow> Writer" where
  "count_up f w = w\<lparr>wCounters := f (wCounters w)\<rparr>"

subsection \<open>Admission\<close>

datatype AdmitChoice = ChooseStop | ChooseCtx | ChooseSend | ChooseFull

definition admitChoices :: "WritePriority \<Rightarrow> bool \<Rightarrow> Writer \<Rightarrow> AdmitChoice list" where
  "admitChoices p ctxDone w =
     (let ready = (if wStop w then [ChooseStop] else []) @ (if ctxDone then [ChooseCtx] else [])
                  @ (if chRoom (queueOf p w) then [ChooseSend] else [])
      in if ready = [] then [ChooseFull] else ready)"

datatype DoError = ErrStopped | ErrContext | ErrQueueFull

definition admit :: "AdmitChoice \<Rightarrow> WritePriority \<Rightarrow> bool \<Rightarrow> int \<Rightarrow> Writer \<Rightarrow> Writer \<times> (DoError + nat)" where
  "admit choice rawPriority isTx now w =
     (let p = normalizeWritePriority rawPriority in
      case choice of
        ChooseStop \<Rightarrow> (count_up (recordRejected p) w, Inl ErrStopped)
      | ChooseCtx \<Rightarrow> (count_up (recordRejected p) w, Inl ErrContext)
      | ChooseFull \<Rightarrow> (count_up (recordRejected p) w, Inl ErrQueueFull)
      | ChooseSend \<Rightarrow>
          (let req = \<lparr>wrID = wNext w, wrPriority = p, wrTransaction = isTx, wrQueuedAt = now\<rparr> in
           case chSend req (queueOf p w) of
             None \<Rightarrow> (w, Inl ErrQueueFull)
           | Some c \<Rightarrow> (count_up (recordAdmitted p) ((setQueue p c w)\<lparr>wNext := Suc (wNext w)\<rparr>), Inr (wNext w))))"

text \<open>What an admitted caller can return from the second select; no choice means it still waits.\<close>

datatype DoResult = DoReply WriteReply | DoUnknown | DoStopped

definition waitChoices :: "nat \<Rightarrow> bool \<Rightarrow> Writer \<Rightarrow> DoResult list" where
  "waitChoices rid ctxDone w =
     (let reply = map_of (wReplies w) rid in
      (case reply of None \<Rightarrow> [] | Some r \<Rightarrow> [DoReply r])
      @ (if ctxDone then [DoUnknown] else [])
      @ (if wStop w then (case reply of Some r \<Rightarrow> [DoReply r] | None \<Rightarrow> [DoStopped]) else []))"

subsection \<open>The loop\<close>

datatype Pick = PickStop | PickControl | PickNormal | PickMaintenance

text \<open>The first select of \<open>next\<close> has a default: an empty list falls through to the second.\<close>

definition firstChoices :: "Writer \<Rightarrow> Pick list" where
  "firstChoices w =
     (if wBurst w < 8 then (if chItems (wControl w) \<noteq> [] then [PickControl] else [])
      else (if chItems (wNormal w) \<noteq> [] then [PickNormal] else [])
        @ (if chItems (wMaintenance w) \<noteq> [] then [PickMaintenance] else []))"

definition secondChoices :: "Writer \<Rightarrow> Pick list" where
  "secondChoices w = (if wStop w then [PickStop] else [])
     @ (if chItems (wControl w) \<noteq> [] then [PickControl] else [])
     @ (if chItems (wNormal w) \<noteq> [] then [PickNormal] else [])
     @ (if chItems (wMaintenance w) \<noteq> [] then [PickMaintenance] else [])"

definition rejectQueue :: "WritePriority \<Rightarrow> Writer \<Rightarrow> Writer" where
  "rejectQueue p w =
     (let (reqs, c) = drainN (length (chItems (queueOf p w))) chRecv (queueOf p w)
      in (setQueue p c w)\<lparr>wCounters := fold (\<lambda>r. recordDropped (wrPriority r)) reqs (wCounters w),
           wReplies := wReplies w @ map (\<lambda>r. (wrID r, ReplyStopped)) reqs\<rparr>)"

definition rejectQueued :: "Writer \<Rightarrow> Writer" where
  "rejectQueued w = rejectQueue MaintenanceWrite (rejectQueue NormalWrite (rejectQueue ControlWrite w))"

text \<open>The body of the loop up to the callback, for a request whose context is done or not.\<close>

definition startRequest :: "bool \<Rightarrow> int \<Rightarrow> writeRequest \<Rightarrow> Writer \<Rightarrow> Writer" where
  "startRequest ctxDone now req w =
     (let w1 = count_up (recordQueueWait (wrPriority req) (now - wrQueuedAt req)) w in
      if ctxDone then (count_up (recordFailed (wrPriority req)) w1)\<lparr>wLoop := FirstSelect,
          wReplies := wReplies w @ [(wrID req, ReplyCtx)]\<rparr>
      else w1\<lparr>wLoop := Running req, wRuns := wRuns w @ [wrID req]\<rparr>)"

definition takePick :: "Pick \<Rightarrow> bool \<Rightarrow> int \<Rightarrow> Writer \<Rightarrow> Writer" where
  "takePick pick ctxDone now w =
     (case pick of
        PickStop \<Rightarrow> (rejectQueued w)\<lparr>wLoop := LoopDone\<rparr>
      | PickControl \<Rightarrow> (case chRecv (wControl w) of None \<Rightarrow> w
          | Some (r, c) \<Rightarrow> startRequest ctxDone now r (w\<lparr>wControl := c, wBurst := wBurst w + 1\<rparr>))
      | PickNormal \<Rightarrow> (case chRecv (wNormal w) of None \<Rightarrow> w
          | Some (r, c) \<Rightarrow> startRequest ctxDone now r (w\<lparr>wNormal := c, wBurst := 0\<rparr>))
      | PickMaintenance \<Rightarrow> (case chRecv (wMaintenance w) of None \<Rightarrow> w
          | Some (r, c) \<Rightarrow> startRequest ctxDone now r (w\<lparr>wMaintenance := c, wBurst := 0\<rparr>)))"

definition finishRequest :: "WriteReply \<Rightarrow> int \<Rightarrow> writeRequest \<Rightarrow> Writer \<Rightarrow> Writer" where
  "finishRequest outcome runMS req w =
     (let p = wrPriority req;
          w1 = count_up (recordRunTime p runMS) w;
          w2 = (if wrTransaction req then count_up (recordTransactionRunTime p runMS) w1 else w1);
          w3 = (if outcome = ReplyOk then count_up (recordSucceeded p) w2 else count_up (recordFailed p) w2)
      in w3\<lparr>wLoop := FirstSelect, wReplies := wReplies w @ [(wrID req, outcome)]\<rparr>)"

text \<open>What the callback of \<open>Tx\<close> records while it runs: begin, then the statements and the commit.\<close>

datatype TxPhase = BeginFailed | CallbackFailed | Committed

definition recordTx :: "TxPhase \<Rightarrow> WritePriority \<Rightarrow> int \<Rightarrow> int \<Rightarrow> int \<Rightarrow> int \<Rightarrow> Writer \<Rightarrow> Writer" where
  "recordTx phase p waitMS sqlMS commitMS txMS w =
     (let w1 = count_up (recordDBWait p waitMS) w in
      case phase of
        BeginFailed \<Rightarrow> w1
      | CallbackFailed \<Rightarrow> count_up (recordDBTransaction p txMS) (count_up (recordDBSQL p sqlMS) w1)
      | Committed \<Rightarrow> count_up (recordDBTransaction p txMS)
          (count_up (recordDBCommit p commitMS) (count_up (recordDBSQL p sqlMS) w1)))"

end
