(* ===== verification/WriterProperties.thy ===== *)
theory WriterProperties
  imports Writer "HOL-Library.Multiset"
begin

text \<open>
  The writer under any interleaving of callers and its loop: every admitted request has one
  place and gets one reply, the counters balance, and control traffic cannot starve the rest.
\<close>

subsection \<open>Steps\<close>

datatype WriterLabel = Took Pick | Other

inductive writer_step :: "Writer \<Rightarrow> WriterLabel \<Rightarrow> Writer \<Rightarrow> bool" where
  start: "StartWriter w = Inr w' \<Longrightarrow> writer_step w Other w'"
| stop: "writer_step w Other (StopWriter w)"
| admit: "choice \<in> set (admitChoices (normalizeWritePriority p) ctxDone w) \<Longrightarrow> admit choice p isTx now w = (w', res)
    \<Longrightarrow> writer_step w Other w'"
| first: "wLoop w = FirstSelect \<Longrightarrow> pick \<in> set (firstChoices w) \<Longrightarrow>
    writer_step w (Took pick) (takePick pick ctxDone now w)"
| fall: "wLoop w = FirstSelect \<Longrightarrow> firstChoices w = [] \<Longrightarrow> writer_step w Other (w\<lparr>wLoop := SecondSelect\<rparr>)"
| second: "wLoop w = SecondSelect \<Longrightarrow> pick \<in> set (secondChoices w) \<Longrightarrow>
    writer_step w (Took pick) (takePick pick ctxDone now w)"
| transact: "wLoop w = Running req \<Longrightarrow> writer_step w Other (recordTx phase (wrPriority req) a b c d w)"
| finish: "wLoop w = Running req \<Longrightarrow> outcome = ReplyOk \<or> (\<exists>e. outcome = ReplyErr e) \<Longrightarrow>
    writer_step w Other (finishRequest outcome ms req w)"

inductive writer_reachable :: "int \<Rightarrow> Writer \<Rightarrow> bool" for capacity where
  init: "writer_reachable capacity (NewWriter capacity)"
| step: "writer_reachable capacity w \<Longrightarrow> writer_step w l w' \<Longrightarrow> writer_reachable capacity w'"

subsection \<open>Counters\<close>

definition counters_sum :: "(ClassCounters \<Rightarrow> int) \<Rightarrow> Counters \<Rightarrow> bool" where
  "counters_sum get c \<longleftrightarrow> get (wcTotal c) = get (wcControl c) + get (wcNormal c) + get (wcMaintenance c)"

text \<open>Each record function adds the same amount to the total and to one class.\<close>

definition adds :: "(ClassCounters \<Rightarrow> int) \<Rightarrow> (ClassCounters \<Rightarrow> ClassCounters) \<Rightarrow> bool" where
  "adds get f \<longleftrightarrow> (\<exists>n. \<forall>k. get (f k) = get k + n)"

definition class_fields :: "(ClassCounters \<Rightarrow> int) set" where
  "class_fields = {ccAdmitted, ccRejected, ccDropped, ccSucceeded, ccFailed, ccQueueWaitMS, ccRunTimeMS,
     ccTransactions, ccTransactionRunTimeMS, ccDBWaitMS, ccDBTransactionMS, ccDBSQLMS, ccDBCommitMS}"

lemma record_in_sum: "adds get f \<Longrightarrow> counters_sum get (record_in p f c) = counters_sum get c"
  by (auto simp: adds_def counters_sum_def record_in_def Let_def)

lemma adds_fields:
  assumes "get \<in> class_fields"
  shows "adds get (\<lambda>k. k\<lparr>ccAdmitted := ccAdmitted k + n\<rparr>)" "adds get (\<lambda>k. k\<lparr>ccRejected := ccRejected k + n\<rparr>)"
    "adds get (\<lambda>k. k\<lparr>ccDropped := ccDropped k + n\<rparr>)" "adds get (\<lambda>k. k\<lparr>ccSucceeded := ccSucceeded k + n\<rparr>)"
    "adds get (\<lambda>k. k\<lparr>ccFailed := ccFailed k + n\<rparr>)" "adds get (\<lambda>k. k\<lparr>ccQueueWaitMS := ccQueueWaitMS k + n\<rparr>)"
    "adds get (\<lambda>k. k\<lparr>ccRunTimeMS := ccRunTimeMS k + n\<rparr>)"
    "adds get (\<lambda>k. k\<lparr>ccTransactions := ccTransactions k + m, ccTransactionRunTimeMS := ccTransactionRunTimeMS k + n\<rparr>)"
    "adds get (\<lambda>k. k\<lparr>ccDBWaitMS := ccDBWaitMS k + n\<rparr>)" "adds get (\<lambda>k. k\<lparr>ccDBTransactionMS := ccDBTransactionMS k + n\<rparr>)"
    "adds get (\<lambda>k. k\<lparr>ccDBSQLMS := ccDBSQLMS k + n\<rparr>)" "adds get (\<lambda>k. k\<lparr>ccDBCommitMS := ccDBCommitMS k + n\<rparr>)"
  using assms by (auto simp: class_fields_def adds_def)

lemma record_sums [simp]:
  assumes "get \<in> class_fields"
  shows "counters_sum get (recordAdmitted p c) = counters_sum get c"
    "counters_sum get (recordRejected p c) = counters_sum get c"
    "counters_sum get (recordDropped p c) = counters_sum get c"
    "counters_sum get (recordSucceeded p c) = counters_sum get c"
    "counters_sum get (recordFailed p c) = counters_sum get c"
    "counters_sum get (recordQueueWait p ms c) = counters_sum get c"
    "counters_sum get (recordRunTime p ms c) = counters_sum get c"
    "counters_sum get (recordTransactionRunTime p ms c) = counters_sum get c"
    "counters_sum get (recordDBWait p ms c) = counters_sum get c"
    "counters_sum get (recordDBTransaction p ms c) = counters_sum get c"
    "counters_sum get (recordDBSQL p ms c) = counters_sum get c"
    "counters_sum get (recordDBCommit p ms c) = counters_sum get c"
  unfolding record_defs by (intro record_in_sum adds_fields assms)+

text \<open>What the record functions do to the fields that the balance is about.\<close>

definition settled :: "ClassCounters \<Rightarrow> int" where
  "settled k = ccAdmitted k - ccDropped k - ccSucceeded k - ccFailed k"

definition same_class :: "WritePriority \<Rightarrow> WritePriority \<Rightarrow> bool" where
  "same_class p q \<longleftrightarrow> p = q \<or> (p \<notin> {ControlWrite, MaintenanceWrite} \<and> q \<notin> {ControlWrite, MaintenanceWrite})"

lemma settled_record [simp]:
  "settled (classCounters q (recordAdmitted p c)) = settled (classCounters q c) + (if same_class p q then 1 else 0)"
  "settled (classCounters q (recordDropped p c)) = settled (classCounters q c) - (if same_class p q then 1 else 0)"
  "settled (classCounters q (recordSucceeded p c)) = settled (classCounters q c) - (if same_class p q then 1 else 0)"
  "settled (classCounters q (recordFailed p c)) = settled (classCounters q c) - (if same_class p q then 1 else 0)"
  "settled (classCounters q (recordRejected p c)) = settled (classCounters q c)"
  "settled (classCounters q (recordQueueWait p ms c)) = settled (classCounters q c)"
  "settled (classCounters q (recordRunTime p ms c)) = settled (classCounters q c)"
  "settled (classCounters q (recordTransactionRunTime p ms c)) = settled (classCounters q c)"
  "settled (classCounters q (recordDBWait p ms c)) = settled (classCounters q c)"
  "settled (classCounters q (recordDBTransaction p ms c)) = settled (classCounters q c)"
  "settled (classCounters q (recordDBSQL p ms c)) = settled (classCounters q c)"
  "settled (classCounters q (recordDBCommit p ms c)) = settled (classCounters q c)"
  by (auto simp: record_defs record_in_def Let_def classCounters_def settled_def same_class_def)

subsection \<open>Where the requests are\<close>

definition inflight :: "Writer \<Rightarrow> writeRequest list" where
  "inflight w = (case wLoop w of Running r \<Rightarrow> [r] | _ \<Rightarrow> [])"

definition queued :: "Writer \<Rightarrow> writeRequest list" where
  "queued w = chItems (wControl w) @ chItems (wNormal w) @ chItems (wMaintenance w)"

text \<open>Every admitted request, by where it is.\<close>

definition places :: "Writer \<Rightarrow> nat multiset" where
  "places w = mset (map wrID (queued w)) + mset (map wrID (inflight w)) + mset (map fst (wReplies w))"

definition ran :: "WriteReply \<Rightarrow> bool" where
  "ran r \<longleftrightarrow> r \<noteq> ReplyCtx \<and> r \<noteq> ReplyStopped"

definition run_places :: "Writer \<Rightarrow> nat multiset" where
  "run_places w = mset (map wrID (inflight w)) + mset (map fst (filter (\<lambda>x. ran (snd x)) (wReplies w)))"

definition writer_inv :: "Writer \<Rightarrow> bool" where
  "writer_inv w \<longleftrightarrow> chan_ok (wControl w) \<and> chan_ok (wNormal w) \<and> chan_ok (wMaintenance w)
     \<and> (\<forall>r \<in> set (chItems (wControl w)). wrPriority r = ControlWrite)
     \<and> (\<forall>r \<in> set (chItems (wNormal w)). wrPriority r = NormalWrite)
     \<and> (\<forall>r \<in> set (chItems (wMaintenance w)). wrPriority r = MaintenanceWrite)
     \<and> places w = mset [0..<wNext w] \<and> mset (wRuns w) = run_places w
     \<and> (\<forall>get \<in> class_fields. counters_sum get (wCounters w))
     \<and> (\<forall>p \<in> {ControlWrite, NormalWrite, MaintenanceWrite}.
          settled (classCounters p (wCounters w)) = int (length (chItems (queueOf p w)))
            + int (length (filter (\<lambda>r. same_class (wrPriority r) p) (inflight w))))
     \<and> (wStarted w \<longleftrightarrow> wLoop w \<noteq> NotStarted)"

lemma count_up_simps [simp]:
  "wControl (count_up f w) = wControl w" "wNormal (count_up f w) = wNormal w"
  "wMaintenance (count_up f w) = wMaintenance w" "wLoop (count_up f w) = wLoop w" "wBurst (count_up f w) = wBurst w"
  "wStop (count_up f w) = wStop w" "wStarted (count_up f w) = wStarted w" "wNext (count_up f w) = wNext w"
  "wRuns (count_up f w) = wRuns w" "wReplies (count_up f w) = wReplies w" "wCounters (count_up f w) = f (wCounters w)"
  by (simp_all add: count_up_def)

lemma recordTx_simps [simp]:
  "wControl (recordTx x p a b c d w) = wControl w" "wNormal (recordTx x p a b c d w) = wNormal w"
  "wMaintenance (recordTx x p a b c d w) = wMaintenance w" "wLoop (recordTx x p a b c d w) = wLoop w"
  "wBurst (recordTx x p a b c d w) = wBurst w" "wStop (recordTx x p a b c d w) = wStop w"
  "wStarted (recordTx x p a b c d w) = wStarted w" "wNext (recordTx x p a b c d w) = wNext w"
  "wRuns (recordTx x p a b c d w) = wRuns w" "wReplies (recordTx x p a b c d w) = wReplies w"
  "settled (classCounters q (wCounters (recordTx x p a b c d w))) = settled (classCounters q (wCounters w))"
  "get \<in> class_fields \<Longrightarrow> counters_sum get (wCounters (recordTx x p a b c d w)) = counters_sum get (wCounters w)"
  by (cases x; simp add: recordTx_def Let_def)+

text \<open>Only the fields the invariant reads.\<close>

lemma writer_inv_cong:
  assumes "writer_inv w" "wControl w' = wControl w" "wNormal w' = wNormal w" "wMaintenance w' = wMaintenance w"
    "inflight w' = inflight w" "wReplies w' = wReplies w" "wRuns w' = wRuns w" "wNext w' = wNext w"
    "\<forall>get \<in> class_fields. counters_sum get (wCounters w') = counters_sum get (wCounters w)"
    "\<forall>q. settled (classCounters q (wCounters w')) = settled (classCounters q (wCounters w))"
    "wStarted w' \<longleftrightarrow> wLoop w' \<noteq> NotStarted"
  shows "writer_inv w'"
  using assms by (simp add: writer_inv_def places_def run_places_def queued_def queueOf_def)

lemma mset_upt_Suc: "mset [0..<Suc n] = add_mset n (mset [0..<n])"
  by simp

lemma admit_inv:
  assumes inv: "writer_inv w" and ad: "admit choice p isTx now w = (w', res)"
  shows "writer_inv w'"
proof (cases "choice = ChooseSend")
  case False
  then have "w' = count_up (recordRejected (normalizeWritePriority p)) w"
    using ad by (cases choice) (auto simp: admit_def Let_def)
  then show ?thesis using inv by (intro writer_inv_cong [OF inv]) (auto simp: inflight_def writer_inv_def [of w])
next
  case True
  let ?p = "normalizeWritePriority p"
  let ?r = "\<lparr>wrID = wNext w, wrPriority = ?p, wrTransaction = isTx, wrQueuedAt = now\<rparr>"
  show ?thesis
  proof (cases "chSend ?r (queueOf ?p w)")
    case None
    with ad True inv show ?thesis by (simp add: admit_def Let_def)
  next
    case (Some c)
    note c = ch.send_Some [OF Some] chan_ok_ops(2) [OF Some]
    have w': "w' = count_up (recordAdmitted ?p) ((setQueue ?p c w)\<lparr>wNext := Suc (wNext w)\<rparr>)"
      using ad True Some by (simp add: admit_def Let_def)
    have p: "?p = ControlWrite \<or> ?p = NormalWrite \<or> ?p = MaintenanceWrite" by (auto simp: normalizeWritePriority_def)
    then show ?thesis
      using inv c unfolding w'
      by (elim disjE) (auto simp: writer_inv_def setQueue_def queueOf_def places_def run_places_def queued_def
          inflight_def same_class_def)
  qed
qed

lemma chRecv_Some: "chRecv c = Some (r, c') \<longleftrightarrow> chItems c = r # chItems c' \<and> chCap c' = chCap c"
  by (cases c; cases c') (auto simp: chRecv_def split: list.splits)

lemma startRequest_inv:
  assumes inv: "writer_inv w" and idle: "inflight w = []" "wLoop w \<noteq> NotStarted"
    and q: "chRecv (queueOf p w) = Some (r, c)" and p: "p \<in> {ControlWrite, NormalWrite, MaintenanceWrite}"
  shows "writer_inv (startRequest ctxDone now r ((setQueue p c w)\<lparr>wBurst := b\<rparr>))"
proof -
  have "wrPriority r = p"
    using inv q p by (auto simp: writer_inv_def queueOf_def chRecv_Some)
  then show ?thesis
    using inv idle q p
    by (auto simp: writer_inv_def setQueue_def queueOf_def places_def run_places_def queued_def startRequest_def
        inflight_def chRecv_Some chan_ok_def same_class_def ran_def Let_def)
qed

lemma settled_fold_dropped:
  "\<forall>r \<in> set reqs. wrPriority r = p \<Longrightarrow>
     settled (classCounters q (fold (\<lambda>r. recordDropped (wrPriority r)) reqs c))
       = settled (classCounters q c) - (if same_class p q then int (length reqs) else 0)"
  by (induction reqs arbitrary: c) auto

lemma sum_fold_dropped:
  "get \<in> class_fields \<Longrightarrow> counters_sum get (fold (\<lambda>r. recordDropped (wrPriority r)) reqs c) = counters_sum get c"
  by (induction reqs arbitrary: c) auto

lemma rejectQueue_fields [simp]:
  "wLoop (rejectQueue p w) = wLoop w" "wStarted (rejectQueue p w) = wStarted w" "wNext (rejectQueue p w) = wNext w"
  "wRuns (rejectQueue p w) = wRuns w" "inflight (rejectQueue p w) = inflight w"
  by (auto simp: rejectQueue_def Let_def setQueue_def inflight_def split: prod.splits)

lemma rejectQueue_effect:
  "\<exists>c. chItems c = [] \<and> rejectQueue p w = (setQueue p c w)\<lparr>
       wCounters := fold (\<lambda>r. recordDropped (wrPriority r)) (chItems (queueOf p w)) (wCounters w),
       wReplies := wReplies w @ map (\<lambda>r. (wrID r, ReplyStopped)) (chItems (queueOf p w))\<rparr>"
proof -
  let ?d = "drainN (length (chItems (queueOf p w))) chRecv (queueOf p w)"
  have "fst ?d = chItems (queueOf p w)" "chItems (snd ?d) = []"
    using ch.drainN_all [of "queueOf p w"] by auto
  then show ?thesis
    by (intro exI [of _ "snd ?d"]) (cases ?d, simp add: rejectQueue_def)
qed

lemma inflight_upd [simp]:
  "inflight (w\<lparr>wControl := c\<rparr>) = inflight w" "inflight (w\<lparr>wNormal := c\<rparr>) = inflight w"
  "inflight (w\<lparr>wMaintenance := c\<rparr>) = inflight w" "inflight (w\<lparr>wCounters := k\<rparr>) = inflight w"
  "inflight (w\<lparr>wReplies := rs\<rparr>) = inflight w"
  by (simp_all add: inflight_def)

lemma rejectQueue_inv:
  assumes inv: "writer_inv w" and p: "p \<in> {ControlWrite, NormalWrite, MaintenanceWrite}"
  shows "writer_inv (rejectQueue p w)"
proof -
  from rejectQueue_effect obtain c where c: "chItems c = []" and eq: "rejectQueue p w = (setQueue p c w)\<lparr>
       wCounters := fold (\<lambda>r. recordDropped (wrPriority r)) (chItems (queueOf p w)) (wCounters w),
       wReplies := wReplies w @ map (\<lambda>r. (wrID r, ReplyStopped)) (chItems (queueOf p w))\<rparr>"
    by blast
  have pr: "\<forall>r \<in> set (chItems (queueOf p w)). wrPriority r = p"
    using inv p by (auto simp: writer_inv_def queueOf_def)
  have no: "filter (\<lambda>x. ran (snd x)) (map (\<lambda>r. (wrID r, ReplyStopped)) xs) = []" for xs :: "writeRequest list"
    by (simp add: filter_map comp_def ran_def)
  have ids: "map fst (map (\<lambda>r. (wrID r, ReplyStopped)) xs) = map wrID xs" for xs :: "writeRequest list"
    by simp
  show ?thesis
    using inv p c pr settled_fold_dropped [OF pr] unfolding eq writer_inv_def
    by (elim insertE emptyE)
      (simp_all add: setQueue_def queueOf_def places_def run_places_def queued_def sum_fold_dropped
        chan_ok_def same_class_def no ids comp_def ac_simps)
qed

lemma writer_inv_loop:
  "writer_inv w \<Longrightarrow> inflight w = [] \<Longrightarrow> wLoop w \<noteq> NotStarted \<Longrightarrow> s \<in> {FirstSelect, SecondSelect, LoopDone} \<Longrightarrow> writer_inv (w\<lparr>wLoop := s\<rparr>)"
  by (rule writer_inv_cong [where w = w]) (auto simp: inflight_def writer_inv_def [of w])

lemma takePick_inv:
  assumes inv: "writer_inv w" and idle: "inflight w = []" "wLoop w \<noteq> NotStarted"
  shows "writer_inv (takePick pick ctxDone now w)"
proof (cases pick)
  case PickStop
  have "writer_inv (rejectQueued w)"
    unfolding rejectQueued_def by (intro rejectQueue_inv inv) auto
  moreover have "inflight (rejectQueued w) = []" "wLoop (rejectQueued w) \<noteq> NotStarted" by (simp_all add: rejectQueued_def idle)
  ultimately show ?thesis unfolding takePick_def PickStop by (simp add: writer_inv_loop)
next
  case PickControl
  show ?thesis
  proof (cases "chRecv (wControl w)")
    case (Some x)
    then obtain r c where "chRecv (queueOf ControlWrite w) = Some (r, c)" by (cases x) (auto simp: queueOf_def)
    from startRequest_inv [OF inv idle this, of ctxDone now "wBurst w + 1"] this show ?thesis
      by (simp add: takePick_def PickControl setQueue_def queueOf_def)
  qed (simp add: takePick_def PickControl inv)
next
  case PickNormal
  show ?thesis
  proof (cases "chRecv (wNormal w)")
    case (Some x)
    then obtain r c where "chRecv (queueOf NormalWrite w) = Some (r, c)" by (cases x) (auto simp: queueOf_def)
    from startRequest_inv [OF inv idle this, of ctxDone now 0] this show ?thesis
      by (simp add: takePick_def PickNormal setQueue_def queueOf_def)
  qed (simp add: takePick_def PickNormal inv)
next
  case PickMaintenance
  show ?thesis
  proof (cases "chRecv (wMaintenance w)")
    case (Some x)
    then obtain r c where "chRecv (queueOf MaintenanceWrite w) = Some (r, c)" by (cases x) (auto simp: queueOf_def)
    from startRequest_inv [OF inv idle this, of ctxDone now 0] this show ?thesis
      by (simp add: takePick_def PickMaintenance setQueue_def queueOf_def)
  qed (simp add: takePick_def PickMaintenance inv)
qed

lemma finishRequest_inv:
  assumes inv: "writer_inv w" and run: "wLoop w = Running req" and out: "outcome = ReplyOk \<or> (\<exists>e. outcome = ReplyErr e)"
  shows "writer_inv (finishRequest outcome ms req w)"
proof -
  have "ran outcome" using out by (auto simp: ran_def)
  then show ?thesis
    using inv run
    by (auto simp: writer_inv_def finishRequest_def Let_def places_def run_places_def queued_def inflight_def queueOf_def)
qed

lemma writer_step_inv: "writer_step w l w' \<Longrightarrow> writer_inv w \<Longrightarrow> writer_inv w'"
proof (induction rule: writer_step.induct)
  case (start w w')
  then have w': "w' = w\<lparr>wStarted := True, wLoop := FirstSelect\<rparr>" "\<not> wStarted w"
    by (auto simp: StartWriter_def split: if_splits)
  then have "wLoop w = NotStarted" using start(2) by (simp add: writer_inv_def)
  then show ?case by (intro writer_inv_cong [OF start(2)]) (simp_all add: w' inflight_def)
next
  case (stop w)
  then show ?case by (intro writer_inv_cong [OF stop]) (auto simp: StopWriter_def inflight_def writer_inv_def [of w])
next
  case (admit choice p ctxDone w isTx now w' res)
  then show ?case by (blast intro: admit_inv)
next
  case (first w pick ctxDone now)
  then show ?case by (intro takePick_inv) (auto simp: inflight_def)
next
  case (fall w)
  then show ?case by (intro writer_inv_loop) (auto simp: inflight_def)
next
  case (second w pick ctxDone now)
  then show ?case by (intro takePick_inv) (auto simp: inflight_def)
next
  case (transact w req phase a b c d)
  then show ?case by (intro writer_inv_cong [OF transact(2)]) (auto simp: inflight_def writer_inv_def [of w])
next
  case (finish w req outcome ms)
  then show ?case by (intro finishRequest_inv)
qed

lemma NewWriter_inv: "writer_inv (NewWriter capacity)"
  by (auto simp: writer_inv_def NewWriter_def Let_def places_def run_places_def queued_def inflight_def makeChan_def
      chan_ok_def counters_sum_def class_fields_def zeroCounters_def zeroClass_def settled_def classCounters_def queueOf_def)

lemma writer_reachable_inv: "writer_reachable capacity w \<Longrightarrow> writer_inv w"
  by (induction rule: writer_reachable.induct) (auto intro: NewWriter_inv writer_step_inv)

subsection \<open>Control bursts\<close>

definition others_wait :: "Writer \<Rightarrow> bool" where
  "others_wait w \<longleftrightarrow> chItems (wNormal w) \<noteq> [] \<or> chItems (wMaintenance w) \<noteq> []"

text \<open>
  A stretch of a run in which normal or maintenance work is waiting before every step, and the
  loop has taken \<open>n\<close> control requests and nothing else.
\<close>

inductive control_run :: "Writer \<Rightarrow> nat \<Rightarrow> Writer \<Rightarrow> bool" for w where
  nil: "control_run w 0 w"
| other: "control_run w n w1 \<Longrightarrow> others_wait w1 \<Longrightarrow> writer_step w1 Other w2 \<Longrightarrow> control_run w n w2"
| pick: "control_run w n w1 \<Longrightarrow> others_wait w1 \<Longrightarrow> writer_step w1 (Took PickControl) w2 \<Longrightarrow> control_run w (Suc n) w2"

definition burst_left :: "Writer \<Rightarrow> int" where
  "burst_left w = max 0 (8 - wBurst w) + (if wLoop w = SecondSelect \<and> 8 \<le> wBurst w then 1 else 0)"

lemma admit_fields:
  "admit choice p isTx now w = (w', res) \<Longrightarrow> wBurst w' = wBurst w \<and> wLoop w' = wLoop w"
  by (auto simp: admit_def Let_def setQueue_def split: AdmitChoice.splits option.splits if_splits)

lemma takeControl_fields:
  "chItems (wControl w) \<noteq> [] \<Longrightarrow> wBurst (takePick PickControl ctxDone now w) = wBurst w + 1
     \<and> wLoop (takePick PickControl ctxDone now w) \<noteq> SecondSelect"
  by (auto simp: takePick_def chRecv_def startRequest_def Let_def split: list.splits)

lemma burst_step:
  assumes "writer_step w l w'" "others_wait w"
  shows "l = Other \<Longrightarrow> burst_left w' \<le> burst_left w" "l = Took PickControl \<Longrightarrow> burst_left w' + 1 \<le> burst_left w"
proof -
  show "burst_left w' \<le> burst_left w" if "l = Other"
    using assms that
  proof (cases rule: writer_step.cases)
    case start
    then show ?thesis by (auto simp: StartWriter_def burst_left_def split: if_splits)
  next
    case (admit choice p ctxDone isTx now res)
    then show ?thesis using admit_fields [OF admit(3)] by (simp add: burst_left_def)
  next
    case fall
    then show ?thesis using assms(2) by (auto simp: firstChoices_def others_wait_def burst_left_def split: if_splits)
  next
    case (transact req phase a b c d)
    then show ?thesis by (simp add: burst_left_def)
  qed (auto simp: StopWriter_def burst_left_def finishRequest_def Let_def)
  show "burst_left w' + 1 \<le> burst_left w" if "l = Took PickControl"
    using assms(1) that
  proof (cases rule: writer_step.cases)
    case (first pick ctxDone now)
    with that have "wBurst w < 8" "chItems (wControl w) \<noteq> []" by (auto simp: firstChoices_def split: if_splits)
    with first that takeControl_fields [of w ctxDone now] show ?thesis by (auto simp: burst_left_def)
  next
    case (second pick ctxDone now)
    with that have "chItems (wControl w) \<noteq> []" by (auto simp: secondChoices_def split: if_splits)
    with second that takeControl_fields [of w ctxDone now] show ?thesis by (auto simp: burst_left_def)
  qed auto
qed

lemma takePick_burst: "0 \<le> wBurst w \<Longrightarrow> 0 \<le> wBurst (takePick pick ctxDone now w)"
proof -
  have "wBurst (rejectQueue p w) = wBurst w" for p w
    by (auto simp: rejectQueue_def Let_def setQueue_def split: prod.splits)
  then show "0 \<le> wBurst w \<Longrightarrow> 0 \<le> wBurst (takePick pick ctxDone now w)"
    by (auto simp: takePick_def startRequest_def rejectQueued_def Let_def split: Pick.splits option.splits)
qed

lemma writer_reachable_burst: "writer_reachable capacity w \<Longrightarrow> 0 \<le> wBurst w"
proof (induction rule: writer_reachable.induct)
  case (step w l w')
  from step.hyps(2) step.IH show ?case
  proof (cases rule: writer_step.cases)
    case (admit choice p ctxDone isTx now res)
    then show ?thesis using step.IH admit_fields [OF admit(3)] by simp
  qed (auto simp: StartWriter_def StopWriter_def finishRequest_def Let_def takePick_burst split: if_splits)
qed (simp add: NewWriter_def Let_def)

subsection \<open>Properties\<close>

definition demoWriter :: Writer where
  "demoWriter = fst (admit ChooseSend ControlWrite True 5 (NewWriter 1))"

definition demoRunning :: Writer where
  "demoRunning = takePick PickControl False 7 (case StartWriter demoWriter of Inl _ \<Rightarrow> demoWriter | Inr w \<Rightarrow> w)"

lemma demoWriter_reachable: "writer_reachable 1 demoWriter"
proof (rule writer_reachable.step [OF writer_reachable.init])
  show "writer_step (NewWriter 1) Other demoWriter"
    by (rule writer_step.admit [of ChooseSend ControlWrite False _ True 5 demoWriter "Inr 0"])
      (simp_all add: admitChoices_def demoWriter_def NewWriter_def normalizeWritePriority_def queueOf_def chRoom_def
        makeChan_def admit_def chSend_def Let_def)
qed

lemma demoRunning_reachable: "writer_reachable 1 demoRunning"
proof -
  let ?w = "demoWriter\<lparr>wStarted := True, wLoop := FirstSelect\<rparr>"
  have s: "StartWriter demoWriter = Inr ?w"
    by (simp add: StartWriter_def demoWriter_def NewWriter_def admit_def chSend_def queueOf_def chRoom_def makeChan_def
        setQueue_def normalizeWritePriority_def Let_def)
  have 1: "writer_reachable 1 ?w"
    by (rule writer_reachable.step [OF demoWriter_reachable]) (rule writer_step.start [OF s])
  have "PickControl \<in> set (firstChoices ?w)"
    by (simp add: firstChoices_def demoWriter_def NewWriter_def admit_def chSend_def queueOf_def chRoom_def makeChan_def
        setQueue_def normalizeWritePriority_def Let_def)
  then have "writer_step ?w (Took PickControl) (takePick PickControl False 7 ?w)"
    by (intro writer_step.first) simp_all
  with 1 show ?thesis unfolding demoRunning_def s sum.case by (rule writer_reachable.step)
qed

lemmas demo_writer_defs = NewWriter_def admit_def chSend_def queueOf_def chRoom_def makeChan_def
  setQueue_def normalizeWritePriority_def admitChoices_def Let_def

text \<open>One control and one normal write waiting, the loop started.\<close>

definition demoBusy :: Writer where
  "demoBusy = (fst (admit ChooseSend NormalWrite True 6 (fst (admit ChooseSend ControlWrite True 5 (NewWriter 2)))))
     \<lparr>wStarted := True, wLoop := FirstSelect\<rparr>"

lemma demoBusy_reachable: "writer_reachable 2 demoBusy"
proof -
  let ?w1 = "fst (admit ChooseSend ControlWrite True 5 (NewWriter 2))"
  let ?w2 = "fst (admit ChooseSend NormalWrite True 6 ?w1)"
  have "writer_step (NewWriter 2) Other ?w1"
    by (rule writer_step.admit [of ChooseSend ControlWrite False _ True 5 ?w1 "Inr 0"]) (simp_all add: demo_writer_defs)
  then have 1: "writer_reachable 2 ?w1" by (rule writer_reachable.step [OF writer_reachable.init])
  have "writer_step ?w1 Other ?w2"
    by (rule writer_step.admit [of ChooseSend NormalWrite False _ True 6 ?w2 "Inr 1"]) (simp_all add: demo_writer_defs)
  then have 2: "writer_reachable 2 ?w2" by (rule writer_reachable.step [OF 1])
  have "writer_step ?w2 Other demoBusy"
    by (rule writer_step.start) (simp add: StartWriter_def demoBusy_def demo_writer_defs)
  then show ?thesis by (rule writer_reachable.step [OF 2])
qed

text \<open>
  C12: Every write admitted to the writer is in exactly one place, its queue, running, or
  answered, and is answered at most once; its callback runs at most once; an answer of success or
  failure means it ran, and an answer "stopped" or "context done" means it never did.
\<close>

theorem writer_exactly_once:
  assumes "writer_reachable capacity w"
  shows "distinct (map wrID (queued w) @ map wrID (inflight w) @ map fst (wReplies w))
    \<and> set (map wrID (queued w) @ map wrID (inflight w) @ map fst (wReplies w)) = {..<wNext w}
    \<and> distinct (wRuns w)
    \<and> (\<forall>(i, r) \<in> set (wReplies w). (i \<in> set (wRuns w)) = (r = ReplyOk \<or> (\<exists>e. r = ReplyErr e)))"
proof -
  let ?all = "map wrID (queued w) @ map wrID (inflight w) @ map fst (wReplies w)"
  let ?ran = "map wrID (inflight w) @ map fst (filter (\<lambda>x. ran (snd x)) (wReplies w))"
  have inv: "writer_inv w" using assms by (rule writer_reachable_inv)
  then have all: "mset ?all = mset [0..<wNext w]" by (simp add: writer_inv_def places_def ac_simps)
  then have d: "distinct ?all" by (metis distinct_upt mset_eq_imp_distinct_iff)
  have s: "set ?all = {..<wNext w}" using mset_eq_setD [OF all] by (simp add: lessThan_atLeast0)
  have runs: "mset (wRuns w) = mset ?ran" using inv by (simp add: writer_inv_def run_places_def)
  have "distinct ?ran" using d by (auto simp: distinct_map_filter)
  then have dr: "distinct (wRuns w)" using runs mset_eq_imp_distinct_iff by blast
  have "(i \<in> set (wRuns w)) = ran r" if ir: "(i, r) \<in> set (wReplies w)" for i r
  proof -
    have "i \<notin> set (map wrID (inflight w))" using d ir by (force simp: disjoint_iff)
    then have "i \<in> set (wRuns w) \<longleftrightarrow> (\<exists>r'. (i, r') \<in> set (wReplies w) \<and> ran r')"
      using mset_eq_setD [OF runs] by force
    moreover have "r' = r" if "(i, r') \<in> set (wReplies w)" for r'
      using d ir that by (auto simp: eq_key_imp_eq_value)
    ultimately show ?thesis using ir by blast
  qed
  then show ?thesis using d s dr by (auto simp: ran_def) (metis WriteReply.exhaust)+
qed

lemma writer_exactly_once_witness: "distinct (wRuns demoRunning)"
  using writer_exactly_once [OF demoRunning_reachable] by blast



text \<open>
  C14: Control traffic cannot starve the other classes: while normal or maintenance work is
  waiting, the loop takes at most eight control writes before it takes one of them, however the
  two selects of \<open>next\<close> interleave with new submissions.
\<close>

theorem writer_control_burst_bounded:
  assumes "writer_reachable capacity w" "control_run w n w'"
  shows "n \<le> 8"
proof -
  have "int n + burst_left w' \<le> burst_left w"
    using assms(2)
  proof (induction rule: control_run.induct)
    case (other n w1 w2)
    then show ?case using burst_step(1) [OF other(3,2)] by simp
  next
    case (pick n w1 w2)
    then show ?case using burst_step(2) [OF pick(3,2)] by simp
  qed simp
  moreover have "0 \<le> burst_left w'" by (simp add: burst_left_def)
  moreover have "burst_left w \<le> 8"
    using writer_reachable_burst [OF assms(1)] by (auto simp: burst_left_def)
  ultimately show ?thesis by simp
qed

lemma writer_control_burst_bounded_witness:
  "control_run demoBusy 1 (takePick PickControl False 7 demoBusy) \<and> (1::nat) \<le> 8"
proof -
  have "PickControl \<in> set (firstChoices demoBusy)" "wLoop demoBusy = FirstSelect" "others_wait demoBusy"
    by (simp_all add: firstChoices_def others_wait_def demoBusy_def demo_writer_defs)
  then have "control_run demoBusy (Suc 0) (takePick PickControl False 7 demoBusy)"
    by (intro control_run.pick [OF control_run.nil] writer_step.first)
  with writer_control_burst_bounded [OF demoBusy_reachable this] show ?thesis by simp
qed

text \<open>
  A caller that is told the writer stopped may still have its write executed: there is a
  reachable state in which the caller's select can return \<open>ErrWriterStopped\<close> while its callback
  runs, and the callback then completes with success.
\<close>

theorem stopped_result_is_not_a_rejection:
  "writer_reachable 1 (StopWriter demoRunning) \<and> DoStopped \<in> set (waitChoices 0 False (StopWriter demoRunning))
   \<and> (\<exists>req. wLoop (StopWriter demoRunning) = Running req \<and> wrID req = 0
       \<and> (0, ReplyOk) \<in> set (wReplies (finishRequest ReplyOk 1 req (StopWriter demoRunning))))"
proof -
  have "writer_reachable 1 (StopWriter demoRunning)"
    by (rule writer_reachable.step [OF demoRunning_reachable writer_step.stop])
  moreover have "map_of (wReplies demoRunning) 0 = None \<and> (\<exists>req. wLoop demoRunning = Running req \<and> wrID req = 0)"
    by (simp add: demoRunning_def demoWriter_def StartWriter_def takePick_def chRecv_def NewWriter_def admit_def
        chSend_def queueOf_def chRoom_def makeChan_def setQueue_def normalizeWritePriority_def startRequest_def Let_def)
  ultimately show ?thesis by (auto simp: waitChoices_def StopWriter_def finishRequest_def Let_def)
qed

end
