(* ===== verification/GoFloat.thy ===== *)
theory GoFloat
  imports Prelude Complex_Main
begin

text \<open>
  Go's \<open>float64\<close> as far as the verified packages use it: values are rationals, each operation is
  the exact one followed by \<open>fl\<close>, rounding to 53 significant bits with ties to even (the values in
  question stay far from overflow and from the subnormal range). \<open>math.Round\<close>, \<open>math.Ceil\<close> and
  the conversion to \<open>int\<close> complete what the code needs.
\<close>

fun bitLen :: "nat \<Rightarrow> nat" where
  "bitLen n = (if n = 0 then 0 else Suc (bitLen (n div 2)))"

declare bitLen.simps [simp del]

lemma bitLen_upper: "n < 2 ^ bitLen n"
proof (induction n rule: bitLen.induct)
  case (1 n)
  then show ?case by (cases "n = 0") (subst bitLen.simps; auto)+
qed

lemma bitLen_lower: "0 < n \<Longrightarrow> 2 ^ bitLen n \<le> 2 * n"
proof (induction n rule: bitLen.induct)
  case (1 n)
  show ?case
  proof (cases "n div 2 = 0")
    case True
    then have "bitLen n = Suc 0" using 1 by (simp add: bitLen.simps [of n] bitLen.simps [of 0])
    with 1 show ?thesis by simp
  next
    case False
    with 1 have "2 ^ bitLen (n div 2) \<le> 2 * (n div 2)" by simp
    with 1 show ?thesis by (subst bitLen.simps) auto
  qed
qed

text \<open>The exponent of a rational: the power of two at or below its absolute value.\<close>

definition fexp :: "rat \<Rightarrow> int" where
  "fexp q = (let (a, b) = quotient_of \<bar>q\<bar>; k = int (bitLen (nat a)) - int (bitLen (nat b))
     in if 2 powi k \<le> \<bar>q\<bar> then k else k - 1)"

definition roundEven :: "rat \<Rightarrow> int" where
  "roundEven x = (let f = \<lfloor>x\<rfloor>; d = x - of_int f in
     if d < 1/2 then f else if d > 1/2 then f + 1 else if even f then f else f + 1)"

definition fl :: "rat \<Rightarrow> rat" where
  "fl q = (if q = 0 then 0 else
     (let u = 2 powi (fexp q - 52) in sgn q * of_int (roundEven (\<bar>q\<bar> / u)) * u))"

definition goRound :: "rat \<Rightarrow> int" where
  "goRound x = (if x < 0 then - \<lfloor>1/2 - x\<rfloor> else \<lfloor>x + 1/2\<rfloor>)"

definition goCeil :: "rat \<Rightarrow> int" where
  "goCeil x = \<lceil>x\<rceil>"

definition goTrunc :: "rat \<Rightarrow> int" where
  "goTrunc x = (if x < 0 then - \<lfloor>- x\<rfloor> else \<lfloor>x\<rfloor>)"

subsection \<open>Error of one rounding\<close>

lemma fexp_lower:
  assumes "q \<noteq> 0" shows "2 powi fexp q \<le> \<bar>q\<bar>"
proof -
  obtain a b where ab: "quotient_of \<bar>q\<bar> = (a, b)" by fastforce
  then have q: "\<bar>q\<bar> = of_int a / of_int b" and b: "0 < b"
    by (auto simp: quotient_of_div quotient_of_denom_pos)
  with assms have a: "0 < a" by (metis abs_le_zero_iff divide_le_0_iff linorder_not_le of_int_0_le_iff of_int_le_0_iff order_less_imp_le zero_less_abs_iff)
  let ?la = "bitLen (nat a)" and ?lb = "bitLen (nat b)"
  have "2 powi (int ?la - int ?lb - 1) \<le> \<bar>q\<bar>"
  proof -
    have "(2::rat) ^ ?la \<le> 2 * of_int a"
    proof -
      have "2 ^ ?la \<le> 2 * nat a" using bitLen_lower [of "nat a"] a by simp
      then have "int (2 ^ ?la) \<le> 2 * a" using a by linarith
      then have "(of_int (int (2 ^ ?la)) :: rat) \<le> of_int (2 * a)" by (rule of_int_le_iff [THEN iffD2])
      then show ?thesis by simp
    qed
    moreover have "(of_int b :: rat) \<le> 2 ^ ?lb"
    proof -
      have "b \<le> int (2 ^ ?lb)" using bitLen_upper [of "nat b"] b by linarith
      then have "(of_int b :: rat) \<le> of_int (int (2 ^ ?lb))" by (rule of_int_le_iff [THEN iffD2])
      then show ?thesis by simp
    qed
    ultimately have "(2::rat) ^ ?la / 2 / 2 ^ ?lb \<le> of_int a / of_int b"
      using a b by (intro frac_le) auto
    moreover have "(2::rat) powi (int ?la - int ?lb - 1) = 2 ^ ?la / 2 / 2 ^ ?lb"
      by (simp add: power_int_diff)
    ultimately show ?thesis by (simp add: q)
  qed
  then show ?thesis by (simp add: fexp_def ab Let_def)
qed

lemma roundEven_error: "\<bar>of_int (roundEven x) - x\<bar> \<le> 1/2"
proof -
  have f: "of_int \<lfloor>x\<rfloor> \<le> x" "x < of_int \<lfloor>x\<rfloor> + 1" by linarith+
  show ?thesis
  proof (cases "x - of_int \<lfloor>x\<rfloor> < 1/2")
    case True
    with f have "roundEven x = \<lfloor>x\<rfloor>" by (simp add: roundEven_def Let_def)
    with True f show ?thesis by linarith
  next
    case ge: False
    show ?thesis
    proof (cases "x - of_int \<lfloor>x\<rfloor> > 1/2")
      case True
      then have "roundEven x = \<lfloor>x\<rfloor> + 1" by (simp add: roundEven_def Let_def)
      then have "(of_int (roundEven x) :: rat) = of_int \<lfloor>x\<rfloor> + 1" by simp
      with True f show ?thesis by linarith
    next
      case False
      have "roundEven x = \<lfloor>x\<rfloor> \<or> roundEven x = \<lfloor>x\<rfloor> + 1" by (simp add: roundEven_def Let_def)
      then have "(of_int (roundEven x) :: rat) = of_int \<lfloor>x\<rfloor> \<or> (of_int (roundEven x) :: rat) = of_int \<lfloor>x\<rfloor> + 1" by auto
      with False ge show ?thesis by linarith
    qed
  qed
qed

lemma roundEven_int: "roundEven (of_int n) = n"
  by (simp add: roundEven_def)

lemma fl_error: "\<bar>fl q - q\<bar> \<le> \<bar>q\<bar> / 2 ^ 53"
proof (cases "q = 0")
  case False
  define u :: rat where "u = 2 powi (fexp q - 52)"
  have u: "0 < u" "2 * (u * 2 ^ 52) = u * 2 ^ 53" by (simp_all add: u_def)
  have "u * 2 ^ 52 = 2 powi fexp q" by (simp add: u_def power_int_diff)
  with fexp_lower [OF False] have "u * 2 ^ 52 \<le> \<bar>q\<bar>" by simp
  then have small: "u / 2 \<le> \<bar>q\<bar> / 2 ^ 53" by simp
  have q: "q = sgn q * \<bar>q\<bar>" by (simp add: sgn_mult_abs)
  have "fl q - q = sgn q * (of_int (roundEven (\<bar>q\<bar> / u)) - \<bar>q\<bar> / u) * u"
    using False u(1) by (simp add: fl_def u_def [symmetric] algebra_simps sgn_mult_abs abs_mult_sgn)
  then have "\<bar>fl q - q\<bar> = \<bar>of_int (roundEven (\<bar>q\<bar> / u)) - \<bar>q\<bar> / u\<bar> * u"
    using False u(1) by (simp add: abs_mult abs_sgn_eq)
  also have "\<dots> \<le> 1/2 * u" using roundEven_error u(1) by (intro mult_right_mono) auto
  finally show ?thesis using small by simp
qed (simp add: fl_def)

lemma fl_exact:
  assumes "q = of_int m * 2 powi k" "\<bar>q\<bar> < 2 powi (k + 53)"
  shows "fl q = q"
proof (cases "q = 0")
  case False
  define u :: rat where "u = 2 powi (fexp q - 52)"
  have "(2::rat) powi fexp q < 2 powi (k + 53)" using fexp_lower [OF False] assms(2) by linarith
  then have "fexp q < k + 53" by (meson linorder_not_le one_le_numeral power_int_increasing)
  then have ku: "fexp q - 52 \<le> k" by simp
  have u0: "u > 0" by (simp add: u_def)
  have "\<bar>q\<bar> / u = of_int (\<bar>m\<bar> * 2 ^ nat (k - (fexp q - 52)))"
  proof -
    have "(2::rat) powi k = 2 ^ nat (k - (fexp q - 52)) * u"
      unfolding u_def using ku
      by (metis (no_types, lifting) add.commute diff_add_cancel diff_ge_0_iff_ge int_nat_eq power_int_add power_int_of_nat zero_neq_numeral)
    then have "\<bar>q\<bar> = \<bar>of_int m\<bar> * 2 ^ nat (k - (fexp q - 52)) * u" by (simp add: assms(1) abs_mult)
    then show ?thesis using u0 by simp
  qed
  then have "of_int (roundEven (\<bar>q\<bar> / u)) * u = \<bar>q\<bar>"
    using u0 by (metis nonzero_eq_divide_eq order_less_irrefl roundEven_int)
  then have "fl q = sgn q * \<bar>q\<bar>" using False by (simp add: fl_def u_def [symmetric] mult.assoc)
  then show ?thesis by (simp add: sgn_mult_abs)
qed (simp add: fl_def)

subsection \<open>Order and evaluation\<close>

lemma bitLen_le: "0 < n \<Longrightarrow> (2::rat) ^ bitLen n \<le> 2 * of_nat n"
proof -
  assume "0 < n"
  then have "2 ^ bitLen n \<le> 2 * n" by (rule bitLen_lower)
  then have "(of_nat (2 ^ bitLen n) :: rat) \<le> of_nat (2 * n)" by (rule of_nat_le_iff [THEN iffD2])
  then show ?thesis by simp
qed

lemma fexp_upper:
  assumes "q \<noteq> 0" shows "\<bar>q\<bar> < 2 powi (fexp q + 1)"
proof -
  obtain a b where ab: "quotient_of \<bar>q\<bar> = (a, b)" by fastforce
  then have q: "\<bar>q\<bar> = of_int a / of_int b" and b: "0 < b"
    by (auto simp: quotient_of_div quotient_of_denom_pos)
  with assms have a: "0 < a" by (metis abs_le_zero_iff divide_le_0_iff linorder_not_le of_int_0_le_iff of_int_le_0_iff order_less_imp_le zero_less_abs_iff)
  let ?la = "bitLen (nat a)" and ?lb = "bitLen (nat b)"
  have "a < int (2 ^ ?la)" using bitLen_upper [of "nat a"] a by linarith
  then have "(of_int a :: rat) < of_int (int (2 ^ ?la))" by (rule of_int_less_iff [THEN iffD2])
  moreover have "(2::rat) ^ ?lb \<le> 2 * of_int b" using bitLen_le [of "nat b"] b by simp
  ultimately have "(of_int a :: rat) / of_int b < 2 ^ ?la / (2 ^ ?lb / 2)"
    using a b by (intro frac_less) auto
  moreover have "(2::rat) powi (int ?la - int ?lb + 1) = 2 ^ ?la / (2 ^ ?lb / 2)"
    by (simp add: power_int_diff power_int_add)
  ultimately have "\<bar>q\<bar> < 2 powi (int ?la - int ?lb + 1)" by (simp add: q)
  then show ?thesis by (simp add: fexp_def ab Let_def)
qed

lemma fexp_unique: "2 powi k \<le> \<bar>q\<bar> \<Longrightarrow> \<bar>q\<bar> < 2 powi (k + 1) \<Longrightarrow> fexp q = k"
proof -
  assume k: "2 powi k \<le> \<bar>q\<bar>" "\<bar>q\<bar> < 2 powi (k + 1)"
  have "(0::rat) < 2 powi k" by simp
  then have q: "q \<noteq> 0" using k(1) by (metis abs_zero linorder_not_le)
  have "(2::rat) powi k < 2 powi (fexp q + 1)" "(2::rat) powi fexp q < 2 powi (k + 1)"
    using k fexp_upper [OF q] fexp_lower [OF q] by linarith+
  then have "k < fexp q + 1" "fexp q < k + 1"
    by (meson linorder_not_le one_le_numeral power_int_increasing)+
  then show ?thesis by simp
qed

text \<open>Evaluation of one rounding: the exponent and the rounded significand are given.\<close>

lemma fl_eval:
  assumes "0 < q" "2 powi k \<le> q" "q < 2 powi (k + 1)" "roundEven (q / 2 powi (k - 52)) = n"
  shows "fl q = of_int n * 2 powi (k - 52)"
  using assms fexp_unique [of k q] by (simp add: fl_def Let_def)

lemma roundEven_near: "\<bar>x - of_int n\<bar> < 1/2 \<Longrightarrow> roundEven x = n"
proof -
  assume "\<bar>x - of_int n\<bar> < 1/2"
  with roundEven_error [of x] have "\<bar>of_int (roundEven x) - of_int n\<bar> < (1 :: rat)" by linarith
  then have "(of_int \<bar>roundEven x - n\<bar> :: rat) < of_int 1" by simp
  then have "\<bar>roundEven x - n\<bar> < 1" by (simp only: of_int_less_iff)
  then show ?thesis by simp
qed

lemma roundEven_mono: "x \<le> y \<Longrightarrow> roundEven x \<le> roundEven y"
proof -
  assume le: "x \<le> y"
  show ?thesis
  proof (cases "\<lfloor>x\<rfloor> = \<lfloor>y\<rfloor>")
    case True
    with le show ?thesis by (auto simp: roundEven_def Let_def)
  next
    case False
    with le have "\<lfloor>x\<rfloor> + 1 \<le> \<lfloor>y\<rfloor>" by (meson floor_mono less_le zless_imp_add1_zle)
    moreover have "roundEven x \<le> \<lfloor>x\<rfloor> + 1" "\<lfloor>y\<rfloor> \<le> roundEven y" by (simp_all add: roundEven_def Let_def)
    ultimately show ?thesis by linarith
  qed
qed

lemma fl_pos_bounds:
  assumes "0 < q" shows "2 powi fexp q \<le> fl q" "fl q \<le> 2 powi (fexp q + 1)"
proof -
  define u :: rat where "u = 2 powi (fexp q - 52)"
  have u: "0 < u" "2 powi fexp q = 2 ^ 52 * u" "2 powi (fexp q + 1) = 2 ^ 53 * u"
    by (simp_all add: u_def power_int_diff power_int_add)
  have fl: "fl q = of_int (roundEven (q / u)) * u" using assms by (simp add: fl_def u_def Let_def)
  have "2 ^ 52 \<le> q / u" "q / u \<le> 2 ^ 53"
    using fexp_lower [of q] fexp_upper [of q] assms u by (simp_all add: field_simps)
  then have "roundEven (of_int (2 ^ 52)) \<le> roundEven (q / u)" "roundEven (q / u) \<le> roundEven (of_int (2 ^ 53))"
    by (auto intro: roundEven_mono)
  then have "2 ^ 52 \<le> roundEven (q / u)" "roundEven (q / u) \<le> 2 ^ 53" unfolding roundEven_int by simp_all
  then have "of_int (2 ^ 52) \<le> (of_int (roundEven (q / u)) :: rat)" "(of_int (roundEven (q / u)) :: rat) \<le> of_int (2 ^ 53)"
    by (simp_all only: of_int_le_iff)
  then have "2 ^ 52 * u \<le> of_int (roundEven (q / u)) * u" "of_int (roundEven (q / u)) * u \<le> 2 ^ 53 * u"
    using u(1) by (auto intro: mult_right_mono)
  then show "2 powi fexp q \<le> fl q" "fl q \<le> 2 powi (fexp q + 1)" using u fl by simp_all
qed

lemma fl_zero [simp]: "fl 0 = 0"
  by (simp add: fl_def)

lemma fl_pos: "0 < q \<Longrightarrow> 0 < fl q"
  using fl_pos_bounds(1) [of q] by (meson less_le_trans zero_less_power_int zero_less_numeral)

lemma fl_nonneg: "0 \<le> q \<Longrightarrow> 0 \<le> fl q"
  using fl_pos [of q] by (cases "q = 0") auto

lemma fl_mono: "0 \<le> p \<Longrightarrow> p \<le> q \<Longrightarrow> fl p \<le> fl q"
proof (cases "p = 0")
  case False
  assume le: "0 \<le> p" "p \<le> q"
  with False have p: "0 < p" and q: "0 < q" by auto
  show ?thesis
  proof (cases "fexp p = fexp q")
    case True
    define u :: rat where "u = 2 powi (fexp q - 52)"
    have "0 < u" by (simp add: u_def)
    with le have "roundEven (p / u) \<le> roundEven (q / u)" by (intro roundEven_mono divide_right_mono) auto
    then have "of_int (roundEven (p / u)) * u \<le> of_int (roundEven (q / u)) * u"
      using \<open>0 < u\<close> by simp
    then show ?thesis using p q True by (simp add: fl_def u_def Let_def)
  next
    case False
    have "(2::rat) powi fexp p < 2 powi (fexp q + 1)"
      using fexp_lower [of p] fexp_upper [of q] p q le by simp
    then have "fexp p < fexp q + 1" by (meson linorder_not_le one_le_numeral power_int_increasing)
    with False have "fexp p + 1 \<le> fexp q" by simp
    then have "(2::rat) powi (fexp p + 1) \<le> 2 powi fexp q" by (intro power_int_increasing) auto
    then show ?thesis using fl_pos_bounds [OF p] fl_pos_bounds [OF q] by linarith
  qed
qed (simp add: fl_nonneg)

lemma fl_one [simp]: "fl 1 = 1"
  using fl_exact [of 1 1 0] by simp

lemma fl_le_one: "0 \<le> q \<Longrightarrow> q \<le> 1 \<Longrightarrow> 0 \<le> fl q \<and> fl q \<le> 1"
  using fl_mono [of q 1] fl_nonneg [of q] by simp

end
