(* ===== verification/Chunker.thy ===== *)
theory Chunker
  imports GoText GoFloat
begin

text \<open>
  Splitting of parsed text into chunks (\<open>internal/chunk/chunk.go\<close>, \<open>split.go\<close>): normalisation, the
  token estimate, heading- and fence-aware blocks, windows of long blocks and the refinement by a
  token limit. \<open>decay score d w\<close> stands for the value of \<open>score * math.Pow(0.7, d / w)\<close>.
\<close>

record Piece =
  pcText :: string
  pcHeading :: string

definition nl :: char where "nl = CHR 0x0A"

subsection \<open>Normalisation\<close>

lemma replaceAll_shorter:
  assumes "contains s old" "old \<noteq> []" "length new < length old"
  shows "length (replaceAll s old new) < length s"
proof -
  have joins: "ys \<noteq> [] \<Longrightarrow> int (length (joinWith x ys)) = int (sum_list (map length ys)) + int (length x) * (int (length ys) - 1)"
    for x :: string and ys
  proof (induction x ys rule: joinWith.induct)
    case (3 sep x y ys)
    then show ?case by (simp add: algebra_simps)
  qed auto
  have "length (splitOn s old) > 1"
    using assms(1,2) by (subst splitOn.simps) (auto simp: contains_def splitOn_nonempty)
  then have many: "0 < int (length (splitOn s old)) - 1" by simp
  have "int (length s) = int (sum_list (map length (splitOn s old))) + int (length old) * (int (length (splitOn s old)) - 1)"
    using joins [of "splitOn s old" old] by (simp add: joinWith_splitOn splitOn_nonempty)
  moreover have "int (length (replaceAll s old new)) = int (sum_list (map length (splitOn s old)))
      + int (length new) * (int (length (splitOn s old)) - 1)"
    unfolding replaceAll_def by (rule joins) (rule splitOn_nonempty)
  moreover have "int (length new) * (int (length (splitOn s old)) - 1) < int (length old) * (int (length (splitOn s old)) - 1)"
    using assms(3) many by (intro mult_strict_right_mono) auto
  ultimately show ?thesis by linarith
qed

function collapseBlankLines :: "string \<Rightarrow> string" where
  "collapseBlankLines text = (if contains text [nl, nl, nl]
     then collapseBlankLines (replaceAll text [nl, nl, nl] [nl, nl]) else text)"
  by pat_completeness auto
termination
  by (relation "measure length") (auto intro!: replaceAll_shorter)

declare collapseBlankLines.simps [simp del]

definition Normalize :: "string \<Rightarrow> string" where
  "Normalize text = (let t1 = replaceAll text [CHR 0x0D, nl] [nl]; t2 = replaceAll t1 [CHR 0x0D] [nl]
     in trimSpace (collapseBlankLines t2))"

definition NormalizeSeparator :: "string \<Rightarrow> string" where
  "NormalizeSeparator separator =
     (let d1 = replaceAll separator [CHR 0x5C, CHR ''n''] [nl];
          d2 = replaceAll d1 [CHR 0x5C, CHR ''t''] [CHR 0x09]
      in if d2 = [] then [nl, nl] else d2)"

subsection \<open>Token estimate\<close>

definition isCJK :: "nat \<Rightarrow> bool" where
  "isCJK r \<longleftrightarrow> (0x3040 \<le> r \<and> r \<le> 0x30ff) \<or> (0x3400 \<le> r \<and> r \<le> 0x4dbf)
     \<or> (0x4e00 \<le> r \<and> r \<le> 0x9fff) \<or> (0xac00 \<le> r \<and> r \<le> 0xd7af)"

definition floatTokens :: "int \<Rightarrow> int \<Rightarrow> int" where
  "floatTokens cjk latin = goCeil (fl (fl (fl (of_int cjk) / (3 / 2)) + fl (fl (of_int latin) / 4)))"

definition EstimateTokens :: "string \<Rightarrow> int" where
  "EstimateTokens text =
     (if text = [] then 0 else
        let rs = runes text; cjk = int (length (filter isCJK rs)); latin = int (length rs) - cjk
        in maxInt 1 (floatTokens cjk latin))"

definition CharsPerToken :: "string \<Rightarrow> rat" where
  "CharsPerToken text = (let tokens = EstimateTokens text in
     if tokens \<le> 0 then 1 else fl (fl (of_int (int (length (runes text)))) / fl (of_int tokens)))"

subsection \<open>Line shapes\<close>

definition blankLeft :: "string \<Rightarrow> string" where
  "blankLeft line = dropWhile (\<lambda>c. c = CHR '' '' \<or> c = CHR 0x09) line"

definition fenceOpen :: "string \<Rightarrow> string" where
  "fenceOpen line = (case blankLeft line of [] \<Rightarrow> []
     | marker # rest \<Rightarrow>
         if marker \<noteq> CHR 0x60 \<and> marker \<noteq> CHR ''~'' then []
         else let run = takeWhile (\<lambda>c. c = marker) (marker # rest)
              in if length run \<ge> 3 then replicate (length run) marker else [])"

definition fenceClose :: "string \<Rightarrow> string \<Rightarrow> bool" where
  "fenceClose fence line =
     (let trimmed = rev (dropWhile (\<lambda>c. c = CHR '' '' \<or> c = CHR 0x09 \<or> c = CHR 0x0D) (rev (blankLeft line)))
      in length trimmed \<ge> length fence \<and> (\<forall>c \<in> set trimmed. c = hd fence))"

definition matchHeading :: "string \<Rightarrow> (nat \<times> string) option" where
  "matchHeading line =
     (let trimmed = blankLeft line; i = length (takeWhile (\<lambda>c. c = CHR ''#'') trimmed)
      in if i = 0 \<or> i > 6 \<or> i \<ge> length trimmed \<or> (trimmed ! i \<noteq> CHR '' '' \<and> trimmed ! i \<noteq> CHR 0x09)
         then None else Some (i, trimSpace (drop i trimmed)))"

definition isDigit :: "char \<Rightarrow> bool" where
  "isDigit c = (48 \<le> byteOf c \<and> byteOf c \<le> 57)"

definition matchNumberedHeading :: "string \<Rightarrow> (nat \<times> string) option" where
  "matchNumberedHeading line =
     (let trimmed = trimSpace line;
          number = takeWhile (\<lambda>c. isDigit c \<or> c = CHR ''.'') trimmed;
          i = length number;
          dots = length (filter (\<lambda>c. c = CHR ''.'') number)
      in if trimmed = [] then None
         else if dots = 0 \<or> i = 0 \<or> i \<ge> length trimmed \<or> (trimmed ! i \<noteq> CHR '' '' \<and> trimmed ! i \<noteq> CHR 0x09) then None
         else if last number = CHR ''.'' \<or> contains number ''..'' then None
         else let level = (if dots + 1 > 6 then 6 else dots + 1); title = trimSpace (drop i trimmed)
              in if title = [] then None else Some (level, trimSpace (number @ '' '' @ title)))"

subsection \<open>Blocks\<close>

record BlockState =
  bsBlocks :: "Piece list"
  bsCurrent :: string
  bsHeadings :: "string list"
  bsFence :: string

definition headingPath :: "string list \<Rightarrow> string" where
  "headingPath headings = joinWith '' > '' (filter (\<lambda>h. trimSpace h \<noteq> []) headings)"

definition flushBlock :: "BlockState \<Rightarrow> BlockState" where
  "flushBlock s = (let trimmed = trimSpace (bsCurrent s) in
     s\<lparr>bsBlocks := (if trimmed \<noteq> [] then bsBlocks s @ [\<lparr>pcText = trimmed, pcHeading = headingPath (bsHeadings s)\<rparr>]
                    else bsBlocks s), bsCurrent := []\<rparr>)"

definition setHeading :: "nat \<Rightarrow> string \<Rightarrow> string list \<Rightarrow> string list" where
  "setHeading level title headings =
     (take level (headings @ replicate (level - length headings) []))[level - 1 := title]"

definition appendLine :: "string \<Rightarrow> BlockState \<Rightarrow> BlockState" where
  "appendLine line s = s\<lparr>bsCurrent := bsCurrent s @ line @ [nl]\<rparr>"

definition headingOf :: "string \<Rightarrow> (nat \<times> string) option" where
  "headingOf line = (case matchHeading line of Some h \<Rightarrow> Some h | None \<Rightarrow> matchNumberedHeading line)"

definition splitLine :: "string \<Rightarrow> BlockState \<Rightarrow> BlockState" where
  "splitLine line s =
     (if bsFence s \<noteq> [] then
        (let s1 = appendLine line s in if fenceClose (bsFence s) line then s1\<lparr>bsFence := []\<rparr> else s1)
      else if fenceOpen line \<noteq> [] then appendLine line ((flushBlock s)\<lparr>bsFence := fenceOpen line\<rparr>)
      else case headingOf line of
             Some (level, title) \<Rightarrow> (flushBlock s)\<lparr>bsHeadings := setHeading level title (bsHeadings s)\<rparr>
           | None \<Rightarrow> if trimSpace line = [] then flushBlock s else appendLine line s)"

definition splitBlocks :: "string \<Rightarrow> Piece list" where
  "splitBlocks text = bsBlocks (flushBlock (fold splitLine (splitOn text [nl])
     \<lparr>bsBlocks = [], bsCurrent = [], bsHeadings = [], bsFence = []\<rparr>))"

subsection \<open>Break points\<close>

text \<open>\<open>string(runes)\<close> re-encodes; an invalid byte became U+FFFD.\<close>

definition runeText :: "string \<Rightarrow> string" where
  "runeText e = (if decodeRune e = (65533, 1) then [CHR 0xEF, CHR 0xBF, CHR 0xBD] else e)"

definition canonicalRunes :: "string \<Rightarrow> string list" where
  "canonicalRunes s = map runeText (runeSlices s)"

definition runeCount :: "string \<Rightarrow> nat" where
  "runeCount s = length (runeSlices s)"

definition sliceText :: "string \<Rightarrow> nat \<Rightarrow> nat \<Rightarrow> string" where
  "sliceText s a b = drop a (take b s)"

definition isRule :: "string \<Rightarrow> bool" where
  "isRule line \<longleftrightarrow> length line \<ge> 3 \<and> (\<exists>m \<in> set ''-*_''. \<forall>c \<in> set line. c = m)"

definition isOrderedList :: "string \<Rightarrow> bool" where
  "isOrderedList line = (let i = length (takeWhile isDigit line) in
     i > 0 \<and> i + 1 < length line \<and> line ! i = CHR ''.'' \<and> (line ! (i + 1) = CHR '' '' \<or> line ! (i + 1) = CHR 0x09))"

definition headingScores :: "rat list" where
  "headingScores = [100, 90, 80, 70, 60, 50]"

type_synonym best = "int \<times> rat"

definition considerCut :: "(rat \<Rightarrow> nat \<Rightarrow> nat \<Rightarrow> rat) \<Rightarrow> nat \<Rightarrow> nat \<Rightarrow> nat \<Rightarrow> rat \<Rightarrow> best \<Rightarrow> best" where
  "considerCut decay lo hi pos score b =
     (if pos \<le> lo \<or> pos > hi then b
      else let decayed = decay score (pos - lo) (max 1 (hi - lo))
           in if decayed > snd b then (int pos, decayed) else b)"

text \<open>The boundary a line offers, if any: its position and its score.\<close>

definition lineBoundary :: "string \<Rightarrow> nat \<Rightarrow> nat \<Rightarrow> nat \<Rightarrow> (nat \<times> rat) option" where
  "lineBoundary line lineStart lineEnd paragraphEnd =
     (let trimmed = blankLeft line in
      if trimmed = [] then Some (paragraphEnd, 20)
      else case matchHeading trimmed of Some (level, _) \<Rightarrow> Some (lineEnd, headingScores ! (level - 1))
         | None \<Rightarrow> if fenceOpen trimmed \<noteq> [] then Some (lineEnd, 80)
                   else if isRule trimmed then Some (lineEnd, 60)
                   else if hasPrefix trimmed ''- '' \<or> hasPrefix trimmed ''* '' then Some (lineEnd, 5)
                   else if isOrderedList trimmed then Some (lineEnd, 5)
                   else None)"

function lineCuts :: "(rat \<Rightarrow> nat \<Rightarrow> nat \<Rightarrow> rat) \<Rightarrow> string \<Rightarrow> nat \<Rightarrow> nat \<Rightarrow> nat \<Rightarrow> best \<Rightarrow> best" where
  "lineCuts decay text hi lo lineStart b =
     (if lineStart > hi then b
      else case indexOf (sliceText text (min lineStart (length text)) (min hi (length text))) [nl] of
        None \<Rightarrow>
          (let line = sliceText text lineStart (min hi (length text)) in
           case lineBoundary line lineStart hi lineStart of None \<Rightarrow> b
           | Some (pos, score) \<Rightarrow> considerCut decay lo hi pos score b)
      | Some n \<Rightarrow>
          (let line = sliceText text lineStart (lineStart + n); lineEnd = lineStart + n;
               b' = (case lineBoundary line lineStart lineEnd (lineStart + n + 1) of None \<Rightarrow> b
                     | Some (pos, score) \<Rightarrow> considerCut decay lo hi pos score b)
           in lineCuts decay text hi lo (lineEnd + 1) b'))"
  by pat_completeness auto
termination
  by (relation "measure (\<lambda>(decay, text, hi, lo, lineStart, b). Suc hi - lineStart)") auto

declare lineCuts.simps [simp del]

text \<open>The local \<open>decodeRune\<close>: the width of the re-encoded rune, a blank for the empty string.\<close>

definition decodeWidth :: "string \<Rightarrow> nat \<times> nat" where
  "decodeWidth s = (if s = [] then (32, 1) else
     (let (r, w) = decodeRune s in (r, if (r, w) = (65533, 1) then 3 else w)))"

function sentenceCuts :: "(rat \<Rightarrow> nat \<Rightarrow> nat \<Rightarrow> rat) \<Rightarrow> string \<Rightarrow> nat \<Rightarrow> nat \<Rightarrow> nat \<Rightarrow> best \<Rightarrow> best" where
  "sentenceCuts decay text hi lo i b =
     (if i < hi \<and> i < length text then
        (let (r, w) = decodeWidth (drop i text);
             b' = (if r = 0x3002 \<or> r = 0xFF01 \<or> r = 0xFF1F then considerCut decay lo hi (i + w) 8 b else b)
         in sentenceCuts decay text hi lo (i + w) b')
      else b)"
  by pat_completeness auto
termination
proof (relation "measure (\<lambda>(decay, text, hi, lo, i, b). hi - i)")
  fix decay :: "rat \<Rightarrow> nat \<Rightarrow> nat \<Rightarrow> rat" and t :: string and hi lo i :: nat and b :: best and x r w b'
  assume a: "i < hi \<and> i < length t" "x = decodeWidth (drop i t)" "(r, w) = x"
  have "1 \<le> w" using a decodeRune_width [of "drop i t"]
    by (auto simp: decodeWidth_def split: prod.splits if_splits)
  then show "((decay, t, hi, lo, i + w, b'), decay, t, hi, lo, i, b)
      \<in> measure (\<lambda>(decay, t, hi, lo, i, b). hi - i)"
    using a(1) by auto
qed simp

declare sentenceCuts.simps [simp del]

definition findCut :: "(rat \<Rightarrow> nat \<Rightarrow> nat \<Rightarrow> rat) \<Rightarrow> string \<Rightarrow> nat \<Rightarrow> nat \<Rightarrow> nat" where
  "findCut decay text hi lo =
     (let b = sentenceCuts decay text hi lo lo (lineCuts decay text hi lo lo (-1, -1))
      in if fst b > int lo then nat (fst b) else hi)"

subsection \<open>Windows\<close>

definition windowTail :: "nat \<Rightarrow> nat" where
  "windowTail sz = max 1 (nat (goRound (fl (fl (of_nat sz) * fl (22 / 100)))))"

definition windowCut :: "(rat \<Rightarrow> nat \<Rightarrow> nat \<Rightarrow> rat) \<Rightarrow> nat \<Rightarrow> string list \<Rightarrow> nat" where
  "windowCut decay sz rs =
     (let window = concat rs;
          startRunes = max 1 (sz - windowTail sz);
          startBytes = length (concat (take startRunes rs));
          cutBytes = max (findCut decay window (length window) startBytes) 1
      in max (runeCount (take cutBytes window)) 1)"

function windowFrom :: "(rat \<Rightarrow> nat \<Rightarrow> nat \<Rightarrow> rat) \<Rightarrow> string list \<Rightarrow> nat \<Rightarrow> int \<Rightarrow> nat \<Rightarrow> string list" where
  "windowFrom decay rs sz overlap start =
     (if start < length rs then
        (if start + sz \<ge> length rs then [trimSpace (concat (drop start rs))]
         else let cut = windowCut decay sz (take sz (drop start rs));
                  piece = trimSpace (concat (take cut (drop start rs)));
                  next = maxInt (int cut - overlap) (int (start + cut))
              in if next \<le> int start then [piece]
                 else piece # windowFrom decay rs sz overlap (nat next))
      else [])"
  by pat_completeness auto
termination
  by (relation "measure (\<lambda>(decay, rs, sz, overlap, start). length rs - start)") auto

declare windowFrom.simps [simp del]

definition windowBlock :: "(rat \<Rightarrow> nat \<Rightarrow> nat \<Rightarrow> rat) \<Rightarrow> string \<Rightarrow> nat \<Rightarrow> int \<Rightarrow> string list" where
  "windowBlock decay text sz overlap = windowFrom decay (canonicalRunes text) sz overlap 0"

definition windowOrKeep :: "(rat \<Rightarrow> nat \<Rightarrow> nat \<Rightarrow> rat) \<Rightarrow> string \<Rightarrow> nat \<Rightarrow> int \<Rightarrow> string \<Rightarrow> Piece list" where
  "windowOrKeep decay blockText sz overlap heading =
     (if length blockText \<le> sz then [\<lparr>pcText = blockText, pcHeading = heading\<rparr>]
      else map (\<lambda>w. \<lparr>pcText = w, pcHeading = heading\<rparr>) (windowBlock decay blockText sz overlap))"

subsection \<open>Chunking\<close>

record Options =
  opSmart :: "bool option"
  opSeparator :: string

definition safeChunkSize :: "string \<Rightarrow> int \<Rightarrow> nat" where
  "safeChunkSize normalized sz =
     nat (maxInt 64 (goRound (fl (fl (of_int (if sz < 64 then 64 else sz)) * CharsPerToken normalized))))"

definition safeChunkOverlap :: "string \<Rightarrow> int \<Rightarrow> int \<Rightarrow> int" where
  "safeChunkOverlap normalized sz overlap =
     (let sz' = (if sz < 64 then 64 else sz);
          o1 = (if overlap < 0 then 0 else overlap);
          o2 = (if o1 > sz' - 1 then sz' - 1 else o1)
      in minInt (goRound (fl (fl (of_int o2) * CharsPerToken normalized))) (int (safeChunkSize normalized sz) - 1))"

definition Chunk :: "(rat \<Rightarrow> nat \<Rightarrow> nat \<Rightarrow> rat) \<Rightarrow> string \<Rightarrow> int \<Rightarrow> int \<Rightarrow> Options \<Rightarrow> Piece list" where
  "Chunk decay text sz overlap opts =
     (let normalized = Normalize text in
      if normalized = [] then []
      else
        let safeSize = safeChunkSize normalized sz; safeOverlap = safeChunkOverlap normalized sz overlap;
            smart = (case opSmart opts of None \<Rightarrow> True | Some b \<Rightarrow> b);
            pieces = (if \<not> smart then
                concat (map (\<lambda>part. windowOrKeep decay part safeSize safeOverlap [])
                  (filter (\<lambda>p. p \<noteq> []) (map trimSpace (splitOn normalized (NormalizeSeparator (opSeparator opts))))))
              else concat (map (\<lambda>b. windowOrKeep decay (pcText b) safeSize safeOverlap (pcHeading b)) (splitBlocks normalized)))
        in if pieces = [] then [\<lparr>pcText = concat (take safeSize (canonicalRunes normalized)), pcHeading = []\<rparr>] else pieces)"

definition SemanticSegments :: "string \<Rightarrow> string \<Rightarrow> Piece list" where
  "SemanticSegments text separator =
     (let normalized = Normalize text; blocks = splitBlocks normalized in
      if normalized = [] then []
      else if separator = [] then blocks
      else concat (map (\<lambda>b. map (\<lambda>part. \<lparr>pcText = part, pcHeading = pcHeading b\<rparr>)
             (filter (\<lambda>p. p \<noteq> []) (map trimSpace (splitOn (pcText b) (NormalizeSeparator separator))))) blocks))"

subsection \<open>Refinement by a token limit\<close>

definition boundarySeparators :: "string list" where
  "boundarySeparators = [[nl, nl], [CHR 0xE3, CHR 0x80, CHR 0x82], [CHR 0xEF, CHR 0xBC, CHR 0x81],
     [CHR 0xEF, CHR 0xBC, CHR 0x9F], [CHR 0xEF, CHR 0xBC, CHR 0x8C], '', '', '' '']"

definition splitAt :: "string \<Rightarrow> nat \<Rightarrow> nat \<Rightarrow> string \<Rightarrow> (string \<times> string) option" where
  "splitAt text lo hi sep =
     (case lastIndexOf (sliceText text lo hi) sep of None \<Rightarrow> None
      | Some idx \<Rightarrow>
          let cut = lo + idx + length sep; left = trimSpace (take cut text); right = trimSpace (drop cut text)
          in if left \<noteq> [] \<and> right \<noteq> [] then Some (left, right) else None)"

definition splitAtPreferredBoundary :: "string \<Rightarrow> (string \<times> string) option" where
  "splitAtPreferredBoundary text =
     (let mid = length text div 2; radius = max 1 (length text div 4);
          lo = mid - radius; hi = min (length text) (mid + radius)
      in case find (\<lambda>sep. splitAt text lo hi sep \<noteq> None) boundarySeparators of None \<Rightarrow> None
         | Some sep \<Rightarrow> splitAt text lo hi sep)"

lemma splitAt_Some:
  assumes "splitAt t lo hi sep = Some (left, right)"
  shows "\<exists>cut. left = trimSpace (take cut t) \<and> right = trimSpace (drop cut t) \<and> left \<noteq> [] \<and> right \<noteq> []"
  using assms by (auto simp: splitAt_def Let_def split: option.splits if_splits)

lemma splitAtPreferredBoundary_Some:
  assumes "splitAtPreferredBoundary t = Some (left, right)"
  shows "\<exists>cut. left = trimSpace (take cut t) \<and> right = trimSpace (drop cut t) \<and> left \<noteq> [] \<and> right \<noteq> []"
  using assms splitAt_Some by (auto simp: splitAtPreferredBoundary_def Let_def split: option.splits)

lemma splitAtPreferredBoundary_shorter:
  assumes "splitAtPreferredBoundary t = Some (left, right)"
  shows "length left < length t \<and> length right < length t"
proof -
  obtain cut where c: "left = trimSpace (take cut t)" "right = trimSpace (drop cut t)" "left \<noteq> []" "right \<noteq> []"
    using splitAtPreferredBoundary_Some [OF assms] by blast
  have "take cut t \<noteq> []" using c(1,3) by (metis trimSpace_Nil)
  moreover have "drop cut t \<noteq> []" using c(2,4) by (metis trimSpace_Nil)
  ultimately have "0 < cut" "cut < length t" by (auto intro: gr0I)
  then have "length (take cut t) < length t" "length (drop cut t) < length t" by auto
  with c(1,2) trimSpace_length show ?thesis by (metis le_less_trans)
qed

function refinePiece :: "int \<Rightarrow> (string \<Rightarrow> int) \<Rightarrow> Piece \<Rightarrow> Piece list" where
  "refinePiece limit estimate piece =
     (if estimate (pcText piece) \<le> limit \<or> length (pcText piece) < 40 then [piece]
      else case splitAtPreferredBoundary (pcText piece) of None \<Rightarrow> [piece]
        | Some (left, right) \<Rightarrow>
            refinePiece limit estimate \<lparr>pcText = left, pcHeading = pcHeading piece\<rparr>
            @ refinePiece limit estimate \<lparr>pcText = right, pcHeading = pcHeading piece\<rparr>)"
  by pat_completeness auto
termination
  by (relation "measure (\<lambda>(limit, estimate, piece). length (pcText piece))")
    (auto dest: splitAtPreferredBoundary_shorter)

declare refinePiece.simps [simp del]

text \<open>A missing estimator is \<open>EstimateTokens\<close>.\<close>

definition RefineByTokenLimit :: "Piece list \<Rightarrow> int \<Rightarrow> (string \<Rightarrow> int) option \<Rightarrow> Piece list" where
  "RefineByTokenLimit pieces tokenLimit estimate =
     (if tokenLimit \<le> 0 then pieces
      else concat (map (refinePiece tokenLimit (case estimate of None \<Rightarrow> EstimateTokens | Some f \<Rightarrow> f)) pieces))"

end
