(* ===== verification/TokenEstimate.thy ===== *)
theory TokenEstimate
  imports Chunker
begin

text \<open>
  The token estimate of a text, computed by the code in floating point, is an exact integer formula.
\<close>

lemma fl_int: "\<bar>n\<bar> < 2 ^ 53 \<Longrightarrow> fl (of_int n) = of_int n"
  by (rule fl_exact [of _ n 0]) (simp_all flip: of_int_abs)

lemma fl_quarter: "\<bar>n\<bar> < 2 ^ 53 \<Longrightarrow> fl (of_int n / 4) = of_int n / 4"
proof (rule fl_exact [of _ n "-2"])
  assume "\<bar>n\<bar> < 2 ^ 53"
  then have "(of_int \<bar>n\<bar> :: rat) < of_int (2 ^ 53)" by (rule of_int_less_iff [THEN iffD2])
  then show "\<bar>of_int n / 4 :: rat\<bar> < 2 powi (- 2 + 53)" by simp
qed (simp add: power_int_minus)

text \<open>The sum before the ceiling, for counts below \<open>2 ^ 40\<close>.\<close>

lemma estimate_sum:
  assumes "0 \<le> c" "c < 2 ^ 40" "0 \<le> l" "l < 2 ^ 40"
  shows "\<lceil>fl (fl (of_int c / (3 / 2)) + of_int l / 4)\<rceil> = (8 * c + 3 * l + 11) div 12"
proof -
  define t :: rat where "t = of_int (8 * c + 3 * l) / 12"
  define a :: rat where "a = fl (of_int c / (3 / 2))"
  define s :: rat where "s = fl (a + of_int l / 4)"
  have sum: "of_int c / (3 / 2) + of_int l / 4 = t" by (simp add: t_def field_simps)
  have ceil: "\<lceil>t\<rceil> = (8 * c + 3 * l + 11) div 12"
  proof -
    have "\<lceil>t\<rceil> = - ((- (8 * c + 3 * l)) div 12)"
      using ceiling_divide_eq_div [of "8 * c + 3 * l" 12, where ?'a = rat] by (simp only: t_def of_int_numeral)
    moreover have "(m + 11) div 12 = - ((- m) div 12)" for m :: int
    proof (rule int_div_pos_eq)
      show "m + 11 = 12 * - (- m div 12) + (11 - (- m mod 12))" using mult_div_mod_eq [of 12 "- m"] by linarith
    qed simp_all
    ultimately show ?thesis by simp
  qed
  have "\<lceil>s\<rceil> = \<lceil>t\<rceil>"
  proof (cases "12 dvd 8 * c + 3 * l")
    case True
    then have "3 dvd c" by presburger
    then obtain m where m: "c = 3 * m" by blast
    have "a = of_int (2 * m)"
      using fl_int [of "2 * m"] assms(1,2) m by (simp add: a_def)
    moreover have "fl (of_int (2 * m) + of_int l / 4) = of_int (2 * m) + of_int l / 4"
      using fl_quarter [of "8 * m + l"] assms m by (simp add: add_divide_distrib)
    ultimately have "s = t" using m by (simp add: s_def t_def field_simps)
    then show ?thesis by simp
  next
    case False
    let ?n = "(8 * c + 3 * l) div 12"
    have n: "12 * ?n + 1 \<le> 8 * c + 3 * l" "8 * c + 3 * l + 1 \<le> 12 * (?n + 1)" using False by presburger+
    have "of_int (12 * ?n + 1) \<le> (of_int (8 * c + 3 * l) :: rat)" "of_int (8 * c + 3 * l + 1) \<le> (of_int (12 * (?n + 1)) :: rat)"
      using n by (simp_all only: of_int_le_iff)
    then have lo: "of_int ?n + 1 / 12 \<le> t" and hi: "t \<le> of_int ?n + 1 - 1 / 12" by (simp_all add: t_def field_simps)
    have cb: "(of_int c :: rat) \<le> 2 ^ 40" "(0 :: rat) \<le> of_int c" "(of_int l :: rat) \<le> 2 ^ 40" "(0 :: rat) \<le> of_int l"
      using assms by (simp_all add: of_int_le_numeral_power_cancel_iff)
    have e1: "\<bar>a - of_int c / (3 / 2)\<bar> \<le> of_int c / (3 / 2) / 2 ^ 53"
      using fl_error [of "of_int c / (3 / 2)"] cb(2) by (simp add: a_def)
    then have e1': "\<bar>a - of_int c / (3 / 2)\<bar> \<le> 1 / 4096" using cb(1) by simp
    have e2: "\<bar>s - (a + of_int l / 4)\<bar> \<le> \<bar>a + of_int l / 4\<bar> / 2 ^ 53"
      unfolding s_def by (rule fl_error)
    have "\<bar>a + y\<bar> \<le> \<bar>a - x\<bar> + x + y" if "0 \<le> x" "0 \<le> y" for x y using that by linarith
    then have "\<bar>a + of_int l / 4\<bar> \<le> \<bar>a - of_int c / (3 / 2)\<bar> + of_int c / (3 / 2) + of_int l / 4" using cb(2,4) by simp
    also have "\<dots> \<le> 1 / 4096 + 2 ^ 40 / (3 / 2) + 2 ^ 40 / 4" using e1' cb(1,3) by (intro add_mono divide_right_mono) simp_all
    finally have "\<bar>a + of_int l / 4\<bar> \<le> 2 ^ 41" by simp
    with e2 have "\<bar>s - (a + of_int l / 4)\<bar> \<le> 1 / 4096" by simp
    with e1' sum have "\<bar>s - t\<bar> \<le> 2 / 4096" by linarith
    with lo hi have "of_int ?n < s" "s < of_int ?n + 1" "of_int ?n < t" "t < of_int ?n + 1" by linarith+
    then have "\<lceil>s\<rceil> = ?n + 1" "\<lceil>t\<rceil> = ?n + 1" by (simp_all add: ceiling_eq_iff)
    then show ?thesis by simp
  qed
  with ceil show ?thesis by (simp add: s_def a_def)
qed

lemma floatTokens_exact:
  assumes "0 \<le> c" "c < 2 ^ 40" "0 \<le> l" "l < 2 ^ 40"
  shows "floatTokens c l = (8 * c + 3 * l + 11) div 12"
  using estimate_sum [OF assms] assms
  by (simp add: floatTokens_def goCeil_def fl_int fl_quarter)

definition cjkRunes :: "string \<Rightarrow> int" where
  "cjkRunes text = int (length (filter isCJK (runes text)))"

lemma runes_length: "length (runes text) = length (runeSlices text)"
  by (simp add: runes_def)

text \<open>
  The token estimate is exact: for every text below a terabyte, the floating-point computation
  gives two thirds of the CJK characters plus a quarter of the others, rounded up.
\<close>

theorem EstimateTokens_exact:
  assumes "length s < 2 ^ 40"
  shows "EstimateTokens s = (8 * cjkRunes s + 3 * (int (length (runes s)) - cjkRunes s) + 11) div 12"
proof (cases "s = []")
  case True
  then show ?thesis by (simp add: EstimateTokens_def cjkRunes_def runes_def)
next
  case False
  have len: "int (length (runes s)) < 2 ^ 40"
    using assms runeSlices_length [of s] by (simp add: runes_length)
  have cjk: "0 \<le> cjkRunes s" "cjkRunes s \<le> int (length (runes s))" by (simp_all add: cjkRunes_def)
  have pos: "1 \<le> int (length (runes s))" using False by (simp add: runes_length Suc_le_eq)
  have "floatTokens (cjkRunes s) (int (length (runes s)) - cjkRunes s)
      = (8 * cjkRunes s + 3 * (int (length (runes s)) - cjkRunes s) + 11) div 12"
    by (rule floatTokens_exact) (use len cjk in linarith)+
  moreover have "1 \<le> (8 * cjkRunes s + 3 * (int (length (runes s)) - cjkRunes s) + 11) div 12"
    using pos cjk by (simp add: pos_imp_zdiv_pos_iff)
  ultimately show ?thesis using False by (simp add: EstimateTokens_def Let_def cjkRunes_def)
qed

lemma EstimateTokens_exact_witness: "EstimateTokens ''hello world'' = 3"
proof -
  have "runes ''hello world'' = [104, 101, 108, 108, 111, 32, 119, 111, 114, 108, 100]" by code_simp
  then show ?thesis
    using EstimateTokens_exact [of "''hello world''"] by (simp add: cjkRunes_def isCJK_def)
qed

end
