(* ===== verification/EvidenceFit.thy ===== *)
theory EvidenceFit
  imports TokenEstimate
begin

text \<open>
  Cropping evidence to a token budget (\<open>internal/evidence/fit.go\<close> and the types of
  \<open>evidence.go\<close>): slices of an excerpt, sentence boundaries, the focus range, the binary search for
  the longest crop that fits, the removal of overlaps and the loop that enforces the budget of a
  window. \<open>lower\<close> stands for \<open>strings.ToLower\<close>.
\<close>

record Excerpt =
  exChunkID :: string
  exIndex :: int
  exHeading :: string
  exText :: string
  exTextStart :: int
  exTextEnd :: int
  exTruncatedStart :: bool
  exTruncatedEnd :: bool

record Window =
  wnAnchorChunkID :: string
  wnAnchorIndex :: int
  wnIndexGeneration :: int
  wnSourceVersion :: int
  wnBefore :: "Excerpt list"
  wnAnchor :: Excerpt
  wnAfter :: "Excerpt list"
  wnEstimatedTokens :: int
  wnHasMoreBefore :: bool
  wnHasMoreAfter :: bool

definition MinOverlapChars :: nat where "MinOverlapChars = 24"
definition boundarySearchRadius :: int where "boundarySearchRadius = 96"

subsection \<open>Serialized form\<close>

definition serializeExcerpt :: "Excerpt \<Rightarrow> bool \<Rightarrow> string" where
  "serializeExcerpt e anchor = (let prefix = (if anchor then ''>>> '' else []); heading = trimSpace (exHeading e) in
     (if heading \<noteq> [] then prefix @ ''['' @ heading @ ''] '' else prefix) @ exText e)"

definition paragraphBreak :: string where
  "paragraphBreak = [nl, nl]"

definition Serialize :: "Window \<Rightarrow> string" where
  "Serialize w = joinWith paragraphBreak (map (\<lambda>e. serializeExcerpt e False) (wnBefore w) @ [serializeExcerpt (wnAnchor w) True]
     @ map (\<lambda>e. serializeExcerpt e False) (wnAfter w))"

definition makeWindowRaw :: "string \<Rightarrow> int \<Rightarrow> Excerpt list \<Rightarrow> Excerpt \<Rightarrow> Excerpt list \<Rightarrow> bool \<Rightarrow> bool \<Rightarrow> Window" where
  "makeWindowRaw anchorID anchorIndex before anchor after hasMoreBefore hasMoreAfter =
     (let draft = \<lparr>wnAnchorChunkID = anchorID, wnAnchorIndex = anchorIndex, wnIndexGeneration = 0, wnSourceVersion = 0,
        wnBefore = before, wnAnchor = anchor, wnAfter = after, wnEstimatedTokens = 0,
        wnHasMoreBefore = hasMoreBefore, wnHasMoreAfter = hasMoreAfter\<rparr>
      in draft\<lparr>wnEstimatedTokens := EstimateTokens (Serialize draft)\<rparr>)"

definition exCost :: "bool \<Rightarrow> Excerpt \<Rightarrow> int" where
  "exCost anchor e = EstimateTokens (serializeExcerpt e anchor)"

subsection \<open>Slices and sentence boundaries\<close>

definition sliceExcerpt :: "Excerpt \<Rightarrow> int \<Rightarrow> int \<Rightarrow> Excerpt" where
  "sliceExcerpt e start end' = (let n = int (length (exText e));
       safeStart = maxInt 0 (minInt n start); safeEnd = maxInt safeStart (minInt n end') in
     e\<lparr>exText := sliceText (exText e) (nat safeStart) (nat safeEnd),
       exTextStart := exTextStart e + safeStart, exTextEnd := exTextStart e + safeEnd,
       exTruncatedStart := (exTruncatedStart e \<or> safeStart > 0),
       exTruncatedEnd := (exTruncatedEnd e \<or> safeEnd < n)\<rparr>)"

definition sentenceBoundary :: "nat \<Rightarrow> bool" where
  "sentenceBoundary r \<longleftrightarrow> r \<in> {0x0A, 0x0D, 0x3002, 0xFF01, 0xFF1F, 0xFF1B, 0x2E, 0x21, 0x3F, 0x3B}"

text \<open>\<open>[]rune(text[index:index+1])[0]\<close>: the rune of a single byte.\<close>

definition byteRune :: "string \<Rightarrow> int \<Rightarrow> nat" where
  "byteRune s i = fst (decodeRune [s ! nat i])"

function scanBack :: "string \<Rightarrow> int \<Rightarrow> int \<Rightarrow> int option" where
  "scanBack s lowest index = (if index < lowest then None
     else if sentenceBoundary (byteRune s index) then Some (index + 1)
     else scanBack s lowest (index - 1))"
  by pat_completeness auto
termination by (relation "measure (\<lambda>(s, lowest, index). nat (index - lowest + 1))") auto

definition sentenceStart :: "string \<Rightarrow> int \<Rightarrow> int" where
  "sentenceStart s target = (let lowest = maxInt 0 (target - boundarySearchRadius);
       index = minInt (target - 1) (int (length s) - 1) in
     case scanBack s lowest index of Some i \<Rightarrow> i | None \<Rightarrow> target)"

function scanForward :: "string \<Rightarrow> int \<Rightarrow> int \<Rightarrow> int option" where
  "scanForward s stop index = (if stop \<le> index then None
     else if sentenceBoundary (byteRune s index) then Some (index + 1)
     else scanForward s stop (index + 1))"
  by pat_completeness auto
termination by (relation "measure (\<lambda>(s, stop, index). nat (stop - index))") auto

declare scanBack.simps [simp del] scanForward.simps [simp del]

definition sentenceEnd :: "string \<Rightarrow> int \<Rightarrow> int" where
  "sentenceEnd s target = (let stop = minInt (int (length s)) (target + boundarySearchRadius) in
     case scanForward s stop (maxInt 0 target) of Some i \<Rightarrow> i | None \<Rightarrow> target)"

subsection \<open>Focus\<close>

definition genericFocusWords :: "string list" where
  "genericFocusWords = [
     [CHR 0xE8, CHR 0xAF, CHR 0xB7, CHR 0xE9, CHR 0x97, CHR 0xAE],
     [CHR 0xE4, CHR 0xBB, CHR 0x80, CHR 0xE4, CHR 0xB9, CHR 0x88],
     [CHR 0xE5, CHR 0xA6, CHR 0x82, CHR 0xE4, CHR 0xBD, CHR 0x95],
     [CHR 0xE6, CHR 0x80, CHR 0x8E, CHR 0xE4, CHR 0xB9, CHR 0x88],
     [CHR 0xE8, CHR 0xBF, CHR 0x99, CHR 0xE4, CHR 0xB8, CHR 0xAA],
     [CHR 0xE9, CHR 0x82, CHR 0xA3, CHR 0xE4, CHR 0xB8, CHR 0xAA],
     ''please'', ''what'', ''how'', ''this'', ''that'']"

definition isMostlyCJK :: "nat list \<Rightarrow> bool" where
  "isMostlyCJK rs \<longleftrightarrow> 2 \<le> length rs \<and> list_all (\<lambda>r. sentenceBoundary r \<or> (0x3400 \<le> r \<and> r \<le> 0x9fff)) rs"

text \<open>The words of the needle: runs of runes other than space and tab, re-encoded by the builder.\<close>

fun focusWords :: "string \<Rightarrow> string list \<Rightarrow> string list" where
  "focusWords current [] = (if current = [] then [] else [current])"
| "focusWords current (r # rs) =
     (if r = '' '' \<or> r = [CHR 0x09] then (if current = [] then [] else [current]) @ focusWords [] rs
      else focusWords (current @ r) rs)"

fun bigrams :: "string list \<Rightarrow> string list" where
  "bigrams (a # b # rs) = (a @ b) # bigrams (b # rs)"
| "bigrams _ = []"

definition focusComponents :: "string \<Rightarrow> string list" where
  "focusComponents needle = concat (map (\<lambda>w. w # (if isMostlyCJK (runes w) then bigrams (canonicalRunes w) else []))
     (focusWords [] (canonicalRunes needle)))"

definition bestComponent :: "string \<Rightarrow> string list \<Rightarrow> string" where
  "bestComponent lowerText components = foldl (\<lambda>best c.
     if c \<in> set genericFocusWords \<or> length (runes c) < 2 then best
     else if length best < length c \<and> indexOf lowerText c \<noteq> None then c else best) [] components"

definition focusRange :: "(string \<Rightarrow> string) \<Rightarrow> string \<Rightarrow> string \<Rightarrow> (int \<times> int) option" where
  "focusRange lower s focus = (let needle = trimSpace focus in
     if needle = [] then None
     else let lowerText = lower s; lowerNeedle = lower needle in
       (case indexOf lowerText lowerNeedle of Some exact \<Rightarrow> Some (int exact, int exact + int (length needle))
        | None \<Rightarrow> let best = bestComponent lowerText (focusComponents lowerNeedle) in
            if best = [] then None
            else map_option (\<lambda>idx. (int idx, int idx + int (length best))) (indexOf lowerText best)))"

subsection \<open>Cropping\<close>

datatype CropMode = CropHead | CropTail | CropFocus

definition cropAround :: "Excerpt \<Rightarrow> int \<Rightarrow> int \<times> int \<Rightarrow> Excerpt" where
  "cropAround e len rng = (let n = int (length (exText e)); centre = (fst rng + snd rng) div 2;
       start0 = maxInt 0 (minInt (n - len) (centre - len div 2));
       end0 = minInt n (start0 + len);
       start1 = sentenceStart (exText e) start0;
       start2 = (if end0 - start1 > len then end0 - len else start1);
       end1 = sentenceEnd (exText e) (minInt n (start2 + len));
       end2 = (if end1 - start2 > len then start2 + len else end1);
       excess = end2 - start2 - len; trimLeft = minInt excess (maxInt 0 (fst rng - start2)) in
     if excess > 0 then sliceExcerpt e (start2 + trimLeft) (end2 - (excess - trimLeft))
     else sliceExcerpt e start2 end2)"

definition cropExcerpt :: "(string \<Rightarrow> string) \<Rightarrow> Excerpt \<Rightarrow> int \<Rightarrow> CropMode \<Rightarrow> string \<Rightarrow> Excerpt" where
  "cropExcerpt lower e len mode focus = (let n = int (length (exText e)) in
     if len \<le> 0 then sliceExcerpt e 0 0
     else if n \<le> len then e
     else case mode of
         CropHead \<Rightarrow> sliceExcerpt e 0 (sentenceEnd (exText e) len)
       | CropTail \<Rightarrow> sliceExcerpt e (sentenceStart (exText e) (n - len)) n
       | CropFocus \<Rightarrow> (case focusRange lower (exText e) focus of
             None \<Rightarrow> sliceExcerpt e 0 (sentenceEnd (exText e) len)
           | Some rng \<Rightarrow> cropAround e len rng))"

function searchCrop :: "(int \<Rightarrow> Excerpt) \<Rightarrow> bool \<Rightarrow> int \<Rightarrow> int \<Rightarrow> int \<Rightarrow> Excerpt \<Rightarrow> Excerpt" where
  "searchCrop crop anchor budget low high best = (if high < low then best else
     let len = (low + high) div 2; candidate = crop len in
     if exCost anchor candidate \<le> budget then searchCrop crop anchor budget (len + 1) high candidate
     else searchCrop crop anchor budget low (len - 1) best)"
  by pat_completeness auto
termination
  by (relation "measure (\<lambda>(crop, anchor, budget, low, high, best). nat (high + 1 - low))") auto

declare searchCrop.simps [simp del]

definition withoutHeading :: "Excerpt \<Rightarrow> bool \<Rightarrow> int \<Rightarrow> Excerpt" where
  "withoutHeading e anchor budget =
     (if exHeading e \<noteq> [] \<and> budget \<le> exCost anchor (sliceExcerpt e 0 0) then e\<lparr>exHeading := []\<rparr> else e)"

definition fitExcerptBySerializedBudget :: "(string \<Rightarrow> string) \<Rightarrow> Excerpt \<Rightarrow> int \<Rightarrow> CropMode \<Rightarrow> bool \<Rightarrow> string \<Rightarrow> Excerpt" where
  "fitExcerptBySerializedBudget lower e budget mode anchor focus =
    (if budget \<le> 0 then sliceExcerpt e 0 0
     else if exCost anchor e \<le> budget then e
     else let source = withoutHeading e anchor budget in
       searchCrop (\<lambda>len. cropExcerpt lower source len mode focus) anchor budget 0 (int (length (exText source)))
         (sliceExcerpt source 0 0))"

definition fitAnchorToBudget :: "(string \<Rightarrow> string) \<Rightarrow> Excerpt \<Rightarrow> int \<Rightarrow> string \<Rightarrow> Excerpt" where
  "fitAnchorToBudget lower anchor maxTokens focus =
    (if exCost True anchor \<le> maxTokens then anchor
     else fitExcerptBySerializedBudget lower anchor maxTokens CropFocus True focus)"

subsection \<open>Sides\<close>

fun fitNearest :: "(string \<Rightarrow> string) \<Rightarrow> CropMode \<Rightarrow> int \<Rightarrow> int \<Rightarrow> Excerpt list \<Rightarrow> Excerpt list" where
  "fitNearest lower mode allowance used [] = []"
| "fitNearest lower mode allowance used (c # cs) = (let available = allowance - used; fullCost = exCost False c in
     if available \<le> 0 then []
     else if fullCost \<le> available then c # fitNearest lower mode allowance (used + fullCost) cs
     else let fitted = fitExcerptBySerializedBudget lower c available mode False [] in
       if exText fitted \<noteq> [] then [fitted] else [])"

definition fitSide :: "(string \<Rightarrow> string) \<Rightarrow> Excerpt list \<Rightarrow> int \<Rightarrow> bool \<Rightarrow> Excerpt list" where
  "fitSide lower candidates allowance before =
    (if allowance \<le> 0 \<or> candidates = [] then []
     else if before then rev (fitNearest lower CropTail allowance 0 (rev candidates))
     else fitNearest lower CropHead allowance 0 candidates)"

definition estimateSideTokens :: "Excerpt list \<Rightarrow> int" where
  "estimateSideTokens es = (if es = [] then 0
     else EstimateTokens (joinWith paragraphBreak (map (\<lambda>e. serializeExcerpt e False) es)))"

fun overlapFrom :: "string \<Rightarrow> string \<Rightarrow> nat \<Rightarrow> nat" where
  "overlapFrom left right 0 = 0"
| "overlapFrom left right (Suc n) = (if Suc n < MinOverlapChars then 0
     else if drop (length left - Suc n) left = take (Suc n) right then Suc n
     else overlapFrom left right n)"

definition longestSuffixPrefix :: "string \<Rightarrow> string \<Rightarrow> nat" where
  "longestSuffixPrefix left right = overlapFrom left right (min (length left) (length right))"

definition trimTailOverlap :: "Excerpt \<Rightarrow> Excerpt \<Rightarrow> Excerpt" where
  "trimTailOverlap e next = (let overlap = longestSuffixPrefix (exText e) (exText next) in
     if MinOverlapChars \<le> overlap then sliceExcerpt e 0 (int (length (exText e)) - int overlap) else e)"

fun trimBefore :: "Excerpt list \<Rightarrow> Excerpt \<Rightarrow> Excerpt list" where
  "trimBefore [] anchor = []"
| "trimBefore [e] anchor = [trimTailOverlap e anchor]"
| "trimBefore (e # next # es) anchor = trimTailOverlap e next # trimBefore (next # es) anchor"

fun trimAfter :: "Excerpt \<Rightarrow> Excerpt list \<Rightarrow> Excerpt list" where
  "trimAfter previous [] = []"
| "trimAfter previous (e # es) = (let overlap = longestSuffixPrefix (exText previous) (exText e);
       e' = (if MinOverlapChars \<le> overlap then sliceExcerpt e (int overlap) (int (length (exText e))) else e) in
     e' # trimAfter e' es)"

definition nonEmpty :: "Excerpt list \<Rightarrow> Excerpt list" where
  "nonEmpty es = filter (\<lambda>e. exText e \<noteq> []) es"

definition removeAdjacentOverlap :: "Excerpt list \<Rightarrow> Excerpt \<Rightarrow> Excerpt list \<Rightarrow> Excerpt list \<times> Excerpt list" where
  "removeAdjacentOverlap before anchor after = (nonEmpty (trimBefore before anchor), nonEmpty (trimAfter anchor after))"

end
