(* ===== verification/Evidence.thy ===== *)
theory Evidence
  imports EvidenceFit
begin

text \<open>
  Evidence windows (\<open>internal/evidence/evidence.go\<close>): the loop that shrinks a window to its
  budget, and \<open>Compose\<close>, which collects the neighbours of an anchor chunk, removes overlaps and
  shares the budget between the sides.
\<close>

record EvidenceChunk =
  ecID :: string
  ecDocID :: string
  ecBaseID :: string
  ecIndex :: int
  ecText :: string
  ecHeading :: string

record ComposeOptions =
  coBefore :: "int option"
  coAfter :: "int option"
  coMaxTokens :: int
  coFocus :: string
  coCrossHeading :: bool
  coDocumentChunkCount :: int
  coHasMoreBefore :: "bool option"
  coHasMoreAfter :: "bool option"

definition DefaultContextTokens :: int where "DefaultContextTokens = 768"
definition DefaultNeighbours :: int where "DefaultNeighbours = 1"

definition clampSide :: "int option \<Rightarrow> int \<Rightarrow> int" where
  "clampSide v fallback = (case v of None \<Rightarrow> fallback | Some n \<Rightarrow> if n < 0 then 0 else if n > 10 then 10 else n)"

definition clampInt :: "int \<Rightarrow> int \<Rightarrow> int \<Rightarrow> int \<Rightarrow> int" where
  "clampInt v lo hi fallback = (if v < lo then fallback else if v > hi then hi else v)"

definition boolValue :: "bool option \<Rightarrow> bool" where
  "boolValue p = (p = Some True)"

subsection \<open>Enforcing the budget\<close>

text \<open>
  One round: the farthest excerpt shrinks by the excess, or goes when it cannot shrink. None is the
  panic of indexing an empty side.
\<close>

definition dropOrShrink :: "(string \<Rightarrow> string) \<Rightarrow> CropMode \<Rightarrow> int \<Rightarrow> Excerpt \<Rightarrow> Excerpt list" where
  "dropOrShrink lower mode excess e = (let cost = exCost False e;
       fitted = fitExcerptBySerializedBudget lower e (maxInt 0 (cost - excess - 1)) mode False [] in
     if exText fitted = [] \<or> length (exText e) \<le> length (exText fitted) then [] else [fitted])"

definition shrinkFarthest :: "(string \<Rightarrow> string) \<Rightarrow> int \<Rightarrow> int \<Rightarrow> Excerpt list \<Rightarrow> Excerpt list
    \<Rightarrow> (Excerpt list \<times> Excerpt list) option" where
  "shrinkFarthest lower anchorIndex excess before after =
    (let beforeDistance = (if before = [] then -1 else anchorIndex - exIndex (hd before));
         afterDistance = (if after = [] then -1 else exIndex (last after) - anchorIndex) in
     if beforeDistance \<le> afterDistance
     then (if after = [] then None else Some (before, butlast after @ dropOrShrink lower CropHead excess (last after)))
     else (if before = [] then None else Some (dropOrShrink lower CropTail excess (hd before) @ tl before, after)))"

definition sidesSize :: "Excerpt list \<Rightarrow> Excerpt list \<Rightarrow> nat" where
  "sidesSize before after = sum_list (map (\<lambda>e. length (exText e) + 1) (before @ after))"

lemma dropOrShrink_size:
  "sum_list (map (\<lambda>e. length (exText e) + 1) (dropOrShrink lower mode excess e)) < length (exText e) + 1"
  by (simp add: dropOrShrink_def Let_def)

text \<open>The sides of a window: smaller indexes before the anchor, larger ones after it.\<close>

definition sidesOk :: "int \<Rightarrow> Excerpt list \<Rightarrow> Excerpt list \<Rightarrow> bool" where
  "sidesOk i before after \<longleftrightarrow> (\<forall>e \<in> set before. exIndex e < i) \<and> (\<forall>e \<in> set after. i < exIndex e)"

lemma sliceExcerpt_index [simp]: "exIndex (sliceExcerpt e a b) = exIndex e" "exChunkID (sliceExcerpt e a b) = exChunkID e"
  "exHeading (sliceExcerpt e a b) = exHeading e"
  by (simp_all add: sliceExcerpt_def Let_def)

lemma if_slices: "\<exists>a b. (if c then f x y else f u v) = f a b"
  by auto

lemma cropAround_slice: "\<exists>a b. cropAround e len rng = sliceExcerpt e a b"
  unfolding cropAround_def Let_def by (rule if_slices)

lemma cropExcerpt_slice: "(\<exists>a b. cropExcerpt lower e len mode focus = sliceExcerpt e a b) \<or> cropExcerpt lower e len mode focus = e"
proof (cases mode)
  case CropFocus
  then show ?thesis using cropAround_slice
    by (cases "focusRange lower (exText e) focus") (simp_all add: cropExcerpt_def Let_def, blast+)
qed (simp_all add: cropExcerpt_def Let_def, blast+)

lemma searchCrop_induct:
  assumes "\<And>len. P (crop len)" "P best"
  shows "P (searchCrop crop anchor budget low high best)"
  using assms
proof (induction crop anchor budget low high best rule: searchCrop.induct)
  case (1 crop anchor budget low high best)
  show ?case
    by (subst searchCrop.simps) (use 1 in \<open>auto simp: Let_def\<close>)
qed

lemma fitExcerpt_index [simp]:
  "exIndex (fitExcerptBySerializedBudget lower e budget mode anchor focus) = exIndex e"
proof -
  have "exIndex (searchCrop (\<lambda>len. cropExcerpt lower s len mode focus) anchor budget lo hi (sliceExcerpt s 0 0)) = exIndex s" for s lo hi
  proof (rule searchCrop_induct)
    show "exIndex (cropExcerpt lower s len mode focus) = exIndex s" for len
      using cropExcerpt_slice [of lower s len mode focus] by auto
  qed simp
  then show ?thesis by (simp add: fitExcerptBySerializedBudget_def withoutHeading_def Let_def)
qed

lemma dropOrShrink_index: "e' \<in> set (dropOrShrink lower mode excess e) \<Longrightarrow> exIndex e' = exIndex e"
  by (auto simp: dropOrShrink_def Let_def split: if_splits)

lemma shrinkFarthest_ok:
  assumes "before \<noteq> [] \<or> after \<noteq> []" "sidesOk i before after"
  shows "\<exists>b a. shrinkFarthest lower i excess before after = Some (b, a) \<and> sidesSize b a < sidesSize before after \<and> sidesOk i b a"
proof (cases "(if before = [] then -1 else i - exIndex (hd before)) \<le> (if after = [] then -1 else exIndex (last after) - i)")
  case True
  have "after \<noteq> []"
  proof
    assume "after = []"
    with True assms(1) have "i - exIndex (hd before) \<le> -1" "hd before \<in> set before" by (auto split: if_splits)
    with assms(2) show False by (fastforce simp: sidesOk_def)
  qed
  then obtain es e where after: "after = es @ [e]" by (cases after rule: rev_cases) auto
  have "shrinkFarthest lower i excess before after = Some (before, es @ dropOrShrink lower CropHead excess e)"
    using True by (simp add: shrinkFarthest_def Let_def after)
  moreover have "sidesSize before (es @ dropOrShrink lower CropHead excess e) < sidesSize before after"
    using dropOrShrink_size [of lower CropHead excess e] by (simp add: sidesSize_def after)
  moreover have "sidesOk i before (es @ dropOrShrink lower CropHead excess e)"
    using assms(2) by (auto simp: sidesOk_def after dest: dropOrShrink_index)
  ultimately show ?thesis by blast
next
  case False
  have "before \<noteq> []"
  proof
    assume "before = []"
    with False assms(1) have "exIndex (last after) - i < -1" "last after \<in> set after" by (auto split: if_splits)
    with assms(2) show False by (fastforce simp: sidesOk_def)
  qed
  then obtain e es where before: "before = e # es" by (cases before) auto
  have "shrinkFarthest lower i excess before after = Some (dropOrShrink lower CropTail excess e @ es, after)"
    using False by (simp add: shrinkFarthest_def Let_def before)
  moreover have "sidesSize (dropOrShrink lower CropTail excess e @ es) after < sidesSize before after"
    using dropOrShrink_size [of lower CropTail excess e] by (simp add: sidesSize_def before)
  moreover have "sidesOk i (dropOrShrink lower CropTail excess e @ es) after"
    using assms(2) by (auto simp: sidesOk_def before dest: dropOrShrink_index)
  ultimately show ?thesis by blast
qed

text \<open>
  \<open>enforceSerializedBudget\<close>: the loop on the current window \<open>next\<close>, whose sides are the slices
  \<open>before\<close> and \<open>after\<close> of the code, then the crop of the anchor. None is a loop that does not
  return, or panics.
\<close>

partial_function (option) enforceLoop :: "(string \<Rightarrow> string) \<Rightarrow> int \<Rightarrow> Window \<Rightarrow> Window option" where
  "enforceLoop lower maxTokens w =
    (if wnEstimatedTokens w \<le> maxTokens \<or> wnBefore w = [] \<and> wnAfter w = [] then Some w
     else (case shrinkFarthest lower (wnAnchorIndex w) (wnEstimatedTokens w - maxTokens) (wnBefore w) (wnAfter w) of
         None \<Rightarrow> None
       | Some (b, a) \<Rightarrow> enforceLoop lower maxTokens (makeWindowRaw (wnAnchorChunkID w) (wnAnchorIndex w) b (wnAnchor w) a
             (wnHasMoreBefore w) (wnHasMoreAfter w))))"

definition enforceSerializedBudget :: "(string \<Rightarrow> string) \<Rightarrow> Window \<Rightarrow> int \<Rightarrow> string \<Rightarrow> Window option" where
  "enforceSerializedBudget lower w maxTokens focus = map_option (\<lambda>n.
     if wnEstimatedTokens n \<le> maxTokens then n
     else makeWindowRaw (wnAnchorChunkID w) (wnAnchorIndex w) []
       (fitExcerptBySerializedBudget lower (wnAnchor w) maxTokens CropFocus True focus) []
       (wnHasMoreBefore w) (wnHasMoreAfter w)) (enforceLoop lower maxTokens w)"

subsection \<open>Composing\<close>

text \<open>The chunks of the anchor's document by index: a later chunk replaces an earlier one.\<close>

definition byIndex :: "EvidenceChunk list \<Rightarrow> EvidenceChunk \<Rightarrow> int \<rightharpoonup> EvidenceChunk" where
  "byIndex chunks anchor = (foldl (\<lambda>m c. if ecDocID c = ecDocID anchor \<and> ecBaseID c = ecBaseID anchor
     then m(ecIndex c \<mapsto> c) else m) Map.empty chunks)(ecIndex anchor \<mapsto> anchor)"

definition orderedChunks :: "EvidenceChunk list \<Rightarrow> EvidenceChunk \<Rightarrow> EvidenceChunk list" where
  "orderedChunks chunks anchor =
     List.map_filter (byIndex chunks anchor) (sort (remdups (ecIndex anchor # map ecIndex chunks)))"

text \<open>
  \<open>contiguousTowardAnchor\<close> with its direction 1 or -1, the two values it is called with: the
  chunks next to the anchor up to the first index that is missing.
\<close>

function contiguousFrom :: "EvidenceChunk list \<Rightarrow> bool \<Rightarrow> int \<Rightarrow> EvidenceChunk list" where
  "contiguousFrom chunks up index = (case find (\<lambda>c. ecIndex c = index) (rev chunks) of None \<Rightarrow> []
     | Some c \<Rightarrow> c # contiguousFrom chunks up (if up then index + 1 else index - 1))"
  by pat_completeness auto
termination
proof (relation "measure (\<lambda>(chunks, up, index). length (filter (\<lambda>c. if up then index \<le> ecIndex c else ecIndex c \<le> index) chunks))", goal_cases)
  case (2 chunks up index c)
  then have c: "c \<in> set chunks" "ecIndex c = index" using find_Some_mem [OF 2] by auto
  have shorter: "length (filter Q chunks) < length (filter P chunks)" if "\<And>c. Q c \<Longrightarrow> P c" "P c" "\<not> Q c" for P Q
  proof -
    have "filter Q chunks = filter Q (filter P chunks)" using that(1) by (auto intro: filter_cong)
    with length_filter_less [of c "filter P chunks" Q] c(1) that(2,3) show ?thesis by simp
  qed
  show ?case using c(2) by (cases up) (auto intro!: shorter)
qed simp

declare contiguousFrom.simps [simp del]

definition excerptOf :: "EvidenceChunk \<Rightarrow> Excerpt" where
  "excerptOf c = \<lparr>exChunkID = ecID c, exIndex = ecIndex c, exHeading = ecHeading c, exText = ecText c, exTextStart = 0,
     exTextEnd = int (length (ecText c)), exTruncatedStart = False, exTruncatedEnd = False\<rparr>"

definition makeWindow :: "EvidenceChunk \<Rightarrow> Excerpt list \<Rightarrow> Excerpt \<Rightarrow> Excerpt list \<Rightarrow> bool \<Rightarrow> bool \<Rightarrow> Window" where
  "makeWindow anchor = makeWindowRaw (ecID anchor) (ecIndex anchor)"

definition normalizeHeading :: "string \<Rightarrow> string" where
  "normalizeHeading h = trimSpace h"

text \<open>The chunks taken on each side, in reading order.\<close>

definition neighbours :: "EvidenceChunk list \<Rightarrow> EvidenceChunk \<Rightarrow> ComposeOptions \<Rightarrow> EvidenceChunk list \<times> EvidenceChunk list" where
  "neighbours chunks anchor opts =
    (let ordered = orderedChunks chunks anchor;
         earlier = filter (\<lambda>c. ecIndex c < ecIndex anchor) ordered;
         later = filter (\<lambda>c. ecIndex c > ecIndex anchor) ordered;
         sameHeading = (\<lambda>c. coCrossHeading opts \<or> normalizeHeading (ecHeading c) = normalizeHeading (ecHeading anchor));
         eligibleBefore = takeWhile sameHeading (contiguousFrom earlier False (ecIndex anchor - 1));
         eligibleAfter = takeWhile sameHeading (contiguousFrom later True (ecIndex anchor + 1)) in
     (rev (take (nat (clampSide (coBefore opts) DefaultNeighbours)) eligibleBefore),
      take (nat (clampSide (coAfter opts) DefaultNeighbours)) eligibleAfter))"

text \<open>The sides fitted to their allowances; a side that needs less donates the rest to the other.\<close>

definition fitSides :: "(string \<Rightarrow> string) \<Rightarrow> Excerpt list \<Rightarrow> Excerpt list \<Rightarrow> int \<Rightarrow> Excerpt list \<times> Excerpt list" where
  "fitSides lower before after remaining =
    (let beforeAllowance = (if after \<noteq> [] \<and> before \<noteq> [] then remaining div 2 else if after \<noteq> [] then 0 else remaining);
         afterAllowance = (if after \<noteq> [] \<and> before \<noteq> [] then remaining - remaining div 2 else if after \<noteq> [] then remaining else 0);
         fittedBefore = fitSide lower before beforeAllowance True;
         fittedAfter = fitSide lower after afterAllowance False;
         usedBefore = estimateSideTokens fittedBefore;
         fittedAfter' = (if usedBefore < beforeAllowance \<and> after \<noteq> []
           then fitSide lower after (afterAllowance + beforeAllowance - usedBefore) False else fittedAfter);
         usedAfter = estimateSideTokens fittedAfter';
         fittedBefore' = (if usedAfter < afterAllowance \<and> before \<noteq> []
           then fitSide lower before (beforeAllowance + afterAllowance - usedAfter) True else fittedBefore) in
     (fittedBefore', fittedAfter'))"

definition hasMore :: "EvidenceChunk list \<Rightarrow> EvidenceChunk \<Rightarrow> ComposeOptions \<Rightarrow> Window \<Rightarrow> bool \<times> bool" where
  "hasMore chunks anchor opts w =
    (let ordered = orderedChunks chunks anchor;
         earlier = filter (\<lambda>c. ecIndex c < ecIndex anchor) ordered;
         later = filter (\<lambda>c. ecIndex c > ecIndex anchor) ordered;
         first = (if wnBefore w = [] then wnAnchor w else hd (wnBefore w));
         final = (if wnAfter w = [] then wnAnchor w else last (wnAfter w)) in
     (if coHasMoreBefore opts = None
      then exTruncatedStart first \<or> exIndex first > 0 \<or> list_ex (\<lambda>c. ecIndex c < exIndex first) earlier
      else boolValue (coHasMoreBefore opts),
      if coHasMoreAfter opts = None then
        (if coDocumentChunkCount opts > 0 then exTruncatedEnd final \<or> exIndex final < coDocumentChunkCount opts - 1
         else exTruncatedEnd final \<or> list_ex (\<lambda>c. ecIndex c > exIndex final) later)
      else boolValue (coHasMoreAfter opts)))"

definition Compose :: "(string \<Rightarrow> string) \<Rightarrow> EvidenceChunk list \<Rightarrow> EvidenceChunk \<Rightarrow> ComposeOptions \<Rightarrow> Window option" where
  "Compose lower chunks anchor opts =
    (let maxTokens = clampInt (coMaxTokens opts) 1 1000000 DefaultContextTokens;
         (beforeChunks, afterChunks) = neighbours chunks anchor opts;
         anchorExcerpt = fitAnchorToBudget lower (excerptOf anchor) maxTokens (coFocus opts);
         (before, after) = removeAdjacentOverlap (map excerptOf beforeChunks) anchorExcerpt (map excerptOf afterChunks);
         anchorOnly = makeWindow anchor [] anchorExcerpt [] False False;
         (fittedBefore, fittedAfter) = fitSides lower before after (maxInt 0 (maxTokens - wnEstimatedTokens anchorOnly));
         w = makeWindow anchor fittedBefore anchorExcerpt fittedAfter (boolValue (coHasMoreBefore opts)) (boolValue (coHasMoreAfter opts)) in
     map_option (\<lambda>w'. let (moreBefore, moreAfter) = hasMore chunks anchor opts w' in
         makeWindow anchor (wnBefore w') (wnAnchor w') (wnAfter w') moreBefore moreAfter)
       (enforceSerializedBudget lower w maxTokens (coFocus opts)))"

end
