(* ===== verification/EvidenceProperties.thy ===== *)
theory EvidenceProperties
  imports Evidence
begin

text \<open>
  What a composed window promises: it respects the budget, its excerpts are slices of their chunks,
  and they stand in document order.
\<close>

subsection \<open>Properties that cropping preserves\<close>

lemma if_fit: "\<exists>x. (if c then fitSide lower es a d else fitSide lower es b d) = fitSide lower es x d"
  by auto

lemma fitSides_sides: "\<exists>x y. fitSides lower before after n = (fitSide lower before x True, fitSide lower after y False)"
  unfolding fitSides_def Let_def by (simp only: prod.inject ex_simps) (intro conjI if_fit)

lemma makeWindowRaw_simps [simp]:
  "wnBefore (makeWindowRaw x i b e a m n) = b" "wnAfter (makeWindowRaw x i b e a m n) = a"
  "wnAnchor (makeWindowRaw x i b e a m n) = e" "wnAnchorIndex (makeWindowRaw x i b e a m n) = i"
  "wnAnchorChunkID (makeWindowRaw x i b e a m n) = x"
  by (simp_all add: makeWindowRaw_def Let_def)

text \<open>
  Every step of the composition only slices excerpts, or drops their heading. \<open>excerpt_property\<close>
  is the contract of a property that survives both; the operations then preserve it.
\<close>

locale excerpt_property =
  fixes Q :: "Excerpt \<Rightarrow> bool"
  assumes slice: "Q e \<Longrightarrow> Q (sliceExcerpt e a b)"
    and heading: "Q e \<Longrightarrow> Q (e\<lparr>exHeading := []\<rparr>)"
begin

lemma crop: "Q e \<Longrightarrow> Q (cropExcerpt lower e len mode focus)"
  using cropExcerpt_slice [of lower e len mode focus] slice by metis

lemma fit: "Q e \<Longrightarrow> Q (fitExcerptBySerializedBudget lower e budget mode anchor focus)"
proof -
  assume e: "Q e"
  then have src: "Q (withoutHeading e anchor budget)" by (simp add: withoutHeading_def heading)
  have "Q (searchCrop (\<lambda>len. cropExcerpt lower s len mode focus) anchor budget lo hi (sliceExcerpt s 0 0))"
    if "Q s" for s lo hi
    by (rule searchCrop_induct) (use that in \<open>simp_all add: crop slice\<close>)
  with src e show ?thesis by (simp add: fitExcerptBySerializedBudget_def Let_def slice)
qed

lemma fitAnchor: "Q e \<Longrightarrow> Q (fitAnchorToBudget lower e budget focus)"
  by (simp add: fitAnchorToBudget_def fit)

lemma fitNearest: "list_all Q es \<Longrightarrow> list_all Q (fitNearest lower mode allowance used es)"
  by (induction lower mode allowance used es rule: fitNearest.induct) (simp_all add: Let_def fit)

lemma fitSide: "list_all Q es \<Longrightarrow> list_all Q (fitSide lower es allowance before)"
  unfolding fitSide_def using fitNearest [of es] fitNearest [of "rev es"] by (simp add: list_all_rev)

lemma fitSides: "list_all Q before \<Longrightarrow> list_all Q after \<Longrightarrow> fitSides lower before after n = (b, a) \<Longrightarrow> list_all Q b \<and> list_all Q a"
  using fitSides_sides [of lower before after n] fitSide by fastforce

lemma trimTail: "Q e \<Longrightarrow> Q (trimTailOverlap e next)"
  by (simp add: trimTailOverlap_def Let_def slice)

lemma trims: "list_all Q es \<Longrightarrow> list_all Q (trimBefore es anchor)" "list_all Q es \<Longrightarrow> list_all Q (trimAfter previous es)"
proof -
  show "list_all Q es \<Longrightarrow> list_all Q (trimBefore es anchor)"
    by (induction es anchor rule: trimBefore.induct) (simp_all add: trimTail)
  show "list_all Q es \<Longrightarrow> list_all Q (trimAfter previous es)"
    by (induction previous es rule: trimAfter.induct) (simp_all add: Let_def slice)
qed

lemma overlaps:
  assumes "list_all Q before" "list_all Q after" "removeAdjacentOverlap before anchor after = (b, a)"
  shows "list_all Q b \<and> list_all Q a"
  using assms(3) trims(1) [OF assms(1), of anchor] trims(2) [OF assms(2), of anchor]
  unfolding removeAdjacentOverlap_def nonEmpty_def prod.inject by (auto simp: list_all_iff)

lemma dropOrShrink: "Q e \<Longrightarrow> list_all Q (dropOrShrink lower mode excess e)"
  by (simp add: dropOrShrink_def Let_def fit)

lemma shrink:
  assumes "list_all Q before" "list_all Q after" "shrinkFarthest lower i excess before after = Some (b, a)"
  shows "list_all Q b \<and> list_all Q a"
proof -
  have "list_all Q (butlast after)" "after \<noteq> [] \<Longrightarrow> Q (last after)"
    using assms(2) by (auto simp: list_all_iff dest: in_set_butlastD)
  moreover have "list_all Q (tl before)" "before \<noteq> [] \<Longrightarrow> Q (hd before)"
    using assms(1) by (cases before; simp)+
  ultimately have "list_all Q (butlast after)" "list_all Q (tl before)"
    "after \<noteq> [] \<Longrightarrow> Q (last after)" "before \<noteq> [] \<Longrightarrow> Q (hd before)" by blast+
  with assms dropOrShrink show ?thesis by (auto simp: shrinkFarthest_def Let_def split: if_splits)
qed

lemma loop:
  "enforceLoop lower maxTokens w = Some n \<Longrightarrow> list_all Q (wnBefore w) \<and> list_all Q (wnAfter w) \<longrightarrow>
    list_all Q (wnBefore n) \<and> list_all Q (wnAfter n)"
proof (induction rule: enforceLoop.raw_induct [rotated, consumes 1, case_names step])
  case (step loop lower maxTokens w n)
  show ?case
  proof (cases "wnEstimatedTokens w \<le> maxTokens \<or> wnBefore w = [] \<and> wnAfter w = []")
    case True
    with step(2) show ?thesis by simp
  next
    case False
    with step(2) obtain b a where s: "shrinkFarthest lower (wnAnchorIndex w) (wnEstimatedTokens w - maxTokens)
        (wnBefore w) (wnAfter w) = Some (b, a)"
      "loop lower maxTokens (makeWindowRaw (wnAnchorChunkID w) (wnAnchorIndex w) b (wnAnchor w) a
         (wnHasMoreBefore w) (wnHasMoreAfter w)) = Some n"
      by (auto split: option.splits)
    from step(1) [OF s(2)] shrink [OF _ _ s(1)] show ?thesis by simp
  qed
qed

lemma enforce:
  assumes "list_all Q (wnBefore w)" "Q (wnAnchor w)" "list_all Q (wnAfter w)"
    "enforceSerializedBudget lower w maxTokens focus = Some n" "\<And>m. enforceLoop lower maxTokens w = Some m \<Longrightarrow> wnAnchor m = wnAnchor w"
  shows "list_all Q (wnBefore n) \<and> Q (wnAnchor n) \<and> list_all Q (wnAfter n)"
proof -
  obtain m where m: "enforceLoop lower maxTokens w = Some m" using assms(4) by (auto simp: enforceSerializedBudget_def)
  with loop [OF m] assms fit show ?thesis by (auto simp: enforceSerializedBudget_def)
qed

end

interpretation below: excerpt_property "\<lambda>e. exIndex e < i" for i
  by unfold_locales simp_all

interpretation above: excerpt_property "\<lambda>e. i < exIndex e" for i
  by unfold_locales simp_all

subsection \<open>The budget\<close>

lemma EstimateTokens_values: "EstimateTokens [] = 0" "EstimateTokens ''>>> '' = 1"
proof -
  have "runes ''>>> '' = [62, 62, 62, 32]" by code_simp
  then show "EstimateTokens ''>>> '' = 1"
    using EstimateTokens_exact [of "''>>> ''"] by (simp add: cjkRunes_def isCJK_def)
qed (simp add: EstimateTokens_def)

lemma bare_cost: "trimSpace (exHeading e) = [] \<Longrightarrow> exCost anchor (sliceExcerpt e 0 0) \<le> 1"
  by (simp add: exCost_def serializeExcerpt_def Let_def sliceExcerpt_def sliceText_def EstimateTokens_values)

lemma searchCrop_cost:
  "exCost anchor best \<le> budget \<Longrightarrow> exCost anchor (searchCrop crop anchor budget low high best) \<le> budget"
proof (induction crop anchor budget low high best rule: searchCrop.induct)
  case (1 crop anchor budget low high best)
  then show ?case by (subst searchCrop.simps) (simp add: Let_def)
qed

lemma fit_cost:
  assumes "1 \<le> budget"
  shows "exCost anchor (fitExcerptBySerializedBudget lower e budget mode anchor focus) \<le> budget"
proof -
  have "exCost anchor (sliceExcerpt (withoutHeading e anchor budget) 0 0) \<le> budget"
    using bare_cost [of "e\<lparr>exHeading := []\<rparr>" anchor] bare_cost [of e anchor] assms
    by (auto simp: withoutHeading_def)
  with assms show ?thesis
    by (simp add: fitExcerptBySerializedBudget_def Let_def searchCrop_cost)
qed

lemma makeWindowRaw_tokens:
  "wnEstimatedTokens (makeWindowRaw x i b e a m n) = EstimateTokens (Serialize (makeWindowRaw x' i' b e a m' n'))"
  by (simp add: makeWindowRaw_def Let_def Serialize_def)

lemma anchor_only_tokens: "wnEstimatedTokens (makeWindowRaw x i [] e [] m n) = exCost True e"
  by (simp add: makeWindowRaw_def Let_def Serialize_def exCost_def)

lemma enforceLoop_returns:
  assumes "sidesOk (wnAnchorIndex w) (wnBefore w) (wnAfter w)"
  shows "\<exists>n. enforceLoop lower maxTokens w = Some n \<and> (wnEstimatedTokens n \<le> maxTokens \<or> wnBefore n = [] \<and> wnAfter n = [])"
  using assms
proof (induction "sidesSize (wnBefore w) (wnAfter w)" arbitrary: w rule: less_induct)
  case less
  show ?case
  proof (cases "wnEstimatedTokens w \<le> maxTokens \<or> wnBefore w = [] \<and> wnAfter w = []")
    case True
    then show ?thesis by (subst enforceLoop.simps) simp
  next
    case False
    then obtain b a where s: "shrinkFarthest lower (wnAnchorIndex w) (wnEstimatedTokens w - maxTokens) (wnBefore w) (wnAfter w) = Some (b, a)"
      "sidesSize b a < sidesSize (wnBefore w) (wnAfter w)" "sidesOk (wnAnchorIndex w) b a"
      using shrinkFarthest_ok less.prems by blast
    let ?w = "makeWindowRaw (wnAnchorChunkID w) (wnAnchorIndex w) b (wnAnchor w) a (wnHasMoreBefore w) (wnHasMoreAfter w)"
    have "\<exists>n. enforceLoop lower maxTokens ?w = Some n \<and> (wnEstimatedTokens n \<le> maxTokens \<or> wnBefore n = [] \<and> wnAfter n = [])"
      by (rule less.hyps) (use s in simp_all)
    then show ?thesis using False s(1) by (subst enforceLoop.simps) auto
  qed
qed

subsection \<open>Order\<close>

definition increasing :: "Excerpt list \<Rightarrow> bool" where
  "increasing es \<longleftrightarrow> sorted_wrt (<) (map exIndex es)"

lemma sorted_wrt_subseq: "subseq xs ys \<Longrightarrow> sorted_wrt R ys \<Longrightarrow> sorted_wrt R xs"
proof (induction rule: list_emb.induct)
  case (list_emb_Cons2 x y xs ys)
  have "set xs \<subseteq> set ys" using list_emb_set [OF list_emb_Cons2(2)] by blast
  with list_emb_Cons2 show ?case by auto
qed auto

lemma increasing_subseq: "subseq (map exIndex xs) (map exIndex ys) \<Longrightarrow> increasing ys \<Longrightarrow> increasing xs"
  unfolding increasing_def by (rule sorted_wrt_subseq)

lemma trim_indexes:
  "map exIndex (trimBefore es anchor) = map exIndex es" "map exIndex (trimAfter previous es) = map exIndex es"
proof -
  show "map exIndex (trimBefore es anchor) = map exIndex es"
    by (induction es anchor rule: trimBefore.induct) (simp_all add: trimTailOverlap_def Let_def)
  show "map exIndex (trimAfter previous es) = map exIndex es"
    by (induction previous es rule: trimAfter.induct) (simp_all add: Let_def)
qed

lemma nonEmpty_indexes: "subseq (map exIndex (nonEmpty es)) (map exIndex es)"
  by (simp add: nonEmpty_def subseq_map)

lemma fitNearest_indexes: "subseq (map exIndex (fitNearest lower mode allowance used es)) (map exIndex es)"
  by (induction lower mode allowance used es rule: fitNearest.induct) (auto simp: Let_def)

lemma subseq_reverse: "subseq xs ys \<Longrightarrow> subseq (rev xs) (rev ys)"
proof (induction rule: list_emb.induct)
  case (list_emb_Cons2 x y xs ys)
  then show ?case by (auto intro: list_emb_append_mono)
qed (auto intro: subseq_rev_drop_many)

lemma fitSide_indexes: "subseq (map exIndex (fitSide lower es allowance before)) (map exIndex es)"
  using fitNearest_indexes [of lower CropTail allowance 0 "rev es"] fitNearest_indexes [of lower CropHead allowance 0 es]
  by (auto simp: fitSide_def rev_map dest: subseq_reverse)

lemma shrink_indexes:
  assumes "shrinkFarthest lower i excess before after = Some (b, a)"
  shows "subseq (map exIndex b) (map exIndex before) \<and> subseq (map exIndex a) (map exIndex after)"
proof -
  have drop: "subseq (map exIndex (dropOrShrink lower mode excess e)) [exIndex e]" for mode e
    by (simp add: dropOrShrink_def Let_def)
  have "subseq (map exIndex (butlast after) @ map exIndex (dropOrShrink lower CropHead excess (last after)))
      (map exIndex (butlast after) @ [exIndex (last after)])" using drop by (intro list_emb_append_mono) simp_all
  moreover have "after \<noteq> [] \<Longrightarrow> map exIndex (butlast after) @ [exIndex (last after)] = map exIndex after"
    by (metis append_butlast_last_id list.simps(8,9) map_append)
  moreover have "subseq (map exIndex (dropOrShrink lower CropTail excess (hd before)) @ map exIndex (tl before))
      ([exIndex (hd before)] @ map exIndex (tl before))" using drop by (intro list_emb_append_mono) simp_all
  moreover have "before \<noteq> [] \<Longrightarrow> [exIndex (hd before)] @ map exIndex (tl before) = map exIndex before"
    by (cases before) simp_all
  ultimately show ?thesis using assms by (auto simp: shrinkFarthest_def Let_def split: if_splits)
qed

lemma contiguous_chain:
  "sorted_wrt (\<lambda>a b. if up then a < b else b < a) (map ecIndex (contiguousFrom cs up i))
   \<and> (\<forall>c \<in> set (contiguousFrom cs up i). c \<in> set cs \<and> (if up then i \<le> ecIndex c else ecIndex c \<le> i))"
proof (induction cs up i rule: contiguousFrom.induct)
  case (1 cs up i)
  show ?case
  proof (cases "find (\<lambda>c. ecIndex c = i) (rev cs)")
    case None
    then show ?thesis by (subst (1 2) contiguousFrom.simps) simp
  next
    case (Some c)
    have c: "c \<in> set cs" "ecIndex c = i" using find_Some_mem [OF Some] by auto
    have "contiguousFrom cs up i = c # contiguousFrom cs up (if up then i + 1 else i - 1)"
      by (subst contiguousFrom.simps) (simp add: Some)
    with "1.IH" [OF Some] c show ?thesis by (cases up) auto
  qed
qed

definition sameDocument :: "EvidenceChunk list \<Rightarrow> EvidenceChunk \<Rightarrow> EvidenceChunk \<Rightarrow> bool" where
  "sameDocument chunks anchor c \<longleftrightarrow> c \<in> insert anchor (set chunks) \<and> ecDocID c = ecDocID anchor \<and> ecBaseID c = ecBaseID anchor"

lemma byIndex_sameDocument: "byIndex chunks anchor i = Some c \<Longrightarrow> sameDocument chunks anchor c"
proof -
  have fold: "foldl (\<lambda>m c. if ecDocID c = ecDocID anchor \<and> ecBaseID c = ecBaseID anchor then m(ecIndex c \<mapsto> c) else m) m cs i = Some c
      \<Longrightarrow> m i = Some c \<or> c \<in> set cs \<and> ecDocID c = ecDocID anchor \<and> ecBaseID c = ecBaseID anchor" for m cs
  proof (induction cs arbitrary: m)
    case (Cons a cs)
    let ?m = "if ecDocID a = ecDocID anchor \<and> ecBaseID a = ecBaseID anchor then m(ecIndex a \<mapsto> a) else m"
    from Cons.IH [of ?m] Cons.prems show ?case by (simp split: if_splits) blast+
  qed simp
  assume "byIndex chunks anchor i = Some c"
  then show ?thesis using fold [of Map.empty chunks] by (auto simp: byIndex_def sameDocument_def split: if_splits)
qed

lemma orderedChunks_sameDocument: "c \<in> set (orderedChunks chunks anchor) \<Longrightarrow> sameDocument chunks anchor c"
  using byIndex_sameDocument by (fastforce simp: orderedChunks_def List.map_filter_def)

lemma neighbours_ok:
  assumes "neighbours chunks anchor opts = (bs, as)"
  shows "sorted_wrt (<) (map ecIndex bs)" "sorted_wrt (<) (map ecIndex as)"
    "c \<in> set bs \<Longrightarrow> ecIndex c < ecIndex anchor \<and> sameDocument chunks anchor c"
    "c \<in> set as \<Longrightarrow> ecIndex anchor < ecIndex c \<and> sameDocument chunks anchor c"
proof -
  let ?earlier = "filter (\<lambda>c. ecIndex c < ecIndex anchor) (orderedChunks chunks anchor)"
  let ?later = "filter (\<lambda>c. ecIndex c > ecIndex anchor) (orderedChunks chunks anchor)"
  let ?down = "contiguousFrom ?earlier False (ecIndex anchor - 1)" and ?up = "contiguousFrom ?later True (ecIndex anchor + 1)"
  obtain P n m where sides: "bs = rev (take n (takeWhile P ?down))" "as = take m (takeWhile P ?up)"
    using assms by (auto simp: neighbours_def Let_def)
  have sub: "subseq (take k (takeWhile P xs)) xs" for k xs
    by (rule prefix_imp_subseq [OF prefix_order.trans [OF take_is_prefix takeWhile_is_prefix]])
  have down: "sorted_wrt (\<lambda>a b. b < a) (map ecIndex ?down)" "\<forall>c \<in> set ?down. c \<in> set ?earlier"
    using contiguous_chain [of False ?earlier "ecIndex anchor - 1", unfolded if_False] by blast+
  have up: "sorted_wrt (<) (map ecIndex ?up)" "\<forall>c \<in> set ?up. c \<in> set ?later"
    using contiguous_chain [of True ?later "ecIndex anchor + 1", unfolded if_True] by blast+
  show "sorted_wrt (<) (map ecIndex bs)"
    using sorted_wrt_subseq [OF subseq_map [OF sub] down(1)] unfolding sides rev_map [symmetric] sorted_wrt_rev .
  show "sorted_wrt (<) (map ecIndex as)"
    using sorted_wrt_subseq [OF subseq_map [OF sub] up(1)] unfolding sides .
  have mem: "c \<in> set xs" if "c \<in> set (take k (takeWhile P xs))" for k xs
    using that by (meson in_set_takeD set_takeWhileD)
  show "ecIndex c < ecIndex anchor \<and> sameDocument chunks anchor c" if "c \<in> set bs"
  proof -
    from that have "c \<in> set (take n (takeWhile P ?down))" unfolding sides by simp
    from down(2) mem [OF this] have "c \<in> set ?earlier" by blast
    then show ?thesis using orderedChunks_sameDocument by simp
  qed
  show "ecIndex anchor < ecIndex c \<and> sameDocument chunks anchor c" if "c \<in> set as"
  proof -
    from that have "c \<in> set (take m (takeWhile P ?up))" unfolding sides by simp
    from up(2) mem [OF this] have "c \<in> set ?later" by blast
    then show ?thesis using orderedChunks_sameDocument by simp
  qed
qed

subsection \<open>Slices\<close>

text \<open>
  An excerpt is canonical when it is the slice of its chunk that its offsets say, and its flags
  tell whether text is missing at either end.
\<close>

definition canonical :: "EvidenceChunk list \<Rightarrow> EvidenceChunk \<Rightarrow> Excerpt \<Rightarrow> bool" where
  "canonical chunks anchor e \<longleftrightarrow> (\<exists>c. sameDocument chunks anchor c \<and> exChunkID e = ecID c \<and> exIndex e = ecIndex c
     \<and> 0 \<le> exTextStart e \<and> exTextStart e \<le> exTextEnd e \<and> exTextEnd e \<le> int (length (ecText c))
     \<and> exText e = sliceText (ecText c) (nat (exTextStart e)) (nat (exTextEnd e))
     \<and> exTruncatedStart e = (0 < exTextStart e) \<and> exTruncatedEnd e = (exTextEnd e < int (length (ecText c))))"

lemma sliceText_slice:
  "b \<le> length s \<Longrightarrow> y \<le> b - a \<Longrightarrow> sliceText (sliceText s a b) x y = sliceText s (a + x) (a + y)"
  unfolding sliceText_def by (simp add: take_drop add.commute min_def) arith

lemma canonical_slice:
  assumes "canonical chunks anchor e"
  shows "canonical chunks anchor (sliceExcerpt e a b)"
proof -
  obtain c where c: "sameDocument chunks anchor c" "exChunkID e = ecID c" "exIndex e = ecIndex c"
    "0 \<le> exTextStart e" "exTextStart e \<le> exTextEnd e" "exTextEnd e \<le> int (length (ecText c))"
    "exText e = sliceText (ecText c) (nat (exTextStart e)) (nat (exTextEnd e))"
    "exTruncatedStart e = (0 < exTextStart e)" "exTruncatedEnd e = (exTextEnd e < int (length (ecText c)))"
    using assms unfolding canonical_def by blast
  define n where "n = int (length (exText e))"
  have n: "n = exTextEnd e - exTextStart e"
    unfolding n_def c(7) sliceText_def using c(4-6) by simp
  define x where "x = maxInt 0 (minInt n a)"
  define y where "y = maxInt x (minInt n b)"
  have xy: "0 \<le> x" "x \<le> y" "y \<le> n" using n c(5) by (simp_all add: x_def y_def)
  have e': "sliceExcerpt e a b = e\<lparr>exText := sliceText (exText e) (nat x) (nat y), exTextStart := exTextStart e + x,
      exTextEnd := exTextStart e + y, exTruncatedStart := (exTruncatedStart e \<or> x > 0), exTruncatedEnd := (exTruncatedEnd e \<or> y < n)\<rparr>"
    by (simp add: sliceExcerpt_def Let_def x_def y_def n_def)
  have "sliceText (exText e) (nat x) (nat y) = sliceText (ecText c) (nat (exTextStart e) + nat x) (nat (exTextStart e) + nat y)"
    unfolding c(7) by (rule sliceText_slice) (use c(4-6) xy n in linarith)+
  then have "exText (sliceExcerpt e a b) = sliceText (ecText c) (nat (exTextStart e + x)) (nat (exTextStart e + y))"
    using c(4) xy by (simp add: e' nat_add_distrib)
  then show ?thesis
    unfolding canonical_def using c xy n by (intro exI [of _ c]) (simp add: e', linarith)
qed

interpretation canonical: excerpt_property "canonical chunks anchor" for chunks anchor
proof
  show "canonical chunks anchor (e\<lparr>exHeading := []\<rparr>)" if "canonical chunks anchor e" for e
    using that by (simp add: canonical_def)
qed (rule canonical_slice)

lemma canonical_excerptOf: "sameDocument chunks anchor c \<Longrightarrow> canonical chunks anchor (excerptOf c)"
  unfolding canonical_def by (intro exI [of _ c]) (simp add: excerptOf_def sliceText_def)

subsection \<open>Composed windows\<close>

lemma enforceLoop_indexes:
  "enforceLoop lower maxTokens w = Some n \<Longrightarrow> wnAnchor n = wnAnchor w
    \<and> subseq (map exIndex (wnBefore n)) (map exIndex (wnBefore w)) \<and> subseq (map exIndex (wnAfter n)) (map exIndex (wnAfter w))"
proof (induction rule: enforceLoop.raw_induct [rotated, consumes 1, case_names step])
  case (step loop lower maxTokens w n)
  show ?case
  proof (cases "wnEstimatedTokens w \<le> maxTokens \<or> wnBefore w = [] \<and> wnAfter w = []")
    case True
    with step(2) show ?thesis by simp
  next
    case False
    with step(2) obtain b a where s: "shrinkFarthest lower (wnAnchorIndex w) (wnEstimatedTokens w - maxTokens)
        (wnBefore w) (wnAfter w) = Some (b, a)"
      "loop lower maxTokens (makeWindowRaw (wnAnchorChunkID w) (wnAnchorIndex w) b (wnAnchor w) a
         (wnHasMoreBefore w) (wnHasMoreAfter w)) = Some n"
      by (auto split: option.splits)
    from step(1) [OF s(2)] shrink_indexes [OF s(1)] show ?thesis
      by (auto intro: subseq_order.order_trans)
  qed
qed

lemma Serialize_parts: "Serialize w = Serialize (makeWindowRaw x i (wnBefore w) (wnAnchor w) (wnAfter w) m n)"
  by (simp add: Serialize_def)

lemma enforceLoop_tokens:
  "enforceLoop lower maxTokens w = Some n \<Longrightarrow> wnEstimatedTokens w = EstimateTokens (Serialize w) \<longrightarrow>
    wnEstimatedTokens n = EstimateTokens (Serialize n)"
proof (induction rule: enforceLoop.raw_induct [rotated, consumes 1, case_names step])
  case (step loop lower maxTokens w n)
  show ?case
  proof (cases "wnEstimatedTokens w \<le> maxTokens \<or> wnBefore w = [] \<and> wnAfter w = []")
    case True
    with step(2) show ?thesis by simp
  next
    case False
    with step(2) obtain b a where s: "loop lower maxTokens (makeWindowRaw (wnAnchorChunkID w) (wnAnchorIndex w) b (wnAnchor w) a
         (wnHasMoreBefore w) (wnHasMoreAfter w)) = Some n"
      by (auto split: option.splits)
    from step(1) [OF s] makeWindowRaw_tokens show ?thesis by blast
  qed
qed

lemma subseq_bound:
  assumes "subseq (map exIndex es) (map ecIndex cs)" "\<And>c. c \<in> set cs \<Longrightarrow> P (ecIndex c)" "e \<in> set es"
  shows "P (exIndex e)"
proof -
  have "exIndex e \<in> set (map exIndex es)" using assms(3) by simp
  from list_emb_set [OF assms(1) this] obtain c where "c \<in> set cs" "exIndex e = ecIndex c" by (metis image_iff list.set_map)
  with assms(2) show ?thesis by metis
qed

text \<open>The window before its budget is enforced: its sides come from the neighbours of the anchor.\<close>

lemma Compose_parts:
  obtains fb fa e0 hb ha g bs as where
    "Compose lower chunks anchor opts = map_option g (enforceSerializedBudget lower
        (makeWindow anchor fb e0 fa hb ha) (clampInt (coMaxTokens opts) 1 1000000 DefaultContextTokens) (coFocus opts))"
    "\<And>w. \<exists>m n. g w = makeWindow anchor (wnBefore w) (wnAnchor w) (wnAfter w) m n"
    "neighbours chunks anchor opts = (bs, as)"
    "subseq (map exIndex fb) (map ecIndex bs)" "subseq (map exIndex fa) (map ecIndex as)"
    "\<And>Q. excerpt_property Q \<Longrightarrow> list_all (Q \<circ> excerptOf) bs \<Longrightarrow> list_all (Q \<circ> excerptOf) as \<Longrightarrow> list_all Q fb \<and> list_all Q fa"
    "\<And>Q. excerpt_property Q \<Longrightarrow> Q (excerptOf anchor) \<Longrightarrow> Q e0"
proof -
  let ?max = "clampInt (coMaxTokens opts) 1 1000000 DefaultContextTokens"
  let ?e0 = "fitAnchorToBudget lower (excerptOf anchor) ?max (coFocus opts)"
  obtain bs as where nb: "neighbours chunks anchor opts = (bs, as)" by fastforce
  obtain b a where ov: "removeAdjacentOverlap (map excerptOf bs) ?e0 (map excerptOf as) = (b, a)" by fastforce
  let ?rem = "maxInt 0 (?max - wnEstimatedTokens (makeWindow anchor [] ?e0 [] False False))"
  obtain fb fa where fs: "fitSides lower b a ?rem = (fb, fa)" by fastforce
  have idx: "exIndex \<circ> excerptOf = ecIndex" by (simp add: fun_eq_iff excerptOf_def)
  obtain x y where fit: "fb = fitSide lower b x True" "fa = fitSide lower a y False"
    using fitSides_sides [of lower b a ?rem] fs by auto
  have "subseq (map exIndex b) (map ecIndex bs)" "subseq (map exIndex a) (map ecIndex as)"
    using ov nonEmpty_indexes [of "trimBefore (map excerptOf bs) ?e0"] nonEmpty_indexes [of "trimAfter ?e0 (map excerptOf as)"]
    unfolding removeAdjacentOverlap_def trim_indexes map_map idx by auto
  then have sub: "subseq (map exIndex fb) (map ecIndex bs)" "subseq (map exIndex fa) (map ecIndex as)"
    unfolding fit using fitSide_indexes subseq_order.order_trans by blast+
  have Q: "list_all Q fb \<and> list_all Q fa" if "excerpt_property Q" "list_all (Q \<circ> excerptOf) bs" "list_all (Q \<circ> excerptOf) as" for Q
    using excerpt_property.fitSides [OF that(1) _ _ fs] excerpt_property.overlaps [OF that(1) _ _ ov] that(2,3)
    by (simp add: list.pred_map)
  have Q0: "Q ?e0" if "excerpt_property Q" "Q (excerptOf anchor)" for Q
    using excerpt_property.fitAnchor [OF that] .
  define g where "g = (\<lambda>w'. case hasMore chunks anchor opts w' of (m, n) \<Rightarrow> makeWindow anchor (wnBefore w') (wnAnchor w') (wnAfter w') m n)"
  have eq: "Compose lower chunks anchor opts = map_option g (enforceSerializedBudget lower
      (makeWindow anchor fb ?e0 fa (boolValue (coHasMoreBefore opts)) (boolValue (coHasMoreAfter opts))) ?max (coFocus opts))"
    unfolding Compose_def Let_def nb prod.case ov fs g_def by (rule refl)
  have g: "\<exists>m n. g w = makeWindow anchor (wnBefore w) (wnAnchor w) (wnAfter w) m n" for w
    unfolding g_def by (cases "hasMore chunks anchor opts w") auto
  show thesis by (rule that [OF eq g nb sub]; (rule Q | rule Q0); assumption)
qed

lemma Compose_window:
  assumes "Compose lower chunks anchor opts = Some w"
  shows "list_all (canonical chunks anchor) (wnBefore w @ wnAnchor w # wnAfter w)" "increasing (wnBefore w @ wnAnchor w # wnAfter w)"
    "exIndex (wnAnchor w) = ecIndex anchor"
proof -
  obtain fb fa e0 hb ha g bs as where C: "Compose lower chunks anchor opts = map_option g (enforceSerializedBudget lower
        (makeWindow anchor fb e0 fa hb ha) (clampInt (coMaxTokens opts) 1 1000000 DefaultContextTokens) (coFocus opts))"
    and g: "\<And>w. \<exists>m n. g w = makeWindow anchor (wnBefore w) (wnAnchor w) (wnAfter w) m n"
    and nb: "neighbours chunks anchor opts = (bs, as)"
    and sub: "subseq (map exIndex fb) (map ecIndex bs)" "subseq (map exIndex fa) (map ecIndex as)"
    and Q: "\<And>Q. excerpt_property Q \<Longrightarrow> list_all (Q \<circ> excerptOf) bs \<Longrightarrow> list_all (Q \<circ> excerptOf) as \<Longrightarrow> list_all Q fb \<and> list_all Q fa"
    and Q0: "\<And>Q. excerpt_property Q \<Longrightarrow> Q (excerptOf anchor) \<Longrightarrow> Q e0"
    by (rule Compose_parts [of lower chunks anchor opts]) (rule that; assumption)
  let ?max = "clampInt (coMaxTokens opts) 1 1000000 DefaultContextTokens"
  let ?w0 = "makeWindow anchor fb e0 fa hb ha"
  obtain n where n: "enforceSerializedBudget lower ?w0 ?max (coFocus opts) = Some n" "w = g n"
    using assms unfolding C map_option_eq_Some by blast
  have w: "wnBefore w = wnBefore n" "wnAfter w = wnAfter n" "wnAnchor w = wnAnchor n"
    using g [of n] n(2) by (auto simp: makeWindow_def)
  obtain m where m: "enforceLoop lower ?max ?w0 = Some m" using n(1) by (auto simp: enforceSerializedBudget_def)
  note nbs = neighbours_ok [OF nb]
  have same: "sameDocument chunks anchor anchor" by (simp add: sameDocument_def)
  have canon0: "list_all (canonical chunks anchor) fb \<and> list_all (canonical chunks anchor) fa" "canonical chunks anchor e0"
  proof -
    have "list_all (canonical chunks anchor \<circ> excerptOf) bs" "list_all (canonical chunks anchor \<circ> excerptOf) as"
      using nbs(3,4) canonical_excerptOf unfolding list_all_iff comp_def by blast+
    then show "list_all (canonical chunks anchor) fb \<and> list_all (canonical chunks anchor) fa"
      by (rule Q [OF canonical.excerpt_property_axioms])
    show "canonical chunks anchor e0"
      by (rule Q0 [OF canonical.excerpt_property_axioms canonical_excerptOf [OF same]])
  qed
  have e0: "exIndex e0 = ecIndex anchor"
  proof -
    have "excerpt_property (\<lambda>e. exIndex e = ecIndex anchor)" by unfold_locales simp_all
    from Q0 [OF this] show ?thesis by (simp add: excerptOf_def)
  qed
  have enf: "wnAnchor m' = wnAnchor ?w0" if "enforceLoop lower ?max ?w0 = Some m'" for m'
    using enforceLoop_indexes [OF that] by simp
  have "list_all (canonical chunks anchor) (wnBefore n) \<and> canonical chunks anchor (wnAnchor n) \<and> list_all (canonical chunks anchor) (wnAfter n)"
    by (rule canonical.enforce [OF _ _ _ n(1) enf]) (use canon0 in \<open>simp_all add: makeWindow_def\<close>)
  then show "list_all (canonical chunks anchor) (wnBefore w @ wnAnchor w # wnAfter w)" by (simp add: w)
  have cases_n: "n = m \<or> wnBefore n = [] \<and> wnAfter n = [] \<and> exIndex (wnAnchor n) = exIndex e0"
    using n(1) m by (auto simp: enforceSerializedBudget_def makeWindow_def split: if_splits)
  have "wnAnchor m = e0" "subseq (map exIndex (wnBefore m)) (map exIndex fb)" "subseq (map exIndex (wnAfter m)) (map exIndex fa)"
    using enforceLoop_indexes [OF m] by (simp_all add: makeWindow_def)
  then have idx: "subseq (map exIndex (wnBefore n)) (map ecIndex bs)" "subseq (map exIndex (wnAfter n)) (map ecIndex as)"
    "exIndex (wnAnchor n) = ecIndex anchor"
    using cases_n e0 subseq_order.order_trans [OF _ sub(1)] subseq_order.order_trans [OF _ sub(2)] by auto
  then show "exIndex (wnAnchor w) = ecIndex anchor" by (simp add: w)
  have "sorted_wrt (<) (map exIndex (wnBefore n))" "sorted_wrt (<) (map exIndex (wnAfter n))"
    using sorted_wrt_subseq [OF idx(1) nbs(1)] sorted_wrt_subseq [OF idx(2) nbs(2)] .
  moreover have "exIndex e < ecIndex anchor" if "e \<in> set (wnBefore n)" for e
    by (rule subseq_bound [OF idx(1) _ that]) (rule conjunct1 [OF nbs(3)])
  moreover have "ecIndex anchor < exIndex e" if "e \<in> set (wnAfter n)" for e
    by (rule subseq_bound [OF idx(2) _ that]) (rule conjunct1 [OF nbs(4)])
  ultimately show "increasing (wnBefore w @ wnAnchor w # wnAfter w)"
    unfolding w increasing_def map_append list.map sorted_wrt_append sorted_wrt.simps idx(3) by fastforce
qed

lemma Compose_bounded:
  "\<exists>w. Compose lower chunks anchor opts = Some w \<and> wnEstimatedTokens w = EstimateTokens (Serialize w)
     \<and> wnEstimatedTokens w \<le> clampInt (coMaxTokens opts) 1 1000000 DefaultContextTokens"
proof -
  let ?max = "clampInt (coMaxTokens opts) 1 1000000 DefaultContextTokens"
  have max: "1 \<le> ?max" by (simp add: clampInt_def DefaultContextTokens_def)
  obtain fb fa e0 hb ha g bs as where C: "Compose lower chunks anchor opts = map_option g (enforceSerializedBudget lower
        (makeWindow anchor fb e0 fa hb ha) ?max (coFocus opts))"
    and g: "\<And>w. \<exists>m n. g w = makeWindow anchor (wnBefore w) (wnAnchor w) (wnAfter w) m n"
    and nb: "neighbours chunks anchor opts = (bs, as)"
    and sub: "subseq (map exIndex fb) (map ecIndex bs)" "subseq (map exIndex fa) (map ecIndex as)"
    by (rule Compose_parts [of lower chunks anchor opts]) (rule that; assumption)
  let ?w0 = "makeWindow anchor fb e0 fa hb ha"
  have "exIndex e < ecIndex anchor" if "e \<in> set fb" for e
    by (rule subseq_bound [OF sub(1) _ that]) (rule conjunct1 [OF neighbours_ok(3) [OF nb]])
  moreover have "ecIndex anchor < exIndex e" if "e \<in> set fa" for e
    by (rule subseq_bound [OF sub(2) _ that]) (rule conjunct1 [OF neighbours_ok(4) [OF nb]])
  ultimately have "sidesOk (wnAnchorIndex ?w0) (wnBefore ?w0) (wnAfter ?w0)" by (simp add: sidesOk_def makeWindow_def)
  from enforceLoop_returns [OF this, of lower ?max] obtain m where m: "enforceLoop lower ?max ?w0 = Some m" by blast
  have tokens: "wnEstimatedTokens m = EstimateTokens (Serialize m)"
    using enforceLoop_tokens [OF m] makeWindowRaw_tokens unfolding makeWindow_def by blast
  obtain n where n: "enforceSerializedBudget lower ?w0 ?max (coFocus opts) = Some n" "EstimateTokens (Serialize n) \<le> ?max"
  proof (cases "wnEstimatedTokens m \<le> ?max")
    case True
    then show ?thesis using m tokens by (intro that [of m]) (simp_all add: enforceSerializedBudget_def)
  next
    case False
    let ?e = "fitExcerptBySerializedBudget lower e0 ?max CropFocus True (coFocus opts)"
    let ?n = "makeWindowRaw (ecID anchor) (ecIndex anchor) [] ?e [] (wnHasMoreBefore ?w0) (wnHasMoreAfter ?w0)"
    have "EstimateTokens (Serialize ?n) = exCost True ?e" using makeWindowRaw_tokens anchor_only_tokens by metis
    with fit_cost [OF max, of True lower e0 CropFocus "coFocus opts"] have "EstimateTokens (Serialize ?n) \<le> ?max" by simp
    then show ?thesis using m False by (intro that [of ?n]) (simp_all add: enforceSerializedBudget_def makeWindow_def)
  qed
  obtain h h' where w: "g n = makeWindow anchor (wnBefore n) (wnAnchor n) (wnAfter n) h h'" using g by blast
  have "wnEstimatedTokens (g n) = EstimateTokens (Serialize (g n))" "Serialize (g n) = Serialize n"
    using makeWindowRaw_tokens Serialize_parts unfolding w makeWindow_def by metis+
  then show ?thesis using C n by simp
qed

text \<open>
  C16: Composing evidence always returns a window, and the window's text, in the form the model
  reads, is estimated within the budget asked for (768 tokens when none is given).
\<close>

theorem evidence_within_budget:
  "\<exists>w. Compose lower chunks anchor opts = Some w \<and> wnEstimatedTokens w = EstimateTokens (Serialize w)
     \<and> wnEstimatedTokens w \<le> clampInt (coMaxTokens opts) 1 1000000 DefaultContextTokens"
  by (rule Compose_bounded)

text \<open>
  C17: A composed window quotes and never rewrites: every excerpt is the slice of a chunk of the
  anchor's own document that its offsets name, with flags that say truly whether text was cut, and
  the excerpts stand in document order around the anchor.
\<close>

theorem evidence_quotes_in_order:
  assumes "Compose lower chunks anchor opts = Some w"
  shows "list_all (canonical chunks anchor) (wnBefore w @ wnAnchor w # wnAfter w)
    \<and> increasing (wnBefore w @ wnAnchor w # wnAfter w) \<and> exIndex (wnAnchor w) = ecIndex anchor"
  using Compose_window [OF assms] by blast

definition demoChunk :: EvidenceChunk where
  "demoChunk = \<lparr>ecID = ''c'', ecDocID = ''d'', ecBaseID = ''b'', ecIndex = 4, ecText = ''Some text.'', ecHeading = []\<rparr>"

definition demoOptions :: ComposeOptions where
  "demoOptions = \<lparr>coBefore = None, coAfter = None, coMaxTokens = 2, coFocus = [], coCrossHeading = False,
     coDocumentChunkCount = 0, coHasMoreBefore = None, coHasMoreAfter = None\<rparr>"

lemma evidence_quotes_in_order_witness:
  "\<exists>w. Compose id [demoChunk\<lparr>ecIndex := 5\<rparr>, demoChunk\<lparr>ecIndex := 3\<rparr>] demoChunk demoOptions = Some w \<and> exIndex (wnAnchor w) = 4"
  using Compose_bounded [of id "[demoChunk\<lparr>ecIndex := 5\<rparr>, demoChunk\<lparr>ecIndex := 3\<rparr>]" demoChunk demoOptions]
    evidence_quotes_in_order [of id "[demoChunk\<lparr>ecIndex := 5\<rparr>, demoChunk\<lparr>ecIndex := 3\<rparr>]" demoChunk demoOptions]
  by (auto simp: demoChunk_def)

subsection \<open>Sentence boundaries\<close>

text \<open>The boundary search looks at single bytes, so a character outside ASCII is never one.\<close>

definition asciiBoundary :: "char \<Rightarrow> bool" where
  "asciiBoundary c \<longleftrightarrow> c \<in> {CHR 0x0A, CHR 0x0D, CHR ''.'', CHR ''!'', CHR ''?'', CHR '';''}"

lemma byteRune_boundary: "sentenceBoundary (byteRune s i) \<longleftrightarrow> asciiBoundary (s ! nat i)"
proof -
  have "decodeRune [c] = (if byteOf c < 128 then (byteOf c, 1) else (65533, 1))" for c
    by (simp add: decodeRune_def)
  moreover have "byteOf c \<in> {0x0A, 0x0D, 0x2E, 0x21, 0x3F, 0x3B} \<longleftrightarrow> asciiBoundary c" for c
  proof -
    have inj: "byteOf c = byteOf d \<longleftrightarrow> c = d" for d by (simp add: byteOf_def)
    have vals: "byteOf CHR 0x0A = 0x0A" "byteOf CHR 0x0D = 0x0D" "byteOf CHR ''.'' = 0x2E" "byteOf CHR ''!'' = 0x21"
      "byteOf CHR ''?'' = 0x3F" "byteOf CHR '';'' = 0x3B" by (simp_all add: byteOf_def)
    show ?thesis using inj [of "CHR 0x0A"] inj [of "CHR 0x0D"] inj [of "CHR ''.''"] inj [of "CHR ''!''"]
        inj [of "CHR ''?''"] inj [of "CHR '';''"]
      unfolding vals asciiBoundary_def insert_iff by simp
  qed
  moreover from this have "byteOf c < 128" if "asciiBoundary c" for c
  proof -
    from that \<open>\<And>c. byteOf c \<in> {0x0A, 0x0D, 0x2E, 0x21, 0x3F, 0x3B} \<longleftrightarrow> asciiBoundary c\<close> [of c]
    have "byteOf c \<in> {0x0A, 0x0D, 0x2E, 0x21, 0x3F, 0x3B}" by blast
    then show ?thesis by auto
  qed
  ultimately show ?thesis by (auto simp: byteRune_def sentenceBoundary_def)
qed

lemma scans_ascii:
  "(\<forall>i. ceil' \<le> i \<or> i < index \<or> \<not> asciiBoundary (s ! nat i)) \<Longrightarrow> scanForward s ceil' index = None"
  "(\<forall>i. i < lowest \<or> index < i \<or> \<not> asciiBoundary (s ! nat i)) \<Longrightarrow> scanBack s lowest index = None"
proof -
  show "(\<forall>i. ceil' \<le> i \<or> i < index \<or> \<not> asciiBoundary (s ! nat i)) \<Longrightarrow> scanForward s ceil' index = None"
  proof (induction s ceil' index rule: scanForward.induct)
    case (1 s ceil' index)
    show ?case
    proof (cases "ceil' \<le> index")
      case False
      with "1.prems" have not: "\<not> sentenceBoundary (byteRune s index)" by (auto simp: byteRune_boundary)
      have "scanForward s ceil' (index + 1) = None" using "1.prems" by (intro "1.IH" [OF False not]) auto
      with not show ?thesis by (subst scanForward.simps) simp
    qed (simp add: scanForward.simps [of s ceil' index])
  qed
  show "(\<forall>i. i < lowest \<or> index < i \<or> \<not> asciiBoundary (s ! nat i)) \<Longrightarrow> scanBack s lowest index = None"
  proof (induction s lowest index rule: scanBack.induct)
    case (1 s lowest index)
    show ?case
    proof (cases "index < lowest")
      case False
      with "1.prems" have not: "\<not> sentenceBoundary (byteRune s index)" by (auto simp: byteRune_boundary)
      have "scanBack s lowest (index - 1) = None" using "1.prems" by (intro "1.IH" [OF False not]) auto
      with not show ?thesis by (subst scanBack.simps) simp
    qed (simp add: scanBack.simps [of s lowest index])
  qed
qed

text \<open>
  Cropping does not find the sentence ends of Chinese or Japanese text: in a text without ASCII
  punctuation or line breaks, whatever full stops it has, both searches return the offset they were
  given, so a crop ends in the middle of a sentence and can split a character.
\<close>

theorem cjk_sentences_not_found:
  assumes "list_all (\<lambda>c. \<not> asciiBoundary c) s" "0 \<le> target" "target \<le> int (length s)"
  shows "sentenceEnd s target = target \<and> sentenceStart s target = target"
proof -
  have none: "\<not> asciiBoundary (s ! nat i)" if "0 \<le> i" "i < int (length s)" for i
    using assms(1) that by (simp add: list_all_length)
  have "scanForward s (minInt (int (length s)) (target + boundarySearchRadius)) (maxInt 0 target) = None"
    by (rule scans_ascii(1)) (use none assms(2) in \<open>auto simp: not_less\<close>)
  moreover have "scanBack s (maxInt 0 (target - boundarySearchRadius)) (minInt (target - 1) (int (length s) - 1)) = None"
    by (rule scans_ascii(2)) (use none in \<open>auto simp: not_less\<close>)
  ultimately show ?thesis by (simp add: sentenceEnd_def sentenceStart_def)
qed

text \<open>A full stop U+3002 two bytes after the target is not found.\<close>

lemma cjk_sentences_not_found_witness:
  "sentenceEnd [CHR 0xE7, CHR 0x9A, CHR 0x84, CHR 0xE3, CHR 0x80, CHR 0x82] 1 = 1"
  using cjk_sentences_not_found [of "[CHR 0xE7, CHR 0x9A, CHR 0x84, CHR 0xE3, CHR 0x80, CHR 0x82]" 1]
  by (simp add: asciiBoundary_def)

end
