(* ===== verification/GoNumber.thy ===== *)
theory GoNumber
  imports GoText
begin

text \<open>
  \<open>strconv.ParseInt(s, 10, 64)\<close>, the inverse of \<open>formatInt\<close> on \<open>int64\<close>. The callers only ask
  whether parsing failed, so a syntax error and a value out of range are both None. Integer
  division truncates toward zero.
\<close>

definition goQuot :: "int \<Rightarrow> int \<Rightarrow> int" where
  "goQuot a b = (if (a < 0) = (b < 0) then \<bar>a\<bar> div \<bar>b\<bar> else - (\<bar>a\<bar> div \<bar>b\<bar>))"

lemma goQuot_nonneg [simp]: "0 \<le> a \<Longrightarrow> 0 \<le> b \<Longrightarrow> goQuot a b = a div b"
  by (simp add: goQuot_def)

definition digitValue :: "char \<Rightarrow> nat option" where
  "digitValue c = (if 48 \<le> (of_char c :: nat) \<and> of_char c \<le> (57 :: nat) then Some (of_char c - 48) else None)"

fun parseDigits :: "nat \<Rightarrow> string \<Rightarrow> nat option" where
  "parseDigits acc [] = Some acc"
| "parseDigits acc (c # s) = (case digitValue c of None \<Rightarrow> None | Some d \<Rightarrow> parseDigits (acc * 10 + d) s)"

definition parseInt :: "string \<Rightarrow> int option" where
  "parseInt s = (let neg = hasPrefix s ''-''; body = (if neg \<or> hasPrefix s ''+'' then drop 1 s else s) in
     if body = [] then None
     else (case parseDigits 0 body of None \<Rightarrow> None
       | Some n \<Rightarrow> (let v = (if neg then - int n else int n) in
           if int64_min \<le> v \<and> v \<le> int64_max then Some v else None)))"

lemma digitValue_digitChar [simp]: "n < 10 \<Longrightarrow> digitValue (digitChar n) = Some n"
  by (simp add: digitValue_def digitChar_def)

lemma parseDigits_append: "parseDigits a (s @ t) = (case parseDigits a s of None \<Rightarrow> None | Some b \<Rightarrow> parseDigits b t)"
  by (induction s arbitrary: a) (auto split: option.splits)

lemma parseDigits_natDigits [simp]: "parseDigits 0 (natDigits n) = Some n"
proof (induction n rule: natDigits.induct)
  case (1 n)
  show ?case
  proof (cases "n < 10")
    case True
    then show ?thesis by (simp add: natDigits.simps [of n])
  next
    case False
    with 1 show ?thesis by (simp add: natDigits.simps [of n] parseDigits_append div_mult_mod_eq)
  qed
qed

lemma natDigits_digits: "\<exists>d s. natDigits n = digitChar d # s \<and> d < 10"
proof (induction n rule: natDigits.induct)
  case (1 n)
  then show ?case by (cases "n < 10") (auto simp: natDigits.simps [of n])
qed

lemma natDigits_all_digits: "c \<in> set (natDigits n) \<Longrightarrow> \<exists>d < 10. c = digitChar d"
proof (induction n rule: natDigits.induct)
  case (1 n)
  have m: "n mod 10 < 10" by simp
  show ?case
  proof (cases "n < 10")
    case True
    with 1 show ?thesis by (auto simp: natDigits.simps [of n])
  next
    case False
    with 1(2) have "c \<in> set (natDigits (n div 10)) \<or> c = digitChar (n mod 10)"
      by (auto simp: natDigits.simps [of n])
    with m "1.IH" [OF False] show ?thesis by blast
  qed
qed

lemma digitChar_no_sign: "d < 10 \<Longrightarrow> digitChar d \<noteq> CHR ''-'' \<and> digitChar d \<noteq> CHR ''+''"
proof -
  assume "d < 10"
  then have v: "digitValue (digitChar d) \<noteq> None" by simp
  have "digitValue CHR ''-'' = None" "digitValue CHR ''+'' = None" by (simp_all add: digitValue_def)
  with v show ?thesis by metis
qed

lemma natDigits_unsigned:
  "\<not> hasPrefix (natDigits n) ''-''" "\<not> hasPrefix (natDigits n) ''+''" "natDigits n \<noteq> []"
  using natDigits_digits [of n] digitChar_no_sign by (auto simp: hasPrefix_def)

lemma parseInt_formatInt [simp]:
  assumes "int64_min \<le> n" "n \<le> int64_max"
  shows "parseInt (formatInt n) = Some n"
proof (cases "n < 0")
  case True
  then show ?thesis using assms by (simp add: parseInt_def formatInt_def hasPrefix_def natDigits_unsigned)
next
  case False
  then show ?thesis using assms by (simp add: parseInt_def formatInt_def natDigits_unsigned)
qed

lemma parseInt_range: "parseInt s = Some n \<Longrightarrow> int64_min \<le> n \<and> n \<le> int64_max"
  by (auto simp: parseInt_def Let_def split: option.splits if_splits)

end
