(* ===== verification/PdfSyntax.thy ===== *)
theory PdfSyntax
  imports GoNumber
begin

text \<open>
  The scanner that reads the dictionary of an image object directly from the bytes of a PDF
  (\<open>internal/parser/pdf_dictionary.go\<close>): closing delimiters and literal strings, the value of a
  key, arrays and numbers. Slices of the document are HOL strings; an index that Go would refuse
  at run time is the error \<open>SlicePanic\<close>.
\<close>

datatype PdfError =
    StreamOffset | HeaderNotFound | NoDictionary | NotClosed
  | InvalidFilter | UnsupportedFilter string | NoTerminal string | MultipleTerminals
  | StreamTooLarge | FlateFailed
  | UnsupportedPredictor int | TIFFBits | TIFFColors int | TIFFRowTruncated
  | PNGGeometry | PNGRowTooLarge | PNGRowTruncated | PNGUnknown nat
  | HexOdd | HexDigit | HexNoEnd
  | A85EndMarker | A85Character | A85Group | A85NoEnd
  | LZWTruncated | LZWCode nat | RunLengthTruncated
  | SlicePanic

text \<open>\<open>pdfLiteralStringLength\<close>: the length of a literal string that starts the data.\<close>

fun literalScan :: "nat \<Rightarrow> nat \<Rightarrow> string \<Rightarrow> nat option" where
  "literalScan depth index [] = None"
| "literalScan depth index (c # s) =
     (if c = CHR 0x5C then (case s of [] \<Rightarrow> None | _ # s' \<Rightarrow> literalScan depth (index + 2) s')
      else if c = CHR ''('' then literalScan (depth + 1) (index + 1) s
      else if c = CHR '')'' then (if depth = 1 then Some (index + 1) else literalScan (depth - 1) (index + 1) s)
      else literalScan depth (index + 1) s)"

definition pdfLiteralStringLength :: "string \<Rightarrow> nat" where
  "pdfLiteralStringLength data = (case literalScan 1 1 (drop 1 data) of Some n \<Rightarrow> n | None \<Rightarrow> length data)"

lemma literalScan_bounds: "literalScan d i s = Some n \<Longrightarrow> i < n \<and> n \<le> i + length s"
  by (induction d i s rule: literalScan.induct) (auto split: if_splits list.splits)

lemma pdfLiteralStringLength_bounds:
  "data \<noteq> [] \<Longrightarrow> 1 \<le> pdfLiteralStringLength data \<and> pdfLiteralStringLength data \<le> length data"
  using literalScan_bounds [of 1 1 "drop 1 data"]
  by (cases data) (auto simp: pdfLiteralStringLength_def split: option.splits)

text \<open>
  The loop of \<open>pdfClosingDelimiter\<close>, from an index and a depth. Both callers' delimiters are
  not empty.
\<close>

function closingFrom :: "string \<Rightarrow> string \<Rightarrow> string \<Rightarrow> nat \<Rightarrow> int \<Rightarrow> nat option" where
  "closingFrom data open close index depth = (if length data \<le> index then None else
     let here = drop index data in
     if data ! index = CHR ''('' then closingFrom data open close (index + pdfLiteralStringLength here) depth
     else if hasPrefix here open then closingFrom data open close (index + 1 + (length open - 1)) (depth + 1)
     else if hasPrefix here close then
       (if depth - 1 = 0 then Some index else closingFrom data open close (index + 1 + (length close - 1)) (depth - 1))
     else closingFrom data open close (index + 1) depth)"
  by pat_completeness auto
termination
proof (relation "measure (\<lambda>(data, open, close, index, depth). length data - index)", goal_cases)
  case (2 data _ _ index)
  then show ?case using pdfLiteralStringLength_bounds [of "drop index data"] by auto
qed auto

declare closingFrom.simps [simp del]

definition pdfClosingDelimiter :: "string \<Rightarrow> string \<Rightarrow> string \<Rightarrow> nat option" where
  "pdfClosingDelimiter data open close = closingFrom data open close 0 0"

lemma closingFrom_bound: "closingFrom data open close i d = Some n \<Longrightarrow> i \<le> n \<and> n + length close \<le> length data"
proof (induction data "open" close i d rule: closingFrom.induct)
  case (1 data "open" close index depth)
  show ?case
    using 1 by (subst (asm) (5) closingFrom.simps)
      (fastforce simp: Let_def split: if_splits dest: hasPrefix_length)
qed

definition pdfIsDelimiter :: "char \<Rightarrow> bool" where
  "pdfIsDelimiter c \<longleftrightarrow> c \<in> {CHR 0x00, CHR '' '', CHR 0x09, CHR 0x0A, CHR 0x0D, CHR 0x0C, CHR ''<'', CHR ''>'',
     CHR ''('', CHR '')'', CHR ''['', CHR '']'', CHR ''{'', CHR ''}'', CHR ''/'', CHR ''%''}"

definition pdfSpace :: "char \<Rightarrow> bool" where
  "pdfSpace c \<longleftrightarrow> c \<in> {CHR 0x00, CHR 0x09, CHR 0x0A, CHR 0x0C, CHR 0x0D, CHR '' ''}"

definition pdfTrimSpace :: "string \<Rightarrow> string" where
  "pdfTrimSpace data = dropWhile pdfSpace data"

text \<open>The bytes up to the next delimiter: a name's or a bare token's end.\<close>

definition regularRun :: "string \<Rightarrow> string" where
  "regularRun s = takeWhile (\<lambda>c. \<not> pdfIsDelimiter c) s"

definition pdfNextValue :: "string \<Rightarrow> string option" where
  "pdfNextValue raw = (case pdfTrimSpace raw of [] \<Rightarrow> None
     | c # s \<Rightarrow> let data = c # s in
       if c = CHR ''<'' \<and> hasPrefix s ''<'' then
         map_option (\<lambda>e. take (e + 2) data) (pdfClosingDelimiter data ''<<'' ''>>'')
       else if c = CHR ''['' then
         map_option (\<lambda>e. take (e + 1) data) (pdfClosingDelimiter data ''['' '']'')
       else if c = CHR ''('' then Some (take (pdfLiteralStringLength data) data)
       else if c = CHR ''<'' then map_option (\<lambda>e. take (e + 1) data) (indexOf data ''>'')
       else if c = CHR ''/'' then Some (c # regularRun s)
       else if regularRun data = [] then None
       else Some (regularRun data))"

lemma pdfNextValue_prefix:
  assumes "pdfNextValue raw = Some v"
  shows "v \<noteq> [] \<and> (\<exists>t. pdfTrimSpace raw = v @ t)"
proof -
  obtain c s where data: "pdfTrimSpace raw = c # s"
    using assms by (cases "pdfTrimSpace raw") (auto simp: pdfNextValue_def)
  have run: "\<exists>t. x = regularRun x @ t" for x
    using takeWhile_dropWhile_id [of "\<lambda>c. \<not> pdfIsDelimiter c" x] unfolding regularRun_def by metis
  have tk: "\<exists>t. x = take n x @ t" for n and x :: string by (metis append_take_drop_id)
  have lit: "take (pdfLiteralStringLength (c # s)) (c # s) \<noteq> []"
    using pdfLiteralStringLength_bounds [of "c # s"] by auto
  have "v \<noteq> [] \<and> (\<exists>t. c # s = v @ t)"
    using assms run [of s] run [of "c # s"] tk lit unfolding pdfNextValue_def data
    by (auto simp: Let_def split: if_splits)
  then show ?thesis using data by simp
qed

text \<open>\<open>pdfArrayValues\<close>: None is Go's nil slice.\<close>

function arrayItems :: "string \<Rightarrow> string list option" where
  "arrayItems data = (if data = [] then Some [] else
     (case pdfNextValue data of None \<Rightarrow> None
      | Some v \<Rightarrow> map_option ((#) v) (arrayItems (pdfTrimSpace (drop (length v) data)))))"
  by pat_completeness auto
termination
proof (relation "measure length", goal_cases)
  case (2 data v)
  have "length (pdfTrimSpace (drop (length v) data)) \<le> length data - length v"
    unfolding pdfTrimSpace_def using length_dropWhile_le [of pdfSpace "drop (length v) data"] by simp
  moreover have "length data - length v < length data"
    using 2 pdfNextValue_prefix [of data v] by (intro diff_less) auto
  ultimately show ?case by simp
qed simp

declare arrayItems.simps [simp del]

definition pdfArrayValues :: "string \<Rightarrow> string list option" where
  "pdfArrayValues raw = (if length raw < 2 \<or> hd raw \<noteq> CHR ''['' \<or> last raw \<noteq> CHR '']'' then None
     else arrayItems (pdfTrimSpace (butlast (tl raw))))"

text \<open>The value of a key: the first delimited occurrence of \<open>/key\<close> that a value follows.\<close>

definition byteAt :: "string \<Rightarrow> nat \<Rightarrow> char" where
  "byteAt s i = (if i < length s then s ! i else CHR 0x00)"

function valueFrom :: "string \<Rightarrow> string \<Rightarrow> nat \<Rightarrow> string option" where
  "valueFrom dict search index = (if length dict < index + length search then None else
     (case indexOf (drop index dict) search of None \<Rightarrow> None
      | Some k \<Rightarrow> let found = k + index; after = found + length search in
        if (found = 0 \<or> pdfIsDelimiter (byteAt dict (found - 1))) \<and> pdfIsDelimiter (byteAt dict after)
             \<and> pdfNextValue (drop after dict) \<noteq> None
        then pdfNextValue (drop after dict)
        else valueFrom dict search (found + 1)))"
  by pat_completeness auto
termination
proof (relation "measure (\<lambda>(dict, search, index). length dict + 1 - index)", goal_cases)
  case (2 dict search index k)
  then have "k + length search \<le> length dict - index" using indexOf_Some [OF 2(2)] by simp
  with 2(1) show ?case using 2(3) by auto
qed simp

declare valueFrom.simps [simp del]

definition pdfDictionaryValue :: "string \<Rightarrow> string \<Rightarrow> string option" where
  "pdfDictionaryValue dict key = valueFrom dict (''/'' @ key) 0"

definition pdfRawNumber :: "string \<Rightarrow> int \<Rightarrow> int" where
  "pdfRawNumber raw fallback = (case parseInt (trimSpace raw) of Some n \<Rightarrow> n | None \<Rightarrow> fallback)"

definition pdfDictionaryNumber :: "string \<Rightarrow> string \<Rightarrow> int \<Rightarrow> int" where
  "pdfDictionaryNumber dict key fallback = (case pdfDictionaryValue dict key of None \<Rightarrow> fallback
     | Some raw \<Rightarrow> (case parseInt (trimSpace raw) of Some n \<Rightarrow> n | None \<Rightarrow> fallback))"

text \<open>
  \<open>pdfStreamOffset\<close> reads the number after the last \<open>@\<close> of the library's description of the
  object; \<open>pdfImageDictionary\<close> then looks for the object header in the megabyte before it. The
  document is a slice whose capacity is its length.
\<close>

definition pdfStreamOffset :: "string \<Rightarrow> PdfError + nat" where
  "pdfStreamOffset description = (case lastIndexOf description ''@'' of None \<Rightarrow> Inl StreamOffset
     | Some m \<Rightarrow> if m = length description - 1 then Inl StreamOffset
       else (case parseInt (drop (m + 1) description) of None \<Rightarrow> Inl StreamOffset
         | Some n \<Rightarrow> if n < 0 then Inl StreamOffset else Inr (nat n)))"

definition pdfImageDictionary :: "string \<Rightarrow> string \<Rightarrow> PdfError + string" where
  "pdfImageDictionary document description = bindr (pdfStreamOffset description) (\<lambda>offset.
     if length document < offset then Inl SlicePanic
     else let window = drop (offset - 1048576) (take offset document) in
       (case lastIndexOf window '' 0 obj'' of None \<Rightarrow> Inl HeaderNotFound
        | Some marker \<Rightarrow> (case indexOf (drop marker window) ''<<'' of None \<Rightarrow> Inl NoDictionary
          | Some h \<Rightarrow> let start = h + marker in
            (case pdfClosingDelimiter (drop start window) ''<<'' ''>>'' of None \<Rightarrow> Inl NotClosed
             | Some e \<Rightarrow> Inr (take (e + 2) (drop start window))))))"

end
