(* ===== verification/PdfFilters.thy ===== *)
theory PdfFilters
  imports PdfSyntax
begin

text \<open>
  The decoders of image streams (\<open>internal/parser/pdf_filters.go\<close>): RunLength, ASCIIHex, ASCII85,
  LZW, the TIFF and PNG predictors and the chain of filters an image names. A byte is an
  \<open>8 word\<close>, so \<open>+\<close> wraps as the code's does.
\<close>

type_synonym byte = "8 word"
type_synonym bytes = "byte list"

definition maxPDFImageStreamBytes :: nat where
  "maxPDFImageStreamBytes = 64 * 1048576"

definition boundedDecoded :: "PdfError + bytes \<Rightarrow> PdfError + bytes" where
  "boundedDecoded r = bindr r (\<lambda>v. if maxPDFImageStreamBytes < length v then Inl StreamTooLarge else Inr v)"

lemma boundedDecoded_Inr: "boundedDecoded r = Inr v \<Longrightarrow> r = Inr v \<and> length v \<le> maxPDFImageStreamBytes"
  by (auto simp: boundedDecoded_def bindr_Inr split: if_splits)

subsection \<open>Filter names\<close>

definition canonicalPDFFilter :: "string \<Rightarrow> string" where
  "canonicalPDFFilter name =
    (if name = ''DCT'' then ''DCTDecode''
     else if name = ''CCF'' \<or> name = ''CCITT'' then ''CCITTFaxDecode''
     else if name = ''JBIG2'' \<or> name = ''JBIG2Decode'' then ''JBIG2Decode''
     else if name = ''JP2'' \<or> name = ''JPX'' \<or> name = ''JPXDecode'' then ''JPXDecode''
     else name)"

definition terminalFilters :: "string list" where
  "terminalFilters = [''DCTDecode'', ''CCITTFaxDecode'', ''JBIG2Decode'', ''JPXDecode'']"

fun terminalFrom :: "string \<Rightarrow> string list \<Rightarrow> PdfError + string" where
  "terminalFrom t [] = Inr t"
| "terminalFrom t (f # fs) = (let canonical = canonicalPDFFilter f in
     if canonical \<in> set terminalFilters then
       (if t \<noteq> [] then Inl MultipleTerminals else terminalFrom canonical fs)
     else terminalFrom t fs)"

definition pdfTerminalImageFilter :: "string list \<Rightarrow> PdfError + string" where
  "pdfTerminalImageFilter filters = terminalFrom [] filters"

text \<open>What the PDF library returns for a key: the kinds \<open>pdfFilterNames\<close> tells apart.\<close>

datatype PdfValue = PdfNull | PdfName string | PdfArray "string list" | PdfOther

fun pdfFilterNames :: "PdfValue \<Rightarrow> PdfError + string list" where
  "pdfFilterNames PdfNull = Inr []"
| "pdfFilterNames (PdfName n) = Inr [n]"
| "pdfFilterNames (PdfArray ns) = Inr ns"
| "pdfFilterNames PdfOther = Inl InvalidFilter"

subsection \<open>Decode parameters\<close>

record DecodeParameters =
  dpPredictor :: int
  dpColumns :: int
  dpColors :: int
  dpBits :: int
  dpEarly :: int

definition defaultParameters :: DecodeParameters where
  "defaultParameters = \<lparr>dpPredictor = 1, dpColumns = 1, dpColors = 1, dpBits = 8, dpEarly = 1\<rparr>"

definition readParameters :: "string \<Rightarrow> DecodeParameters" where
  "readParameters raw = (if \<not> hasPrefix raw ''<<'' then defaultParameters
     else \<lparr>dpPredictor = pdfDictionaryNumber raw ''Predictor'' 1, dpColumns = pdfDictionaryNumber raw ''Columns'' 1,
       dpColors = pdfDictionaryNumber raw ''Colors'' 1, dpBits = pdfDictionaryNumber raw ''BitsPerComponent'' 8,
       dpEarly = pdfDictionaryNumber raw ''EarlyChange'' 1\<rparr>)"

definition pdfDecodeParametersAt :: "string \<Rightarrow> nat \<Rightarrow> DecodeParameters" where
  "pdfDecodeParametersAt dictionary index = (case pdfDictionaryValue dictionary ''DecodeParms'' of
       None \<Rightarrow> defaultParameters
     | Some raw \<Rightarrow> (case pdfArrayValues raw of
         Some values \<Rightarrow> if length values \<le> index then defaultParameters else readParameters (values ! index)
       | None \<Rightarrow> readParameters raw))"

definition max64 :: "int \<Rightarrow> int \<Rightarrow> int" where
  "max64 l r = (if l > r then l else r)"

definition predictorParameters :: "DecodeParameters \<Rightarrow> int \<times> int \<times> int" where
  "predictorParameters p = (max64 1 (dpColumns p), max64 1 (dpColors p), max64 1 (dpBits p))"

subsection \<open>Predictors\<close>

text \<open>One row of the TIFF predictor, in place: each sample adds the one \<open>colors\<close> before it.\<close>

definition tiffRow :: "nat \<Rightarrow> nat \<Rightarrow> nat \<Rightarrow> bytes \<Rightarrow> bytes" where
  "tiffRow colors samples rowOffset out =
     foldl (\<lambda>o' s. o'[rowOffset + s := o' ! (rowOffset + s) + o' ! (rowOffset + s - colors)]) out [colors ..< samples]"

definition decodeTIFFPredictor :: "bytes \<Rightarrow> DecodeParameters \<Rightarrow> PdfError + bytes" where
  "decodeTIFFPredictor data p = (case predictorParameters p of (columns, colors, bits) \<Rightarrow>
     if bits \<noteq> 8 then Inl TIFFBits
     else if 32 < colors then Inl (TIFFColors colors)
     else let rowBytes = wrap64 (wrap64 (columns * colors) * goQuot bits 8) in
       if rowBytes = 0 \<or> \<not> rowBytes dvd int (length data) then Inl TIFFRowTruncated
       else Inr (foldl (\<lambda>out row. tiffRow (nat colors) (nat (wrap64 (columns * colors))) (row * nat rowBytes) out)
              data [0 ..< nat (goQuot (int (length data)) rowBytes)]))"

definition abs32 :: "int \<Rightarrow> int" where
  "abs32 v = (if v < 0 then - v else v)"

definition pngPaeth :: "int \<Rightarrow> int \<Rightarrow> int \<Rightarrow> int" where
  "pngPaeth left up upperLeft = (let v = left + up - upperLeft;
       leftDistance = abs32 (v - left); upDistance = abs32 (v - up); cornerDistance = abs32 (v - upperLeft) in
     if leftDistance \<le> upDistance \<and> leftDistance \<le> cornerDistance then left
     else if upDistance \<le> cornerDistance then up
     else upperLeft)"

text \<open>The byte at an index, or the run-time panic of an index out of range.\<close>

definition byteIndex :: "bytes \<Rightarrow> int \<Rightarrow> PdfError + byte" where
  "byteIndex xs i = (if 0 \<le> i \<and> i < int (length xs) then Inr (xs ! nat i) else Inl SlicePanic)"

definition pngUnfilter :: "nat \<Rightarrow> int \<Rightarrow> int \<Rightarrow> int \<Rightarrow> byte \<Rightarrow> PdfError + byte" where
  "pngUnfilter tag left up upperLeft x =
    (if tag = 0 then Inr x
     else if tag = 1 then Inr (x + word_of_int left)
     else if tag = 2 then Inr (x + word_of_int up)
     else if tag = 3 then Inr (x + word_of_int ((left + up) div 2))
     else if tag = 4 then Inr (x + word_of_int (pngPaeth left up upperLeft))
     else Inl (PNGUnknown tag))"

text \<open>The neighbours of a byte: left, above and above left, 0 where there is none.\<close>

definition pngNeighbours :: "int \<Rightarrow> bytes option \<Rightarrow> bytes \<Rightarrow> nat \<Rightarrow> PdfError + int \<times> int \<times> int" where
  "pngNeighbours bpp previous row i =
     bindr (if bpp \<le> int i then map_sum id uint (byteIndex row (wrap64 (int i - bpp))) else Inr 0) (\<lambda>left.
     bindr (case previous of None \<Rightarrow> Inr 0 | Some pr \<Rightarrow> map_sum id uint (byteIndex pr (int i))) (\<lambda>up.
     bindr (case previous of None \<Rightarrow> Inr 0
            | Some pr \<Rightarrow> if bpp \<le> int i then map_sum id uint (byteIndex pr (wrap64 (int i - bpp))) else Inr 0) (\<lambda>upperLeft.
     Inr (left, up, upperLeft))))"

function pngRowFrom :: "nat \<Rightarrow> int \<Rightarrow> bytes option \<Rightarrow> bytes \<Rightarrow> nat \<Rightarrow> PdfError + bytes" where
  "pngRowFrom tag bpp previous row i = (if length row \<le> i then Inr row else
     bindr (pngNeighbours bpp previous row i) (\<lambda>(left, up, upperLeft).
     bindr (pngUnfilter tag left up upperLeft (row ! i)) (\<lambda>x.
     pngRowFrom tag bpp previous (row[i := x]) (i + 1))))"
  by pat_completeness auto
termination
  by (relation "measure (\<lambda>(tag, bpp, previous, row, i). length row - i)") auto

declare pngRowFrom.simps [simp del]

lemma pngRowFrom_length: "pngRowFrom tag bpp previous row i = Inr r \<Longrightarrow> length r = length row"
proof (induction tag bpp previous row i rule: pngRowFrom.induct)
  case (1 tag bpp previous row i)
  then show ?case
    by (subst (asm) (2) pngRowFrom.simps) (fastforce simp: bindr_Inr split: if_splits)
qed

text \<open>
  The rows from an offset: a tag byte, then \<open>rowBytes\<close> bytes. Slicing panics when the end has
  wrapped below the start.
\<close>

function pngRows :: "int \<Rightarrow> int \<Rightarrow> bytes \<Rightarrow> bytes \<Rightarrow> bytes option \<Rightarrow> nat \<Rightarrow> PdfError + bytes" where
  "pngRows bpp rowBytes data out previous offset = (if length data \<le> offset then boundedDecoded (Inr out) else
     let start = offset + 1; stop = wrap64 (int start + rowBytes) in
     if int (length data) < stop then Inl PNGRowTruncated
     else if stop < int start then Inl SlicePanic
     else bindr (pngRowFrom (unat (data ! offset)) bpp previous (take (nat stop - start) (drop start data)) 0) (\<lambda>row.
       pngRows bpp rowBytes data (out @ row) (Some row) (nat stop)))"
  by pat_completeness auto
termination
  by (relation "measure (\<lambda>(bpp, rowBytes, data, out, previous, offset). length data - offset)") auto

declare pngRows.simps [simp del]

definition decodePNGPredictor :: "bytes \<Rightarrow> DecodeParameters \<Rightarrow> PdfError + bytes" where
  "decodePNGPredictor data p = (case predictorParameters p of (columns, colors, bits) \<Rightarrow>
     let bytesPerPixel = goQuot (wrap64 (wrap64 (colors * bits) + 7)) 8;
         bytesPerComponent = goQuot (wrap64 (bits + 7)) 8;
         rowBytes = wrap64 (wrap64 (columns * colors) * bytesPerComponent) in
     if bytesPerPixel = 0 \<or> rowBytes = 0 then Inl PNGGeometry
     else if int maxPDFImageStreamBytes < columns then Inl PNGRowTooLarge
     else pngRows bytesPerPixel rowBytes data [] None 0)"

definition decodePredictor :: "bytes \<Rightarrow> DecodeParameters \<Rightarrow> PdfError + bytes" where
  "decodePredictor data p =
    (if dpPredictor p = 0 \<or> dpPredictor p = 1 then Inr data
     else if dpPredictor p = 2 then decodeTIFFPredictor data p
     else if 10 \<le> dpPredictor p \<and> dpPredictor p \<le> 15 then decodePNGPredictor data p
     else Inl (UnsupportedPredictor (dpPredictor p)))"

end
