(* ===== verification/PdfCodecs.thy ===== *)
theory PdfCodecs
  imports PdfFilters
begin

text \<open>
  The stream codecs of \<open>pdf_filters.go\<close> (ASCIIHex, ASCII85, LZW, RunLength) and the chain of
  filters that \<open>decodePDFImageFilters\<close> applies. Characters are written as their byte values.
\<close>

unbundle bit_operations_syntax

definition pdfSpaceByte :: "byte \<Rightarrow> bool" where
  "pdfSpaceByte v \<longleftrightarrow> v = 0x20 \<or> v = 0x09 \<or> v = 0x0A \<or> v = 0x0D \<or> v = 0x0C \<or> v = 0"

subsection \<open>ASCIIHex\<close>

definition hexValue :: "byte \<Rightarrow> byte option" where
  "hexValue v = (if 0x30 \<le> v \<and> v \<le> 0x39 then Some (v - 0x30)
     else if 0x41 \<le> v \<and> v \<le> 0x46 then Some (v - 0x37)
     else if 0x61 \<le> v \<and> v \<le> 0x66 then Some (v - 0x57)
     else None)"

fun hexLoop :: "bytes \<Rightarrow> byte \<Rightarrow> nat \<Rightarrow> bytes \<Rightarrow> PdfError + bytes" where
  "hexLoop out current count [] = Inl HexNoEnd"
| "hexLoop out current count (v # vs) =
     (if v = 0x3E then (if count mod 2 \<noteq> 0 then Inl HexOdd else boundedDecoded (Inr out))
      else (case hexValue v of
          Some d \<Rightarrow> if count mod 2 = 0 then hexLoop out (push_bit 4 d) (count + 1) vs
                    else hexLoop (out @ [current OR d]) current (count + 1) vs
        | None \<Rightarrow> if pdfSpaceByte v then hexLoop out current count vs else Inl HexDigit))"

definition decodeASCIIHex :: "bytes \<Rightarrow> PdfError + bytes" where
  "decodeASCIIHex data = hexLoop [] 0 0 data"

subsection \<open>ASCII85\<close>

definition a85Tuple :: "bytes \<Rightarrow> 32 word" where
  "a85Tuple grp = foldl (\<lambda>t i. t * 85 + ucast (if i < length grp then grp ! i else 84)) 0 [0 ..< 5]"

definition tupleBytes :: "32 word \<Rightarrow> bytes" where
  "tupleBytes t = [ucast (drop_bit 24 t), ucast (drop_bit 16 t), ucast (drop_bit 8 t), ucast t]"

definition flushASCII85Group :: "bytes \<Rightarrow> bytes \<Rightarrow> PdfError + bytes" where
  "flushASCII85Group out grp =
    (if length grp = 0 then Inr out
     else if length grp = 1 then Inl A85Group
     else Inr (out @ take (length grp - 1) (tupleBytes (a85Tuple grp))))"

fun a85Loop :: "bytes \<Rightarrow> bytes \<Rightarrow> bytes \<Rightarrow> PdfError + bytes" where
  "a85Loop out grp [] = Inl A85NoEnd"
| "a85Loop out grp (v # vs) =
     (if v = 0x7E then
        (case vs of w # _ \<Rightarrow> if w = 0x3E then boundedDecoded (flushASCII85Group out grp) else Inl A85EndMarker
         | [] \<Rightarrow> Inl A85EndMarker)
      else if 0x21 \<le> v \<and> v \<le> 0x75 then
        (let grp' = grp @ [v - 0x21] in
         if length grp' = 5 then bindr (flushASCII85Group out grp') (\<lambda>out'. a85Loop out' [] vs)
         else a85Loop out grp' vs)
      else if v = 0x7A \<and> length grp = 0 then a85Loop (out @ [0, 0, 0, 0]) grp vs
      else if pdfSpaceByte v then a85Loop out grp vs
      else Inl A85Character)"

definition decodeASCII85 :: "bytes \<Rightarrow> PdfError + bytes" where
  "decodeASCII85 data = a85Loop [] [] data"

subsection \<open>RunLength\<close>

text \<open>
  The loop on the rest of the data. A length byte is an \<open>int8\<close>; \<open>continue\<close> on -128 skips the
  size test at the end of the body.
\<close>

function rlLoop :: "bytes \<Rightarrow> bytes \<Rightarrow> PdfError + bytes" where
  "rlLoop out [] = Inr out"
| "rlLoop out (b # rest) = (let len = sint b in
     if len = -128 then rlLoop out rest
     else if 0 \<le> len then
       (if int (length rest) < len + 1 then Inl RunLengthTruncated
        else let out' = out @ take (nat (len + 1)) rest in
          if maxPDFImageStreamBytes < length out' then Inl StreamTooLarge else rlLoop out' (drop (nat (len + 1)) rest))
     else (case rest of [] \<Rightarrow> Inl RunLengthTruncated
       | v # rest' \<Rightarrow> let out' = out @ replicate (nat (1 - len)) v in
          if maxPDFImageStreamBytes < length out' then Inl StreamTooLarge else rlLoop out' rest'))"
  by pat_completeness auto
termination
  by (relation "measure (\<lambda>(out, data). length data)") auto

definition decodeRunLength :: "bytes \<Rightarrow> PdfError + bytes" where
  "decodeRunLength data = rlLoop [] data"

subsection \<open>LZW\<close>

text \<open>
  \<open>pdfBitReader\<close>: the bits of the data from a position, most significant first. A read past the
  end fails and moves nothing.
\<close>

fun readBits :: "bytes \<Rightarrow> nat \<Rightarrow> nat \<Rightarrow> 32 word \<Rightarrow> 32 word" where
  "readBits data position 0 val = val"
| "readBits data position (Suc width) val = readBits data (position + 1) width
     (push_bit 1 val OR ucast (drop_bit (7 - position mod 8) (data ! (position div 8)) AND 1))"

definition readerRead :: "bytes \<Rightarrow> nat \<Rightarrow> nat \<Rightarrow> (32 word \<times> nat) option" where
  "readerRead data position width =
    (if 32 < width \<or> length data * 8 < position + width then None
     else Some (readBits data position width 0, position + width))"

text \<open>The table holds \<open>nil\<close> (None) at the codes 256 (clear) and 257 (end).\<close>

definition newLZWTable :: "bytes option list" where
  "newLZWTable = map (\<lambda>i. Some [word_of_nat i]) [0 ..< 256] @ [None, None]"

record LZWState =
  lzPosition :: nat
  lzTable :: "bytes option list"
  lzWidth :: nat
  lzNextCode :: nat
  lzPrevious :: "bytes option"
  lzOutput :: bytes

definition boolToInt :: "bool \<Rightarrow> nat" where
  "boolToInt b = (if b then 1 else 0)"

definition lzwEntry :: "bytes option list \<Rightarrow> bytes option \<Rightarrow> nat \<Rightarrow> bytes option" where
  "lzwEntry table previous code =
    (if code < length table \<and> table ! code \<noteq> None then table ! code
     else if code = length table then (case previous of Some p \<Rightarrow> Some (p @ [hd p]) | None \<Rightarrow> None)
     else None)"

text \<open>What follows the output of an entry: the new table entry and the next code width.\<close>

definition lzwGrow :: "bool \<Rightarrow> bytes \<Rightarrow> LZWState \<Rightarrow> LZWState" where
  "lzwGrow early entry s = (case lzPrevious s of
       Some p \<Rightarrow> if lzNextCode s < 4096 then
          (let next = lzNextCode s + 1 in
           s\<lparr>lzTable := lzTable s @ [Some (p @ [hd entry])], lzNextCode := next,
             lzWidth := (if 2 ^ lzWidth s \<le> next + boolToInt early \<and> lzWidth s < 12 then lzWidth s + 1 else lzWidth s)\<rparr>)
          else s
     | None \<Rightarrow> s)\<lparr>lzPrevious := Some entry\<rparr>"

definition lzwClear :: "LZWState \<Rightarrow> LZWState" where
  "lzwClear s = s\<lparr>lzTable := newLZWTable, lzWidth := 9, lzNextCode := 258, lzPrevious := None\<rparr>"

text \<open>The loop has no bound of its own: not returning is None.\<close>

partial_function (option) lzwLoop :: "bool \<Rightarrow> bytes \<Rightarrow> LZWState \<Rightarrow> (PdfError + bytes) option" where
  "lzwLoop early data s = (case readerRead data (lzPosition s) (lzWidth s) of
       None \<Rightarrow> Some (Inl LZWTruncated)
     | Some (w, position) \<Rightarrow> let code = unat w; s1 = s\<lparr>lzPosition := position\<rparr> in
         if code = 257 then Some (boundedDecoded (Inr (lzOutput s)))
         else if code = 256 then lzwLoop early data (lzwClear s1)
         else (case lzwEntry (lzTable s) (lzPrevious s) code of
             None \<Rightarrow> Some (Inl (LZWCode code))
           | Some entry \<Rightarrow> lzwLoop early data (lzwGrow early entry (s1\<lparr>lzOutput := lzOutput s @ entry\<rparr>))))"

definition decodeLZW :: "bytes \<Rightarrow> DecodeParameters \<Rightarrow> (PdfError + bytes) option" where
  "decodeLZW data p = lzwLoop (dpEarly p \<noteq> 0) data
     \<lparr>lzPosition = 0, lzTable = newLZWTable, lzWidth = 9, lzNextCode = 258, lzPrevious = None, lzOutput = []\<rparr>"

subsection \<open>The chain of filters\<close>

text \<open>\<open>inflate n\<close> is \<open>io.ReadAll\<close> of the decompressed stream, limited to \<open>n\<close> bytes.\<close>

definition decodeFlate :: "(nat \<Rightarrow> bytes \<Rightarrow> PdfError + bytes) \<Rightarrow> bytes \<Rightarrow> DecodeParameters \<Rightarrow> PdfError + bytes" where
  "decodeFlate inflate data p =
     bindr (inflate (maxPDFImageStreamBytes + 1) data) (\<lambda>decoded.
     bindr (boundedDecoded (Inr decoded)) (\<lambda>decoded'. decodePredictor decoded' p))"

definition applyPDFFilter :: "(nat \<Rightarrow> bytes \<Rightarrow> PdfError + bytes) \<Rightarrow> bytes \<Rightarrow> string \<Rightarrow> DecodeParameters
    \<Rightarrow> (PdfError + bytes) option" where
  "applyPDFFilter inflate data name p =
    (if name = ''FlateDecode'' \<or> name = ''Fl'' then Some (decodeFlate inflate data p)
     else if name = ''ASCIIHexDecode'' \<or> name = ''AHx'' then Some (decodeASCIIHex data)
     else if name = ''ASCII85Decode'' \<or> name = ''A85'' then Some (decodeASCII85 data)
     else if name = ''LZWDecode'' \<or> name = ''LZW'' then decodeLZW data p
     else if name = ''RunLengthDecode'' \<or> name = ''RL'' then Some (decodeRunLength data)
     else Some (Inl (UnsupportedFilter name)))"

fun filterChain :: "(nat \<Rightarrow> bytes \<Rightarrow> PdfError + bytes) \<Rightarrow> string \<Rightarrow> string \<Rightarrow> nat \<Rightarrow> string list \<Rightarrow> bytes
    \<Rightarrow> (PdfError + bytes) option" where
  "filterChain inflate dictionary term index [] data =
     Some (if term \<noteq> [] then Inl (NoTerminal term) else Inr data)"
| "filterChain inflate dictionary term index (name # names) data =
    (if term \<noteq> [] \<and> canonicalPDFFilter name = term then Some (Inr data)
     else (case applyPDFFilter inflate data name (pdfDecodeParametersAt dictionary index) of
         None \<Rightarrow> None
       | Some (Inl e) \<Rightarrow> Some (Inl e)
       | Some (Inr data') \<Rightarrow> filterChain inflate dictionary term (index + 1) names data'))"

text \<open>
  The item of the PDF library enters with its \<open>Filter\<close> value and its description, whose last
  \<open>@\<close> precedes the stream offset.
\<close>

definition decodePDFImageFilters :: "(nat \<Rightarrow> bytes \<Rightarrow> PdfError + bytes) \<Rightarrow> string \<Rightarrow> bytes \<Rightarrow> PdfValue \<Rightarrow> string \<Rightarrow> string
    \<Rightarrow> (PdfError + bytes) option" where
  "decodePDFImageFilters inflate document data filter_value description term =
    (case pdfFilterNames filter_value of Inl e \<Rightarrow> Some (Inl e)
     | Inr names \<Rightarrow> (case pdfImageDictionary document description of Inl e \<Rightarrow> Some (Inl e)
       | Inr dictionary \<Rightarrow> filterChain inflate dictionary term 0 names data))"

end
