(* ===== verification/PdfProperties.thy ===== *)
theory PdfProperties
  imports PdfCodecs
begin

text \<open>
  What the image filters promise: each decoder inverts the encoding it is named after, and where
  a stream is malformed the result is an error value.
\<close>

subsection \<open>RunLength\<close>

datatype Run = Literal bytes | Repeat nat byte

fun validRun :: "Run \<Rightarrow> bool" where
  "validRun (Literal xs) \<longleftrightarrow> 1 \<le> length xs \<and> length xs \<le> 128"
| "validRun (Repeat n v) \<longleftrightarrow> 2 \<le> n \<and> n \<le> 128"

fun encodeRun :: "Run \<Rightarrow> bytes" where
  "encodeRun (Literal xs) = word_of_nat (length xs - 1) # xs"
| "encodeRun (Repeat n v) = [word_of_int (1 - int n), v]"

fun expandRun :: "Run \<Rightarrow> bytes" where
  "expandRun (Literal xs) = xs"
| "expandRun (Repeat n v) = replicate n v"

lemma sint_small: "- 128 \<le> k \<Longrightarrow> k < 128 \<Longrightarrow> sint (word_of_int k :: byte) = k"
  by (simp add: signed_of_int signed_take_bit_int_eq_self)

lemma rlLoop_run:
  assumes "validRun r"
  shows "rlLoop out (encodeRun r @ rest) =
    (if maxPDFImageStreamBytes < length (out @ expandRun r) then Inl StreamTooLarge else rlLoop (out @ expandRun r) rest)"
proof (cases r)
  case (Literal xs)
  then obtain n where n: "length xs = Suc n" "n < 128" using assms by (cases "length xs") auto
  have k: "sint (word_of_nat n :: byte) = int n" using n sint_small [of "int n"] by simp
  have "nat (int n + 1) = Suc n" by simp
  with n k show ?thesis by (simp add: Literal Let_def)
next
  case (Repeat n v)
  then have k: "sint (word_of_int (1 - int n) :: byte) = 1 - int n"
    using assms sint_small [of "1 - int n"] by simp
  have nn: "nat (1 - (1 - int n)) = n" by simp
  have "rlLoop out (b # v # rest) = (if maxPDFImageStreamBytes < length out + n then Inl StreamTooLarge
      else rlLoop (out @ replicate n v) rest)" if "sint b = 1 - int n" for b
    using assms Repeat nn by (simp add: that Let_def del: diff_diff_eq2)
  from this [OF k] show ?thesis by (simp add: Repeat del: of_int_diff)
qed

lemma rlLoop_runs:
  assumes "list_all validRun rs" "length out \<le> maxPDFImageStreamBytes"
  shows "rlLoop out (concat (map encodeRun rs)) =
    (if maxPDFImageStreamBytes < length (out @ concat (map expandRun rs)) then Inl StreamTooLarge
     else Inr (out @ concat (map expandRun rs)))"
  using assms
proof (induction rs arbitrary: out)
  case (Cons r rs)
  then show ?case by (simp add: rlLoop_run)
qed simp

text \<open>
  Decoding inverts RunLength encoding: whatever literal and repeated runs a stream is made of,
  it decodes to their expansion, and to the size error exactly when that exceeds the limit.
\<close>

theorem runlength_roundtrip:
  assumes "list_all validRun rs"
  shows "decodeRunLength (concat (map encodeRun rs)) =
    (if maxPDFImageStreamBytes < length (concat (map expandRun rs)) then Inl StreamTooLarge
     else Inr (concat (map expandRun rs)))"
  using rlLoop_runs [OF assms, of "[]"] by (simp add: decodeRunLength_def)

lemma runlength_roundtrip_witness:
  "decodeRunLength (concat (map encodeRun [Repeat 3 7, Literal [1, 2]])) = Inr [7, 7, 7, 1, 2]"
  using runlength_roundtrip [of "[Repeat 3 7, Literal [1, 2]]"]
  by (simp add: maxPDFImageStreamBytes_def numeral_3_eq_3)

text \<open>The end-of-data byte 128 does not end the data: what follows it is decoded too.\<close>

lemma runlength_eod_skipped: "decodeRunLength (0x80 # data) = decodeRunLength data"
  by (simp add: decodeRunLength_def)

subsection \<open>ASCIIHex\<close>

fun nibbles :: "bytes \<Rightarrow> bytes" where
  "nibbles [] = []"
| "nibbles (b # bs) = drop_bit 4 b # (b AND 15) # nibbles bs"

lemma nibbles_join: "push_bit 4 (drop_bit 4 b) OR (b AND 15) = (b :: byte)"
proof -
  have "(b AND 15) = take_bit 4 b" by (simp add: take_bit_eq_mask mask_eq_exp_minus_1)
  then show ?thesis by (simp add: bit_eq_iff bit_simps) auto
qed

lemma hexValue_not_end: "hexValue v = Some d \<Longrightarrow> v \<noteq> 0x3E"
  by (auto simp: hexValue_def)

lemma pdfSpaceByte_not_end: "pdfSpaceByte v \<Longrightarrow> v \<noteq> 0x3E"
  by (auto simp: pdfSpaceByte_def)

lemma hexLoop_text:
  assumes "list_all (\<lambda>v. hexValue v \<noteq> None \<or> pdfSpaceByte v) hx"
    "count mod 2 = 0 \<Longrightarrow> List.map_filter hexValue hx = nibbles bs"
    "count mod 2 \<noteq> 0 \<Longrightarrow> \<exists>b bs'. bs = b # bs' \<and> current = push_bit 4 (drop_bit 4 b)
        \<and> List.map_filter hexValue hx = (b AND 15) # nibbles bs'"
  shows "hexLoop out current count (hx @ 0x3E # rest) = boundedDecoded (Inr (out @ bs))"
  using assms
proof (induction hx arbitrary: out current count bs)
  case Nil
  then show ?case by (cases bs) (auto simp: List.map_filter_simps)
next
  case (Cons v hx)
  show ?case
  proof (cases "hexValue v")
    case None
    with Cons show ?thesis by (simp add: pdfSpaceByte_not_end List.map_filter_simps)
  next
    case (Some d)
    note ne = hexValue_not_end [OF Some]
    show ?thesis
    proof (cases "count mod 2 = 0")
      case True
      then obtain b bs' where bs: "bs = b # bs'" "d = drop_bit 4 b"
        "List.map_filter hexValue hx = (b AND 15) # nibbles bs'"
        using Cons.prems(2) Some by (cases bs) (auto simp: List.map_filter_simps)
      have "hexLoop out (push_bit 4 d) (Suc count) (hx @ 0x3E # rest) = boundedDecoded (Inr (out @ bs))"
        by (rule Cons.IH) (use Cons.prems(1) bs True in \<open>auto simp: mod_Suc\<close>)
      then show ?thesis using ne Some True by simp
    next
      case False
      then obtain b bs' where bs: "bs = b # bs'" "current = push_bit 4 (drop_bit 4 b)" "d = b AND 15"
        "List.map_filter hexValue hx = nibbles bs'"
        using Cons.prems(3) Some by (auto simp: List.map_filter_simps)
      have "hexLoop (out @ [b]) current (Suc count) (hx @ 0x3E # rest) = boundedDecoded (Inr ((out @ [b]) @ bs'))"
        by (rule Cons.IH) (use Cons.prems(1) bs False in \<open>auto simp: mod_Suc\<close>)
      then show ?thesis using ne Some False bs by (simp add: nibbles_join)
    qed
  qed
qed

text \<open>
  Decoding inverts ASCIIHex encoding: a text of hexadecimal digits of either case, with any
  white space between them, that spells the nibbles of some bytes decodes to these bytes, whatever
  follows the end marker.
\<close>

theorem asciihex_roundtrip:
  assumes "list_all (\<lambda>v. hexValue v \<noteq> None \<or> pdfSpaceByte v) hx" "List.map_filter hexValue hx = nibbles bs"
  shows "decodeASCIIHex (hx @ 0x3E # rest) = boundedDecoded (Inr bs)"
  using hexLoop_text [of hx 0 bs] assms by (simp add: decodeASCIIHex_def)

lemma asciihex_roundtrip_witness: "decodeASCIIHex ([0x34, 0x20, 0x66, 0x37, 0x41] @ 0x3E # [1]) = Inr [0x4F, 0x7A]"
proof -
  have "boundedDecoded (Inr [0x4F, 0x7A]) = Inr [0x4F, 0x7A]"
    by (simp add: boundedDecoded_def maxPDFImageStreamBytes_def)
  then show ?thesis
    using asciihex_roundtrip [of "[0x34, 0x20, 0x66, 0x37, 0x41]" "[0x4F, 0x7A]"]
    by (simp add: hexValue_def pdfSpaceByte_def List.map_filter_simps)
qed

subsection \<open>ASCII85\<close>

text \<open>The base-85 digits of a tuple and the encoding of a stream: \<open>z\<close> for a group of zeros, and a
  last group of one to three bytes padded with zeros and cut.\<close>

definition a85Digits :: "nat \<Rightarrow> nat list" where
  "a85Digits n = [n div 85 div 85 div 85 div 85, n div 85 div 85 div 85 mod 85, n div 85 div 85 mod 85, n div 85 mod 85, n mod 85]"

definition a85Char :: "nat \<Rightarrow> byte" where
  "a85Char d = word_of_nat d + 0x21"

definition tupleOf :: "byte \<Rightarrow> byte \<Rightarrow> byte \<Rightarrow> byte \<Rightarrow> nat" where
  "tupleOf a b c d = unat a * 2 ^ 24 + unat b * 2 ^ 16 + unat c * 2 ^ 8 + unat d"

fun a85Encode :: "bytes \<Rightarrow> bytes" where
  "a85Encode (a # b # c # d # rest) =
     (if a = 0 \<and> b = 0 \<and> c = 0 \<and> d = 0 then [0x7A] else map a85Char (a85Digits (tupleOf a b c d))) @ a85Encode rest"
| "a85Encode [] = []"
| "a85Encode [a] = map a85Char (take 2 (a85Digits (tupleOf a 0 0 0)))"
| "a85Encode [a, b] = map a85Char (take 3 (a85Digits (tupleOf a b 0 0)))"
| "a85Encode [a, b, c] = map a85Char (take 4 (a85Digits (tupleOf a b c 0)))"

lemma a85Char_char:
  assumes "d < 85"
  shows "0x21 \<le> a85Char d" "a85Char d \<le> 0x75" "a85Char d \<noteq> 0x7E" "a85Char d - 0x21 = word_of_nat d"
proof -
  have u: "unat (a85Char d) = d + 33"
    using assms by (simp add: a85Char_def unat_word_ariths unat_of_nat)
  show "0x21 \<le> a85Char d" "a85Char d \<le> 0x75" "a85Char d \<noteq> 0x7E"
    using u assms by (auto simp: word_le_nat_alt)
  show "a85Char d - 0x21 = word_of_nat d" by (simp add: a85Char_def)
qed

lemma a85Loop_digit:
  assumes "d < 85" "length grp < 4"
  shows "a85Loop out grp (a85Char d # rest) = a85Loop out (grp @ [word_of_nat d]) rest"
  using assms by (simp add: a85Char_char Let_def)

lemma a85Loop_last_digit:
  assumes "d < 85" "length grp = 4"
  shows "a85Loop out grp (a85Char d # rest) =
    bindr (flushASCII85Group out (grp @ [word_of_nat d])) (\<lambda>out'. a85Loop out' [] rest)"
  using assms by (simp add: a85Char_char Let_def)

lemma tupleBytes_nat:
  assumes "n < 2 ^ 32"
  shows "tupleBytes (word_of_nat n) = [word_of_nat (n div 2 ^ 24), word_of_nat (n div 2 ^ 16), word_of_nat (n div 2 ^ 8), word_of_nat n]"
proof -
  have "ucast (drop_bit k (word_of_nat n :: 32 word)) = (word_of_nat (n div 2 ^ k) :: byte)" for k
  proof (rule word_unat_eq_iff [THEN iffD2])
    have "unat (word_of_nat n :: 32 word) = n" using assms by (simp add: unat_of_nat)
    then have "unat (drop_bit k (word_of_nat n :: 32 word)) = n div 2 ^ k"
      by (simp only: unat_drop_bit_eq) (simp only: drop_bit_eq_div)
    then show "unat (ucast (drop_bit k (word_of_nat n :: 32 word)) :: byte) = unat (word_of_nat (n div 2 ^ k) :: byte)"
      by (simp only: unsigned_ucast_eq) (simp add: unat_of_nat take_bit_eq_mod)
  qed
  from this [of 24] this [of 16] this [of 8] this [of 0] show ?thesis by (simp add: tupleBytes_def)
qed

lemma a85Tuple_nat:
  assumes "set ds \<subseteq> {..< 85}" "length ds \<le> 5"
  shows "a85Tuple (map word_of_nat ds) =
    word_of_nat (foldl (\<lambda>t i. t * 85 + (if i < length ds then ds ! i else 84)) 0 [0 ..< 5])"
proof -
  have digit: "ucast (word_of_nat d :: byte) = (word_of_nat d :: 32 word)" if "d < 85" for d
    using that by (simp add: word_unat_eq_iff unsigned_ucast_eq unat_of_nat take_bit_eq_mod)
  have "foldl (\<lambda>t i. t * 85 + ucast (if i < length ds then map word_of_nat ds ! i else (84 :: byte))) (word_of_nat m) xs
      = (word_of_nat (foldl (\<lambda>t i. t * 85 + (if i < length ds then ds ! i else 84)) m xs) :: 32 word)" for m xs
  proof (induction xs arbitrary: m)
    case (Cons i xs)
    have "ds ! i < 85" if "i < length ds" using assms(1) that by (auto simp: subset_iff)
    then have "word_of_nat m * 85 + ucast (if i < length ds then map word_of_nat ds ! i else (84 :: byte))
        = (word_of_nat (m * 85 + (if i < length ds then ds ! i else 84)) :: 32 word)"
      using digit by simp
    then show ?case by (simp only: foldl_Cons Cons.IH)
  qed simp
  from this [of 0 "[0 ..< 5]"] show ?thesis by (simp add: a85Tuple_def)
qed

text \<open>The tuple of a full or cut group, and the bytes it gives back.\<close>

lemma digits_small: "n < 2 ^ 32 \<Longrightarrow> set (a85Digits n) \<subseteq> {..< 85}"
  by (simp add: a85Digits_def div_mult2_eq [symmetric])

lemma a85Tuple_digits:
  assumes "n < 2 ^ 32"
  shows "a85Tuple (map word_of_nat (a85Digits n)) = word_of_nat n"
    "a85Tuple (map word_of_nat (take 2 (a85Digits n))) = word_of_nat (n div 85 div 85 div 85 * 614125 + 614124)"
    "a85Tuple (map word_of_nat (take 3 (a85Digits n))) = word_of_nat (n div 85 div 85 * 7225 + 7224)"
    "a85Tuple (map word_of_nat (take 4 (a85Digits n))) = word_of_nat (n div 85 * 85 + 84)"
proof -
  have upt: "[0 ..< 5] = [0, 1, 2, 3, 4 :: nat]" by (simp add: upt_rec)
  have small: "set (take k (a85Digits n)) \<subseteq> {..< 85}" "length (take k (a85Digits n)) \<le> 5" for k
    using digits_small [OF assms] set_take_subset [of k "a85Digits n"] by (auto simp: a85Digits_def)
  note tuple = a85Tuple_nat [OF small]
  have q: "m div 85 * 85 + m mod 85 = m" for m :: nat by simp
  show "a85Tuple (map word_of_nat (a85Digits n)) = word_of_nat n"
    using tuple [of 5] by (simp add: a85Digits_def upt q)
  show "a85Tuple (map word_of_nat (take 2 (a85Digits n))) = word_of_nat (n div 85 div 85 div 85 * 614125 + 614124)"
    using q [of "n div 85 div 85 div 85"] by (simp only: tuple) (simp add: a85Digits_def upt)
  show "a85Tuple (map word_of_nat (take 3 (a85Digits n))) = word_of_nat (n div 85 div 85 * 7225 + 7224)"
    using q [of "n div 85 div 85"] q [of "n div 85 div 85 div 85"] by (simp only: tuple) (simp add: a85Digits_def upt)
  show "a85Tuple (map word_of_nat (take 4 (a85Digits n))) = word_of_nat (n div 85 * 85 + 84)"
    using q [of "n div 85"] q [of "n div 85 div 85"] q [of "n div 85 div 85 div 85"]
    by (simp only: tuple) (simp add: a85Digits_def upt)
qed

text \<open>Padding a cut group with the highest digit stays within the bytes it encodes.\<close>

lemma byte_less: "unat (b :: byte) < 256"
proof -
  have "unat b < 2 ^ LENGTH(8)" by (rule unsigned_less)
  then show ?thesis by simp
qed

lemma byte_of: "(word_of_nat (n * 256 + unat x) :: byte) = x" "(word_of_nat (unat x) :: byte) = x"
proof -
  show "(word_of_nat (n * 256 + unat x) :: byte) = x"
    using byte_less [of x] by (simp only: word_unat_eq_iff unat_of_nat) simp
qed simp

lemma cut_group:
  assumes "0 < k" "k \<le> 2 ^ e" "h < 2 ^ (32 - e)" "e \<le> 32"
  shows "(h * 2 ^ e div k * k + (k - 1)) div 2 ^ e = (h :: nat)" "h * 2 ^ e div k * k + (k - 1) < 2 ^ 32"
proof -
  have "h * 2 ^ e mod k < k" using assms(1) by simp
  with mod_div_mult_eq [of "h * 2 ^ e" k] have lo: "h * 2 ^ e \<le> h * 2 ^ e div k * k + (k - 1)" by linarith
  have "h * 2 ^ e div k * k \<le> h * 2 ^ e" by simp
  then have hi: "h * 2 ^ e div k * k + (k - 1) < Suc h * 2 ^ e" using assms(1,2) unfolding mult_Suc by linarith
  show "(h * 2 ^ e div k * k + (k - 1)) div 2 ^ e = h"
    by (rule div_nat_eqI) (use lo hi in \<open>simp_all only: mult.commute\<close>)
  have "Suc h * 2 ^ e \<le> 2 ^ (32 - e) * 2 ^ e" using assms(3) by (intro mult_le_mono1) simp
  also have "\<dots> = 2 ^ 32" using assms(4) by (simp flip: power_add)
  finally show "h * 2 ^ e div k * k + (k - 1) < 2 ^ 32" using hi by linarith
qed

lemma tuple_bound: "tupleOf a b c d < 2 ^ 32"
  using byte_less [of a] byte_less [of b] byte_less [of c] byte_less [of d] by (simp add: tupleOf_def)

lemma tuple_bytes: "tupleBytes (word_of_nat (tupleOf a b c d)) = [a, b, c, d]"
proof -
  have t: "tupleOf a b c d div 2 ^ 24 = unat a" "tupleOf a b c d div 2 ^ 16 = unat a * 256 + unat b"
    "tupleOf a b c d div 2 ^ 8 = (unat a * 256 + unat b) * 256 + unat c"
    using byte_less [of b] byte_less [of c] byte_less [of d] by (simp_all add: tupleOf_def)
  have "tupleOf a b c d = ((unat a * 256 + unat b) * 256 + unat c) * 256 + unat d" by (simp add: tupleOf_def)
  then have "(word_of_nat (tupleOf a b c d) :: byte) = d" by (simp only: byte_of)
  then show ?thesis unfolding tupleBytes_nat [OF tuple_bound] t byte_of by simp
qed

lemma flush_group: "2 \<le> length grp \<Longrightarrow>
    flushASCII85Group out grp = Inr (out @ take (length grp - 1) (tupleBytes (a85Tuple grp)))"
  by (auto simp: flushASCII85Group_def)

lemma flush_full:
  "flushASCII85Group out (map word_of_nat (a85Digits (tupleOf a b c d))) = Inr (out @ [a, b, c, d])"
proof -
  have "length (map word_of_nat (a85Digits (tupleOf a b c d)) :: bytes) = 5" by (simp add: a85Digits_def)
  then show ?thesis by (simp add: flush_group a85Tuple_digits [OF tuple_bound] tuple_bytes)
qed

lemma flush_cut:
  "flushASCII85Group out (map word_of_nat (take 2 (a85Digits (tupleOf a 0 0 0)))) = Inr (out @ [a])"
  "flushASCII85Group out (map word_of_nat (take 3 (a85Digits (tupleOf a b 0 0)))) = Inr (out @ [a, b])"
  "flushASCII85Group out (map word_of_nat (take 4 (a85Digits (tupleOf a b c 0)))) = Inr (out @ [a, b, c])"
proof -
  have len: "length (a85Digits n) = 5" for n by (simp add: a85Digits_def)
  note defs = flush_group len a85Tuple_digits [OF tuple_bound]
  let ?ab = "unat a * 256 + unat b"
  let ?abc = "?ab * 256 + unat c"
  have small: "unat a < 256" "?ab < 65536" "?abc < 16777216"
    using byte_less [of a] byte_less [of b] byte_less [of c] by simp_all
  have h: "(?abc :: nat) div 256 = ?ab" "?ab div 256 = unat a" using byte_less [of b] byte_less [of c] by simp_all
  define m1 where "m1 = unat a * 2 ^ 24 div 614125 * 614125 + 614124"
  define m2 where "m2 = ?ab * 2 ^ 16 div 7225 * 7225 + 7224"
  define m3 where "m3 = ?abc * 2 ^ 8 div 85 * 85 + 84"
  have c1: "m1 div 2 ^ 24 = unat a" "m1 < 2 ^ 32"
    using cut_group [of 614125 24 "unat a"] small by (simp_all add: m1_def)
  have c2: "m2 div 2 ^ 16 = ?ab" "m2 < 2 ^ 32"
    using cut_group [of 7225 16 ?ab] small by (simp_all add: m2_def)
  have c3: "m3 div 2 ^ 8 = ?abc" "m3 < 2 ^ 32"
    using cut_group [of 85 8 ?abc] small by (simp_all add: m3_def)
  have t1: "tupleOf a 0 0 0 div 85 div 85 div 85 * 614125 + 614124 = m1"
    by (simp add: tupleOf_def m1_def div_mult2_eq [symmetric])
  have t2: "tupleOf a b 0 0 div 85 div 85 * 7225 + 7224 = m2"
    by (simp add: tupleOf_def m2_def div_mult2_eq [symmetric] algebra_simps)
  have t3: "tupleOf a b c 0 div 85 * 85 + 84 = m3"
    by (simp add: tupleOf_def m3_def algebra_simps)
  show "flushASCII85Group out (map word_of_nat (take 2 (a85Digits (tupleOf a 0 0 0)))) = Inr (out @ [a])"
    using tupleBytes_nat [OF c1(2)] c1(1) by (simp add: defs t1)
  have "m2 div 2 ^ 24 = unat a" using c2(1) h(2) by (simp add: div_mult2_eq [of m2 65536 256, simplified])
  then show "flushASCII85Group out (map word_of_nat (take 3 (a85Digits (tupleOf a b 0 0)))) = Inr (out @ [a, b])"
    using tupleBytes_nat [OF c2(2)] c2(1) byte_of(1) [of "unat a" b] by (simp add: defs t2)
  have "m3 div 2 ^ 16 = ?ab" using c3(1) h(1) by (simp add: div_mult2_eq [of m3 256 256, simplified])
  moreover from this have "m3 div 2 ^ 24 = unat a" using h(2) by (simp add: div_mult2_eq [of m3 65536 256, simplified])
  ultimately show "flushASCII85Group out (map word_of_nat (take 4 (a85Digits (tupleOf a b c 0)))) = Inr (out @ [a, b, c])"
    using tupleBytes_nat [OF c3(2)] c3(1) byte_of(1) [of "unat a" b] byte_of(1) [of ?ab c] by (simp add: defs t3)
qed

lemma a85Loop_digits:
  assumes "set ds \<subseteq> {..< 85}" "length grp + length ds < 5"
  shows "a85Loop out grp (map a85Char ds @ rest) = a85Loop out (grp @ map word_of_nat ds) rest"
  using assms
proof (induction ds arbitrary: grp)
  case (Cons d ds)
  then have "d < 85" "length grp < 4" by auto
  from a85Loop_digit [OF this] Cons show ?case by simp
qed simp

lemma a85Loop_full:
  "a85Loop out [] (map a85Char (a85Digits (tupleOf a b c d)) @ rest) = a85Loop (out @ [a, b, c, d]) [] rest"
proof -
  define ds e where "ds = take 4 (a85Digits (tupleOf a b c d))" and "e = a85Digits (tupleOf a b c d) ! 4"
  then have ds: "a85Digits (tupleOf a b c d) = ds @ [e]" "length ds = 4" by (simp_all add: a85Digits_def)
  have small: "set ds \<subseteq> {..< 85}" "e < 85" using digits_small [OF tuple_bound, of a b c d] unfolding ds by simp_all
  have "a85Loop out [] (map a85Char ds @ a85Char e # rest) = a85Loop out (map word_of_nat ds) (a85Char e # rest)"
    using a85Loop_digits [OF small(1), of "[]" out "a85Char e # rest"] ds(2) by simp
  also have "\<dots> = bindr (flushASCII85Group out (map word_of_nat (a85Digits (tupleOf a b c d)))) (\<lambda>out'. a85Loop out' [] rest)"
    using a85Loop_last_digit [OF small(2), of "map word_of_nat ds" out rest] ds by simp
  also have "\<dots> = a85Loop (out @ [a, b, c, d]) [] rest" by (simp add: flush_full)
  finally show ?thesis by (simp add: ds(1))
qed

lemma a85Loop_cut:
  assumes "flushASCII85Group out (map word_of_nat (take k (a85Digits (tupleOf a b c d)))) = Inr x" "k < 5"
  shows "a85Loop out [] (map a85Char (take k (a85Digits (tupleOf a b c d))) @ 0x7E # 0x3E # rest) = boundedDecoded (Inr x)"
proof -
  have "set (take k (a85Digits (tupleOf a b c d))) \<subseteq> {..< 85}" "length (take k (a85Digits (tupleOf a b c d))) < 5"
    using digits_small [OF tuple_bound, of a b c d] set_take_subset [of k "a85Digits (tupleOf a b c d)"] assms(2) by auto
  from a85Loop_digits [OF this(1), of "[]" out] this(2) assms(1) show ?thesis by simp
qed

lemma a85Loop_encode: "a85Loop out [] (a85Encode bs @ 0x7E # 0x3E # rest) = boundedDecoded (Inr (out @ bs))"
proof (induction bs arbitrary: out rule: a85Encode.induct)
  case (1 a b c d bs)
  then show ?case by (auto simp: a85Loop_full)
next
  case 2
  then show ?case by (simp add: flushASCII85Group_def)
next
  case (3 a)
  then show ?case using a85Loop_cut [OF flush_cut(1)] by simp
next
  case (4 a b)
  then show ?case using a85Loop_cut [OF flush_cut(2)] by simp
next
  case (5 a b c)
  then show ?case using a85Loop_cut [OF flush_cut(3)] by simp
qed

text \<open>
  Decoding inverts ASCII85 encoding for every byte sequence, the last group of one to three
  bytes and the \<open>z\<close> for four zeros included, whatever follows the end marker; only the size limit
  can make it fail.
\<close>

theorem ascii85_roundtrip: "decodeASCII85 (a85Encode bs @ 0x7E # 0x3E # rest) = boundedDecoded (Inr bs)"
  using a85Loop_encode [of "[]"] by (simp add: decodeASCII85_def)

subsection \<open>The PNG predictor\<close>

text \<open>
  The encoding of a row: each byte minus the prediction from its neighbours in the original rows.
\<close>

definition neighbour :: "nat \<Rightarrow> bytes \<Rightarrow> nat \<Rightarrow> int" where
  "neighbour bpp row i = (if bpp \<le> i then uint (row ! (i - bpp)) else 0)"

definition pngPrediction :: "nat \<Rightarrow> nat \<Rightarrow> bytes option \<Rightarrow> bytes \<Rightarrow> nat \<Rightarrow> byte" where
  "pngPrediction tag bpp previous row i =
    (let left = neighbour bpp row i;
         up = (case previous of None \<Rightarrow> 0 | Some pr \<Rightarrow> uint (pr ! i));
         upperLeft = (case previous of None \<Rightarrow> 0 | Some pr \<Rightarrow> neighbour bpp pr i) in
     if tag = 0 then 0 else if tag = 1 then word_of_int left else if tag = 2 then word_of_int up
     else if tag = 3 then word_of_int ((left + up) div 2) else word_of_int (pngPaeth left up upperLeft))"

definition pngEncodeRow :: "nat \<Rightarrow> nat \<Rightarrow> bytes option \<Rightarrow> bytes \<Rightarrow> bytes" where
  "pngEncodeRow tag bpp previous row = map (\<lambda>i. row ! i - pngPrediction tag bpp previous row i) [0 ..< length row]"

fun pngEncode :: "nat \<Rightarrow> bytes option \<Rightarrow> (nat \<times> bytes) list \<Rightarrow> bytes" where
  "pngEncode bpp previous [] = []"
| "pngEncode bpp previous ((tag, row) # rows) =
     word_of_nat tag # pngEncodeRow tag bpp previous row @ pngEncode bpp (Some row) rows"

text \<open>A row decoded up to \<open>i\<close> is the original there and still the encoding after.\<close>

definition mixedRow :: "nat \<Rightarrow> nat \<Rightarrow> bytes option \<Rightarrow> bytes \<Rightarrow> nat \<Rightarrow> bytes" where
  "mixedRow tag bpp previous row i = take i row @ drop i (pngEncodeRow tag bpp previous row)"

lemma mixedRow_simps:
  assumes "i < length row"
  shows "length (mixedRow tag bpp previous row i) = length row"
    "j < i \<Longrightarrow> mixedRow tag bpp previous row i ! j = row ! j"
    "mixedRow tag bpp previous row i ! i = row ! i - pngPrediction tag bpp previous row i"
    "(mixedRow tag bpp previous row i)[i := row ! i] = mixedRow tag bpp previous row (Suc i)"
proof -
  show "length (mixedRow tag bpp previous row i) = length row"
    "j < i \<Longrightarrow> mixedRow tag bpp previous row i ! j = row ! j"
    "mixedRow tag bpp previous row i ! i = row ! i - pngPrediction tag bpp previous row i"
    using assms by (auto simp: mixedRow_def pngEncodeRow_def nth_append)
  show "(mixedRow tag bpp previous row i)[i := row ! i] = mixedRow tag bpp previous row (Suc i)"
    using assms by (intro nth_equalityI) (auto simp: mixedRow_def pngEncodeRow_def nth_append nth_list_update less_Suc_eq)
qed

lemma pngRowFrom_inverts:
  assumes "tag \<le> 4" "1 \<le> bpp" "case previous of None \<Rightarrow> True | Some pr \<Rightarrow> length pr = length row"
    "int (length row) \<le> int64_max" "i \<le> length row"
  shows "pngRowFrom tag (int bpp) previous (mixedRow tag bpp previous row i) i = Inr row"
  using assms(5)
proof (induction "length row - i" arbitrary: i)
  case 0
  then show ?case by (subst pngRowFrom.simps) (simp add: mixedRow_def pngEncodeRow_def)
next
  case (Suc n)
  then have i: "i < length row" by simp
  let ?m = "mixedRow tag bpp previous row i"
  have at: "byteIndex ?m (wrap64 (int i - int bpp)) = Inr (row ! (i - bpp))" if "bpp \<le> i"
    using that i assms(2,4) mixedRow_simps(1,2) [OF i] by (auto simp: byteIndex_def nat_diff_distrib')
  have prev: "byteIndex pr (int i) = Inr (pr ! i)" "bpp \<le> i \<Longrightarrow> byteIndex pr (wrap64 (int i - int bpp)) = Inr (pr ! (i - bpp))"
    if "previous = Some pr" for pr
    using that i assms(2,3,4) by (auto simp: byteIndex_def nat_diff_distrib')
  have "pngNeighbours (int bpp) previous ?m i = Inr (neighbour bpp row i,
      case previous of None \<Rightarrow> 0 | Some pr \<Rightarrow> uint (pr ! i),
      case previous of None \<Rightarrow> 0 | Some pr \<Rightarrow> neighbour bpp pr i)"
    using at prev by (cases previous) (auto simp: pngNeighbours_def neighbour_def)
  moreover have "pngUnfilter tag (neighbour bpp row i) (case previous of None \<Rightarrow> 0 | Some pr \<Rightarrow> uint (pr ! i))
      (case previous of None \<Rightarrow> 0 | Some pr \<Rightarrow> neighbour bpp pr i) (?m ! i) = Inr (row ! i)"
    using assms(1) unfolding mixedRow_simps(3) [OF i] by (auto simp: pngUnfilter_def pngPrediction_def Let_def)
  ultimately have "pngRowFrom tag (int bpp) previous ?m i
      = pngRowFrom tag (int bpp) previous (mixedRow tag bpp previous row (Suc i)) (Suc i)"
    using i mixedRow_simps(1,4) [OF i] by (subst pngRowFrom.simps) simp
  with Suc show ?case by simp
qed

definition pngRowsOk :: "nat \<Rightarrow> (nat \<times> bytes) list \<Rightarrow> bool" where
  "pngRowsOk n rows \<longleftrightarrow> list_all (\<lambda>(tag, row). tag \<le> 4 \<and> length row = n) rows"

lemma pngEncodeRow_length [simp]: "length (pngEncodeRow tag bpp previous row) = length row"
  by (simp add: pngEncodeRow_def)

lemma pngRows_encode:
  assumes "pngRowsOk n rows" "1 \<le> n" "1 \<le> bpp" "case previous of None \<Rightarrow> True | Some pr \<Rightarrow> length pr = n"
    "int (length (pre @ pngEncode bpp previous rows)) \<le> int64_max"
  shows "pngRows (int bpp) (int n) (pre @ pngEncode bpp previous rows) out previous (length pre)
    = boundedDecoded (Inr (out @ concat (map snd rows)))"
  using assms
proof (induction rows arbitrary: pre out previous)
  case Nil
  then show ?case by (subst pngRows.simps) simp
next
  case (Cons tr rows)
  obtain tag row where tr: "tr = (tag, row)" by (cases tr)
  have row: "tag \<le> 4" "length row = n" "pngRowsOk n rows" using Cons.prems(1) by (auto simp: pngRowsOk_def tr)
  let ?e = "pngEncodeRow tag bpp previous row"
  let ?rest = "pngEncode bpp (Some row) rows"
  let ?data = "pre @ word_of_nat tag # ?e @ ?rest"
  let ?pre = "pre @ word_of_nat tag # ?e"
  have len: "int (length pre) + 1 + int n + int (length ?rest) \<le> int64_max"
    using Cons.prems(5) row(2) by (simp add: tr)
  have tagv: "unat (word_of_nat tag :: byte) = tag" using row(1) by (simp add: unat_of_nat)
  have dec: "pngRowFrom tag (int bpp) previous ?e 0 = Inr row"
    using pngRowFrom_inverts [of tag bpp row previous 0, unfolded row(2)] row(1) Cons.prems(3,4) len
    by (simp add: mixedRow_def)
  have stop: "wrap64 (int (length pre + 1) + int n) = int (length pre + 1 + n)" using len by simp
  have slice: "take (nat (int (length pre + 1 + n)) - (length pre + 1)) (drop (length pre + 1) ?data) = ?e"
    using row(2) by simp
  have "pngRows (int bpp) (int n) ?data out previous (length pre)
      = pngRows (int bpp) (int n) ?data (out @ row) (Some row) (length pre + 1 + n)"
    using dec tagv row(2) by (subst pngRows.simps) (simp only: Let_def stop slice, simp add: nth_append nat_add_distrib)
  also have "\<dots> = pngRows (int bpp) (int n) (?pre @ ?rest) (out @ row) (Some row) (length ?pre)"
    using row(2) by simp
  also have "\<dots> = boundedDecoded (Inr ((out @ row) @ concat (map snd rows)))"
    by (rule Cons.IH) (use row Cons.prems(2,3) len in simp_all)
  finally show ?case by (simp add: tr)
qed

text \<open>
  Decoding inverts the PNG predictors on 8-bit samples: whatever predictor each row chooses,
  the rows of an image come back, and the only error is the size limit.
\<close>

theorem png_predictor_roundtrip:
  assumes "10 \<le> dpPredictor p" "dpPredictor p \<le> 15" "dpBits p = 8"
    "1 \<le> dpColumns p" "dpColumns p \<le> int maxPDFImageStreamBytes" "1 \<le> dpColors p" "dpColors p \<le> 32"
    "pngRowsOk (nat (dpColumns p * dpColors p)) rows"
    "int (length (pngEncode (nat (dpColors p)) None rows)) \<le> int64_max"
  shows "decodePredictor (pngEncode (nat (dpColors p)) None rows) p = boundedDecoded (Inr (concat (map snd rows)))"
proof -
  let ?n = "dpColumns p * dpColors p"
  have le: "?n \<le> 67108864 * 32"
    using assms(4-7) by (intro mult_mono) (auto simp: maxPDFImageStreamBytes_def)
  have pos: "1 \<le> ?n" using assms(4,6) mult_mono [of 1 "dpColumns p" 1 "dpColors p"] by simp
  have params: "predictorParameters p = (dpColumns p, dpColors p, 8)"
    using assms(3,4,6) by (simp add: predictorParameters_def max64_def)
  have bpp: "goQuot (wrap64 (wrap64 (dpColors p * 8) + 7)) 8 = dpColors p" using assms(6,7) by simp
  have geometry: "wrap64 (wrap64 ?n * goQuot (wrap64 (8 + 7)) 8) = ?n" using le pos by simp
  have "decodePNGPredictor (pngEncode (nat (dpColors p)) None rows) p
      = pngRows (dpColors p) ?n (pngEncode (nat (dpColors p)) None rows) [] None 0"
    unfolding decodePNGPredictor_def params prod.case Let_def geometry bpp using assms(4-6) pos by simp
  also have "\<dots> = boundedDecoded (Inr (concat (map snd rows)))"
    using pngRows_encode [OF assms(8), of "nat (dpColors p)" None "[]" "[]"] assms(6,9) pos by simp
  finally show ?thesis using assms(1,2) by (simp add: decodePredictor_def)
qed

definition demoParameters :: DecodeParameters where
  "demoParameters = \<lparr>dpPredictor = 15, dpColumns = 2, dpColors = 1, dpBits = 8, dpEarly = 1\<rparr>"

lemma png_predictor_roundtrip_witness:
  "decodePredictor (pngEncode 1 None [(1, [5, 9]), (4, [250, 3])]) demoParameters = Inr [5, 9, 250, 3]"
  using png_predictor_roundtrip [of demoParameters "[(1, [5, 9]), (4, [250, 3])]"]
  by (simp add: demoParameters_def pngRowsOk_def boundedDecoded_def maxPDFImageStreamBytes_def)

text \<open>
  The geometry is computed in wrapping 64-bit arithmetic from the parameters of the file: with
  eight columns of 2^60 colors the row length wraps below zero, and decoding any stream that is not
  empty slices out of range and panics instead of failing.
\<close>

theorem png_geometry_overflow_panics:
  assumes "10 \<le> dpPredictor p" "dpPredictor p \<le> 15" "dpColumns p = 8" "dpColors p = 2 ^ 60" "dpBits p = 8" "data \<noteq> []"
  shows "decodePredictor data p = Inl SlicePanic"
proof -
  have rowBytes: "wrap64 (wrap64 (8 * 2 ^ 60) * goQuot (wrap64 (8 + 7)) 8) = int64_min"
    and bpp: "goQuot (wrap64 (wrap64 (2 ^ 60 * 8) + 7)) 8 = - 1152921504606846975"
    by (simp_all add: wrap64_def goQuot_def)
  have params: "predictorParameters p = (8, 2 ^ 60, 8)"
    using assms(3-5) by (simp add: predictorParameters_def max64_def)
  have "decodePNGPredictor data p = pngRows (- 1152921504606846975) int64_min data [] None 0"
    unfolding decodePNGPredictor_def params prod.case Let_def rowBytes bpp
    by (simp add: maxPDFImageStreamBytes_def)
  also have "\<dots> = Inl SlicePanic"
    using assms(6) by (subst pngRows.simps) (simp add: Let_def)
  finally show ?thesis using assms(1,2) by (simp add: decodePredictor_def)
qed

lemma png_geometry_overflow_panics_witness:
  "decodePredictor [0] \<lparr>dpPredictor = 12, dpColumns = 8, dpColors = 2 ^ 60, dpBits = 8, dpEarly = 1\<rparr> = Inl SlicePanic"
  by (rule png_geometry_overflow_panics) simp_all

end
