(* ===== verification/PdfLZW.thy ===== *)
theory PdfLZW
  imports PdfCodecs
begin

text \<open>
  The LZW decoder: it returns on every stream, and it inverts LZW encoding. The reference encoder
  keeps its own table, takes the longest entry that matches, and writes a code with the width that
  the PDF specification gives for the number of entries.
\<close>

subsection \<open>Reading codes\<close>

definition byteBits :: "byte \<Rightarrow> bool list" where
  "byteBits b = map (\<lambda>i. bit b (7 - i)) [0 ..< 8]"

definition bitsOf :: "bytes \<Rightarrow> bool list" where
  "bitsOf data = concat (map byteBits data)"

primrec codeBits :: "nat \<Rightarrow> nat \<Rightarrow> bool list" where
  "codeBits 0 c = []"
| "codeBits (Suc w) c = bit c w # codeBits w c"

abbreviation bitsValue :: "nat \<Rightarrow> bool list \<Rightarrow> nat" where
  "bitsValue n bs \<equiv> foldl (\<lambda>n b. 2 * n + of_bool b) n bs"

lemma codeBits_length [simp]: "length (codeBits w c) = w"
  by (induction w) simp_all

lemma codeBits_value: "bitsValue n (codeBits w c) = n * 2 ^ w + take_bit w c"
  by (induction w arbitrary: n) (simp_all add: take_bit_Suc_from_most algebra_simps)

lemma bitsOf_length [simp]: "length (bitsOf data) = length data * 8"
  by (induction data) (simp_all add: bitsOf_def byteBits_def)

lemma bitsOf_nth: "k < length data * 8 \<Longrightarrow> bitsOf data ! k = bit (data ! (k div 8)) (7 - k mod 8)"
proof (induction data arbitrary: k)
  case (Cons b data)
  show ?case
  proof (cases "k < 8")
    case True
    then show ?thesis by (simp add: bitsOf_def byteBits_def nth_append)
  next
    case False
    then obtain j where k: "k = j + 8" by (metis add.commute le_Suc_ex linorder_not_less)
    then have "k div 8 = Suc (j div 8)" by simp
    with k Cons show ?thesis by (simp add: bitsOf_def byteBits_def nth_append)
  qed
qed simp

lemma readBits_step:
  "push_bit 1 (word_of_nat n :: 32 word) OR ucast (drop_bit k (b :: byte) AND 1) = word_of_nat (2 * n + of_bool (bit b k))"
proof -
  have "drop_bit k b AND 1 = of_bool (bit b k)"
    by (simp add: and_one_eq bit_iff_odd_drop_bit mod_2_eq_odd)
  then have "push_bit 1 (word_of_nat n :: 32 word) OR ucast (drop_bit k b AND 1)
      = push_bit 1 (word_of_nat n) OR of_bool (bit b k)" by simp
  also have "\<dots> = 2 * word_of_nat n + of_bool (bit b k)"
    by (cases "bit b k") (simp_all add: push_bit_eq_mult or_one_eq mult.commute)
  finally show ?thesis by simp
qed

lemma readBits_value:
  "position + width \<le> length data * 8 \<Longrightarrow>
    readBits data position width (word_of_nat n) = word_of_nat (bitsValue n (take width (drop position (bitsOf data))))"
proof (induction width arbitrary: position n)
  case (Suc width)
  then have p: "position < length data * 8" by simp
  then have "take (Suc width) (drop position (bitsOf data))
      = bitsOf data ! position # take width (drop (Suc position) (bitsOf data))"
    by (simp flip: Cons_nth_drop_Suc)
  moreover have "readBits data (position + 1) width
        (word_of_nat (2 * n + of_bool (bit (data ! (position div 8)) (7 - position mod 8))))
      = word_of_nat (bitsValue (2 * n + of_bool (bit (data ! (position div 8)) (7 - position mod 8)))
          (take width (drop (position + 1) (bitsOf data))))"
    using Suc.prems by (intro Suc.IH) simp
  ultimately show ?case unfolding readBits.simps readBits_step by (simp add: bitsOf_nth [OF p])
qed simp

lemma readerRead_code:
  assumes "drop position (bitsOf data) = codeBits w c @ rest" "c < 2 ^ w" "w \<le> 12" "position \<le> length data * 8"
  shows "\<exists>v. readerRead data position w = Some (v, position + w) \<and> unat v = c"
proof -
  have len: "position + w \<le> length data * 8"
    using arg_cong [OF assms(1), of length] assms(4) by simp
  have "readBits data position w 0 = word_of_nat (bitsValue 0 (codeBits w c))"
    using readBits_value [OF len, of 0] assms(1) by simp
  also have "bitsValue 0 (codeBits w c) = c" using assms(2) by (simp add: codeBits_value take_bit_nat_eq_self)
  finally have "readBits data position w 0 = word_of_nat c" .
  moreover have "c < 2 ^ 32" using assms(2,3) power_increasing [of w 32 "2 :: nat"] by simp
  ultimately show ?thesis using len assms(3) by (auto simp: readerRead_def unat_of_nat)
qed

subsection \<open>Returning\<close>

lemma readerRead_moves: "readerRead data position w = Some (v, position') \<Longrightarrow> position' = position + w \<and> position' \<le> length data * 8"
  by (auto simp: readerRead_def split: if_splits)

lemma lzwGrow_width: "9 \<le> lzWidth s \<Longrightarrow> 9 \<le> lzWidth (lzwGrow early entry s)"
  by (auto simp: lzwGrow_def Let_def split: option.splits)

lemma lzwGrow_position [simp]: "lzPosition (lzwGrow early entry s) = lzPosition s"
  by (auto simp: lzwGrow_def Let_def split: option.splits)

lemma lzwLoop_returns: "9 \<le> lzWidth s \<Longrightarrow> \<exists>r. lzwLoop early data s = Some r"
proof (induction "length data * 8 + 1 - lzPosition s" arbitrary: s rule: less_induct)
  case less
  show ?case
  proof (cases "readerRead data (lzPosition s) (lzWidth s)")
    case None
    then show ?thesis by (subst lzwLoop.simps) simp
  next
    case (Some vp)
    obtain v position where vp: "vp = (v, position)" by (cases vp)
    note move = readerRead_moves [OF Some [unfolded vp]]
    have IH: "\<exists>r. lzwLoop early data s' = Some r" if "lzPosition s' = position" "9 \<le> lzWidth s'" for s'
      using that move less.prems by (intro less.hyps) auto
    have clear: "\<exists>r. lzwLoop early data (lzwClear (s\<lparr>lzPosition := position\<rparr>)) = Some r"
      by (rule IH) (simp_all add: lzwClear_def)
    have grow: "\<exists>r. lzwLoop early data (lzwGrow early e (s\<lparr>lzPosition := position, lzOutput := x\<rparr>)) = Some r" for e x
      by (rule IH) (use less.prems in \<open>simp_all add: lzwGrow_width\<close>)
    show ?thesis using Some clear grow by (subst lzwLoop.simps) (auto simp: vp Let_def split: option.splits)
  qed
qed

subsection \<open>The reference encoder\<close>

text \<open>
  The width of the codes once the table has \<open>n\<close> entries: 9 to 12 bits, one entry early when
  \<open>EarlyChange\<close> asks for it.
\<close>

definition lzwWidth :: "bool \<Rightarrow> nat \<Rightarrow> nat" where
  "lzwWidth early n = (let m = n + boolToInt early in
     if m < 512 then 9 else if m < 1024 then 10 else if m < 2048 then 11 else 12)"

definition codeOf :: "bytes option list \<Rightarrow> bytes \<Rightarrow> nat" where
  "codeOf table w = length (takeWhile (\<lambda>e. e \<noteq> Some w) table)"

definition lzwAdd :: "bytes option list \<Rightarrow> bytes \<Rightarrow> bytes option list" where
  "lzwAdd table entry = (if length table < 4096 then table @ [Some entry] else table)"

fun lzwCodes :: "bool \<Rightarrow> bytes option list \<Rightarrow> bytes \<Rightarrow> bytes \<Rightarrow> bool list" where
  "lzwCodes early table w [] =
     codeBits (lzwWidth early (length table - 1)) (codeOf table w) @ codeBits (lzwWidth early (length table)) 257"
| "lzwCodes early table w (b # bs) =
     (if Some (w @ [b]) \<in> set table then lzwCodes early table (w @ [b]) bs
      else codeBits (lzwWidth early (length table - 1)) (codeOf table w) @ lzwCodes early (lzwAdd table (w @ [b])) [b] bs)"

fun lzwEncode :: "bool \<Rightarrow> bytes \<Rightarrow> bool list" where
  "lzwEncode early [] = codeBits 9 256 @ codeBits 9 257"
| "lzwEncode early (b # bs) = codeBits 9 256 @ lzwCodes early newLZWTable [b] bs"

function packBits :: "bool list \<Rightarrow> bytes" where
  "packBits bs = (if bs = [] then []
     else word_of_nat (bitsValue 0 (take 8 (bs @ replicate 8 False))) # packBits (drop 8 bs))"
  by pat_completeness auto
termination by (relation "measure length") auto

declare packBits.simps [simp del]

lemma bit_append:
  "bit (2 * m + of_bool x :: nat) (Suc k) = bit m k" "bit (2 * m + of_bool x :: nat) 0 = x"
  by (simp_all add: bit_Suc bit_0)

lemma bit_bitsValue: "i < length xs \<Longrightarrow> bit (bitsValue n xs) (length xs - Suc i) = xs ! i"
proof (induction xs arbitrary: i rule: rev_induct)
  case (snoc x xs)
  show ?case
  proof (cases "i < length xs")
    case True
    then have "length (xs @ [x]) - Suc i = Suc (length xs - Suc i)" by simp
    then show ?thesis using snoc.IH [OF True] True by (simp only: foldl_append foldl_Cons foldl_Nil bit_append) (simp add: nth_append)
  next
    case False
    with snoc.prems show ?thesis by (simp add: nth_append bit_append(2) del: One_nat_def)
  qed
qed simp

lemma word_bits:
  assumes "length bs = 8"
  shows "byteBits (word_of_nat (bitsValue 0 bs)) = bs"
proof (rule nth_equalityI)
  show "byteBits (word_of_nat (bitsValue 0 bs)) ! i = bs ! i" if "i < length (byteBits (word_of_nat (bitsValue 0 bs)))" for i
    using that assms bit_bitsValue [of i bs 0] by (auto simp: byteBits_def bit_of_nat_iff)
qed (simp add: byteBits_def assms)

lemma bitsOf_packBits: "\<exists>n. bitsOf (packBits bs) = bs @ replicate n False"
proof (induction bs rule: packBits.induct)
  case (1 bs)
  show ?case
  proof (cases "bs = []")
    case False
    from "1.IH" [OF False] obtain n where n: "bitsOf (packBits (drop 8 bs)) = drop 8 bs @ replicate n False" by blast
    let ?byte = "take 8 (bs @ replicate 8 False)"
    have byte: "byteBits (word_of_nat (bitsValue 0 ?byte)) = ?byte" by (rule word_bits) simp
    have "bitsOf (packBits bs) = ?byte @ drop 8 bs @ replicate n False"
      using False n byte by (subst packBits.simps) (simp add: bitsOf_def)
    also have "\<dots> = bs @ replicate (8 - length bs + n) False"
      by (cases "length bs \<le> 8") (simp_all flip: replicate_add)
    finally show ?thesis by blast
  qed (simp add: packBits.simps bitsOf_def)
qed

subsection \<open>Decoder and encoder in step\<close>

text \<open>
  A table is well formed when it starts as \<open>newLZWTable\<close>, holds no empty entry and at most 4096.
  Before the code of \<open>w\<close> the decoder's table is the encoder's, or lacks the encoder's last
  entry, whose last byte is the first of \<open>w\<close>.
\<close>

definition lzw_table :: "bytes option list \<Rightarrow> bool" where
  "lzw_table t \<longleftrightarrow> take 258 t = newLZWTable \<and> Some [] \<notin> set t \<and> length t \<le> 4096"

definition lzw_sync :: "bool \<Rightarrow> bytes option list \<Rightarrow> bytes \<Rightarrow> LZWState \<Rightarrow> bool" where
  "lzw_sync early E w s \<longleftrightarrow> lzw_table E \<and> Some w \<in> set E
     \<and> lzNextCode s = length (lzTable s) \<and> lzWidth s = lzwWidth early (length (lzTable s))
     \<and> (E = lzTable s \<and> (lzPrevious s = None \<and> length E = 258 \<or> length E = 4096 \<and> lzPrevious s \<noteq> None)
        \<or> (\<exists>p. lzPrevious s = Some p \<and> p \<noteq> [] \<and> 258 \<le> length (lzTable s)
            \<and> E = lzTable s @ [Some (p @ [hd w])]))"

lemma newLZWTable_length [simp]: "length newLZWTable = 258"
  by (simp add: newLZWTable_def)

lemma newLZWTable_nth: "newLZWTable ! 256 = None" "newLZWTable ! 257 = None" "Some [b] \<in> set newLZWTable"
proof -
  show "newLZWTable ! 256 = None" "newLZWTable ! 257 = None" by (simp_all add: newLZWTable_def nth_append)
  have "Some [b] = Some [word_of_nat (unat b)]" "unat b \<in> set [0 ..< 256]"
    using unsigned_less [of b, where ?'a = nat] by simp_all
  then show "Some [b] \<in> set newLZWTable" unfolding newLZWTable_def set_append set_map by (intro UnI1 image_eqI)
qed

lemma lzw_table_new: "lzw_table newLZWTable"
proof -
  have "Some [] \<notin> set newLZWTable"
  proof
    assume "Some [] \<in> set newLZWTable"
    then have "Some [] \<in> (\<lambda>i. Some [word_of_nat i :: byte]) ` set [0 ..< 256] \<union> {None}"
      unfolding newLZWTable_def set_append set_map list.set by blast
    then show False by blast
  qed
  then show ?thesis by (simp add: lzw_table_def)
qed

lemma lzw_table_nth:
  assumes "lzw_table t"
  shows "258 \<le> length t" "t ! 256 = None" "t ! 257 = None" "Some [b] \<in> set t"
proof -
  have t: "take 258 t = newLZWTable" using assms by (simp add: lzw_table_def)
  from arg_cong [OF this, of length] show len: "258 \<le> length t" by simp
  have "t ! i = newLZWTable ! i" if "i < 258" for i using that t by (metis nth_take)
  from this [of 256] this [of 257] show "t ! 256 = None" "t ! 257 = None" by (simp_all add: newLZWTable_nth)
  from newLZWTable_nth(3) [of b] show "Some [b] \<in> set t" unfolding t [symmetric] by (rule in_set_takeD)
qed

lemma lzw_table_add: "lzw_table t \<Longrightarrow> e \<noteq> [] \<Longrightarrow> lzw_table (lzwAdd t e)"
  using lzw_table_nth(1) [of t] by (auto simp: lzw_table_def lzwAdd_def)

lemma codeOf_nth:
  assumes "Some w \<in> set t"
  shows "codeOf t w < length t \<and> t ! codeOf t w = Some w"
proof -
  have "length (takeWhile (\<lambda>e. e \<noteq> Some w) t) < length t" using assms by (induction t) auto
  with nth_length_takeWhile [OF this] show ?thesis by (simp add: codeOf_def)
qed

lemma codeOf_literal:
  assumes "lzw_table t" "Some w \<in> set t"
  shows "codeOf t w \<noteq> 256" "codeOf t w \<noteq> 257"
  using codeOf_nth [OF assms(2)] lzw_table_nth(2,3) [OF assms(1)] by auto

lemma lzwWidth_bounds:
  "9 \<le> lzwWidth early n" "lzwWidth early n \<le> 12" "n < 4096 \<Longrightarrow> n < 2 ^ lzwWidth early n"
  by (auto simp: lzwWidth_def Let_def)

lemma lzwWidth_next:
  "258 \<le> n \<Longrightarrow> (if 2 ^ lzwWidth early n \<le> n + 1 + boolToInt early \<and> lzwWidth early n < 12 then lzwWidth early n + 1
     else lzwWidth early n) = lzwWidth early (n + 1)"
  by (auto simp: lzwWidth_def boolToInt_def Let_def)

lemma lzwWidth_last: "4095 \<le> n \<Longrightarrow> lzwWidth early n = 12" "lzwWidth early 258 = 9" "lzwWidth early 257 = 9"
  by (auto simp: lzwWidth_def boolToInt_def Let_def)

lemma sync_width:
  assumes "lzw_sync early E w s"
  shows "lzWidth s = lzwWidth early (length E - 1)"
  using assms lzwWidth_last by (auto simp: lzw_sync_def)

lemma sync_entry:
  assumes "lzw_sync early E w s"
  shows "lzwEntry (lzTable s) (lzPrevious s) (codeOf E w) = Some w"
proof -
  have w: "Some w \<in> set E" using assms by (simp add: lzw_sync_def)
  note code = codeOf_nth [OF w]
  show ?thesis
  proof (cases "codeOf E w < length (lzTable s)")
    case True
    with assms code show ?thesis by (auto simp: lzw_sync_def lzwEntry_def nth_append)
  next
    case False
    with assms code obtain p where p: "lzPrevious s = Some p" "p \<noteq> []" "E = lzTable s @ [Some (p @ [hd w])]"
      by (auto simp: lzw_sync_def)
    with False code have c: "codeOf E w = length (lzTable s)" by simp
    with code p have "w = p @ [hd w]" by (simp add: nth_append)
    then have "hd w = hd p" using p(2) by (metis hd_append2)
    with p c \<open>w = p @ [hd w]\<close> show ?thesis by (simp add: lzwEntry_def)
  qed
qed

text \<open>After the code of \<open>w\<close> the two tables agree.\<close>

lemma sync_grow:
  assumes "lzw_sync early E w s" "s' = lzwGrow early w (s\<lparr>lzPosition := q, lzOutput := x\<rparr>)"
  shows "lzTable s' = E" "lzNextCode s' = length E" "lzWidth s' = lzwWidth early (length E)" "lzPrevious s' = Some w"
    "lzOutput s' = x" "lzPosition s' = q"
proof -
  have len: "length E \<le> 4096" "258 \<le> length E"
    using assms(1) lzw_table_nth(1) by (auto simp: lzw_sync_def lzw_table_def)
  have "lzTable s' = E \<and> lzNextCode s' = length E \<and> lzWidth s' = lzwWidth early (length E) \<and> lzPrevious s' = Some w
    \<and> lzOutput s' = x \<and> lzPosition s' = q"
  proof (cases "E = lzTable s")
    case True
    with assms len show ?thesis by (auto simp: lzw_sync_def lzwGrow_def split: option.splits)
  next
    case False
    with assms(1) obtain p where p: "lzPrevious s = Some p" "E = lzTable s @ [Some (p @ [hd w])]"
      "lzNextCode s = length (lzTable s)" "lzWidth s = lzwWidth early (length (lzTable s))"
      and n: "258 \<le> length (lzTable s)" "length (lzTable s) < 4096"
      using len(1) by (auto simp: lzw_sync_def)
    show ?thesis using p n lzwWidth_next [OF n(1), of early] unfolding assms(2) lzwGrow_def by (auto simp: Let_def split: if_splits)
  qed
  then show "lzTable s' = E" "lzNextCode s' = length E" "lzWidth s' = lzwWidth early (length E)" "lzPrevious s' = Some w"
    "lzOutput s' = x" "lzPosition s' = q" by blast+
qed

text \<open>Decoding from a synchronised state gives back the pending entry and the rest of the input.\<close>

lemma loop_code:
  assumes "lzw_sync early E w s" "lzPosition s \<le> length data * 8"
    "drop (lzPosition s) (bitsOf data) = codeBits (lzwWidth early (length E - 1)) (codeOf E w) @ rest"
  shows "\<exists>s'. lzwLoop early data s = lzwLoop early data s' \<and> lzTable s' = E \<and> lzNextCode s' = length E
    \<and> lzWidth s' = lzwWidth early (length E) \<and> lzPrevious s' = Some w \<and> lzOutput s' = lzOutput s @ w
    \<and> lzPosition s' \<le> length data * 8 \<and> drop (lzPosition s') (bitsOf data) = rest"
proof -
  let ?n = "lzwWidth early (length E - 1)" and ?c = "codeOf E w"
  have E: "lzw_table E" "Some w \<in> set E" using assms(1) by (auto simp: lzw_sync_def)
  have c: "?c < 2 ^ ?n"
  proof -
    have "?c \<le> length E - 1" "length E - 1 < 4096" using codeOf_nth [OF E(2)] E(1) by (auto simp: lzw_table_def)
    with lzwWidth_bounds(3) [of "length E - 1" early] show ?thesis by linarith
  qed
  obtain v where v: "readerRead data (lzPosition s) ?n = Some (v, lzPosition s + ?n)" "unat v = ?c"
    using readerRead_code [OF assms(3) c lzwWidth_bounds(2) assms(2)] by blast
  let ?s = "lzwGrow early w (s\<lparr>lzPosition := lzPosition s + ?n, lzOutput := lzOutput s @ w\<rparr>)"
  have "lzwLoop early data s = lzwLoop early data ?s"
    using v codeOf_literal [OF E] sync_entry [OF assms(1)]
    by (subst lzwLoop.simps) (simp add: sync_width [OF assms(1)] Let_def)
  moreover have "lzPosition s + ?n \<le> length data * 8" using readerRead_moves [OF v(1)] by simp
  moreover have "drop (lzPosition s + ?n) (bitsOf data) = rest"
    using arg_cong [OF assms(3), of "drop ?n"] by (simp add: add.commute)
  ultimately show ?thesis using sync_grow [OF assms(1) refl, of "lzOutput s @ w" "lzPosition s + ?n"] by metis
qed

lemma loop_codes:
  assumes "lzw_sync early E w s" "lzPosition s \<le> length data * 8"
    "drop (lzPosition s) (bitsOf data) = lzwCodes early E w bs @ rest"
  shows "lzwLoop early data s = Some (boundedDecoded (Inr (lzOutput s @ w @ bs)))"
  using assms
proof (induction early E w bs arbitrary: s rule: lzwCodes.induct)
  case (1 early E w)
  from loop_code [OF "1.prems"(1,2)] "1.prems"(3) obtain s' where s': "lzwLoop early data s = lzwLoop early data s'"
    "lzWidth s' = lzwWidth early (length E)" "lzOutput s' = lzOutput s @ w" "lzPosition s' \<le> length data * 8"
    "drop (lzPosition s') (bitsOf data) = codeBits (lzwWidth early (length E)) 257 @ rest"
    by (metis append.assoc lzwCodes.simps(1))
  have "257 < (2 :: nat) ^ lzwWidth early (length E)"
    using power_increasing [OF lzwWidth_bounds(1), of "2 :: nat" early "length E"] by simp
  from readerRead_code [OF s'(5) this lzwWidth_bounds(2) s'(4)] obtain v q where
    "readerRead data (lzPosition s') (lzwWidth early (length E)) = Some (v, q)" "unat v = 257" by blast
  then show ?case unfolding s'(1) using s'(2,3) by (subst lzwLoop.simps) (simp add: Let_def)
next
  case (2 early E w b bs)
  show ?case
  proof (cases "Some (w @ [b]) \<in> set E")
    case True
    have "w \<noteq> []" using "2.prems"(1) by (auto simp: lzw_sync_def lzw_table_def)
    then have "lzw_sync early E (w @ [b]) s" using "2.prems"(1) True by (auto simp: lzw_sync_def)
    with "2.IH"(1) [OF True] "2.prems" True show ?thesis by simp
  next
    case False
    from loop_code [OF "2.prems"(1,2)] "2.prems"(3) False obtain s' where s': "lzwLoop early data s = lzwLoop early data s'"
      "lzTable s' = E" "lzNextCode s' = length E" "lzWidth s' = lzwWidth early (length E)" "lzPrevious s' = Some w"
      "lzOutput s' = lzOutput s @ w" "lzPosition s' \<le> length data * 8"
      "drop (lzPosition s') (bitsOf data) = lzwCodes early (lzwAdd E (w @ [b])) [b] bs @ rest"
      by (metis append.assoc lzwCodes.simps(2))
    have E: "lzw_table E" "w \<noteq> []" using "2.prems"(1) by (auto simp: lzw_sync_def lzw_table_def)
    have "lzw_table (lzwAdd E (w @ [b]))" using lzw_table_add [OF E(1)] by simp
    then have "lzw_sync early (lzwAdd E (w @ [b])) [b] s'"
      using s'(2-5) E(2) lzw_table_nth(1) [OF E(1)] E(1) lzw_table_nth(4) [of "lzwAdd E (w @ [b])" b]
      by (auto simp: lzw_sync_def lzwAdd_def lzw_table_def)
    from "2.IH"(2) [OF False this s'(7,8)] show ?thesis unfolding s'(1) using s'(6) by simp
  qed
qed

subsection \<open>Properties\<close>

lemma lzwLoop_result:
  "lzwLoop early data s = Some r \<Longrightarrow> (case r of Inl e \<Rightarrow> e \<in> {LZWTruncated, StreamTooLarge} \<or> (\<exists>c. e = LZWCode c)
     | Inr out \<Rightarrow> length out \<le> maxPDFImageStreamBytes)"
proof (induction rule: lzwLoop.raw_induct [rotated, consumes 1, case_names step])
  case (step loop early data s r)
  then show ?case
    by (auto simp: Let_def boundedDecoded_def split: option.splits if_splits)
qed

text \<open>
  C19: The LZW decoder returns on every stream of bytes: either bytes within the size limit or one of
  three errors, a truncated stream, an unknown code or too much output.
\<close>

theorem lzw_returns:
  "\<exists>r. decodeLZW data p = Some r \<and> (case r of Inl e \<Rightarrow> e \<in> {LZWTruncated, StreamTooLarge} \<or> (\<exists>c. e = LZWCode c)
     | Inr out \<Rightarrow> length out \<le> maxPDFImageStreamBytes)"
proof -
  obtain r where r: "decodeLZW data p = Some r"
    unfolding decodeLZW_def using lzwLoop_returns by fastforce
  from lzwLoop_result [OF r [unfolded decodeLZW_def]] r show ?thesis by blast
qed

text \<open>
  C18: Decoding inverts LZW encoding for every byte sequence and both settings of \<open>EarlyChange\<close>,
  through every growth of the code width and a full table, whatever follows the end code; only the
  size limit can make it fail.
\<close>

theorem lzw_roundtrip:
  "decodeLZW (packBits (lzwEncode (dpEarly p \<noteq> 0) bs) @ rest) p = Some (boundedDecoded (Inr bs))"
proof -
  let ?early = "dpEarly p \<noteq> 0"
  let ?data = "packBits (lzwEncode ?early bs) @ rest"
  let ?s0 = "\<lparr>lzPosition = 0, lzTable = newLZWTable, lzWidth = 9, lzNextCode = 258, lzPrevious = None, lzOutput = []\<rparr>"
  obtain tail where data: "bitsOf ?data = lzwEncode ?early bs @ tail"
    using bitsOf_packBits [of "lzwEncode ?early bs"] by (auto simp: bitsOf_def)
  define more where "more = (case bs of [] \<Rightarrow> codeBits 9 257 | b # bs' \<Rightarrow> lzwCodes ?early newLZWTable [b] bs')"
  have bits: "bitsOf ?data = codeBits 9 256 @ more @ tail" using data by (cases bs) (simp_all add: more_def)
  then obtain v where v: "readerRead ?data 0 9 = Some (v, 9)" "unat v = 256"
    using readerRead_code [of 0 ?data 9 256 "more @ tail"] by auto
  have q: "9 \<le> length ?data * 8" using readerRead_moves [OF v(1)] by simp
  have rest: "drop 9 (bitsOf ?data) = more @ tail" using bits by simp
  let ?s1 = "lzwClear (?s0\<lparr>lzPosition := 9\<rparr>)"
  have clear: "lzwLoop ?early ?data ?s0 = lzwLoop ?early ?data ?s1"
    using v by (subst lzwLoop.simps) (simp add: Let_def)
  have "lzwLoop ?early ?data ?s1 = Some (boundedDecoded (Inr bs))"
  proof (cases bs)
    case Nil
    then obtain w q' where "readerRead ?data 9 9 = Some (w, q')" "unat w = 257"
      using readerRead_code [of 9 ?data 9 257 tail] rest q by (auto simp: more_def)
    then show ?thesis by (subst lzwLoop.simps) (simp add: lzwClear_def Let_def Nil)
  next
    case (Cons b bs')
    have "lzw_sync ?early newLZWTable [b] ?s1"
      by (simp add: lzw_sync_def lzwClear_def lzw_table_new newLZWTable_nth(3) lzwWidth_last)
    from loop_codes [OF this, of ?data bs' tail] q rest show ?thesis by (simp add: lzwClear_def more_def Cons)
  qed
  with clear show ?thesis by (simp add: decodeLZW_def)
qed

end
