(* ===== verification/PdfSyntaxProperties.thy ===== *)
theory PdfSyntaxProperties
  imports PdfFilters
begin

text \<open>
  The dictionary scanner reads back what a writer of decode parameters prints.
\<close>

subsection \<open>Numbers\<close>

definition numeric :: "char \<Rightarrow> bool" where
  "numeric c \<longleftrightarrow> c = CHR ''-'' \<or> digitValue c \<noteq> None"

lemma formatInt_numeric: "c \<in> set (formatInt n) \<Longrightarrow> numeric c"
  using natDigits_all_digits by (fastforce simp: formatInt_def numeric_def split: if_splits)

lemma formatInt_not_empty: "formatInt n \<noteq> []"
  by (simp add: formatInt_def natDigits_unsigned)

lemma delimiters:
  "pdfIsDelimiter CHR ''<''" "pdfIsDelimiter CHR ''[''" "pdfIsDelimiter CHR ''(''" "pdfIsDelimiter CHR ''/''" "pdfIsDelimiter CHR '' ''"
  by (simp_all add: pdfIsDelimiter_def)

lemma numeric_regular: "pdfIsDelimiter c \<Longrightarrow> \<not> numeric c"
  by (auto simp: pdfIsDelimiter_def numeric_def digitValue_def)

lemma space_delimiter: "pdfSpace c \<Longrightarrow> pdfIsDelimiter c"
  by (auto simp: pdfIsDelimiter_def pdfSpace_def)

lemma leading_numeric:
  assumes "list_all numeric s" "\<forall>e \<in> set encs. e \<noteq> [] \<longrightarrow> \<not> numeric (hd e)"
  shows "stripLeading encs s = s"
proof -
  have "\<not> (e \<noteq> [] \<and> hasPrefix s e)" if "e \<in> set encs" for e
    using assms that by (cases e) (auto simp: hasPrefix_append list_all_iff)
  then have "leading encs s = None" unfolding leading_def find_None_iff by blast
  then show ?thesis by (simp add: stripLeading.simps [of encs s])
qed

lemma trimSpace_numeric:
  assumes "list_all numeric s"
  shows "trimSpace s = s"
proof -
  have "stripLeading spaceEncodings s = s"
    by (rule leading_numeric [OF assms]) (simp add: spaceEncodings_def numeric_def digitValue_def)
  moreover have "stripLeading (map rev spaceEncodings) (rev s) = rev s"
    by (rule leading_numeric) (use assms in \<open>simp_all add: spaceEncodings_def numeric_def digitValue_def\<close>)
  ultimately show ?thesis by (simp add: trimSpace_def trimLeft_def trimRight_def)
qed

lemma parse_printed: "int64_min \<le> n \<Longrightarrow> n \<le> int64_max \<Longrightarrow> parseInt (trimSpace (formatInt n)) = Some n"
  using trimSpace_numeric [of "formatInt n"] formatInt_numeric by (simp add: list_all_iff)

subsection \<open>Looking up a key\<close>

definition entry :: "string \<times> int \<Rightarrow> string" where
  "entry kv = ''/'' @ fst kv @ '' '' @ formatInt (snd kv) @ '' ''"

definition printDictionary :: "(string \<times> int) list \<Rightarrow> string" where
  "printDictionary kvs = ''<< '' @ concat (map entry kvs) @ ''>>''"

definition regularName :: "string \<Rightarrow> bool" where
  "regularName k \<longleftrightarrow> list_all (\<lambda>c. \<not> pdfIsDelimiter c) k"

lemma valueFrom_step:
  assumes "\<not> hasPrefix (drop i dict) search" "i < length dict" "search \<noteq> []"
  shows "valueFrom dict search i = valueFrom dict search (i + 1)"
proof -
  have drop: "drop i dict = dict ! i # drop (i + 1) dict" using assms(2) by (simp flip: Cons_nth_drop_Suc)
  have idx: "indexOf (drop i dict) search = map_option Suc (indexOf (drop (i + 1) dict) search)"
    using assms(1) unfolding drop by simp
  have short: "indexOf (drop (i + 1) dict) search = None" if "length dict < i + 1 + length search"
    using indexOf_Some [of "drop (i + 1) dict" search] that assms(2,3)
    by (cases "indexOf (drop (i + 1) dict) search") auto
  show ?thesis
    using short unfolding valueFrom.simps [of dict search i] valueFrom.simps [of dict search "i + 1"] idx
    by (auto simp: Let_def split: option.splits)
qed

lemma valueFrom_skip:
  assumes "CHR ''/'' \<notin> set xs"
  shows "valueFrom (pre @ xs @ ys) (''/'' @ key) (length pre) = valueFrom (pre @ xs @ ys) (''/'' @ key) (length (pre @ xs))"
  using assms
proof (induction xs arbitrary: pre)
  case (Cons x xs)
  have "valueFrom (pre @ (x # xs) @ ys) (''/'' @ key) (length pre)
      = valueFrom (pre @ (x # xs) @ ys) (''/'' @ key) (length pre + 1)"
    by (rule valueFrom_step) (use Cons.prems in \<open>auto simp: hasPrefix_def\<close>)
  also have "\<dots> = valueFrom ((pre @ [x]) @ xs @ ys) (''/'' @ key) (length (pre @ [x]))" by simp
  also have "\<dots> = valueFrom ((pre @ [x]) @ xs @ ys) (''/'' @ key) (length ((pre @ [x]) @ xs))"
    by (rule Cons.IH) (use Cons.prems in simp)
  finally show ?case by simp
qed simp

lemma pdfNextValue_number:
  "pdfNextValue ('' '' @ formatInt n @ '' '' @ rest) = Some (formatInt n)"
proof -
  obtain c s where fmt: "formatInt n = c # s" using formatInt_not_empty [of n] by (cases "formatInt n") auto
  have c: "numeric c" and all: "list_all numeric (c # s)"
    using formatInt_numeric [of _ n] by (auto simp: fmt list_all_iff)
  have "\<not> pdfSpace c" "\<not> pdfIsDelimiter c" "c \<noteq> CHR ''<''" "c \<noteq> CHR ''[''" "c \<noteq> CHR ''(''" "c \<noteq> CHR ''/''"
    using c numeric_regular space_delimiter delimiters by blast+
  moreover have "regularRun ((c # s) @ '' '' @ rest) = c # s"
    unfolding regularRun_def using all numeric_regular
    by (subst takeWhile_append2) (auto simp: list_all_iff delimiters)
  ultimately show ?thesis by (simp add: pdfNextValue_def pdfTrimSpace_def fmt pdfSpace_def)
qed

lemma valueFrom_entries:
  assumes "list_all (regularName \<circ> fst) kvs" "regularName key" "pre \<noteq> []" "pdfIsDelimiter (last pre)"
  shows "valueFrom (pre @ concat (map entry kvs) @ ''>>'') (''/'' @ key) (length pre) = map_option formatInt (map_of kvs key)"
  using assms(1,3,4)
proof (induction kvs arbitrary: pre)
  case Nil
  then show ?case by (subst valueFrom.simps) (auto simp: hasPrefix_def)
next
  case (Cons kv kvs)
  obtain k n where kv: "kv = (k, n)" by (cases kv)
  have k: "regularName k" using Cons.prems(1) by (simp add: kv)
  let ?tail = "concat (map entry kvs) @ ''>>''"
  let ?item = "k @ '' '' @ formatInt n @ '' ''"
  let ?dict = "pre @ ''/'' @ ?item @ ?tail"
  have eq: "pre @ concat (map entry ((k, n) # kvs)) @ ''>>'' = ?dict" by (simp add: entry_def)
  have "CHR ''/'' \<notin> set ?item"
    using k formatInt_numeric [of "CHR ''/''" n] numeric_regular delimiters(4)
    by (auto simp: regularName_def list_all_iff)
  then have "valueFrom ((pre @ ''/'') @ ?item @ ?tail) (''/'' @ key) (length (pre @ ''/''))
      = valueFrom ((pre @ ''/'') @ ?item @ ?tail) (''/'' @ key) (length ((pre @ ''/'') @ ?item))"
    by (rule valueFrom_skip)
  also have "\<dots> = map_option formatInt (map_of kvs key)"
    using Cons.IH [of "(pre @ ''/'') @ ?item"] Cons.prems(1) by (simp add: pdfIsDelimiter_def)
  finally have next_entry: "valueFrom ?dict (''/'' @ key) (length pre + 1) = map_option formatInt (map_of kvs key)" by simp
  show ?case
  proof (cases "hasPrefix (''/'' @ ?item @ ?tail) (''/'' @ key)")
    case False
    then have "k \<noteq> key" by (auto simp: hasPrefix_append)
    moreover have "valueFrom ?dict (''/'' @ key) (length pre) = valueFrom ?dict (''/'' @ key) (length pre + 1)"
      by (rule valueFrom_step) (use False in auto)
    ultimately show ?thesis using next_entry unfolding kv eq by simp
  next
    case True
    then obtain t where t: "?item @ ?tail = key @ t" by (auto simp: hasPrefix_append)
    have here: "drop (length pre) ?dict = ''/'' @ ?item @ ?tail" by simp
    have found: "indexOf (drop (length pre) ?dict) (''/'' @ key) = Some 0"
      using True unfolding here by simp
    have len: "length (''/'' @ ?item @ ?tail) = 1 + length key + length t" unfolding t by simp
    have before: "length pre \<noteq> 0" "pdfIsDelimiter (byteAt ?dict (length pre - 1))"
      using Cons.prems(2,3) by (auto simp: byteAt_def nth_append last_conv_nth)
    have after: "drop (length pre + length (''/'' @ key)) ?dict = t"
      "byteAt ?dict (length pre + length (''/'' @ key)) = byteAt t 0"
    proof -
      have d: "?dict = (pre @ ''/'' @ key) @ t" using t by simp
      show "drop (length pre + length (''/'' @ key)) ?dict = t" unfolding d by simp
      show "byteAt ?dict (length pre + length (''/'' @ key)) = byteAt t 0" unfolding d by (simp add: byteAt_def nth_append)
    qed
    have unfold: "valueFrom ?dict (''/'' @ key) (length pre) =
        (if pdfIsDelimiter (byteAt t 0) \<and> pdfNextValue t \<noteq> None then pdfNextValue t
         else valueFrom ?dict (''/'' @ key) (length pre + 1))"
      using len before unfolding valueFrom.simps [of ?dict "''/'' @ key" "length pre"] found
      by (simp only: Let_def option.case add_0 after) simp
    show ?thesis
    proof (cases "k = key")
      case True
      with t have "t = '' '' @ formatInt n @ '' '' @ ?tail" by simp
      then show ?thesis
        using pdfNextValue_number [of n ?tail] unfolding kv eq unfold
        by (simp add: byteAt_def pdfIsDelimiter_def True)
    next
      case False
      obtain us where us: "k = key @ us \<or> key = k @ us" using t append_eq_append_conv2 [of k] by auto
      have "\<exists>u us'. us = u # us' \<and> k = key @ us"
      proof -
        have "k = key @ us"
        proof (rule ccontr)
          assume "k \<noteq> key @ us"
          with us have key: "key = k @ us" by simp
          with False obtain u us' where "us = u # us'" by (cases us) auto
          with t key have "u = CHR '' ''" by simp
          then show False using assms(2) key \<open>us = u # us'\<close> by (simp add: regularName_def pdfIsDelimiter_def)
        qed
        with False show ?thesis by (cases us) auto
      qed
      then obtain u us' where u: "k = key @ u # us'" by blast
      with t have "byteAt t 0 = u" by (auto simp: byteAt_def)
      moreover have "\<not> pdfIsDelimiter u" using k u by (simp add: regularName_def)
      ultimately show ?thesis using next_entry False unfolding kv eq unfold by simp
    qed
  qed
qed

text \<open>The decode parameters of a filter, printed as a dictionary.\<close>

definition printParameters :: "DecodeParameters \<Rightarrow> string" where
  "printParameters p = printDictionary [(''Predictor'', dpPredictor p), (''Columns'', dpColumns p), (''Colors'', dpColors p),
     (''BitsPerComponent'', dpBits p), (''EarlyChange'', dpEarly p)]"

definition int64 :: "int \<Rightarrow> bool" where
  "int64 n \<longleftrightarrow> int64_min \<le> n \<and> n \<le> int64_max"

text \<open>
  The decode parameters of an image filter survive being written and scanned: reading the
  dictionary printed from any parameters that fit \<open>int64\<close> gives these parameters back.
\<close>

theorem parameters_roundtrip:
  assumes "int64 (dpPredictor p)" "int64 (dpColumns p)" "int64 (dpColors p)" "int64 (dpBits p)" "int64 (dpEarly p)"
  shows "readParameters (printParameters p) = p"
proof -
  let ?kvs = "[(''Predictor'', dpPredictor p), (''Columns'', dpColumns p), (''Colors'', dpColors p),
     (''BitsPerComponent'', dpBits p), (''EarlyChange'', dpEarly p)]"
  have names: "list_all (regularName \<circ> fst) ?kvs" by (simp add: regularName_def pdfIsDelimiter_def)
  have num: "pdfDictionaryNumber (printParameters p) key d = n" if "(key, n) \<in> set ?kvs" "int64 n" for key n d
  proof -
    have key: "regularName key" "map_of ?kvs key = Some n" using that(1) names by (auto simp: regularName_def pdfIsDelimiter_def)
    have "valueFrom (printParameters p) (''/'' @ key) 0 = valueFrom (printParameters p) (''/'' @ key) 3"
      using valueFrom_skip [of "''<< ''" "[]" "concat (map entry ?kvs) @ ''>>''" key]
      by (simp add: printParameters_def printDictionary_def numeral_3_eq_3)
    also have "\<dots> = Some (formatInt n)"
      using valueFrom_entries [OF names key(1), of "''<< ''"] key(2)
      by (simp add: printParameters_def printDictionary_def pdfIsDelimiter_def numeral_3_eq_3)
    finally show ?thesis using that(2) by (simp add: pdfDictionaryNumber_def pdfDictionaryValue_def parse_printed int64_def)
  qed
  have "hasPrefix (printParameters p) ''<<''" by (simp add: printParameters_def printDictionary_def hasPrefix_def)
  then show ?thesis using assms by (simp add: readParameters_def num)
qed

lemma parameters_roundtrip_witness:
  "readParameters (printParameters \<lparr>dpPredictor = 15, dpColumns = 640, dpColors = 3, dpBits = 8, dpEarly = 0\<rparr>)
    = \<lparr>dpPredictor = 15, dpColumns = 640, dpColors = 3, dpBits = 8, dpEarly = 0\<rparr>"
  by (rule parameters_roundtrip) (simp_all add: int64_def)

end
