(* ===== verification/Base64.thy ===== *)
theory Base64
  imports GoNumber
begin

text \<open>
  \<open>base64.RawURLEncoding\<close>: groups of three bytes as four characters of the URL alphabet, without
  padding. Decoding skips carriage returns and newlines and does not look at the unused bits of
  the last character; every malformed text is None, as the callers ignore which error it was. The last
  part is \<open>encoding/hex\<close>.
\<close>

definition b64Char :: "nat \<Rightarrow> char" where
  "b64Char n = char_of (if n < 26 then 65 + n else if n < 52 then 71 + n else if n < 62 then n - 4
     else if n = 62 then 45 else 95)"

definition b64Value :: "char \<Rightarrow> nat option" where
  "b64Value c = (let k = of_char c in
     if 65 \<le> k \<and> k \<le> 90 then Some (k - 65)
     else if 97 \<le> k \<and> k \<le> 122 then Some (k - 71)
     else if 48 \<le> k \<and> k \<le> 57 then Some (k + 4)
     else if k = 45 then Some 62
     else if k = 95 then Some 63
     else None)"

definition sextets :: "nat \<Rightarrow> nat list" where
  "sextets v = [v div 262144 mod 64, v div 4096 mod 64, v div 64 mod 64, v mod 64]"

definition octets :: "nat \<Rightarrow> string" where
  "octets v = [char_of (v div 65536 mod 256), char_of (v div 256 mod 256), char_of (v mod 256)]"

fun toSextets :: "string \<Rightarrow> nat list" where
  "toSextets [] = []"
| "toSextets [a] = take 2 (sextets (of_char a * 65536))"
| "toSextets [a, b] = take 3 (sextets (of_char a * 65536 + of_char b * 256))"
| "toSextets (a # b # c # s) = sextets (of_char a * 65536 + of_char b * 256 + of_char c) @ toSextets s"

fun fromSextets :: "nat list \<Rightarrow> string option" where
  "fromSextets [] = Some []"
| "fromSextets [a] = None"
| "fromSextets [a, b] = Some (take 1 (octets (a * 262144 + b * 4096)))"
| "fromSextets [a, b, c] = Some (take 2 (octets (a * 262144 + b * 4096 + c * 64)))"
| "fromSextets (a # b # c # d # s) =
     map_option (\<lambda>t. octets (a * 262144 + b * 4096 + c * 64 + d) @ t) (fromSextets s)"

definition EncodeToString :: "string \<Rightarrow> string" where
  "EncodeToString s = map b64Char (toSextets s)"

definition DecodeString :: "string \<Rightarrow> string option" where
  "DecodeString s = (case those (map b64Value (filter (\<lambda>c. c \<noteq> CHR 0x0A \<and> c \<noteq> CHR 0x0D) s)) of
     None \<Rightarrow> None | Some vs \<Rightarrow> fromSextets vs)"

subsection \<open>Decoding inverts encoding\<close>

lemma b64Char_range: "n < 64 \<Longrightarrow> \<exists>k < 128. b64Char n = char_of k \<and> k \<noteq> (10::nat) \<and> k \<noteq> 13
     \<and> b64Value (char_of k) = Some n"
  by (rule exI [of _ "if n < 26 then 65 + n else if n < 52 then 71 + n else if n < 62 then n - 4
     else if n = 62 then 45 else 95"]) (auto simp: b64Char_def b64Value_def Let_def)

lemma b64Value_char [simp]: "n < 64 \<Longrightarrow> b64Value (b64Char n) = Some n"
  using b64Char_range by metis

lemma b64Char_not_break: "n < 64 \<Longrightarrow> b64Char n \<noteq> CHR 0x0A \<and> b64Char n \<noteq> CHR 0x0D"
proof -
  assume "n < 64"
  then have "b64Value (b64Char n) \<noteq> None" by simp
  moreover have "b64Value CHR 0x0A = None" "b64Value CHR 0x0D = None"
    by (simp_all add: b64Value_def)
  ultimately show ?thesis by metis
qed

lemma those_chars: "list_all (\<lambda>n. n < 64) vs \<Longrightarrow> those (map b64Value (map b64Char vs)) = Some vs"
  by (induction vs) auto

lemma no_breaks: "list_all (\<lambda>n. n < 64) vs \<Longrightarrow>
    filter (\<lambda>c. c \<noteq> CHR 0x0A \<and> c \<noteq> CHR 0x0D) (map b64Char vs) = map b64Char vs"
  by (induction vs) (simp_all add: b64Char_not_break)

lemma toSextets_range: "list_all (\<lambda>n. n < 64) (toSextets s)"
  by (induction s rule: toSextets.induct) (simp_all add: sextets_def)

lemma sextets_value: "v < 16777216 \<Longrightarrow>
    v div 262144 mod 64 * 262144 + v div 4096 mod 64 * 4096 + v div 64 mod 64 * 64 + v mod 64 = v" for v :: nat
proof -
  assume "v < 16777216"
  then have a: "v div 262144 mod 64 = v div 262144" by (simp add: div_less_iff_less_mult)
  have b: "v div 262144 * 64 + v div 4096 mod 64 = v div 4096"
    using div_mult_mod_eq [of "v div 4096" 64] by (simp add: div_mult2_eq [symmetric])
  have c: "v div 4096 * 64 + v div 64 mod 64 = v div 64"
    using div_mult_mod_eq [of "v div 64" 64] by (simp add: div_mult2_eq [symmetric])
  show ?thesis using a b c div_mult_mod_eq [of v 64] by linarith
qed

lemma digit_split: "w < k \<Longrightarrow> (x * k + w) div k = x \<and> (x * k + w) mod k = w" for w x k :: nat
  by simp

lemma octets_value: "octets (of_char a * 65536 + of_char b * 256 + of_char c) = [a, b, c]"
proof -
  have l: "of_char a < (256::nat)" "of_char b < (256::nat)" "of_char c < (256::nat)"
    by (rule nat_of_char_less_256)+
  have "(x * 65536 + y * 256 + z) div 65536 mod 256 = x \<and> (x * 65536 + y * 256 + z) div 256 mod 256 = y
    \<and> (x * 65536 + y * 256 + z) mod 256 = z" if "x < 256" "y < 256" "z < 256" for x y z :: nat
  proof -
    have "y * 256 + z < 65536" using that by linarith
    then have "(x * 65536 + (y * 256 + z)) div 65536 = x" using digit_split by blast
    moreover have "((x * 256 + y) * 256 + z) div 256 = x * 256 + y" "((x * 256 + y) * 256 + z) mod 256 = z"
      using digit_split [of z 256 "x * 256 + y"] that by simp_all
    moreover have "(x * 256 + y) mod 256 = y" using digit_split [of y 256 x] that by blast
    ultimately show ?thesis using that by (simp add: algebra_simps)
  qed
  from this [OF l] show ?thesis by (simp add: octets_def)
qed

lemma char_zero: "of_char (CHR 0x00) = (0::nat)"
  by simp

lemma fromSextets_toSextets: "fromSextets (toSextets s) = Some s"
proof (induction s rule: toSextets.induct)
  case (2 a)
  have l: "of_char a < (256::nat)" by (rule nat_of_char_less_256)
  define v :: nat where "v = of_char a * 65536"
  have "v = 64 * (64 * (of_char a * 16))" "v < 16777216" using l unfolding v_def by simp_all
  then have "v div 64 mod 64 = 0" "v mod 64 = 0" "v < 16777216"
    by (metis mod_mult_self1_is_0 nonzero_mult_div_cancel_left zero_neq_numeral)+
  with sextets_value [of v] have e: "v div 262144 mod 64 * 262144 + v div 4096 mod 64 * 4096 = v" by simp
  have "fromSextets (take 2 (sextets v)) = Some (take 1 (octets (v div 262144 mod 64 * 262144 + v div 4096 mod 64 * 4096)))"
    by (simp add: sextets_def)
  then have "fromSextets (toSextets [a]) = Some (take 1 (octets v))"
    unfolding toSextets.simps v_def [symmetric] e .
  then show ?case using octets_value [of a "CHR 0x00" "CHR 0x00"] by (simp add: v_def char_zero)
next
  case (3 a b)
  have l: "of_char a < (256::nat)" "of_char b < (256::nat)" by (rule nat_of_char_less_256)+
  define v :: nat where "v = of_char a * 65536 + of_char b * 256"
  have "v = 64 * (of_char a * 1024 + of_char b * 4)" "v < 16777216" using l unfolding v_def by (simp, linarith)
  then have "v mod 64 = 0" "v < 16777216" by simp_all
  with sextets_value [of v]
  have e: "v div 262144 mod 64 * 262144 + v div 4096 mod 64 * 4096 + v div 64 mod 64 * 64 = v" by simp
  have "fromSextets (take 3 (sextets v)) = Some (take 2 (octets
      (v div 262144 mod 64 * 262144 + v div 4096 mod 64 * 4096 + v div 64 mod 64 * 64)))"
    by (simp add: sextets_def numeral_3_eq_3)
  then have "fromSextets (toSextets [a, b]) = Some (take 2 (octets v))"
    unfolding toSextets.simps v_def [symmetric] e .
  then show ?case using octets_value [of a b "CHR 0x00"] by (simp add: v_def char_zero numeral_2_eq_2)
next
  case (4 a b c s)
  have l: "of_char a < (256::nat)" "of_char b < (256::nat)" "of_char c < (256::nat)"
    by (rule nat_of_char_less_256)+
  define v :: nat where "v = of_char a * 65536 + of_char b * 256 + of_char c"
  have "v < 16777216" using l unfolding v_def by linarith
  then have "fromSextets (sextets v @ toSextets s) = Some (octets v @ s)"
    using 4 by (simp only: sextets_def append.simps fromSextets.simps option.map sextets_value)
  then show ?case using octets_value [of a b c] by (simp add: v_def)
qed simp

lemma DecodeString_EncodeToString [simp]: "DecodeString (EncodeToString s) = Some s"
  unfolding DecodeString_def EncodeToString_def
  by (simp only: no_breaks [OF toSextets_range] those_chars [OF toSextets_range] option.case fromSextets_toSextets)

lemma EncodeToString_nonempty: "s \<noteq> [] \<Longrightarrow> EncodeToString s \<noteq> []"
  by (cases s rule: toSextets.cases) (simp_all add: EncodeToString_def sextets_def)

subsection \<open>Characters of an encoding\<close>

lemma EncodeToString_chars: "c \<in> set (EncodeToString s) \<Longrightarrow> b64Value c \<noteq> None"
proof -
  assume "c \<in> set (EncodeToString s)"
  then obtain n where "n \<in> set (toSextets s)" "c = b64Char n" by (auto simp: EncodeToString_def)
  with toSextets_range [of s] show ?thesis by (simp add: list_all_iff)
qed

lemma indexOf_fresh: "c \<notin> set s \<Longrightarrow> indexOf (s @ c # t) [c] = Some (length s)"
  by (induction s) (auto simp: hasPrefix_def)

lemma indexOf_absent: "c \<notin> set s \<Longrightarrow> indexOf s [c] = None"
  by (induction s) (auto simp: hasPrefix_def)

lemma splitOn_fresh: "c \<notin> set s \<Longrightarrow> splitOn (s @ c # t) [c] = s # splitOn t [c]"
  by (subst splitOn.simps) (simp add: indexOf_fresh)

lemma splitOn_absent: "c \<notin> set s \<Longrightarrow> splitOn s [c] = [s]"
  by (subst splitOn.simps) (simp add: indexOf_absent)

subsection \<open>Hexadecimal text\<close>

definition lowerHexDigit :: "nat \<Rightarrow> char" where
  "lowerHexDigit n = char_of (if n < 10 then 48 + n else 87 + n)"

definition hexNibble :: "char \<Rightarrow> nat option" where
  "hexNibble c = (let k = of_char c in
     if 48 \<le> k \<and> k \<le> 57 then Some (k - 48)
     else if 97 \<le> k \<and> k \<le> 102 then Some (k - 87)
     else if 65 \<le> k \<and> k \<le> 70 then Some (k - 55)
     else None)"

fun hexEncode :: "string \<Rightarrow> string" where
  "hexEncode [] = []"
| "hexEncode (c # s) = lowerHexDigit (of_char c div 16) # lowerHexDigit (of_char c mod 16) # hexEncode s"

fun hexDecode :: "string \<Rightarrow> string option" where
  "hexDecode [] = Some []"
| "hexDecode [c] = None"
| "hexDecode (a # b # s) = (case (hexNibble a, hexNibble b) of
     (Some x, Some y) \<Rightarrow> map_option (\<lambda>t. char_of (x * 16 + y) # t) (hexDecode s)
   | _ \<Rightarrow> None)"

lemma hexNibble_digit [simp]: "n < 16 \<Longrightarrow> hexNibble (lowerHexDigit n) = Some n"
  by (auto simp: hexNibble_def lowerHexDigit_def Let_def)

lemma hexDecode_hexEncode [simp]: "hexDecode (hexEncode s) = Some s"
proof (induction s)
  case (Cons c s)
  have "(of_char c :: nat) < 256" by simp
  then have "(of_char c :: nat) div 16 < 16" by linarith
  with Cons show ?case by simp
qed simp

end
