(* ===== verification/OpQuery.thy ===== *)
theory OpQuery
  imports OpLifecycle Base64
begin

text \<open>
  Reading operations back (\<open>internal/operations/query.go\<close>, \<open>util.go\<close>): the view \<open>scanOperation\<close>
  makes of a row, single lookups, filtered pages under a cursor, and the event feed.
\<close>

subsection \<open>The view of a row\<close>

definition stateText :: "OpState \<Rightarrow> string" where
  "stateText s = (case s of Queued \<Rightarrow> ''queued'' | Running \<Rightarrow> ''running'' | Succeeded \<Rightarrow> ''succeeded''
     | Failed \<Rightarrow> ''failed'' | Cancelled \<Rightarrow> ''cancelled'' | Cancelling \<Rightarrow> ''cancelling''
     | Interrupted \<Rightarrow> ''interrupted'')"

record Operation =
  opID :: string
  opType :: string
  opCommandSchemaVersion :: int
  opBaseID :: string
  opDocumentID :: string
  opParentOperationID :: string
  opPrincipalRef :: string
  opScopeRef :: string
  opInputRef :: string
  opInputSHA256 :: string
  opSourceVersion :: string
  opConfigSnapshotRef :: string
  opModelSnapshotRef :: string
  opExpectedTargetEpoch :: "int option"
  opExpectedAncestorEpoch :: "int option"
  opAllocatedDocumentID :: string
  opAllocatedGeneration :: "int option"
  opState :: string
  opStateRevision :: int
  opPhase :: string
  opResourceClass :: string
  opPriority :: int
  opAttempt :: int
  opCancelRequested :: bool
  opCancellable :: bool
  opRetryable :: bool
  opBudget :: ResourceBudget
  opNextAttemptAt :: "int option"
  opRecoveryBasis :: string
  opResultRef :: string
  opResultExpiresAt :: "int option"
  opRetainedUntil :: "int option"
  opIdempotencyExpiresAt :: "int option"
  opCompletedUnits :: int
  opTotalUnits :: "int option"
  opCompletedBytes :: int
  opTotalBytes :: "int option"
  opErrorCode :: string
  opErrorMessage :: string
  opResult :: "string option"
  opRequestedAt :: int
  opStartedAt :: int
  opFinishedAt :: int
  opQueueWaitMS :: int
  opRunTimeMS :: int

definition maxDurationMS :: "int \<Rightarrow> int" where
  "maxDurationMS v = (if v < 0 then 0 else v)"

text \<open>\<open>sql.NullInt64.Int64\<close> reads NULL back as zero.\<close>

definition int64Of :: "int option \<Rightarrow> int" where
  "int64Of v = (case v of None \<Rightarrow> 0 | Some n \<Rightarrow> n)"

definition queueWait :: "int \<Rightarrow> int \<Rightarrow> int \<Rightarrow> int" where
  "queueWait requested started finished = (if 0 < started then maxDurationMS (wrap64 (started - requested))
     else if 0 < finished then maxDurationMS (wrap64 (finished - requested)) else 0)"

definition runTime :: "int \<Rightarrow> int \<Rightarrow> int \<Rightarrow> int" where
  "runTime t started finished = (if 0 < started
     then maxDurationMS (wrap64 ((if finished = 0 then t else finished) - started)) else 0)"

text \<open>
  \<open>t\<close> is the reading of the clock for an operation that has not finished. No statement of the
  program writes the column \<open>result_ref\<close>, so it is NULL in every row and reads back empty.
\<close>

definition scanOperation :: "int \<Rightarrow> OpRow \<Rightarrow> Operation" where
  "scanOperation t r = (let e = oEnv r; started = int64Of (oStartedAt r); finished = int64Of (oFinishedAt r) in
    \<lparr>opID = oID r, opType = eType e, opCommandSchemaVersion = eSchema e,
     opBaseID = strOf (eBaseID e), opDocumentID = strOf (eDocumentID e),
     opParentOperationID = strOf (eParentOperationID e), opPrincipalRef = strOf (ePrincipalRef e),
     opScopeRef = strOf (eScopeRef e), opInputRef = strOf (eInputRef e),
     opInputSHA256 = strOf (eInputSHA256 e), opSourceVersion = strOf (eSourceVersion e),
     opConfigSnapshotRef = strOf (eConfigSnapshotRef e), opModelSnapshotRef = strOf (eModelSnapshotRef e),
     opExpectedTargetEpoch = eExpectedTargetEpoch e, opExpectedAncestorEpoch = eExpectedAncestorEpoch e,
     opAllocatedDocumentID = strOf (eAllocatedDocumentID e), opAllocatedGeneration = eAllocatedGeneration e,
     opState = stateText (oState r), opStateRevision = oRevision r, opPhase = strOf (oPhase r),
     opResourceClass = eResourceClass e, opPriority = ePriority e, opAttempt = oAttempt r,
     opCancelRequested = oCancelRequested r,
     opCancellable = ((oState r = Queued \<or> oState r = Running) \<and> \<not> oCancelRequested r),
     opRetryable = oRetryable r, opBudget = eBudget e, opNextAttemptAt = oNextAttemptAt r,
     opRecoveryBasis = strOf (oRecoveryBasis r), opResultRef = [], opResultExpiresAt = oResultExpiresAt r,
     opRetainedUntil = oRetainedUntil r, opIdempotencyExpiresAt = oIdempotencyExpiresAt r,
     opCompletedUnits = oCompletedUnits r, opTotalUnits = oTotalUnits r,
     opCompletedBytes = oCompletedBytes r, opTotalBytes = oTotalBytes r,
     opErrorCode = strOf (oErrorCode r), opErrorMessage = strOf (oErrorMessage r), opResult = oResult r,
     opRequestedAt = eRequestedAt e, opStartedAt = started, opFinishedAt = finished,
     opQueueWaitMS = queueWait (eRequestedAt e) started finished,
     opRunTimeMS = runTime t started finished\<rparr>)"

lemma scanOperation_simps [simp]:
  "opID (scanOperation t r) = oID r"
  "opRequestedAt (scanOperation t r) = eRequestedAt (oEnv r)"
  "opState (scanOperation t r) = stateText (oState r)"
  by (simp_all add: scanOperation_def Let_def)

definition GetContext :: "int \<Rightarrow> string \<Rightarrow> OpDB \<Rightarrow> Operation option" where
  "GetContext t oid db = map_option (scanOperation t) (op_row db oid)"

subsection \<open>Cursors\<close>

definition encodeCursor :: "int \<Rightarrow> string \<Rightarrow> string" where
  "encodeCursor at oid = EncodeToString (formatInt at @ [CHR 0x00] @ oid)"

text \<open>\<open>strings.SplitN(s, sep, 2)\<close> has two parts exactly when the separator occurs.\<close>

definition splitN2 :: "string \<Rightarrow> string \<Rightarrow> (string \<times> string) option" where
  "splitN2 s sep = map_option (\<lambda>i. (take i s, drop (i + length sep) s)) (indexOf s sep)"

definition decodeCursor :: "string \<Rightarrow> (int \<times> string) option" where
  "decodeCursor value = (case DecodeString value of None \<Rightarrow> None
     | Some data \<Rightarrow> (case splitN2 data [CHR 0x00] of None \<Rightarrow> None
         | Some (a, oid) \<Rightarrow> map_option (\<lambda>at. (at, oid)) (parseInt a)))"

subsection \<open>Pages\<close>

text \<open>A nil slice of the filter is None; a clause of the \<open>WHERE\<close> is a predicate on rows.\<close>

record ListFilter =
  lfStates :: "string list option"
  lfBaseIDs :: "string list option"
  lfDocIDs :: "string list option"
  lfParentID :: string
  lfLimit :: int
  lfCursor :: string

definition appendIDFilter :: "(OpRow \<Rightarrow> string option) \<Rightarrow> string list option \<Rightarrow> (OpRow \<Rightarrow> bool) list \<Rightarrow> (OpRow \<Rightarrow> bool) list" where
  "appendIDFilter column vals clauses = (case vals of None \<Rightarrow> clauses
     | Some vs \<Rightarrow> clauses @ (if vs = [] then [\<lambda>_. False]
         else [\<lambda>r. case column r of None \<Rightarrow> False | Some v \<Rightarrow> v \<in> set vs]))"

definition scopeClauses :: "ListFilter \<Rightarrow> (OpRow \<Rightarrow> bool) list" where
  "scopeClauses f = (let
     cs = appendIDFilter (\<lambda>r. Some (stateText (oState r))) (lfStates f) [\<lambda>_. True];
     cs = appendIDFilter (\<lambda>r. eBaseID (oEnv r)) (lfBaseIDs f) cs;
     cs = appendIDFilter (\<lambda>r. eDocumentID (oEnv r)) (lfDocIDs f) cs in
     if lfParentID f \<noteq> [] then cs @ [\<lambda>r. eParentOperationID (oEnv r) = Some (lfParentID f)] else cs)"

definition listKey :: "OpRow \<Rightarrow> int \<times> string" where
  "listKey r = (eRequestedAt (oEnv r), oID r)"

definition beforeCursor :: "int \<times> string \<Rightarrow> OpRow \<Rightarrow> bool" where
  "beforeCursor c r \<longleftrightarrow> eRequestedAt (oEnv r) < fst c \<or> (eRequestedAt (oEnv r) = fst c \<and> oID r < snd c)"

definition selectRows :: "(OpRow \<Rightarrow> bool) list \<Rightarrow> OpDB \<Rightarrow> OpRow list" where
  "selectRows clauses db = rev (sort_key listKey (filter (\<lambda>r. list_all (\<lambda>c. c r) clauses) (dbOps db)))"

definition pageLimit :: "int \<Rightarrow> nat" where
  "pageLimit limit = nat (if limit \<le> 0 then 50 else if 200 < limit then 200 else limit)"

text \<open>\<open>tick r\<close> is the clock when the row is scanned.\<close>

definition List :: "(OpRow \<Rightarrow> int) \<Rightarrow> ListFilter \<Rightarrow> OpDB \<Rightarrow> (Operation list \<times> string) option" where
  "List tick f db = (let limit = pageLimit (lfLimit f); clauses = scopeClauses f in
     case (if lfCursor f = [] then Some clauses
           else map_option (\<lambda>c. clauses @ [beforeCursor c]) (decodeCursor (lfCursor f))) of
       None \<Rightarrow> None
     | Some cs \<Rightarrow> (let out = map (\<lambda>r. scanOperation (tick r) r) (take (limit + 1) (selectRows cs db)) in
         if limit < length out
         then (let page = take limit out; l = last page in Some (page, encodeCursor (opRequestedAt l) (opID l)))
         else Some (out, [])))"

text \<open>\<open>Events\<close>: rows of the log carry their position, counted from one, as \<open>id\<close>.\<close>

definition Events :: "string \<Rightarrow> int \<Rightarrow> int \<Rightarrow> OpDB \<Rightarrow> (int \<times> OpEvent) list" where
  "Events oid after limit db = take (nat (if limit \<le> 0 then 100 else if 500 < limit then 500 else limit))
     (filter (\<lambda>(i, e). evOperation e = oid \<and> after < i)
       (zip (map int [1 ..< length (dbEvents db) + 1]) (dbEvents db)))"

subsection \<open>A cursor names its row\<close>

lemma formatInt_no_nul: "CHR 0x00 \<notin> set (formatInt n)"
proof
  assume "CHR 0x00 \<in> set (formatInt n)"
  then obtain d where "d < 10" "CHR 0x00 = digitChar d"
    by (auto simp: formatInt_def split: if_splits dest!: natDigits_all_digits)
  then have "digitValue (CHR 0x00) = Some d" by simp
  then show False by (simp add: digitValue_def)
qed

lemma decode_encode_cursor:
  "int64_min \<le> at \<Longrightarrow> at \<le> int64_max \<Longrightarrow> decodeCursor (encodeCursor at oid) = Some (at, oid)"
  by (simp add: decodeCursor_def encodeCursor_def splitN2_def indexOf_fresh formatInt_no_nul)

lemma encodeCursor_nonempty [simp]: "encodeCursor at oid \<noteq> []"
  unfolding encodeCursor_def by (rule EncodeToString_nonempty) simp

subsection \<open>Pages follow each other\<close>

lemma beforeCursor_less: "beforeCursor (listKey x) r \<longleftrightarrow> listKey r < listKey x"
  by (auto simp: beforeCursor_def listKey_def less_prod_def)

definition newest_first :: "OpRow list \<Rightarrow> bool" where
  "newest_first = sorted_wrt (\<lambda>a b. listKey b < listKey a)"

lemma selectRows_append: "selectRows (cs @ [c]) db = filter c (selectRows cs db)"
  by (simp add: selectRows_def filter_sort [symmetric] rev_filter [symmetric] conj_commute)

lemma selectRows_newest_first: "uniq_by oID (dbOps db) \<Longrightarrow> newest_first (selectRows cs db)"
proof -
  let ?xs = "filter (\<lambda>r. list_all (\<lambda>c. c r) cs) (dbOps db)"
  assume "uniq_by oID (dbOps db)"
  then have "distinct (map oID ?xs)" by (simp add: uniq_by_def distinct_map_filter)
  then have "distinct (map listKey ?xs)" by (auto simp: distinct_map inj_on_def listKey_def)
  then have "distinct (map listKey (sort_key listKey ?xs))"
    by (auto simp: distinct_map)
  with sorted_sort_key [of listKey ?xs] have "sorted_wrt (<) (map listKey (sort_key listKey ?xs))"
    by (simp add: strict_sorted_iff)
  then show ?thesis by (simp add: newest_first_def selectRows_def sorted_wrt_rev sorted_wrt_map)
qed

lemma newest_first_after:
  "newest_first (xs @ x # ys) \<Longrightarrow> filter (beforeCursor (listKey x)) (xs @ x # ys) = ys"
proof -
  assume s: "newest_first (xs @ x # ys)"
  have "filter (\<lambda>r. listKey r < listKey x) xs = []" "filter (\<lambda>r. listKey r < listKey x) ys = ys"
    using s by (auto simp: newest_first_def sorted_wrt_append filter_empty_conv filter_id_conv dest: less_asym)
  then show ?thesis using beforeCursor_less [of x x] by (simp add: beforeCursor_less [abs_def])
qed

text \<open>What is left to list under the cursor of a filter.\<close>

definition remaining :: "ListFilter \<Rightarrow> OpDB \<Rightarrow> OpRow list option" where
  "remaining f db = (if lfCursor f = [] then Some (selectRows (scopeClauses f) db)
     else map_option (\<lambda>c. filter (beforeCursor c) (selectRows (scopeClauses f) db)) (decodeCursor (lfCursor f)))"

lemma scopeClauses_cursor [simp]: "scopeClauses (f\<lparr>lfCursor := c\<rparr>) = scopeClauses f"
  by (simp add: scopeClauses_def Let_def)

lemma List_remaining:
  "List tick f db = (case remaining f db of None \<Rightarrow> None
     | Some rows \<Rightarrow> (let limit = pageLimit (lfLimit f); scan = (\<lambda>r. scanOperation (tick r) r) in
         if limit < length rows then Some (map scan (take limit rows), encodeCursor (fst (listKey (rows ! (limit - 1)))) (oID (rows ! (limit - 1))))
         else Some (map scan rows, [])))"
proof -
  have "0 < pageLimit (lfLimit f)" by (simp add: pageLimit_def)
  then have l: "last (take (pageLimit (lfLimit f)) rows) = rows ! (pageLimit (lfLimit f) - 1)"
    if "pageLimit (lfLimit f) < length rows" for rows :: "OpRow list"
    using that by (subst last_conv_nth) auto
  have "last (map g (take (pageLimit (lfLimit f)) rows)) = g (rows ! (pageLimit (lfLimit f) - 1))"
    if "pageLimit (lfLimit f) < length rows" for rows and g :: "OpRow \<Rightarrow> Operation"
    using that l [OF that] \<open>0 < pageLimit (lfLimit f)\<close> by (subst last_map) auto
  then show ?thesis
    by (auto simp: List_def remaining_def Let_def selectRows_append take_map listKey_def split: option.splits)
qed

fun listAll :: "nat \<Rightarrow> (OpRow \<Rightarrow> int) \<Rightarrow> ListFilter \<Rightarrow> OpDB \<Rightarrow> Operation list option" where
  "listAll 0 tick f db = None"
| "listAll (Suc n) tick f db = (case List tick f db of None \<Rightarrow> None
     | Some (page, next) \<Rightarrow> if next = [] then Some page
         else map_option (\<lambda>rest. page @ rest) (listAll n tick (f\<lparr>lfCursor := next\<rparr>) db))"

lemma newest_first_filter: "newest_first rows \<Longrightarrow> newest_first (filter P rows)"
  unfolding newest_first_def by (rule sorted_wrt_filter)

lemma remaining_newest_first:
  "uniq_by oID (dbOps db) \<Longrightarrow> remaining f db = Some rows \<Longrightarrow> newest_first rows"
  by (auto simp: remaining_def split: if_splits intro: newest_first_filter selectRows_newest_first)

lemma remaining_rows: "remaining f db = Some rows \<Longrightarrow> set rows \<subseteq> set (dbOps db)"
  by (auto simp: remaining_def selectRows_def split: if_splits)

lemma newest_first_cut:
  assumes "newest_first rows" "k < length rows"
  shows "filter (beforeCursor (listKey (rows ! k))) rows = drop (Suc k) rows"
  using newest_first_after [of "take k rows" "rows ! k" "drop (Suc k) rows"] assms
  by (simp add: id_take_nth_drop [symmetric])

lemma remaining_next:
  assumes uniq: "uniq_by oID (dbOps db)"
    and range: "list_all (\<lambda>r. int64_min \<le> eRequestedAt (oEnv r) \<and> eRequestedAt (oEnv r) \<le> int64_max) (dbOps db)"
    and rows: "remaining f db = Some rows" and k: "k < length rows"
  shows "remaining (f\<lparr>lfCursor := encodeCursor (fst (listKey (rows ! k))) (oID (rows ! k))\<rparr>) db
    = Some (drop (Suc k) rows)"
proof -
  let ?x = "rows ! k"
  have "?x \<in> set (dbOps db)" using remaining_rows [OF rows] k by force
  with range have "decodeCursor (encodeCursor (fst (listKey ?x)) (oID ?x)) = Some (listKey ?x)"
    by (simp add: list_all_iff decode_encode_cursor listKey_def)
  then have r: "remaining (f\<lparr>lfCursor := encodeCursor (fst (listKey ?x)) (oID ?x)\<rparr>) db
      = Some (filter (beforeCursor (listKey ?x)) (selectRows (scopeClauses f) db))"
    by (simp add: remaining_def)
  have "filter (beforeCursor (listKey ?x)) (selectRows (scopeClauses f) db) = filter (beforeCursor (listKey ?x)) rows"
  proof (cases "lfCursor f = []")
    case True
    with rows show ?thesis by (simp add: remaining_def)
  next
    case False
    with rows obtain c where c: "rows = filter (beforeCursor c) (selectRows (scopeClauses f) db)"
      by (auto simp: remaining_def)
    moreover have "?x \<in> set rows" using k by simp
    ultimately have "listKey ?x < c" by (auto simp: beforeCursor_def listKey_def less_prod_def)
    then have "beforeCursor (listKey ?x) r \<Longrightarrow> beforeCursor c r" for r
      by (auto simp: beforeCursor_def listKey_def less_prod_def)
    then show ?thesis unfolding c by (auto simp: filter_filter intro!: filter_cong)
  qed
  then show ?thesis
    using r newest_first_cut [OF remaining_newest_first [OF uniq rows] k] by simp
qed

lemma listAll_remaining:
  assumes "uniq_by oID (dbOps db)"
    "list_all (\<lambda>r. int64_min \<le> eRequestedAt (oEnv r) \<and> eRequestedAt (oEnv r) \<le> int64_max) (dbOps db)"
  shows "remaining f db = Some rows \<Longrightarrow> length rows < n \<Longrightarrow>
    listAll n tick f db = Some (map (\<lambda>r. scanOperation (tick r) r) rows)"
proof (induction n arbitrary: f rows)
  case (Suc n)
  let ?k = "pageLimit (lfLimit f) - 1"
  have pos: "Suc ?k = pageLimit (lfLimit f)" by (simp add: pageLimit_def)
  show ?case
  proof (cases "pageLimit (lfLimit f) < length rows")
    case True
    then have k: "?k < length rows" using pos by linarith
    let ?f = "f\<lparr>lfCursor := encodeCursor (fst (listKey (rows ! ?k))) (oID (rows ! ?k))\<rparr>"
    have "remaining ?f db = Some (drop (pageLimit (lfLimit f)) rows)"
      using remaining_next [OF assms Suc.prems(1) k] unfolding pos .
    moreover have "length (drop (pageLimit (lfLimit f)) rows) < n" using Suc.prems(2) True pos by simp
    ultimately have "listAll n tick ?f db = Some (map (\<lambda>r. scanOperation (tick r) r) (drop (pageLimit (lfLimit f)) rows))"
      by (rule Suc.IH)
    with True Suc.prems(1) show ?thesis
      by (simp add: List_remaining Let_def flip: map_append)
  next
    case False
    with Suc.prems(1) show ?thesis by (simp add: List_remaining Let_def)
  qed
qed simp

end
