(* ===== verification/OpReadProperties.thy ===== *)
theory OpReadProperties
  imports OpProperties OpQuery
begin

text \<open>
  Listing operations page by page gives every operation the filter selects, once, newest first.
\<close>

text \<open>What a filter asks for: a nil list allows everything, an empty list nothing.\<close>

definition allows :: "string list option \<Rightarrow> string option \<Rightarrow> bool" where
  "allows vals v = (case vals of None \<Rightarrow> True | Some vs \<Rightarrow> (case v of None \<Rightarrow> False | Some s \<Rightarrow> s \<in> set vs))"

definition asked :: "ListFilter \<Rightarrow> OpRow \<Rightarrow> bool" where
  "asked f r \<longleftrightarrow> allows (lfStates f) (Some (stateText (oState r))) \<and> allows (lfBaseIDs f) (eBaseID (oEnv r))
     \<and> allows (lfDocIDs f) (eDocumentID (oEnv r))
     \<and> (lfParentID f = [] \<or> eParentOperationID (oEnv r) = Some (lfParentID f))"

lemma appendIDFilter_allows:
  "list_all (\<lambda>c. c r) (appendIDFilter column vals clauses) \<longleftrightarrow> list_all (\<lambda>c. c r) clauses \<and> allows vals (column r)"
  by (auto simp: appendIDFilter_def allows_def split: option.splits)

lemma scopeClauses_asked: "list_all (\<lambda>c. c r) (scopeClauses f) \<longleftrightarrow> asked f r"
  by (auto simp: scopeClauses_def Let_def appendIDFilter_allows asked_def)

lemma selectRows_set: "set (selectRows (scopeClauses f) db) = {r \<in> set (dbOps db). asked f r}"
  by (auto simp: selectRows_def scopeClauses_asked)

text \<open>
  C20: Reading all pages, each with the cursor the previous one returned, lists every operation the
  filter asks for exactly once, newest first, whatever the page size: no row is skipped or repeated at
  a page border, equal timestamps included, and the walk ends. An explicitly empty list in the filter
  selects nothing.
\<close>

theorem pages_list_everything:
  assumes "uniq_by oID (dbOps db)"
    and "list_all (\<lambda>r. int64_min \<le> eRequestedAt (oEnv r) \<and> eRequestedAt (oEnv r) \<le> int64_max) (dbOps db)"
    and "lfCursor f = []"
  shows "\<exists>rows. listAll (length (dbOps db) + 1) tick f db = Some (map (\<lambda>r. scanOperation (tick r) r) rows)
    \<and> set rows = {r \<in> set (dbOps db). asked f r} \<and> newest_first rows"
proof -
  let ?rows = "selectRows (scopeClauses f) db"
  have r: "remaining f db = Some ?rows" using assms(3) by (simp add: remaining_def)
  have "length ?rows < length (dbOps db) + 1" by (simp add: selectRows_def le_imp_less_Suc)
  from listAll_remaining [OF assms(1,2) r this] selectRows_set selectRows_newest_first [OF assms(1)]
  show ?thesis by blast
qed

definition demoPages :: OpDB where
  "demoPages = (case dbOps (svDB demo1) of [] \<Rightarrow> emptyDB
     | r # _ \<Rightarrow> (svDB demo1)\<lparr>dbOps := [r, r\<lparr>oID := ''2''\<rparr>, r\<lparr>oID := ''3'', oState := Failed\<rparr>]\<rparr>)"

definition demoFilter :: ListFilter where
  "demoFilter = \<lparr>lfStates = Some [''queued''], lfBaseIDs = Some [''b''], lfDocIDs = None, lfParentID = [],
     lfLimit = 1, lfCursor = []\<rparr>"

lemma demoPages_ok: "uniq_by oID (dbOps demoPages)"
  "list_all (\<lambda>r. int64_min \<le> eRequestedAt (oEnv r) \<and> eRequestedAt (oEnv r) \<le> int64_max) (dbOps demoPages)"
  "map oID (filter (asked demoFilter) (dbOps demoPages)) = [''1'', ''2'']"
  by code_simp+

lemma pages_list_everything_witness:
  "\<exists>rows. listAll (length (dbOps demoPages) + 1) (\<lambda>_. 50) demoFilter demoPages = Some (map (scanOperation 50) rows)
     \<and> newest_first rows \<and> oID ` set rows = {''1'', ''2''}"
proof -
  have "lfCursor demoFilter = []" by (simp add: demoFilter_def)
  from pages_list_everything [OF demoPages_ok(1,2) this, of "\<lambda>_. 50"] obtain rows where
    rows: "listAll (length (dbOps demoPages) + 1) (\<lambda>_. 50) demoFilter demoPages = Some (map (scanOperation 50) rows)"
      "set rows = {r \<in> set (dbOps demoPages). asked demoFilter r}" "newest_first rows" by blast
  have "oID ` {r \<in> set (dbOps demoPages). asked demoFilter r} = set (map oID (filter (asked demoFilter) (dbOps demoPages)))"
    by auto
  then have "oID ` set rows = {''1'', ''2''}" unfolding demoPages_ok(3) rows(2) by simp
  with rows(1,3) show ?thesis by blast
qed

end
