(* ===== verification/OpItems.thy ===== *)
theory OpItems
  imports OpLifecycle
begin

text \<open>
  Per-item outcomes of batch operations (\<open>internal/operations/items.go\<close>) and the adapters of
  \<open>internal/app/operations.go\<close> that executors use: the item table, the transaction that records an
  outcome, and the lookups that decide what a replay still has to do. The table refers to
  \<open>operations\<close> by a foreign key: \<open>known\<close> tells which operation ids exist. \<open>safe\<close> is
  \<open>SafeErrorMessage\<close>.
\<close>

subsection \<open>Item rows\<close>

datatype ItemState = ItemPending | ItemCommitted | ItemSkipped | ItemFailed | ItemCancelled

definition itemStateOf :: "string \<Rightarrow> ItemState option" where
  "itemStateOf s = (if s = ''pending'' then Some ItemPending else if s = ''committed'' then Some ItemCommitted
     else if s = ''skipped'' then Some ItemSkipped else if s = ''failed'' then Some ItemFailed
     else if s = ''cancelled'' then Some ItemCancelled else None)"

record ItemRow =
  itID :: int
  itOperationID :: string
  itItemKey :: string
  itAttempt :: int
  itState :: ItemState
  itCommitMarker :: int
  itResult :: "string option"
  itErrorCode :: "string option"
  itErrorMessage :: "string option"
  itCommittedAt :: "int option"
  itUpdatedAt :: int

record ItemTable =
  tbItems :: "ItemRow list"
  tbNextID :: int

definition itKey :: "ItemRow \<Rightarrow> string \<times> string" where
  "itKey r = (itOperationID r, itItemKey r)"

interpretation items: row_store "sel_by itKey" "upd_by itKey" ins_by itKey "uniq_by itKey"
  by (rule row_store_by)

datatype ItemError =
    ItemIncomplete | ItemKeyTooLong | ItemInvalidState string | ItemNegativeAttempt
  | ItemEncodeFailed string | ItemPayloadTooLarge | ErrOperationItemCommitted | ItemForeignKey

definition boolInt :: "bool \<Rightarrow> int" where
  "boolInt v = (if v then 1 else 0)"

subsection \<open>Recording an outcome\<close>

record preparedItem =
  piOperationID :: string
  piItemKey :: string
  piAttempt :: int
  piState :: ItemState
  piEncoded :: "string option"
  piErrorCode :: string
  piErrorMsg :: string
  piCommitted :: bool
  piCommittedAt :: "int option"
  piUpdatedAt :: int

text \<open>The arguments of \<open>MarkItem\<close>, with what \<open>json.Marshal\<close> made of the result.\<close>

record MarkArgs =
  maOperationID :: string
  maAttempt :: int
  maItemKey :: string
  maState :: string
  maResult :: ExecResult
  maErrorCode :: string
  maErrorMessage :: string

text \<open>\<open>t\<close> and \<open>t'\<close> are the two readings of the clock, in the order of the calls.\<close>

definition prepareItem :: "(string \<Rightarrow> string) \<Rightarrow> int \<Rightarrow> int \<Rightarrow> int \<Rightarrow> MarkArgs \<Rightarrow> ItemError + preparedItem" where
  "prepareItem safe maxPayload t t' a =
    (if trimSpace (maOperationID a) = [] \<or> trimSpace (maItemKey a) = [] then Inl ItemIncomplete
     else if 512 < length (maItemKey a) then Inl ItemKeyTooLong
     else (case itemStateOf (maState a) of None \<Rightarrow> Inl (ItemInvalidState (maState a))
       | Some st \<Rightarrow>
         if maAttempt a < 0 then Inl ItemNegativeAttempt
         else bindr (case maResult a of NoResult \<Rightarrow> Inr None
             | EncodeFailed e \<Rightarrow> Inl (ItemEncodeFailed e)
             | Encoded s \<Rightarrow> if maxPayload < int (length s) then Inl ItemPayloadTooLarge else Inr (Some s))
           (\<lambda>encoded. let committed = (st = ItemCommitted) in
             Inr \<lparr>piOperationID = maOperationID a, piItemKey = maItemKey a, piAttempt = maAttempt a,
               piState = st, piEncoded = encoded, piErrorCode = take 256 (maErrorCode a),
               piErrorMsg = safe (take 4096 (maErrorMessage a)), piCommitted = committed,
               piCommittedAt = (if committed then Some t else None), piUpdatedAt = t'\<rparr>)))"

definition itemUpdate :: "preparedItem \<Rightarrow> ItemRow \<Rightarrow> ItemRow" where
  "itemUpdate p r = r\<lparr>itAttempt := piAttempt p, itState := piState p, itCommitMarker := boolInt (piCommitted p),
     itResult := (case piEncoded p of None \<Rightarrow> itResult r | Some s \<Rightarrow> Some s),
     itErrorCode := nullString (piErrorCode p), itErrorMessage := nullString (piErrorMsg p),
     itCommittedAt := piCommittedAt p, itUpdatedAt := piUpdatedAt p\<rparr>"

definition itemInsert :: "int \<Rightarrow> preparedItem \<Rightarrow> ItemRow" where
  "itemInsert i p = \<lparr>itID = i, itOperationID = piOperationID p, itItemKey = piItemKey p,
     itAttempt = piAttempt p, itState = piState p, itCommitMarker = boolInt (piCommitted p),
     itResult = piEncoded p, itErrorCode = nullString (piErrorCode p),
     itErrorMessage = nullString (piErrorMsg p), itCommittedAt = piCommittedAt p,
     itUpdatedAt = piUpdatedAt p\<rparr>"

definition markItemTx :: "(string \<Rightarrow> bool) \<Rightarrow> preparedItem \<Rightarrow> ItemTable \<Rightarrow> ItemError + ItemTable" where
  "markItemTx known p tb = (let k = (piOperationID p, piItemKey p) in
     case sel_by itKey (tbItems tb) k of
       Some r \<Rightarrow>
         if itCommitMarker r \<noteq> 0 then (if piCommitted p then Inr tb else Inl ErrOperationItemCommitted)
         else if piAttempt p < itAttempt r then Inr tb
         else Inr (tb\<lparr>tbItems := upd_by itKey k (\<lambda>_. True) (itemUpdate p) (tbItems tb)\<rparr>)
     | None \<Rightarrow>
         if known (piOperationID p)
         then Inr \<lparr>tbItems = ins_by (itemInsert (tbNextID tb) p) (tbItems tb), tbNextID = tbNextID tb + 1\<rparr>
         else Inl ItemForeignKey)"

text \<open>
  \<open>MarkItem\<close> runs the transaction on its own, \<open>MarkItemTx\<close> inside one of the caller: an error
  leaves the table as it was.
\<close>

definition MarkItem :: "(string \<Rightarrow> string) \<Rightarrow> int \<Rightarrow> (string \<Rightarrow> bool) \<Rightarrow> int \<Rightarrow> int \<Rightarrow> MarkArgs \<Rightarrow> ItemTable
    \<Rightarrow> ItemTable \<times> ItemError option" where
  "MarkItem safe maxPayload known t t' a tb =
    (case bindr (prepareItem safe maxPayload t t' a) (\<lambda>p. markItemTx known p tb) of
       Inl e \<Rightarrow> (tb, Some e) | Inr tb' \<Rightarrow> (tb', None))"

subsection \<open>Reading items\<close>

record OperationItem =
  oiID :: int
  oiOperationID :: string
  oiItemKey :: string
  oiAttempt :: int
  oiState :: ItemState
  oiCommitted :: bool
  oiResult :: "string option"
  oiErrorCode :: string
  oiErrorMessage :: string
  oiCommittedAt :: int
  oiUpdatedAt :: int

definition scanItem :: "ItemRow \<Rightarrow> OperationItem" where
  "scanItem r = \<lparr>oiID = itID r, oiOperationID = itOperationID r, oiItemKey = itItemKey r,
     oiAttempt = itAttempt r, oiState = itState r, oiCommitted = (itCommitMarker r \<noteq> 0),
     oiResult = itResult r, oiErrorCode = strOf (itErrorCode r), oiErrorMessage = strOf (itErrorMessage r),
     oiCommittedAt = (case itCommittedAt r of None \<Rightarrow> 0 | Some n \<Rightarrow> n), oiUpdatedAt = itUpdatedAt r\<rparr>"

definition GetItem :: "string \<Rightarrow> string \<Rightarrow> ItemTable \<Rightarrow> OperationItem option" where
  "GetItem oid k tb = map_option scanItem (sel_by itKey (tbItems tb) (oid, k))"

definition ListItems :: "string \<Rightarrow> int \<Rightarrow> ItemTable \<Rightarrow> OperationItem list" where
  "ListItems oid limit tb = map scanItem (take (nat (if limit \<le> 0 then 200 else if 500 < limit then 500 else limit))
     (sort_key itID (filter (\<lambda>r. itOperationID r = oid) (tbItems tb))))"

subsection \<open>The adapters of the executors\<close>

text \<open>A marker that is already committed is not an error for the executor.\<close>

definition markOperationItemResultContext :: "(string \<Rightarrow> string) \<Rightarrow> int \<Rightarrow> (string \<Rightarrow> bool) \<Rightarrow> int \<Rightarrow> int
    \<Rightarrow> MarkArgs \<Rightarrow> ItemTable \<Rightarrow> ItemTable \<times> ItemError option" where
  "markOperationItemResultContext safe maxPayload known t t' a tb =
    (if maOperationID a = [] then (tb, None)
     else (let (tb', e) = MarkItem safe maxPayload known t t' a tb in
       (tb', if e = Some ErrOperationItemCommitted then None else e)))"

text \<open>The stored result, whether the item is resolved, and whether it was skipped.\<close>

definition operationItemResult :: "string \<Rightarrow> string \<Rightarrow> ItemTable \<Rightarrow> string option \<times> bool \<times> bool" where
  "operationItemResult oid k tb = (if oid = [] \<or> k = [] then (None, False, False)
     else (case GetItem oid k tb of None \<Rightarrow> (None, False, False)
       | Some i \<Rightarrow> (let skipped = (oiState i = ItemSkipped) in
           (oiResult i, oiCommitted i \<or> oiState i = ItemCommitted \<or> skipped, skipped))))"

definition operationItemResolved :: "string \<Rightarrow> string \<Rightarrow> ItemTable \<Rightarrow> bool \<times> bool" where
  "operationItemResolved oid k tb = snd (operationItemResult oid k tb)"

subsection \<open>Well-formed tables\<close>

definition item_ok :: "ItemRow \<Rightarrow> bool" where
  "item_ok r \<longleftrightarrow> 0 \<le> itAttempt r \<and> length (itItemKey r) \<le> 512 \<and> trimSpace (itItemKey r) \<noteq> []
     \<and> itCommitMarker r = boolInt (itState r = ItemCommitted)
     \<and> (itCommittedAt r \<noteq> None) = (itState r = ItemCommitted)
     \<and> length (strOf (itErrorCode r)) \<le> 256"

definition table_ok :: "ItemTable \<Rightarrow> bool" where
  "table_ok tb \<longleftrightarrow> uniq_by itKey (tbItems tb) \<and> list_all item_ok (tbItems tb)
     \<and> sorted_wrt (<) (map itID (tbItems tb)) \<and> list_all (\<lambda>r. itID r < tbNextID tb) (tbItems tb)"

definition prepared_ok :: "preparedItem \<Rightarrow> bool" where
  "prepared_ok p \<longleftrightarrow> 0 \<le> piAttempt p \<and> length (piItemKey p) \<le> 512 \<and> trimSpace (piItemKey p) \<noteq> []
     \<and> piCommitted p = (piState p = ItemCommitted) \<and> (piCommittedAt p \<noteq> None) = (piState p = ItemCommitted)
     \<and> length (piErrorCode p) \<le> 256"

lemma prepareItem_ok: "prepareItem safe m t t' a = Inr p \<Longrightarrow> prepared_ok p"
  by (auto simp: prepareItem_def prepared_ok_def Let_def split: if_splits option.splits sum.splits ExecResult.splits)

lemma nullString_length: "length (strOf (nullString v)) \<le> length v"
  by (simp add: nullString_def strOf_def)

lemma itemUpdate_ok: "prepared_ok p \<Longrightarrow> item_ok r \<Longrightarrow> item_ok (itemUpdate p r)"
  using nullString_length [of "piErrorCode p"]
  by (auto simp: prepared_ok_def item_ok_def itemUpdate_def)

lemma itemInsert_ok: "prepared_ok p \<Longrightarrow> item_ok (itemInsert i p)"
  using nullString_length [of "piErrorCode p"]
  by (auto simp: prepared_ok_def item_ok_def itemInsert_def)

lemma item_keys [simp]:
  "itKey (itemUpdate p r) = itKey r" "itID (itemUpdate p r) = itID r"
  "itKey (itemInsert i p) = (piOperationID p, piItemKey p)" "itID (itemInsert i p) = i"
  by (simp_all add: itKey_def itemUpdate_def itemInsert_def)

lemma markItemTx_ok:
  assumes "table_ok tb" "prepared_ok p" "markItemTx known p tb = Inr tb'"
  shows "table_ok tb'"
proof -
  let ?k = "(piOperationID p, piItemKey p)"
  consider "tb' = tb"
    | "tb' = tb\<lparr>tbItems := upd_by itKey ?k (\<lambda>_. True) (itemUpdate p) (tbItems tb)\<rparr>"
    | "sel_by itKey (tbItems tb) ?k = None"
      "tb' = \<lparr>tbItems = ins_by (itemInsert (tbNextID tb) p) (tbItems tb), tbNextID = tbNextID tb + 1\<rparr>"
    using assms(3) by (auto simp: markItemTx_def Let_def split: option.splits if_splits)
  then show ?thesis
  proof cases
    case 2
    have "map itID (upd_by itKey ?k (\<lambda>_. True) (itemUpdate p) (tbItems tb)) = map itID (tbItems tb)"
      by (simp add: upd_by_def)
    moreover have "uniq_by itKey (upd_by itKey ?k (\<lambda>_. True) (itemUpdate p) (tbItems tb))"
      using assms(1) by (intro items.wf_upd) (simp_all add: table_ok_def)
    moreover have "list_all (\<lambda>r. item_ok r \<and> itID r < tbNextID tb) (upd_by itKey ?k (\<lambda>_. True) (itemUpdate p) (tbItems tb))"
      using assms(1,2) by (auto simp: table_ok_def upd_by_def list_all_iff itemUpdate_ok)
    ultimately show ?thesis using 2 assms(1) by (simp add: table_ok_def list_all_iff)
  next
    case 3
    have "uniq_by itKey (tbItems tb')"
      unfolding 3(2) ItemTable.simps
      by (rule items.wf_ins) (use 3 assms(1) in \<open>simp_all add: table_ok_def\<close>)
    moreover have "list_all item_ok (tbItems tb')" "sorted_wrt (<) (map itID (tbItems tb'))"
      "list_all (\<lambda>r. itID r < tbNextID tb') (tbItems tb')"
      using 3 assms(1,2)
      by (auto simp: table_ok_def ins_by_def itemInsert_ok sorted_wrt_append list_all_iff)
    ultimately show ?thesis by (simp add: table_ok_def)
  qed (use assms(1) in simp)
qed

lemma MarkItem_ok: "table_ok tb \<Longrightarrow> table_ok (fst (MarkItem safe m known t t' a tb))"
  by (auto simp: MarkItem_def bindr_Inr split: sum.splits intro: markItemTx_ok prepareItem_ok)


subsection \<open>Committed items\<close>

lemma markItemTx_row:
  assumes "markItemTx known p tb = Inr tb'" "sel_by itKey (tbItems tb) k = Some r"
  obtains r' where "sel_by itKey (tbItems tb') k = Some r'" "itID r' = itID r" "itAttempt r \<le> itAttempt r'"
    "itCommitMarker r \<noteq> 0 \<Longrightarrow> r' = r"
proof -
  let ?k = "(piOperationID p, piItemKey p)"
  consider "tb' = tb"
    | q where "sel_by itKey (tbItems tb) ?k = Some q" "itCommitMarker q = 0" "itAttempt q \<le> piAttempt p"
      "tb' = tb\<lparr>tbItems := upd_by itKey ?k (\<lambda>_. True) (itemUpdate p) (tbItems tb)\<rparr>"
    | "sel_by itKey (tbItems tb) ?k = None" "tbItems tb' = ins_by (itemInsert (tbNextID tb) p) (tbItems tb)"
    using assms(1) by (auto simp: markItemTx_def Let_def split: option.splits if_splits)
  then show ?thesis
  proof cases
    case 1
    with assms(2) that show ?thesis by simp
  next
    case 2
    have "sel_by itKey (tbItems tb') k = (if k = ?k then map_option (itemUpdate p) (sel_by itKey (tbItems tb) ?k)
        else sel_by itKey (tbItems tb) k)"
      using 2(4) by (simp add: items.sel_upd)
    with 2 assms(2) that show ?thesis by (cases "k = ?k") (auto simp: itemUpdate_def)
  next
    case 3
    then have "sel_by itKey (tbItems tb') k = Some r"
      using assms(2) by (auto simp: items.sel_ins)
    with that show ?thesis by simp
  qed
qed

text \<open>One call: when it was made, what existed, and with which arguments.\<close>

type_synonym MarkCall = "(string \<Rightarrow> bool) \<times> int \<times> int \<times> MarkArgs"

definition markAll :: "(string \<Rightarrow> string) \<Rightarrow> int \<Rightarrow> MarkCall list \<Rightarrow> ItemTable \<Rightarrow> ItemTable" where
  "markAll safe m = fold (\<lambda>(known, t, t', a) tb. fst (MarkItem safe m known t t' a tb))"

lemma MarkItem_row:
  assumes "sel_by itKey (tbItems tb) k = Some r"
  obtains r' where "sel_by itKey (tbItems (fst (MarkItem safe m known t t' a tb))) k = Some r'" "itID r' = itID r"
    "itAttempt r \<le> itAttempt r'" "itCommitMarker r \<noteq> 0 \<Longrightarrow> r' = r"
proof (cases "bindr (prepareItem safe m t t' a) (\<lambda>p. markItemTx known p tb)")
  case (Inl e)
  then show ?thesis using assms that by (simp add: MarkItem_def)
next
  case (Inr tb')
  then obtain p where "markItemTx known p tb = Inr tb'" by (auto simp: bindr_Inr)
  from markItemTx_row [OF this assms] Inr that show ?thesis by (auto simp: MarkItem_def)
qed

lemma markAll_row:
  "sel_by itKey (tbItems tb) k = Some r \<Longrightarrow>
     \<exists>r'. sel_by itKey (tbItems (markAll safe m calls tb)) k = Some r' \<and> itID r' = itID r
       \<and> itAttempt r \<le> itAttempt r' \<and> (itCommitMarker r \<noteq> 0 \<longrightarrow> r' = r)"
proof (induction calls arbitrary: tb r)
  case (Cons c calls)
  obtain known t t' a where c: "c = (known, t, t', a)" by (cases c)
  from MarkItem_row [OF Cons.prems, of safe m known t t' a] obtain q where
    q: "sel_by itKey (tbItems (fst (MarkItem safe m known t t' a tb))) k = Some q"
    "itID q = itID r" "itAttempt r \<le> itAttempt q" "itCommitMarker r \<noteq> 0 \<Longrightarrow> q = r" by blast
  from Cons.IH [OF q(1)] q(2-4) show ?case by (fastforce simp: markAll_def c)
qed (simp add: markAll_def)

lemma markAll_ok: "table_ok tb \<Longrightarrow> table_ok (markAll safe m calls tb)"
  by (induction calls arbitrary: tb) (auto simp: markAll_def MarkItem_ok)

definition noItems :: ItemTable where
  "noItems = \<lparr>tbItems = [], tbNextID = 1\<rparr>"

lemma noItems_ok: "table_ok noItems"
  by (simp add: noItems_def table_ok_def uniq_by_def)

text \<open>
  C21: Type correctness of the item table: after any sequence of \<open>MarkItem\<close> calls with any arguments,
  keys are unique, ids are assigned in ascending order, every key is non-blank and within 512 bytes,
  error codes stay within 256 bytes, and a row has the commit marker exactly when its state is
  \<open>committed\<close> and it has a commit time.
\<close>

theorem item_table_typed: "table_ok (markAll safe m calls noItems)"
  by (rule markAll_ok [OF noItems_ok])

text \<open>
  C22: Once the outcome of an item is committed it is final: after any further calls with any arguments
  (other attempts, other states, from any caller) the row is the same, the lookup of a replay still
  reports it as resolved and not skipped, and the attempt of an item never goes back.
\<close>

theorem committed_item_is_final:
  assumes "sel_by itKey (tbItems tb) (oid, k) = Some r"
  shows "\<exists>r'. sel_by itKey (tbItems (markAll safe m calls tb)) (oid, k) = Some r' \<and> itAttempt r \<le> itAttempt r'
    \<and> (itCommitMarker r = 0 \<or> r' = r)
    \<and> (itCommitMarker r = 0 \<or> itState r \<noteq> ItemCommitted \<or> oid = [] \<or> k = []
       \<or> operationItemResolved oid k (markAll safe m calls tb) = (True, False))"
proof -
  from markAll_row [OF assms] obtain r' where r': "sel_by itKey (tbItems (markAll safe m calls tb)) (oid, k) = Some r'"
    "itAttempt r \<le> itAttempt r'" "itCommitMarker r \<noteq> 0 \<longrightarrow> r' = r" by blast
  then show ?thesis
    by (auto simp: operationItemResolved_def operationItemResult_def GetItem_def scanItem_def Let_def)
qed

definition demoMark :: "string \<Rightarrow> int \<Rightarrow> MarkCall" where
  "demoMark st n = (\<lambda>x. x = ''op'', 10 + n, 11 + n, \<lparr>maOperationID = ''op'', maAttempt = n, maItemKey = ''0:a'',
     maState = st, maResult = NoResult, maErrorCode = [], maErrorMessage = []\<rparr>)"

lemma demo_marks: "map_option (\<lambda>r. (itAttempt r, itState r, itCommitMarker r))
    (sel_by itKey (tbItems (markAll id 100 [demoMark ''pending'' 1, demoMark ''failed'' 1, demoMark ''committed'' 2] noItems)) (''op'', ''0:a''))
  = Some (2, ItemCommitted, 1)"
  by code_simp

lemma committed_item_is_final_witness:
  "\<exists>r. sel_by itKey (tbItems (markAll id 100 [demoMark ''pending'' 1, demoMark ''failed'' 1, demoMark ''committed'' 2] noItems))
       (''op'', ''0:a'') = Some r \<and> itCommitMarker r = 1
     \<and> sel_by itKey (tbItems (markAll id 100 [demoMark ''pending'' 3] (markAll id 100
          [demoMark ''pending'' 1, demoMark ''failed'' 1, demoMark ''committed'' 2] noItems))) (''op'', ''0:a'') = Some r"
proof -
  let ?tb = "markAll id 100 [demoMark ''pending'' 1, demoMark ''failed'' 1, demoMark ''committed'' 2] noItems"
  obtain r where r: "sel_by itKey (tbItems ?tb) (''op'', ''0:a'') = Some r" "itCommitMarker r = 1"
    using demo_marks by (auto simp: map_option_eq_Some)
  from committed_item_is_final [OF r(1), of id 100 "[demoMark ''pending'' 3]"] r show ?thesis by auto
qed

end
