(* ===== verification/OpCredential.thy ===== *)
theory OpCredential
  imports OpSubmit Base64 GoNumber
begin

text \<open>
  Signed idempotency credentials (\<open>internal/operations/credential.go\<close>): the table of signing keys,
  issuing, validation, rotation and revocation. \<open>mac\<close> is HMAC-SHA256 (key, message), \<open>marshal\<close> and
  \<open>unmarshal\<close> are \<open>encoding/json\<close> on the claims. Random identifiers and secrets are arguments.
\<close>

subsection \<open>Signing keys\<close>

datatype KeyState = KeyActive | KeyRetired | KeyRevoked

record KeyRow =
  kyID :: string
  kySecret :: string
  kyState :: KeyState
  kyCreatedAt :: int
  kyRotatedAt :: "int option"
  kyRetainedUntil :: "int option"

interpretation keys: row_store "sel_by kyID" "upd_by kyID" ins_by kyID "uniq_by kyID"
  by (rule row_store_by)

datatype CredentialError =
    CredentialInvalid string
  | CredentialExpired
  | KeyStoreFailed
  | KeyNotFound

text \<open>\<open>id\<close> and \<open>secret\<close> are unique columns.\<close>

definition insertKey :: "string \<Rightarrow> string \<Rightarrow> int \<Rightarrow> KeyRow list \<Rightarrow> CredentialError + KeyRow list" where
  "insertKey kid secret t ks =
     (if list_ex (\<lambda>k. kyID k = kid \<or> kySecret k = hexEncode secret) ks then Inl KeyStoreFailed
      else Inr (ins_by \<lparr>kyID = kid, kySecret = hexEncode secret, kyState = KeyActive, kyCreatedAt = t,
                kyRotatedAt = None, kyRetainedUntil = None\<rparr> ks))"

record signingKey =
  sgID :: string
  sgSecret :: string
  sgState :: KeyState
  sgRetainedUntil :: "int option"

definition scanSigningKey :: "KeyRow \<Rightarrow> signingKey option" where
  "scanSigningKey k = map_option (\<lambda>s. \<lparr>sgID = kyID k, sgSecret = s, sgState = kyState k,
     sgRetainedUntil = kyRetainedUntil k\<rparr>) (hexDecode (kySecret k))"

definition activeRow :: "KeyRow list \<Rightarrow> KeyRow option" where
  "activeRow ks = find (\<lambda>k. kyState k = KeyActive) ks"

definition ensureIdempotencySigningKey :: "string \<Rightarrow> string \<Rightarrow> int \<Rightarrow> KeyRow list \<Rightarrow> CredentialError + KeyRow list" where
  "ensureIdempotencySigningKey kid secret t ks =
     (case activeRow ks of Some _ \<Rightarrow> Inr ks | None \<Rightarrow> insertKey kid secret t ks)"

text \<open>\<open>retention\<close> is a \<open>time.Duration\<close>, in nanoseconds; the clock is read three times.\<close>

definition RotateIdempotencySigningKey :: "int \<Rightarrow> string \<Rightarrow> string \<Rightarrow> int \<Rightarrow> int \<Rightarrow> int \<Rightarrow> KeyRow list \<Rightarrow> KeyRow list \<times> CredentialError option" where
  "RotateIdempotencySigningKey retention kid secret t t' t'' ks = (let
     retention = (if retention < 3600000000000 then 604800000000000 else retention);
     retainUntil = wrap64 (t + goQuot retention 1000000);
     retired = map (\<lambda>k. if kyState k = KeyActive
       then k\<lparr>kyState := KeyRetired, kyRotatedAt := Some t', kyRetainedUntil := Some retainUntil\<rparr> else k) ks in
     case insertKey kid secret t'' retired of Inl e \<Rightarrow> (ks, Some e) | Inr ks' \<Rightarrow> (ks', None))"

definition RevokeIdempotencySigningKey :: "string \<Rightarrow> int \<Rightarrow> KeyRow list \<Rightarrow> KeyRow list \<times> CredentialError option" where
  "RevokeIdempotencySigningKey kid t ks = (let guard = (\<lambda>k. kyState k = KeyActive \<or> kyState k = KeyRetired) in
     (upd_by kyID kid guard (\<lambda>k. k\<lparr>kyState := KeyRevoked, kyRotatedAt := Some t, kyRetainedUntil := None\<rparr>) ks,
      if affected_by kyID kid guard ks = 0 then Some KeyNotFound else None))"

subsection \<open>Credentials\<close>

record credentialClaims =
  ccKeyID :: string
  ccCredentialID :: string
  ccOperationType :: string
  ccBaseID :: string
  ccDocumentID :: string
  ccExpiresAt :: int

record IdempotencyCredentialRequest =
  irOperationType :: string
  irBaseID :: string
  irDocumentID :: string
  irLifetimeSeconds :: int

record IdempotencyCredential =
  icCredential :: string
  icOperationKey :: string
  icKeyID :: string
  icOperationType :: string
  icBaseID :: string
  icDocumentID :: string
  icExpiresAt :: int

abbreviation operationKeyPrefix :: string where "operationKeyPrefix \<equiv> ''opcred:''"

definition signCredential :: "(string \<Rightarrow> string \<Rightarrow> string) \<Rightarrow> (credentialClaims \<Rightarrow> string) \<Rightarrow> credentialClaims \<Rightarrow> string \<Rightarrow> string" where
  "signCredential mac marshal claims secret = (let claimsText = EncodeToString (marshal claims) in
     ''opcred.'' @ claimsText @ ''.'' @ EncodeToString (mac secret claimsText))"

definition toCredential :: "string \<Rightarrow> credentialClaims \<Rightarrow> IdempotencyCredential" where
  "toCredential credential claims = \<lparr>icCredential = credential,
     icOperationKey = operationKeyPrefix @ ccCredentialID claims, icKeyID = ccKeyID claims,
     icOperationType = ccOperationType claims, icBaseID = ccBaseID claims, icDocumentID = ccDocumentID claims,
     icExpiresAt = ccExpiresAt claims\<rparr>"

text \<open>
  \<open>t\<close> is the clock when a missing key is created, \<open>t'\<close> when the expiry is computed. The result
  keeps the key table, which the creation of the first key may have extended.
\<close>

definition credentialLifetime :: "int \<Rightarrow> int" where
  "credentialLifetime s = (if s = 0 then 3600 else s)"

definition IssueIdempotencyCredential :: "(string \<Rightarrow> string \<Rightarrow> string) \<Rightarrow> (credentialClaims \<Rightarrow> string)
    \<Rightarrow> string \<Rightarrow> string \<Rightarrow> string \<Rightarrow> int \<Rightarrow> int \<Rightarrow> IdempotencyCredentialRequest \<Rightarrow> KeyRow list
    \<Rightarrow> CredentialError + KeyRow list \<times> IdempotencyCredential" where
  "IssueIdempotencyCredential mac marshal kid secret credID t t' rq ks = (let
     opType = trimSpace (irOperationType rq); lifetime = credentialLifetime (irLifetimeSeconds rq) in
     if opType = [] then Inl (CredentialInvalid ''operation type is required'')
     else if lifetime < 60 \<or> 604800 < lifetime then Inl (CredentialInvalid ''lifetime'')
     else bindr (ensureIdempotencySigningKey kid secret t ks) (\<lambda>ks'.
       case activeRow ks' of None \<Rightarrow> Inl KeyStoreFailed
       | Some row \<Rightarrow> (case scanSigningKey row of None \<Rightarrow> Inl KeyStoreFailed
         | Some key \<Rightarrow> (let claims = \<lparr>ccKeyID = sgID key, ccCredentialID = credID, ccOperationType = opType,
               ccBaseID = irBaseID rq, ccDocumentID = irDocumentID rq, ccExpiresAt = t' + lifetime * 1000\<rparr> in
             Inr (ks', toCredential (signCredential mac marshal claims (sgSecret key)) claims)))))"

definition verifyCredential :: "(string \<Rightarrow> string \<Rightarrow> string) \<Rightarrow> (string \<Rightarrow> credentialClaims option) \<Rightarrow> int \<Rightarrow> string
    \<Rightarrow> KeyRow list \<Rightarrow> CredentialError + credentialClaims" where
  "verifyCredential mac unmarshal t credential ks = (case splitOn credential ''.'' of
     [p0, p1, p2] \<Rightarrow>
       if p0 \<noteq> ''opcred'' \<or> p1 = [] \<or> p2 = [] then Inl (CredentialInvalid ''malformed credential'')
       else (case DecodeString p1 of None \<Rightarrow> Inl (CredentialInvalid ''malformed credential payload'')
         | Some js \<Rightarrow> (case unmarshal js of None \<Rightarrow> Inl (CredentialInvalid ''malformed credential claims'')
           | Some claims \<Rightarrow>
             if ccKeyID claims = [] \<or> ccCredentialID claims = [] \<or> ccOperationType claims = []
             then Inl (CredentialInvalid ''malformed credential claims'')
             else (case sel_by kyID ks (ccKeyID claims) of
               None \<Rightarrow> Inl (CredentialInvalid ''signing key is unavailable'')
             | Some row \<Rightarrow> (case scanSigningKey row of None \<Rightarrow> Inl KeyStoreFailed
               | Some key \<Rightarrow>
                 if sgState key = KeyRevoked then Inl (CredentialInvalid ''signing key was revoked'')
                 else if DecodeString p2 \<noteq> Some (mac (sgSecret key) p1) then Inl (CredentialInvalid ''signature mismatch'')
                 else if ccExpiresAt claims \<le> t then Inl CredentialExpired
                 else Inr claims))))
   | _ \<Rightarrow> Inl (CredentialInvalid ''malformed credential''))"

definition ValidateIdempotencyCredential :: "(string \<Rightarrow> string \<Rightarrow> string) \<Rightarrow> (string \<Rightarrow> credentialClaims option) \<Rightarrow> int
    \<Rightarrow> string \<Rightarrow> Request \<Rightarrow> KeyRow list \<Rightarrow> CredentialError + IdempotencyCredential" where
  "ValidateIdempotencyCredential mac unmarshal t credential rq ks = (let credential = trimSpace credential in
     bindr (verifyCredential mac unmarshal t credential ks) (\<lambda>claims.
       if ccOperationType claims \<noteq> rqType rq \<or> ccBaseID claims \<noteq> rqBaseID rq \<or> ccDocumentID claims \<noteq> rqDocumentID rq
       then Inl (CredentialInvalid ''credential scope does not match request'')
       else Inr (toCredential credential claims)))"

subsection \<open>The text of a credential\<close>

lemma b64_graphic: "b64Value c \<noteq> None \<Longrightarrow> c \<noteq> CHR ''.'' \<and> 32 < (of_char c :: nat) \<and> (of_char c :: nat) < 128"
  by (auto simp: b64Value_def Let_def split: if_splits)

lemma encoded_no_dot: "CHR ''.'' \<notin> set (EncodeToString s)"
  using EncodeToString_chars b64_graphic by blast

lemma space_heads:
  "list_all (\<lambda>e. (of_char (hd e) :: nat) \<le> 32 \<or> 128 \<le> (of_char (hd e) :: nat)) spaceEncodings"
  "list_all (\<lambda>e. (of_char (hd e) :: nat) \<le> 32 \<or> 128 \<le> (of_char (hd e) :: nat)) (map rev spaceEncodings)"
  by code_simp+

lemma leading_graphic:
  assumes "32 < (of_char c :: nat)" "(of_char c :: nat) < 128"
    "list_all (\<lambda>e. (of_char (hd e) :: nat) \<le> 32 \<or> 128 \<le> (of_char (hd e) :: nat)) encs"
  shows "leading encs (c # s) = None"
proof (cases "leading encs (c # s)")
  case (Some e)
  then have "e \<in> set encs" "hd e = c" by (auto dest!: leading_Some simp: Cons_eq_append_conv)
  with assms show ?thesis by (auto simp: list_all_iff)
qed

lemma trimSpace_graphic:
  assumes "s \<noteq> []" "32 < (of_char (hd s) :: nat)" "(of_char (hd s) :: nat) < 128"
    "32 < (of_char (last s) :: nat)" "(of_char (last s) :: nat) < 128"
  shows "trimSpace s = s"
proof -
  obtain c t where s: "s = c # t" using assms(1) by (cases s) auto
  have "stripLeading spaceEncodings s = s"
    unfolding s by (subst stripLeading.simps) (use assms(2,3) in \<open>simp add: s leading_graphic [OF _ _ space_heads(1)]\<close>)
  moreover obtain d u where r: "rev s = d # u" using assms(1) by (cases "rev s") auto
  then have "last s = d" by (metis hd_rev list.sel(1) rev_rev_ident)
  then have "stripLeading (map rev spaceEncodings) (rev s) = rev s"
    unfolding r by (subst stripLeading.simps) (use assms(4,5) in \<open>simp add: leading_graphic [OF _ _ space_heads(2)]\<close>)
  ultimately show ?thesis by (simp add: trimSpace_def trimLeft_def trimRight_def)
qed

lemma signCredential_text:
  assumes "mac secret (EncodeToString (marshal claims)) \<noteq> []"
  shows "trimSpace (signCredential mac marshal claims secret) = signCredential mac marshal claims secret"
proof (rule trimSpace_graphic)
  let ?sig = "EncodeToString (mac secret (EncodeToString (marshal claims)))"
  have "?sig \<noteq> []" by (rule EncodeToString_nonempty [OF assms])
  then have l: "last (signCredential mac marshal claims secret) = last ?sig" "last ?sig \<in> set ?sig"
    by (simp_all add: signCredential_def Let_def)
  show "32 < (of_char (last (signCredential mac marshal claims secret)) :: nat)"
    "(of_char (last (signCredential mac marshal claims secret)) :: nat) < 128"
    using b64_graphic [OF EncodeToString_chars [OF l(2)]] l(1) by simp_all
qed (simp_all add: signCredential_def Let_def)

lemma splitOn_credential:
  "splitOn (signCredential mac marshal claims secret) ''.'' =
     [''opcred'', EncodeToString (marshal claims), EncodeToString (mac secret (EncodeToString (marshal claims)))]"
  using splitOn_fresh [of "CHR ''.''" "''opcred''"] splitOn_fresh [OF encoded_no_dot] splitOn_absent [OF encoded_no_dot]
  by (simp add: signCredential_def Let_def)

text \<open>What validation of a signed credential depends on.\<close>

lemma verify_signed:
  assumes "unmarshal (marshal claims) = Some claims" "marshal claims \<noteq> []"
    "mac secret (EncodeToString (marshal claims)) \<noteq> []"
    "ccKeyID claims \<noteq> []" "ccCredentialID claims \<noteq> []" "ccOperationType claims \<noteq> []"
    "sel_by kyID ks (ccKeyID claims) = Some row" "hexDecode (kySecret row) = Some secret"
  shows "verifyCredential mac unmarshal t (signCredential mac marshal claims secret) ks =
    (if kyState row = KeyRevoked then Inl (CredentialInvalid ''signing key was revoked'')
     else if ccExpiresAt claims \<le> t then Inl CredentialExpired else Inr claims)"
  using assms EncodeToString_nonempty [OF assms(2)] EncodeToString_nonempty [OF assms(3)]
  by (simp add: verifyCredential_def splitOn_credential scanSigningKey_def)

subsection \<open>The life of a key\<close>

datatype KeyOp =
    EnsureKey string string int
  | RotateKey int string string int int int
  | RevokeKey string int
  | IssueCredential string string string int int IdempotencyCredentialRequest

fun runKey :: "(string \<Rightarrow> string \<Rightarrow> string) \<Rightarrow> (credentialClaims \<Rightarrow> string) \<Rightarrow> KeyOp \<Rightarrow> KeyRow list \<Rightarrow> KeyRow list" where
  "runKey mac marshal (EnsureKey kid secret t) ks =
     (case ensureIdempotencySigningKey kid secret t ks of Inl _ \<Rightarrow> ks | Inr ks' \<Rightarrow> ks')"
| "runKey mac marshal (RotateKey retention kid secret t t' t'') ks =
     fst (RotateIdempotencySigningKey retention kid secret t t' t'' ks)"
| "runKey mac marshal (RevokeKey kid t) ks = fst (RevokeIdempotencySigningKey kid t ks)"
| "runKey mac marshal (IssueCredential kid secret credID t t' rq) ks =
     (case IssueIdempotencyCredential mac marshal kid secret credID t t' rq ks of Inl _ \<Rightarrow> ks | Inr (ks', _) \<Rightarrow> ks')"

definition revokes :: "string \<Rightarrow> KeyOp \<Rightarrow> bool" where
  "revokes kid op = (case op of RevokeKey k _ \<Rightarrow> k = kid | _ \<Rightarrow> False)"

lemma insertKey_row: "insertKey kid secret t ks = Inr ks' \<Longrightarrow> sel_by kyID ks k = Some row \<Longrightarrow> sel_by kyID ks' k = Some row"
  by (auto simp: insertKey_def ins_by_def sel_by_append split: if_splits)

lemma ensure_row:
  "ensureIdempotencySigningKey kid secret t ks = Inr ks' \<Longrightarrow> sel_by kyID ks k = Some row \<Longrightarrow> sel_by kyID ks' k = Some row"
  by (auto simp: ensureIdempotencySigningKey_def insertKey_row split: option.splits)

lemma Issue_keys:
  "IssueIdempotencyCredential mac marshal kid secret credID t t' rq ks = Inr (ks', cred)
    \<Longrightarrow> ensureIdempotencySigningKey kid secret t ks = Inr ks'"
  by (auto simp: IssueIdempotencyCredential_def Let_def bindr_Inr split: if_splits option.splits)

definition later_key :: "string \<Rightarrow> bool \<Rightarrow> KeyRow \<Rightarrow> KeyRow \<Rightarrow> bool" where
  "later_key kid revoked row row' \<longleftrightarrow> kySecret row' = kySecret row
     \<and> (kyState row' = KeyRevoked) = (kyState row = KeyRevoked \<or> revoked)"

lemma runKey_row:
  assumes "sel_by kyID ks kid = Some row"
  obtains row' where "sel_by kyID (runKey mac marshal op ks) kid = Some row'" "later_key kid (revokes kid op) row row'"
proof (cases op)
  case (EnsureKey i secret t)
  then have "sel_by kyID (runKey mac marshal op ks) kid = Some row"
    using assms by (auto simp: ensure_row split: sum.splits)
  with that show ?thesis by (simp add: EnsureKey revokes_def later_key_def)
next
  case (RotateKey ret i secret t t' t'')
  let ?f = "\<lambda>k. if kyState k = KeyActive then k\<lparr>kyState := KeyRetired, kyRotatedAt := Some t', kyRetainedUntil :=
      Some (wrap64 (t + goQuot (if ret < 3600000000000 then 604800000000000 else ret) 1000000))\<rparr> else k"
  have "sel_by kyID (map ?f ks) kid = Some (?f row)"
    using assms by (subst sel_by_map) auto
  then have "\<exists>row'. sel_by kyID (runKey mac marshal op ks) kid = Some row' \<and> (row' = row \<or> row' = ?f row)"
    using assms insertKey_row [of i secret t'' "map ?f ks"]
    by (auto simp: RotateKey RotateIdempotencySigningKey_def Let_def split: sum.splits)
  with that show ?thesis by (auto simp: RotateKey revokes_def later_key_def split: if_splits)
next
  case (RevokeKey i t)
  let ?g = "\<lambda>k. kyState k = KeyActive \<or> kyState k = KeyRetired"
  let ?f = "\<lambda>k. k\<lparr>kyState := KeyRevoked, kyRotatedAt := Some t, kyRetainedUntil := None\<rparr>"
  have s: "sel_by kyID (runKey mac marshal op ks) kid =
      (if kid = i then Some (if ?g row then ?f row else row) else Some row)"
  proof -
    have "runKey mac marshal op ks = upd_by kyID i ?g ?f ks"
      by (simp add: RevokeKey RevokeIdempotencySigningKey_def Let_def)
    moreover have "sel_by kyID (upd_by kyID i ?g ?f ks) kid =
        (if kid = i then map_option (\<lambda>r. if ?g r then ?f r else r) (sel_by kyID ks i) else sel_by kyID ks kid)"
      by (rule keys.sel_upd) simp
    ultimately show ?thesis using assms by (cases "kid = i") simp_all
  qed
  show ?thesis
  proof (cases "kid = i \<and> ?g row")
    case True
    then have "sel_by kyID (runKey mac marshal op ks) kid = Some (?f row)" using s by simp
    then show ?thesis by (rule that) (use True in \<open>simp add: RevokeKey revokes_def later_key_def\<close>)
  next
    case False
    then have "sel_by kyID (runKey mac marshal op ks) kid = Some row" using s by auto
    then show ?thesis
      by (rule that) (use False in \<open>cases "kyState row"; auto simp: RevokeKey revokes_def later_key_def\<close>)
  qed
next
  case (IssueCredential i secret c t t' rq)
  then have "sel_by kyID (runKey mac marshal op ks) kid = Some row"
    using assms by (auto simp: ensure_row dest!: Issue_keys split: sum.splits)
  with that show ?thesis by (simp add: IssueCredential revokes_def later_key_def)
qed

lemma runKeys_row:
  "sel_by kyID ks kid = Some row \<Longrightarrow> \<exists>row'. sel_by kyID (fold (runKey mac marshal) ops ks) kid = Some row'
     \<and> later_key kid (list_ex (revokes kid) ops) row row'"
proof (induction ops arbitrary: ks row)
  case (Cons op ops)
  from runKey_row [OF Cons.prems, of mac marshal op] obtain row1 where
    "sel_by kyID (runKey mac marshal op ks) kid = Some row1" "later_key kid (revokes kid op) row row1" by blast
  with Cons.IH [of "runKey mac marshal op ks" row1] show ?case
    by (fastforce simp: later_key_def)
qed (simp add: later_key_def)

lemma activeRow_Some: "activeRow ks = Some row \<Longrightarrow> row \<in> set ks \<and> kyState row = KeyActive"
  by (auto simp: activeRow_def dest: find_Some_mem)

lemma Issue_claims:
  assumes "IssueIdempotencyCredential mac marshal kid secret credID t t' rq ks = Inr (ks', cred)"
  obtains row s claims where "activeRow ks' = Some row" "hexDecode (kySecret row) = Some s"
    "claims = \<lparr>ccKeyID = kyID row, ccCredentialID = credID, ccOperationType = trimSpace (irOperationType rq),
       ccBaseID = irBaseID rq, ccDocumentID = irDocumentID rq,
       ccExpiresAt = t' + credentialLifetime (irLifetimeSeconds rq) * 1000\<rparr>"
    "cred = toCredential (signCredential mac marshal claims s) claims" "trimSpace (irOperationType rq) \<noteq> []"
  using assms
  by (auto simp: IssueIdempotencyCredential_def Let_def bindr_Inr scanSigningKey_def split: if_splits option.splits)

lemma ensure_keys:
  "ensureIdempotencySigningKey kid secret t ks = Inr ks' \<Longrightarrow> uniq_by kyID ks \<Longrightarrow> list_all (\<lambda>k. kyID k \<noteq> []) ks
    \<Longrightarrow> kid \<noteq> [] \<Longrightarrow> uniq_by kyID ks' \<and> list_all (\<lambda>k. kyID k \<noteq> []) ks'"
  by (auto simp: ensureIdempotencySigningKey_def insertKey_def ins_by_def uniq_by_def list_ex_iff
      split: option.splits if_splits)


subsection \<open>A concrete credential\<close>

definition demo_mac :: "string \<Rightarrow> string \<Rightarrow> string" where
  "demo_mac secret m = secret @ ''.'' @ m"

definition demoClaims :: credentialClaims where
  "demoClaims = \<lparr>ccKeyID = ''k'', ccCredentialID = ''c'', ccOperationType = ''t'', ccBaseID = ''b'', ccDocumentID = [],
     ccExpiresAt = 3600005\<rparr>"

definition demo_marshal :: "credentialClaims \<Rightarrow> string" where
  "demo_marshal c = ''{'' @ ccKeyID c @ '','' @ ccCredentialID c @ ''}''"

definition demo_unmarshal :: "string \<Rightarrow> credentialClaims option" where
  "demo_unmarshal s = (if s = demo_marshal demoClaims then Some demoClaims else None)"

definition demoKeys :: "KeyRow list" where
  "demoKeys = [\<lparr>kyID = ''k'', kySecret = hexEncode ''s'', kyState = KeyActive, kyCreatedAt = 5,
     kyRotatedAt = None, kyRetainedUntil = None\<rparr>]"

definition demoCred :: IdempotencyCredential where
  "demoCred = toCredential (signCredential demo_mac demo_marshal demoClaims ''s'') demoClaims"

definition demoCredentialRequest :: IdempotencyCredentialRequest where
  "demoCredentialRequest = \<lparr>irOperationType = '' t'', irBaseID = ''b'', irDocumentID = [], irLifetimeSeconds = 0\<rparr>"

definition demoCredRequest :: Request where
  "demoCredRequest = \<lparr>rqType = ''t'', rqSchema = 1, rqBaseID = ''b'', rqDocumentID = [],
     rqParentOperationID = [], rqPrincipalRef = [], rqScopeRef = [], rqInputRef = [], rqInputSHA256 = [],
     rqSourceVersion = [], rqConfigSnapshotRef = [], rqModelSnapshotRef = [], rqExpectedTargetEpoch = None,
     rqExpectedAncestorEpoch = None, rqAllocatedGeneration = None, rqPayload = ''p'', rqIdempotencyKey = [],
     rqPriority = 0, rqResourceClass = [], rqTotalUnits = None, rqTotalBytes = None,
     rqBudget = \<lparr>bMemoryBytes = 0, bDiskBytes = 0, bTempBytes = 0\<rparr>, rqUploadID = [],
     rqPreallocateDocument = False\<rparr>"

lemma demo_trim: "trimSpace '' t'' = ''t''"
  by code_simp

lemma demoIssue_ok: "IssueIdempotencyCredential demo_mac demo_marshal ''k'' ''s'' ''c'' 5 5 demoCredentialRequest []
    = Inr (demoKeys, demoCred)"
  by (simp add: IssueIdempotencyCredential_def demoCredentialRequest_def demo_trim credentialLifetime_def
      ensureIdempotencySigningKey_def activeRow_def insertKey_def ins_by_def scanSigningKey_def demoKeys_def
      demoCred_def demoClaims_def Let_def del: hexEncode.simps)

lemma demoCred_ok: "demoClaims = \<lparr>ccKeyID = icKeyID demoCred, ccCredentialID = ''c'', ccOperationType = icOperationType demoCred,
    ccBaseID = icBaseID demoCred, ccDocumentID = icDocumentID demoCred, ccExpiresAt = icExpiresAt demoCred\<rparr>"
  by (simp add: demoCred_def toCredential_def demoClaims_def)


end
