(* ===== verification/Jobs.thy ===== *)
theory Jobs
  imports Tables Channels GoFloat
begin

text \<open>
  The in-process job manager (\<open>internal/jobs/manager.go\<close>): the registry of live tasks, the two bounded
  queues with their workers, progress reports, cancellation, shutdown, and the persisted rows. A
  task is in one of three stages: waiting in its queue, held by a worker, or running. Every write of
  a row may fail; the code ignores that, except for the first row of a job. Task identifiers are 128
  random bits, which the model takes to be new.
\<close>

subsection \<open>Jobs and rows\<close>

datatype JobStatus = JobPending | JobRunning | JobDone | JobFailed | JobCancelled

record Job =
  jbID :: string
  jbKind :: string
  jbBaseID :: string
  jbStatus :: JobStatus
  jbProgress :: int
  jbTotal :: int
  jbPhase :: string
  jbFile :: string
  jbCompletedBytes :: int
  jbTotalBytes :: int
  jbError :: string

record ProgressUpdate =
  puPercent :: int
  puCompleted :: int
  puTotal :: int
  puPhase :: string
  puFile :: string
  puCompletedBytes :: int
  puTotalBytes :: int

text \<open>The payload column holds this struct as JSON.\<close>

record persistedProgress =
  ppPhase :: string
  ppFile :: string
  ppCompletedBytes :: int
  ppTotalBytes :: int

record JobRow =
  jrID :: string
  jrKind :: string
  jrBaseID :: string
  jrPayload :: persistedProgress
  jrStatus :: JobStatus
  jrProgress :: int
  jrTotal :: int
  jrError :: "string option"
  jrCreatedAt :: int
  jrUpdatedAt :: int

interpretation jobs: row_store "sel_by jrID" "upd_by jrID" ins_by jrID "uniq_by jrID"
  by (rule row_store_by)

definition progressOf :: "Job \<Rightarrow> persistedProgress" where
  "progressOf j = \<lparr>ppPhase = jbPhase j, ppFile = jbFile j, ppCompletedBytes = jbCompletedBytes j,
     ppTotalBytes = jbTotalBytes j\<rparr>"

definition errText :: "Job \<Rightarrow> string option" where
  "errText j = (if jbError j = [] then None else Some (jbError j))"

definition rowUpdate :: "int \<Rightarrow> Job \<Rightarrow> JobRow \<Rightarrow> JobRow" where
  "rowUpdate t j r = r\<lparr>jrPayload := progressOf j, jrStatus := jbStatus j, jrProgress := jbProgress j,
     jrTotal := jbTotal j, jrError := errText j, jrUpdatedAt := t\<rparr>"

definition rowInsert :: "int \<Rightarrow> int \<Rightarrow> Job \<Rightarrow> JobRow" where
  "rowInsert t t' j = \<lparr>jrID = jbID j, jrKind = jbKind j, jrBaseID = jbBaseID j, jrPayload = progressOf j,
     jrStatus = jbStatus j, jrProgress = jbProgress j, jrTotal = jbTotal j, jrError = errText j,
     jrCreatedAt = t, jrUpdatedAt = t'\<rparr>"

text \<open>\<open>INSERT ... ON CONFLICT(id) DO UPDATE\<close>; \<open>ok\<close> tells whether the statement was executed.\<close>

definition persist :: "bool \<Rightarrow> int \<Rightarrow> int \<Rightarrow> Job \<Rightarrow> JobRow list \<Rightarrow> JobRow list" where
  "persist ok t t' j rows = (if \<not> ok then rows
     else if sel_by jrID rows (jbID j) = None then ins_by (rowInsert t t' j) rows
     else upd_by jrID (jbID j) (\<lambda>_. True) (rowUpdate t' j) rows)"

subsection \<open>Tasks and the manager\<close>

datatype TaskStage = Waiting | Held | Executing

text \<open>\<open>tkPersisted\<close> is what the channel of the first write holds: nothing yet, or the error.\<close>

record Task =
  tkJob :: Job
  tkCancelled :: bool
  tkIOHeavy :: bool
  tkPersisted :: "string option option"
  tkStage :: TaskStage

definition tkID :: "Task \<Rightarrow> string" where
  "tkID tk = jbID (tkJob tk)"

interpretation tasks: row_store "sel_by tkID" "upd_by tkID" ins_by tkID "uniq_by tkID"
  by (rule row_store_by)

text \<open>\<open>mgFailures\<close> collects the calls of the failure observer, \<open>mgIssued\<close> the identifiers drawn.\<close>

record Manager =
  mgRows :: "JobRow list"
  mgTasks :: "Task list"
  mgQueue :: "string chan"
  mgIOQueue :: "string chan"
  mgWorkers :: nat
  mgClosed :: bool
  mgObserved :: bool
  mgFailures :: "string list"
  mgIssued :: "string list"

abbreviation task :: "Manager \<Rightarrow> string \<Rightarrow> Task option" where
  "task m \<equiv> sel_by tkID (mgTasks m)"

abbreviation job_row :: "Manager \<Rightarrow> string \<Rightarrow> JobRow option" where
  "job_row m \<equiv> sel_by jrID (mgRows m)"

definition NewManager :: "JobRow list \<Rightarrow> int \<Rightarrow> Manager" where
  "NewManager rows workers = \<lparr>mgRows = rows, mgTasks = [], mgQueue = makeChan 256, mgIOQueue = makeChan 256,
     mgWorkers = nat (if workers < 1 then 1 else workers), mgClosed = False, mgObserved = False,
     mgFailures = [], mgIssued = map jrID rows\<rparr>"

definition recoverRow :: "int \<Rightarrow> JobRow \<Rightarrow> JobRow" where
  "recoverRow t r = (if jrStatus r = JobPending \<or> jrStatus r = JobRunning
     then r\<lparr>jrStatus := JobFailed, jrError := Some ''interrupted by restart'', jrUpdatedAt := t\<rparr> else r)"

text \<open>\<open>Start\<close> runs before any task is submitted.\<close>

definition Start :: "int \<Rightarrow> Manager \<Rightarrow> Manager" where
  "Start t m = m\<lparr>mgRows := map (recoverRow t) (mgRows m)\<rparr>"

definition SetFailureObserver :: "Manager \<Rightarrow> Manager" where
  "SetFailureObserver m = m\<lparr>mgObserved := True\<rparr>"

subsection \<open>Submitting\<close>

datatype SubmitResult = Submitted string | JobQueueFull | SendOnClosedChannel

definition newJob :: "string \<Rightarrow> string \<Rightarrow> string \<Rightarrow> int \<Rightarrow> bool \<Rightarrow> Job" where
  "newJob jid kind base tot ioHeavy = \<lparr>jbID = jid, jbKind = kind, jbBaseID = base, jbStatus = JobPending,
     jbProgress = 0, jbTotal = tot, jbPhase = (if ioHeavy then ''queued'' else []), jbFile = [],
     jbCompletedBytes = 0, jbTotalBytes = 0, jbError = []\<rparr>"

definition newTask :: "Job \<Rightarrow> bool \<Rightarrow> Task" where
  "newTask j ioHeavy = \<lparr>tkJob = j, tkCancelled = False, tkIOHeavy = ioHeavy, tkPersisted = None, tkStage = Waiting\<rparr>"

text \<open>
  The task is registered before it is queued. A full queue takes it out again; sending on a queue
  that \<open>Stop\<close> closed panics and leaves it registered.
\<close>

definition submitWithProgress :: "string \<Rightarrow> string \<Rightarrow> string \<Rightarrow> int \<Rightarrow> bool \<Rightarrow> Manager \<Rightarrow> Manager \<times> SubmitResult" where
  "submitWithProgress jid kind base tot ioHeavy m = (let
     tk = newTask (newJob jid kind base tot ioHeavy) ioHeavy;
     m' = m\<lparr>mgTasks := ins_by tk (mgTasks m), mgIssued := jid # mgIssued m\<rparr>;
     queue = (if ioHeavy then mgIOQueue m else mgQueue m) in
     if mgClosed m then (m', SendOnClosedChannel)
     else (case chSend jid queue of
       None \<Rightarrow> (m'\<lparr>mgTasks := mgTasks m\<rparr>, JobQueueFull)
     | Some q \<Rightarrow> (if ioHeavy then m'\<lparr>mgIOQueue := q\<rparr> else m'\<lparr>mgQueue := q\<rparr>, Submitted jid)))"

text \<open>The goroutine that writes the first row: the error text, or None when the row is stored.\<close>

definition persistFirst :: "string \<Rightarrow> string option \<Rightarrow> int \<Rightarrow> int \<Rightarrow> Manager \<Rightarrow> Manager" where
  "persistFirst jid err t t' m = (case task m jid of None \<Rightarrow> m
     | Some tk \<Rightarrow> m\<lparr>mgTasks := upd_by tkID jid (\<lambda>_. True) (\<lambda>k. k\<lparr>tkPersisted := Some err\<rparr>) (mgTasks m),
         mgRows := persist (err = None) t t' (tkJob tk) (mgRows m)\<rparr>)"

subsection \<open>Workers\<close>

datatype JobErr = JobCanceled | JobDeadlineExceeded | JobErr string

definition contextCancelCause :: "JobErr option \<Rightarrow> bool" where
  "contextCancelCause err = (case err of Some JobCanceled \<Rightarrow> True | Some JobDeadlineExceeded \<Rightarrow> True | _ \<Rightarrow> False)"

definition jobErrText :: "JobErr \<Rightarrow> string" where
  "jobErrText e = (case e of JobCanceled \<Rightarrow> ''context canceled'' | JobDeadlineExceeded \<Rightarrow> ''context deadline exceeded''
     | JobErr s \<Rightarrow> s)"

definition settleJob :: "JobErr option \<Rightarrow> Job \<Rightarrow> Job" where
  "settleJob err j = (case err of None \<Rightarrow> j\<lparr>jbStatus := JobDone, jbProgress := jbTotal j\<rparr>
     | Some e \<Rightarrow> if contextCancelCause err then j\<lparr>jbStatus := JobCancelled\<rparr>
         else j\<lparr>jbStatus := JobFailed, jbError := jobErrText e\<rparr>)"

definition finishTask :: "bool \<Rightarrow> int \<Rightarrow> int \<Rightarrow> JobErr option \<Rightarrow> string \<Rightarrow> Manager \<Rightarrow> Manager" where
  "finishTask ok t t' err jid m = (case task m jid of None \<Rightarrow> m
     | Some tk \<Rightarrow> (let j = settleJob err (tkJob tk) in
         m\<lparr>mgTasks := filter (\<lambda>k. tkID k \<noteq> jid) (mgTasks m), mgRows := persist ok t t' j (mgRows m),
           mgFailures := (if mgObserved m then mgFailures m @ [jbKind j] else mgFailures m)\<rparr>))"

definition setTask :: "string \<Rightarrow> (Task \<Rightarrow> Task) \<Rightarrow> Manager \<Rightarrow> Manager" where
  "setTask jid f m = m\<lparr>mgTasks := upd_by tkID jid (\<lambda>_. True) f (mgTasks m)\<rparr>"

text \<open>A worker of the pool, or the single dispatcher of the IO queue, receives the oldest task.\<close>

definition heldBy :: "bool \<Rightarrow> Manager \<Rightarrow> nat" where
  "heldBy io m = length (filter (\<lambda>k. tkStage k \<noteq> Waiting \<and> tkIOHeavy k = io) (mgTasks m))"

definition takeTask :: "bool \<Rightarrow> Manager \<Rightarrow> (string \<times> Manager) option" where
  "takeTask io m = (if (if io then 1 else mgWorkers m) \<le> heldBy io m then None
     else (case chRecv (if io then mgIOQueue m else mgQueue m) of None \<Rightarrow> None
       | Some (jid, q) \<Rightarrow> Some (jid, setTask jid (\<lambda>k. k\<lparr>tkStage := Held\<rparr>)
           (if io then m\<lparr>mgIOQueue := q\<rparr> else m\<lparr>mgQueue := q\<rparr>))))"

definition startJob :: "Task \<Rightarrow> Task" where
  "startJob k = k\<lparr>tkStage := Executing, tkJob := (tkJob k)\<lparr>jbStatus := JobRunning,
     jbPhase := (if tkIOHeavy k \<and> jbPhase (tkJob k) = ''queued'' then [] else jbPhase (tkJob k))\<rparr>\<rparr>"

text \<open>
  \<open>runTask\<close> up to the call of the task's function: the result tells whether that call is made. With
  the context cancelled and the first write done both cases of the select lead to the same end.
\<close>

definition runTask :: "bool \<Rightarrow> int \<Rightarrow> int \<Rightarrow> string \<Rightarrow> Manager \<Rightarrow> (Manager \<times> bool) option" where
  "runTask ok t t' jid m = (case task m jid of None \<Rightarrow> None
     | Some tk \<Rightarrow> if tkStage tk \<noteq> Held then None
         else (case tkPersisted tk of None \<Rightarrow> None
           | Some (Some e) \<Rightarrow> Some (finishTask ok t t' (Some (JobErr (''persist job: '' @ e))) jid m, False)
           | Some None \<Rightarrow>
               if tkCancelled tk then Some (finishTask ok t t' (Some JobCanceled) jid m, False)
               else (let m' = setTask jid startJob m in
                 Some (m'\<lparr>mgRows := persist ok t t' (tkJob (startJob tk)) (mgRows m)\<rparr>, True))))"

subsection \<open>Progress\<close>

definition reportPercent :: "ProgressUpdate \<Rightarrow> int" where
  "reportPercent u = (if 0 < puTotalBytes u
     then goTrunc (fl (fl (fl (of_int (puCompletedBytes u)) / fl (of_int (puTotalBytes u))) * 100))
     else if 0 < puCompleted u then puCompleted u else puPercent u)"

definition reportJob :: "ProgressUpdate \<Rightarrow> Job \<Rightarrow> Job" where
  "reportJob u j = (let
     percent = reportPercent u;
     progress = (if 0 < puCompleted u then puCompleted u
       else if percent < 0 then 0 else if 100 < percent then 100 else percent) in
     j\<lparr>jbProgress := progress,
       jbPhase := (if puPhase u \<noteq> [] then puPhase u else jbPhase j),
       jbFile := (if puFile u \<noteq> [] then puFile u else jbFile j),
       jbCompletedBytes := (if 0 < puTotalBytes u \<or> 0 < puCompletedBytes u then puCompletedBytes u else jbCompletedBytes j),
       jbTotalBytes := (if 0 < puTotalBytes u then puTotalBytes u else jbTotalBytes j),
       jbTotal := (if 0 < puTotal u then puTotal u else jbTotal j),
       jbStatus := JobRunning\<rparr>)"

definition reportTask :: "bool \<Rightarrow> int \<Rightarrow> int \<Rightarrow> ProgressUpdate \<Rightarrow> string \<Rightarrow> Manager \<Rightarrow> Manager" where
  "reportTask ok t t' u jid m = (case task m jid of None \<Rightarrow> m
     | Some tk \<Rightarrow> (setTask jid (\<lambda>k. k\<lparr>tkJob := reportJob u (tkJob k)\<rparr>) m)
         \<lparr>mgRows := persist ok t t' (reportJob u (tkJob tk)) (mgRows m)\<rparr>)"

subsection \<open>Status, cancellation, shutdown\<close>

definition rowJob :: "JobRow \<Rightarrow> Job" where
  "rowJob r = \<lparr>jbID = jrID r, jbKind = jrKind r, jbBaseID = jrBaseID r, jbStatus = jrStatus r,
     jbProgress = jrProgress r, jbTotal = jrTotal r, jbPhase = ppPhase (jrPayload r), jbFile = ppFile (jrPayload r),
     jbCompletedBytes = ppCompletedBytes (jrPayload r), jbTotalBytes = ppTotalBytes (jrPayload r),
     jbError = (case jrError r of None \<Rightarrow> [] | Some e \<Rightarrow> e)\<rparr>"

definition JobStatusOf :: "string \<Rightarrow> Manager \<Rightarrow> Job option" where
  "JobStatusOf jid m = (case task m jid of Some tk \<Rightarrow> Some (tkJob tk) | None \<Rightarrow> map_option rowJob (job_row m jid))"

definition CancelJob :: "string \<Rightarrow> Manager \<Rightarrow> Manager \<times> bool" where
  "CancelJob jid m = (setTask jid (\<lambda>k. k\<lparr>tkCancelled := True\<rparr>) m, task m jid \<noteq> None)"

definition StopWithContext :: "Manager \<Rightarrow> Manager" where
  "StopWithContext m = m\<lparr>mgTasks := map (\<lambda>k. k\<lparr>tkCancelled := True\<rparr>) (mgTasks m), mgClosed := True\<rparr>"

end
