(* ===== verification/JobsProperties.thy ===== *)
theory JobsProperties
  imports Jobs
begin

text \<open>
  The job manager under any interleaving of clients, workers, failing writes, shutdown and restarts:
  rows are well-formed, a settled row is final, and the function of a job is called at most once,
  never after a cancellation that came before it.
\<close>

subsection \<open>Steps\<close>

datatype JobLabel = Ran string | Other

definition inQueue :: "string \<Rightarrow> Manager \<Rightarrow> bool" where
  "inQueue jid m \<longleftrightarrow> jid \<in> set (chItems (mgQueue m)) \<union> set (chItems (mgIOQueue m))"

inductive job_step :: "Manager \<Rightarrow> JobLabel \<Rightarrow> Manager \<Rightarrow> bool" where
  submit: "jid \<notin> set (mgIssued m) \<Longrightarrow> job_step m Other (fst (submitWithProgress jid kind base tot io m))"
| persisted: "task m jid = Some tk \<Longrightarrow> tkPersisted tk = None \<Longrightarrow> inQueue jid m \<or> tkStage tk = Held
    \<Longrightarrow> job_step m Other (persistFirst jid err t t' m)"
| take: "takeTask io m = Some (jid, m') \<Longrightarrow> job_step m Other m'"
| run: "runTask ok t t' jid m = Some (m', started) \<Longrightarrow> job_step m (if started then Ran jid else Other) m'"
| report: "task m jid = Some tk \<Longrightarrow> tkStage tk = Executing \<Longrightarrow> job_step m Other (reportTask ok t t' u jid m)"
| finish: "task m jid = Some tk \<Longrightarrow> tkStage tk = Executing \<Longrightarrow> job_step m Other (finishTask ok t t' err jid m)"
| cancel: "job_step m Other (fst (CancelJob jid m))"
| stop: "job_step m Other (StopWithContext m)"
| observe: "job_step m Other (SetFailureObserver m)"
| restart: "job_step m Other ((Start t (NewManager (mgRows m) workers))\<lparr>mgIssued := mgIssued m\<rparr>)"

inductive job_run :: "Manager \<Rightarrow> JobLabel list \<Rightarrow> Manager \<Rightarrow> bool" where
  none: "job_run m [] m"
| more: "job_step m l m' \<Longrightarrow> job_run m' ls m'' \<Longrightarrow> job_run m (l # ls) m''"

definition job_init :: "Manager \<Rightarrow> bool" where
  "job_init m \<longleftrightarrow> (\<exists>t workers. m = Start t (NewManager [] workers))"

subsection \<open>The effect of the operations on one task and one row\<close>

definition settled :: "JobStatus \<Rightarrow> bool" where
  "settled s \<longleftrightarrow> s = JobDone \<or> s = JobFailed \<or> s = JobCancelled"

definition job_ok :: "Job \<Rightarrow> bool" where
  "job_ok j \<longleftrightarrow> (jbStatus j = JobDone \<or> 0 \<le> jbProgress j)
     \<and> (jbStatus j = JobDone \<longrightarrow> jbProgress j = jbTotal j)
     \<and> (jbStatus j = JobPending \<longrightarrow> jbProgress j = 0)
     \<and> (jbStatus j = JobFailed \<or> jbError j = [])"

lemma job_ok_row: "job_ok (rowJob (rowInsert t t' j)) = job_ok j" "job_ok (rowJob (rowUpdate t j r)) = job_ok j"
  by (simp_all add: job_ok_def rowJob_def rowInsert_def rowUpdate_def errText_def)

lemma sel_by_filter: "sel_by key (filter (\<lambda>x. key x \<noteq> i) rows) k = (if k = i then None else sel_by key rows k)"
  by (induction rows) (auto simp: sel_by_def)

lemma task_setTask: "(\<And>k. tkID (f k) = tkID k) \<Longrightarrow>
    task (setTask jid f m) k = (if k = jid then map_option f (task m jid) else task m k)"
  unfolding setTask_def by (simp add: tasks.sel_upd)

lemma setTask_fields [simp]:
  "mgRows (setTask jid f m) = mgRows m" "mgQueue (setTask jid f m) = mgQueue m"
  "mgIOQueue (setTask jid f m) = mgIOQueue m" "mgIssued (setTask jid f m) = mgIssued m"
  by (simp_all add: setTask_def)

lemma tkID_simps [simp]:
  "tkID (k\<lparr>tkStage := s\<rparr>) = tkID k" "tkID (k\<lparr>tkCancelled := c\<rparr>) = tkID k" "tkID (k\<lparr>tkPersisted := p\<rparr>) = tkID k"
  "tkID (startJob k) = tkID k" "tkID (k\<lparr>tkJob := reportJob u (tkJob k)\<rparr>) = tkID k"
  by (simp_all add: tkID_def startJob_def reportJob_def Let_def)

lemma jbID_simps [simp]: "jbID (reportJob u j) = jbID j" "jbID (settleJob err j) = jbID j"
  by (simp_all add: reportJob_def settleJob_def Let_def split: option.splits)

lemma jrID_simps [simp]: "jrID (rowInsert t t' j) = jbID j" "jrID (rowUpdate t j r) = jrID r" "jrID (recoverRow t r) = jrID r"
  by (simp_all add: rowInsert_def rowUpdate_def recoverRow_def)

lemma persist_row:
  "sel_by jrID (persist ok t t' j rows) k = (if ok \<and> k = jbID j
     then Some (case sel_by jrID rows k of None \<Rightarrow> rowInsert t t' j | Some r \<Rightarrow> rowUpdate t' j r)
     else sel_by jrID rows k)"
  by (auto simp: persist_def jobs.sel_ins jobs.sel_upd split: option.splits)

lemma persist_rows_ok:
  assumes "list_all (\<lambda>r. job_ok (rowJob r)) rows" "job_ok j"
  shows "list_all (\<lambda>r. job_ok (rowJob r)) (persist ok t t' j rows)"
  using assms by (auto simp: persist_def ins_by_def upd_by_def list_all_iff job_ok_row)

lemma persist_uniq: "uniq_by jrID rows \<Longrightarrow> uniq_by jrID (persist ok t t' j rows)"
  unfolding persist_def by (auto intro!: jobs.wf_ins jobs.wf_upd)

lemma persist_ids: "jbID j \<in> A \<Longrightarrow> jrID ` set rows \<subseteq> A \<Longrightarrow> jrID ` set (persist ok t t' j rows) \<subseteq> A"
  by (auto simp: persist_def ins_by_def upd_by_def)

subsection \<open>Invariant\<close>

definition task_ok :: "JobRow list \<Rightarrow> Task \<Rightarrow> bool" where
  "task_ok rows tk \<longleftrightarrow> job_ok (tkJob tk)
     \<and> (if tkStage tk = Executing then jbStatus (tkJob tk) = JobRunning else jbStatus (tkJob tk) = JobPending)
     \<and> (case sel_by jrID rows (tkID tk) of
          None \<Rightarrow> tkPersisted tk \<noteq> Some None \<and> tkStage tk \<noteq> Executing
        | Some r \<Rightarrow> tkPersisted tk = Some None \<and> \<not> settled (jrStatus r))"

definition rows_ok :: "Manager \<Rightarrow> bool" where
  "rows_ok m \<longleftrightarrow> uniq_by jrID (mgRows m) \<and> list_all (\<lambda>r. job_ok (rowJob r)) (mgRows m)
     \<and> jrID ` set (mgRows m) \<subseteq> set (mgIssued m)"

definition tasks_ok :: "Manager \<Rightarrow> bool" where
  "tasks_ok m \<longleftrightarrow> (\<forall>k tk. task m k = Some tk \<longrightarrow> k \<in> set (mgIssued m) \<and> task_ok (mgRows m) tk)"

definition queues_ok :: "Manager \<Rightarrow> bool" where
  "queues_ok m \<longleftrightarrow> distinct (chItems (mgQueue m) @ chItems (mgIOQueue m))
     \<and> (\<forall>k. inQueue k m \<longrightarrow> (\<exists>tk. task m k = Some tk \<and> tkStage tk = Waiting))"

definition job_inv :: "Manager \<Rightarrow> bool" where
  "job_inv m \<longleftrightarrow> rows_ok m \<and> tasks_ok m \<and> queues_ok m"

lemma task_ok_same: "sel_by jrID rows (tkID tk) = sel_by jrID rows' (tkID tk) \<Longrightarrow> task_ok rows tk = task_ok rows' tk"
  by (simp add: task_ok_def)

text \<open>Every operation but shutdown and restart changes one task and at most the row of that task.\<close>

lemma job_inv_update:
  assumes inv: "job_inv m"
    and t: "\<And>k. task m' k = (if k = jid then new else task m k)"
    and r: "\<And>k. k \<noteq> jid \<Longrightarrow> job_row m' k = job_row m k"
    and new: "case new of None \<Rightarrow> \<not> inQueue jid m' | Some tk \<Rightarrow> jid \<in> set (mgIssued m')
        \<and> task_ok (mgRows m') tk \<and> (inQueue jid m' \<longrightarrow> tkStage tk = Waiting)"
    and iss: "set (mgIssued m) \<subseteq> set (mgIssued m')"
    and q: "\<And>k. k \<noteq> jid \<Longrightarrow> inQueue k m' \<Longrightarrow> inQueue k m"
    and d: "distinct (chItems (mgQueue m') @ chItems (mgIOQueue m'))"
    and rows: "rows_ok m'"
  shows "job_inv m'"
proof -
  have "tasks_ok m'"
    unfolding tasks_ok_def
  proof (intro allI impI)
    fix k tk
    assume k: "task m' k = Some tk"
    show "k \<in> set (mgIssued m') \<and> task_ok (mgRows m') tk"
    proof (cases "k = jid")
      case True
      with k t new show ?thesis by auto
    next
      case False
      with k t have o: "task m k = Some tk" by simp
      then have "tkID tk = k" by (rule tasks.sel_key)
      with False r have "task_ok (mgRows m') tk = task_ok (mgRows m) tk" by (intro task_ok_same) simp
      with o inv iss show ?thesis by (auto simp: job_inv_def tasks_ok_def)
    qed
  qed
  moreover have "queues_ok m'"
    unfolding queues_ok_def
  proof (intro conjI allI impI d)
    fix k
    assume k: "inQueue k m'"
    show "\<exists>tk. task m' k = Some tk \<and> tkStage tk = Waiting"
    proof (cases "k = jid")
      case True
      with k t new show ?thesis by (cases new) auto
    next
      case False
      with q [OF False k] t inv show ?thesis by (auto simp: job_inv_def queues_ok_def)
    qed
  qed
  ultimately show ?thesis using rows by (simp add: job_inv_def)
qed

lemma job_inv_task: "job_inv m \<Longrightarrow> task m k = Some tk \<Longrightarrow> task_ok (mgRows m) tk \<and> k \<in> set (mgIssued m) \<and> tkID tk = k"
  using tasks.sel_key by (auto simp: job_inv_def tasks_ok_def)

lemma job_inv_queue: "job_inv m \<Longrightarrow> inQueue k m \<Longrightarrow> \<exists>tk. task m k = Some tk \<and> tkStage tk = Waiting"
  by (simp add: job_inv_def queues_ok_def)

lemma job_inv_distinct: "job_inv m \<Longrightarrow> distinct (chItems (mgQueue m) @ chItems (mgIOQueue m))"
  by (simp add: job_inv_def queues_ok_def)

lemma job_inv_rows: "job_inv m \<Longrightarrow> rows_ok m"
  by (simp add: job_inv_def)

lemma job_inv_fresh: "job_inv m \<Longrightarrow> jid \<notin> set (mgIssued m) \<Longrightarrow>
    task m jid = None \<and> job_row m jid = None \<and> \<not> inQueue jid m"
proof -
  assume inv: "job_inv m" and f: "jid \<notin> set (mgIssued m)"
  have "task m jid = None" using job_inv_task [OF inv] f by (cases "task m jid") auto
  moreover have "job_row m jid = None"
    using job_inv_rows [OF inv] f by (auto simp: rows_ok_def sel_by_None)
  moreover have "\<not> inQueue jid m" using job_inv_queue [OF inv, of jid] \<open>task m jid = None\<close> by auto
  ultimately show ?thesis by simp
qed

subsection \<open>The operations keep the invariant\<close>

lemma newTask_ok: "sel_by jrID rows jid = None \<Longrightarrow> task_ok rows (newTask (newJob jid kind base tot io) io)"
  by (simp add: task_ok_def newTask_def newJob_def job_ok_def tkID_def)

lemma tkID_newTask [simp]: "tkID (newTask (newJob jid kind base tot io) io') = jid"
  by (simp add: tkID_def newTask_def newJob_def)

lemma submit_inv:
  assumes inv: "job_inv m" and fresh: "jid \<notin> set (mgIssued m)"
  shows "job_inv (fst (submitWithProgress jid kind base tot io m))"
proof -
  note f = job_inv_fresh [OF inv fresh]
  let ?tk = "newTask (newJob jid kind base tot io) io"
  let ?m = "m\<lparr>mgTasks := ins_by ?tk (mgTasks m), mgIssued := jid # mgIssued m\<rparr>"
  have t: "task ?m k = (if k = jid then Some ?tk else task m k)" for k
    using f tasks.sel_ins [of "mgTasks m" ?tk] by simp
  have rows: "rows_ok ?m" "rows_ok (m\<lparr>mgIssued := jid # mgIssued m\<rparr>)"
    using job_inv_rows [OF inv] by (auto simp: rows_ok_def)
  note tk = newTask_ok [of "mgRows m" jid kind base tot io]
  have registered: "job_inv ?m"
    by (rule job_inv_update [OF inv t]) (use f tk job_inv_distinct [OF inv] rows in \<open>auto simp: inQueue_def\<close>)
  have full: "job_inv (?m\<lparr>mgTasks := mgTasks m\<rparr>)"
    by (rule job_inv_update [OF inv, where new = "task m jid"])
      (use f job_inv_distinct [OF inv] rows in \<open>auto simp: inQueue_def\<close>)
  have "job_inv (?m\<lparr>mgIOQueue := q\<rparr>)" if "chSend jid (mgIOQueue m) = Some q" for q
    by (rule job_inv_update [OF inv, of _ jid "Some ?tk"])
      (use t f tk job_inv_distinct [OF inv] rows ch.send_Some [OF that] in \<open>auto simp: inQueue_def rows_ok_def newTask_def\<close>)
  moreover have "job_inv (?m\<lparr>mgQueue := q\<rparr>)" if "chSend jid (mgQueue m) = Some q" for q
    by (rule job_inv_update [OF inv, of _ jid "Some ?tk"])
      (use t f tk job_inv_distinct [OF inv] rows ch.send_Some [OF that] in \<open>auto simp: inQueue_def rows_ok_def newTask_def\<close>)
  ultimately show ?thesis
    using registered full by (auto simp: submitWithProgress_def Let_def split: option.splits)
qed

lemma rows_ok_persist:
  assumes "rows_ok m" "job_ok j" "jbID j \<in> set (mgIssued m)"
    and "mgRows m' = persist ok t t' j (mgRows m)" "mgIssued m' = mgIssued m"
  shows "rows_ok m'"
proof -
  have "jrID ` set (persist ok t t' j (mgRows m)) \<subseteq> set (mgIssued m)"
    by (rule persist_ids) (use assms(1,3) in \<open>simp_all add: rows_ok_def\<close>)
  then show ?thesis using assms by (simp add: rows_ok_def persist_uniq persist_rows_ok)
qed

lemma persistFirst_inv:
  assumes inv: "job_inv m" and tk: "task m jid = Some tk" "tkPersisted tk = None"
  shows "job_inv (persistFirst jid err t t' m)"
proof -
  let ?m = "persistFirst jid err t t' m" and ?tk = "tk\<lparr>tkPersisted := Some err\<rparr>"
  note ok = job_inv_task [OF inv tk(1)]
  then have id: "jbID (tkJob tk) = jid" by (simp add: tkID_def)
  have none: "job_row m jid = None" and stage: "tkStage tk \<noteq> Executing" and st: "jbStatus (tkJob tk) = JobPending" "job_ok (tkJob tk)"
    using ok tk(2) by (auto simp: task_ok_def split: option.splits if_splits)
  have m: "?m = (setTask jid (\<lambda>k. k\<lparr>tkPersisted := Some err\<rparr>) m)\<lparr>mgRows := persist (err = None) t t' (tkJob tk) (mgRows m)\<rparr>"
    using tk by (simp add: persistFirst_def setTask_def)
  have t: "task ?m k = (if k = jid then Some ?tk else task m k)" for k
    using task_setTask [of "\<lambda>k. k\<lparr>tkPersisted := Some err\<rparr>" jid m k] tk by (simp add: m)
  have rows: "rows_ok ?m"
    by (rule rows_ok_persist [OF job_inv_rows [OF inv] st(2)]) (use ok id in \<open>simp_all add: m\<close>)
  have "task_ok (mgRows ?m) ?tk"
    using none stage st id ok by (simp add: task_ok_def m persist_row settled_def tkID_def rowInsert_def)
  moreover have "inQueue k ?m = inQueue k m" for k by (simp add: m inQueue_def)
  moreover have "inQueue jid m \<Longrightarrow> tkStage tk = Waiting" using job_inv_queue [OF inv, of jid] tk by simp
  moreover have "job_row ?m k = job_row m k" if "k \<noteq> jid" for k using that id by (simp add: m persist_row)
  ultimately show ?thesis
    using job_inv_distinct [OF inv] rows ok by (intro job_inv_update [OF inv t]) (simp_all add: m)
qed

text \<open>A task that is rewritten in place, together with its row.\<close>

lemma job_inv_set:
  assumes inv: "job_inv m" and tk: "task m jid = Some tk" and f: "\<And>k. tkID (f k) = tkID k"
    and m': "m' = (setTask jid f m)\<lparr>mgRows := persist ok t t' (tkJob (f tk)) (mgRows m)\<rparr>"
    and ok: "job_ok (tkJob (f tk))" "tkPersisted (f tk) = tkPersisted tk"
      "(tkStage tk \<noteq> Waiting \<and> tkPersisted tk = Some None \<and> tkStage (f tk) = Executing \<and> jbStatus (tkJob (f tk)) = JobRunning)"
  shows "job_inv m'"
proof -
  note old = job_inv_task [OF inv tk]
  have id: "jbID (tkJob (f tk)) = jid" using old f [of tk] by (simp add: tkID_def)
  have t: "task m' k = (if k = jid then Some (f tk) else task m k)" for k
    using task_setTask [of f jid m k] f tk by (simp add: m')
  have rows: "rows_ok m'"
    by (rule rows_ok_persist [OF job_inv_rows [OF inv] ok(1)]) (use old id in \<open>simp_all add: m'\<close>)
  have "\<exists>r. job_row m jid = Some r" using old ok(3) by (auto simp: task_ok_def split: option.splits)
  then have "task_ok (mgRows m') (f tk)"
    using old ok id by (auto simp: task_ok_def m' persist_row f tkID_def [of "f tk"] settled_def rowUpdate_def split: option.splits)
  moreover have "inQueue k m' = inQueue k m" for k by (simp add: m' inQueue_def)
  moreover have "\<not> inQueue jid m" using ok(3) job_inv_queue [OF inv, of jid] tk by auto
  moreover have "job_row m' k = job_row m k" if "k \<noteq> jid" for k using that id by (simp add: m' persist_row)
  ultimately show ?thesis
    using job_inv_distinct [OF inv] rows old by (intro job_inv_update [OF inv t]) (simp_all add: m')
qed

lemma settleJob_ok: "job_ok j \<Longrightarrow> jbStatus j = JobPending \<or> jbStatus j = JobRunning \<Longrightarrow>
    job_ok (settleJob err j) \<and> settled (jbStatus (settleJob err j))"
  by (auto simp: job_ok_def settleJob_def settled_def split: option.splits)

lemma finishTask_parts:
  assumes "task m jid = Some tk"
  shows "task (finishTask ok t t' err jid m) k = (if k = jid then None else task m k)"
    "mgRows (finishTask ok t t' err jid m) = persist ok t t' (settleJob err (tkJob tk)) (mgRows m)"
    "mgIssued (finishTask ok t t' err jid m) = mgIssued m"
    "mgQueue (finishTask ok t t' err jid m) = mgQueue m" "mgIOQueue (finishTask ok t t' err jid m) = mgIOQueue m"
  using assms by (simp_all add: finishTask_def Let_def sel_by_filter)

lemma finishTask_inv:
  assumes inv: "job_inv m" and tk: "task m jid = Some tk" and st: "tkStage tk \<noteq> Waiting"
  shows "job_inv (finishTask ok t t' err jid m)"
proof -
  note old = job_inv_task [OF inv tk] and parts = finishTask_parts [OF tk]
  then have id: "jbID (settleJob err (tkJob tk)) = jid" by (simp add: tkID_def)
  have job: "job_ok (settleJob err (tkJob tk))"
    using old settleJob_ok by (auto simp: task_ok_def split: if_splits)
  have "rows_ok (finishTask ok t t' err jid m)"
    by (rule rows_ok_persist [OF job_inv_rows [OF inv] job]) (use old id in \<open>simp_all add: parts\<close>)
  moreover have "\<not> inQueue jid m" using job_inv_queue [OF inv, of jid] tk st by auto
  moreover have "sel_by jrID (persist ok t t' (settleJob err (tkJob tk)) (mgRows m)) k = job_row m k" if "k \<noteq> jid" for k
    using that id by (simp add: persist_row)
  ultimately show ?thesis
    using job_inv_distinct [OF inv] by (intro job_inv_update [OF inv parts(1)]) (simp_all add: parts inQueue_def)
qed

lemma startJob_ok: "task_ok rows tk \<Longrightarrow> tkStage tk = Held \<Longrightarrow> job_ok (tkJob (startJob tk))"
  by (auto simp: task_ok_def startJob_def job_ok_def)

lemma startJob_simps [simp]:
  "tkStage (startJob k) = Executing" "tkPersisted (startJob k) = tkPersisted k" "jbStatus (tkJob (startJob k)) = JobRunning"
  by (simp_all add: startJob_def)

lemma runTask_inv:
  assumes inv: "job_inv m" and run: "runTask ok t t' jid m = Some (m', started)"
  shows "job_inv m'"
proof -
  from run obtain tk where tk: "task m jid = Some tk" "tkStage tk = Held"
    by (auto simp: runTask_def split: option.splits if_splits)
  note old = job_inv_task [OF inv tk(1)]
  consider err where "m' = finishTask ok t t' err jid m"
    | "tkPersisted tk = Some None" "m' = (setTask jid startJob m)\<lparr>mgRows := persist ok t t' (tkJob (startJob tk)) (mgRows m)\<rparr>"
    using run tk by (auto simp: runTask_def Let_def split: option.splits if_splits)
  then show ?thesis
  proof cases
    case 1
    then show ?thesis using finishTask_inv [OF inv tk(1)] tk(2) by simp
  next
    case 2
    then show ?thesis
      using startJob_ok old tk by (intro job_inv_set [OF inv tk(1) _ 2(2)]) auto
  qed
qed

lemma reportJob_ok: "job_ok j \<Longrightarrow> jbStatus j = JobRunning \<Longrightarrow> job_ok (reportJob u j) \<and> jbStatus (reportJob u j) = JobRunning"
  by (simp add: reportJob_def Let_def job_ok_def)

lemma reportTask_inv:
  assumes inv: "job_inv m" and tk: "task m jid = Some tk" "tkStage tk = Executing"
  shows "job_inv (reportTask ok t t' u jid m)"
proof -
  note old = job_inv_task [OF inv tk(1)]
  have "tkPersisted tk = Some None" using old tk(2) by (auto simp: task_ok_def split: option.splits)
  then show ?thesis
    using old tk reportJob_ok
    by (intro job_inv_set [OF inv tk(1), where f = "\<lambda>k. k\<lparr>tkJob := reportJob u (tkJob k)\<rparr>"])
      (simp_all add: task_ok_def reportTask_def)
qed

lemma setTask_inv:
  assumes inv: "job_inv m" and f: "\<And>k. tkID (f k) = tkID k" "\<And>k. tkJob (f k) = tkJob k" "\<And>k. tkPersisted (f k) = tkPersisted k"
    and st: "\<And>tk. task m jid = Some tk \<Longrightarrow> (tkStage (f tk) = Executing) = (tkStage tk = Executing)
      \<and> (inQueue jid m' \<longrightarrow> tkStage (f tk) = Waiting)"
    and same: "mgRows m' = mgRows m" "mgTasks m' = mgTasks (setTask jid f m)" "mgIssued m' = mgIssued m"
    and q: "\<And>k. inQueue k m' \<Longrightarrow> inQueue k m" "distinct (chItems (mgQueue m') @ chItems (mgIOQueue m'))"
  shows "job_inv m'"
proof -
  have t: "task m' k = (if k = jid then map_option f (task m jid) else task m k)" for k
    using task_setTask [of f jid m k] f same by simp
  have "rows_ok m'" using job_inv_rows [OF inv] same by (simp add: rows_ok_def)
  moreover have "case map_option f (task m jid) of None \<Rightarrow> \<not> inQueue jid m'
      | Some tk \<Rightarrow> jid \<in> set (mgIssued m') \<and> task_ok (mgRows m') tk \<and> (inQueue jid m' \<longrightarrow> tkStage tk = Waiting)"
  proof (cases "task m jid")
    case None
    then show ?thesis using q(1) job_inv_queue [OF inv, of jid] by auto
  next
    case (Some tk)
    with st [OF Some] job_inv_task [OF inv Some] f same show ?thesis
      by (auto simp: task_ok_def split: option.splits)
  qed
  ultimately show ?thesis
    using q same by (intro job_inv_update [OF inv t]) simp_all
qed

lemma takeTask_inv:
  assumes inv: "job_inv m" and take: "takeTask io m = Some (jid, m')"
  shows "job_inv m'"
proof -
  note d = job_inv_distinct [OF inv]
  obtain q where q: "chRecv (if io then mgIOQueue m else mgQueue m) = Some (jid, q)"
    "m' = setTask jid (\<lambda>k. k\<lparr>tkStage := Held\<rparr>) (if io then m\<lparr>mgIOQueue := q\<rparr> else m\<lparr>mgQueue := q\<rparr>)"
    using take by (auto simp: takeTask_def split: if_splits option.splits)
  from ch.recv_Some [OF q(1)] have items: "chItems (if io then mgIOQueue m else mgQueue m) = jid # chItems q" .
  have queues: "inQueue k m' \<Longrightarrow> inQueue k m" "\<not> inQueue jid m'"
    "distinct (chItems (mgQueue m') @ chItems (mgIOQueue m'))" for k
    using items d by (auto simp: q(2) inQueue_def split: if_splits)
  have "inQueue jid m" using items by (auto simp: inQueue_def split: if_splits)
  then show ?thesis
    using queues job_inv_queue [OF inv, of jid]
    by (intro setTask_inv [OF inv, where f = "\<lambda>k. k\<lparr>tkStage := Held\<rparr>" and jid = jid]) (auto simp: q(2) setTask_def)
qed

lemma CancelJob_inv:
  assumes inv: "job_inv m"
  shows "job_inv (fst (CancelJob jid m))"
proof (rule setTask_inv [OF inv, where f = "\<lambda>k. k\<lparr>tkCancelled := True\<rparr>" and jid = jid])
  have same: "inQueue k (fst (CancelJob jid m)) = inQueue k m" for k by (simp add: CancelJob_def inQueue_def)
  fix tk
  assume "task m jid = Some tk"
  with job_inv_queue [OF inv, of jid] same [of jid]
  show "(tkStage (tk\<lparr>tkCancelled := True\<rparr>) = Executing) = (tkStage tk = Executing)
      \<and> (inQueue jid (fst (CancelJob jid m)) \<longrightarrow> tkStage (tk\<lparr>tkCancelled := True\<rparr>) = Waiting)" by auto
next
  show "inQueue k (fst (CancelJob jid m)) \<Longrightarrow> inQueue k m" for k by (simp add: CancelJob_def inQueue_def)
  show "distinct (chItems (mgQueue (fst (CancelJob jid m))) @ chItems (mgIOQueue (fst (CancelJob jid m))))"
    using job_inv_distinct [OF inv] by (simp add: CancelJob_def)
qed (simp_all add: CancelJob_def)

lemma task_ok_cancelled [simp]: "task_ok rows (tk\<lparr>tkCancelled := c\<rparr>) = task_ok rows tk"
  by (simp add: task_ok_def split: option.split)

lemma StopWithContext_inv: "job_inv m \<Longrightarrow> job_inv (StopWithContext m)"
  by (auto simp: job_inv_def rows_ok_def tasks_ok_def queues_ok_def StopWithContext_def sel_by_map inQueue_def)

lemma recoverRow_ok: "job_ok (rowJob r) \<Longrightarrow> job_ok (rowJob (recoverRow t r))"
  by (auto simp: job_ok_def rowJob_def recoverRow_def)

lemma restart_inv:
  assumes "rows_ok m"
  shows "job_inv ((Start t (NewManager (mgRows m) workers))\<lparr>mgIssued := mgIssued m\<rparr>)"
proof -
  have "map jrID (map (recoverRow t) (mgRows m)) = map jrID (mgRows m)" by simp
  then have "uniq_by jrID (map (recoverRow t) (mgRows m))"
    using assms unfolding rows_ok_def uniq_by_def by presburger
  then show ?thesis
    using assms by (auto simp: job_inv_def rows_ok_def tasks_ok_def queues_ok_def Start_def NewManager_def
        sel_by_def inQueue_def makeChan_def list_all_iff recoverRow_ok)
qed

lemma job_step_inv: "job_step m l m' \<Longrightarrow> job_inv m \<Longrightarrow> job_inv m'"
proof (induction rule: job_step.induct)
  case (observe m)
  then show ?case
    by (simp add: job_inv_def rows_ok_def tasks_ok_def queues_ok_def SetFailureObserver_def inQueue_def)
qed (auto intro: submit_inv persistFirst_inv takeTask_inv runTask_inv reportTask_inv finishTask_inv CancelJob_inv
    StopWithContext_inv restart_inv dest: job_inv_rows)

lemma job_run_inv: "job_run m ls m' \<Longrightarrow> job_inv m \<Longrightarrow> job_inv m'"
  by (induction rule: job_run.induct) (auto intro: job_step_inv)

lemma job_init_inv: "job_init m \<Longrightarrow> job_inv m"
  by (auto simp: job_init_def job_inv_def rows_ok_def tasks_ok_def queues_ok_def Start_def NewManager_def
      sel_by_def uniq_by_def inQueue_def makeChan_def)

subsection \<open>What a step may change\<close>

definition follows :: "Task \<Rightarrow> Task \<Rightarrow> bool" where
  "follows tk tk' \<longleftrightarrow> (tkCancelled tk \<longrightarrow> tkCancelled tk') \<and> (tkStage tk = Executing \<longrightarrow> tkStage tk' = Executing)"

lemma follows_refl [simp]: "follows tk tk"
  by (simp add: follows_def)

definition tasks_follow :: "Manager \<Rightarrow> Manager \<Rightarrow> bool" where
  "tasks_follow m m' \<longleftrightarrow> set (mgIssued m) \<subseteq> set (mgIssued m')
     \<and> (\<forall>k tk'. k \<in> set (mgIssued m) \<longrightarrow> task m' k = Some tk' \<longrightarrow> (\<exists>tk. task m k = Some tk \<and> follows tk tk'))"

lemma tasks_follow_set:
  assumes "\<And>k. tkID (f k) = tkID k" "\<And>tk. task m jid = Some tk \<Longrightarrow> follows tk (f tk)"
    and "mgTasks m' = mgTasks (setTask jid f m)" "mgIssued m' = mgIssued m"
  shows "tasks_follow m m'"
  using assms task_setTask [of f jid m] by (auto simp: tasks_follow_def split: if_splits)

lemma tasks_follow_finish: "task m jid = Some tk \<Longrightarrow> tasks_follow m (finishTask ok t t' err jid m)"
  using finishTask_parts [of m jid tk ok t t' err] by (auto simp: tasks_follow_def)

lemma submit_tasks: "jid \<notin> set (mgIssued m) \<Longrightarrow> job_inv m \<Longrightarrow>
    tasks_follow m (fst (submitWithProgress jid kind base tot io m))"
proof -
  assume fresh: "jid \<notin> set (mgIssued m)" and inv: "job_inv m"
  let ?tk = "newTask (newJob jid kind base tot io) io"
  have "sel_by tkID (ins_by ?tk (mgTasks m)) k = (if k = jid then Some ?tk else task m k)" for k
    using job_inv_fresh [OF inv fresh] tasks.sel_ins [of "mgTasks m" ?tk] by simp
  with fresh show ?thesis
    by (auto simp: submitWithProgress_def Let_def tasks_follow_def split: option.splits if_splits)
qed

lemma takeTask_waiting:
  assumes inv: "job_inv m" and take: "takeTask io m = Some (jid, m')"
  shows "mgTasks m' = mgTasks (setTask jid (\<lambda>k. k\<lparr>tkStage := Held\<rparr>) m)" "mgIssued m' = mgIssued m" "mgRows m' = mgRows m"
    "\<exists>tk. task m jid = Some tk \<and> tkStage tk = Waiting"
proof -
  obtain q where q: "chRecv (if io then mgIOQueue m else mgQueue m) = Some (jid, q)"
    "m' = setTask jid (\<lambda>k. k\<lparr>tkStage := Held\<rparr>) (if io then m\<lparr>mgIOQueue := q\<rparr> else m\<lparr>mgQueue := q\<rparr>)"
    using take by (auto simp: takeTask_def split: if_splits option.splits)
  then show "mgTasks m' = mgTasks (setTask jid (\<lambda>k. k\<lparr>tkStage := Held\<rparr>) m)" "mgIssued m' = mgIssued m" "mgRows m' = mgRows m"
    by (simp_all add: setTask_def)
  have "inQueue jid m" using ch.recv_Some [OF q(1)] by (auto simp: inQueue_def split: if_splits)
  then show "\<exists>tk. task m jid = Some tk \<and> tkStage tk = Waiting" by (rule job_inv_queue [OF inv])
qed

lemma runTask_cases:
  assumes "runTask ok t t' jid m = Some (m', started)"
  obtains tk err where "task m jid = Some tk" "tkStage tk = Held" "\<not> started" "m' = finishTask ok t t' err jid m"
  | tk where "task m jid = Some tk" "tkStage tk = Held" "tkPersisted tk = Some None" "\<not> tkCancelled tk" started
      "m' = (setTask jid startJob m)\<lparr>mgRows := persist ok t t' (tkJob (startJob tk)) (mgRows m)\<rparr>"
  using assms by (auto simp: runTask_def Let_def split: option.splits if_splits)

lemma job_step_tasks: "job_step m l m' \<Longrightarrow> job_inv m \<Longrightarrow> tasks_follow m m'"
proof (induction rule: job_step.induct)
  case (submit jid m kind base tot io)
  then show ?case by (rule submit_tasks)
next
  case (persisted m jid tk err t t')
  then show ?case
    by (intro tasks_follow_set [where f = "\<lambda>k. k\<lparr>tkPersisted := Some err\<rparr>" and jid = jid])
      (simp_all add: persistFirst_def setTask_def follows_def)
next
  case (take io m jid m')
  from takeTask_waiting [OF take(2,1)] show ?case
    by (intro tasks_follow_set [where f = "\<lambda>k. k\<lparr>tkStage := Held\<rparr>" and jid = jid]) (auto simp: follows_def)
next
  case (run ok t t' jid m m' started)
  from run(1) show ?case
  proof (cases rule: runTask_cases)
    case 1
    then show ?thesis by (simp add: tasks_follow_finish)
  next
    case 2
    then show ?thesis
      by (intro tasks_follow_set [where f = startJob and jid = jid]) (simp_all add: setTask_def follows_def)
  qed
next
  case (report m jid tk ok t t' u)
  then show ?case
    by (intro tasks_follow_set [where f = "\<lambda>k. k\<lparr>tkJob := reportJob u (tkJob k)\<rparr>" and jid = jid])
      (simp_all add: reportTask_def setTask_def follows_def)
next
  case (finish m jid tk ok t t' err)
  then show ?case by (simp add: tasks_follow_finish)
next
  case (cancel m jid)
  then show ?case
    by (intro tasks_follow_set [where f = "\<lambda>k. k\<lparr>tkCancelled := True\<rparr>" and jid = jid]) (simp_all add: CancelJob_def follows_def)
next
  case (stop m)
  then show ?case by (auto simp: tasks_follow_def StopWithContext_def sel_by_map follows_def)
qed (auto simp: tasks_follow_def SetFailureObserver_def Start_def NewManager_def sel_by_def)

lemma persist_other: "k \<noteq> jbID j \<Longrightarrow> sel_by jrID (persist ok t t' j rows) k = sel_by jrID rows k"
  by (simp add: persist_row)

lemma job_step_settled:
  "job_step m l m' \<Longrightarrow> job_inv m \<Longrightarrow> job_row m k = Some r \<Longrightarrow> settled (jrStatus r) \<Longrightarrow> job_row m' k = Some r"
proof -
  assume step: "job_step m l m'" and inv: "job_inv m" and r: "job_row m k = Some r" "settled (jrStatus r)"
  have none: "task m k = None"
  proof (cases "task m k")
    case (Some tk)
    from job_inv_task [OF inv Some] r show ?thesis by (auto simp: task_ok_def)
  qed simp
  have other: "k \<noteq> jbID (tkJob tk)" if "task m jid = Some tk" for jid tk
    using that none tasks.sel_key [OF that] by (auto simp: tkID_def)
  have start: "jbID (tkJob (startJob tk)) = jbID (tkJob tk)" for tk by (simp add: startJob_def)
  show ?thesis
    using step
  proof cases
    case (submit jid kind base tot io)
    then show ?thesis using r by (simp add: submitWithProgress_def Let_def split: option.splits)
  next
    case (persisted jid tk err t t')
    then show ?thesis using r other [OF persisted(3)] by (simp add: persistFirst_def persist_other)
  next
    case (take io jid)
    then show ?thesis using r takeTask_waiting [OF inv take(2)] by simp
  next
    case (run ok t t' jid started)
    from run(2) show ?thesis
      by (cases rule: runTask_cases) (use r other start in \<open>simp_all add: finishTask_parts persist_other\<close>)
  next
    case (report jid tk ok t t' u)
    then show ?thesis using r other [OF report(3)] by (simp add: reportTask_def persist_other)
  next
    case (finish jid tk ok t t' err)
    then show ?thesis using r other [OF finish(3)] by (simp add: finishTask_parts persist_other)
  next
    case (restart t workers)
    then show ?thesis using r by (auto simp: Start_def NewManager_def sel_by_map recoverRow_def settled_def)
  qed (use r in \<open>simp_all add: CancelJob_def StopWithContext_def SetFailureObserver_def\<close>)
qed

subsection \<open>At most one call\<close>

text \<open>No call of the task's function is left: it has started, was cancelled, or is gone.\<close>

definition noCall :: "string \<Rightarrow> Manager \<Rightarrow> bool" where
  "noCall jid m \<longleftrightarrow> jid \<in> set (mgIssued m)
     \<and> (case task m jid of None \<Rightarrow> True | Some tk \<Rightarrow> tkStage tk = Executing \<or> tkCancelled tk)"

lemma job_step_ran: "job_step m (Ran jid) m' \<Longrightarrow> \<exists>tk. task m jid = Some tk \<and> tkStage tk = Held \<and> \<not> tkCancelled tk
    \<and> task m' jid = Some (startJob tk) \<and> mgIssued m' = mgIssued m"
proof -
  assume "job_step m (Ran jid) m'"
  then obtain ok t t' where run: "runTask ok t t' jid m = Some (m', True)"
    by cases (auto split: if_splits)
  then show ?thesis
    by (cases rule: runTask_cases) (auto simp: task_setTask)
qed

lemma noCall_step: "job_step m l m' \<Longrightarrow> job_inv m \<Longrightarrow> noCall jid m \<Longrightarrow> noCall jid m' \<and> l \<noteq> Ran jid"
proof -
  assume step: "job_step m l m'" and inv: "job_inv m" and n: "noCall jid m"
  have "l \<noteq> Ran jid"
  proof
    assume "l = Ran jid"
    with step n show False by (auto dest!: job_step_ran simp: noCall_def)
  qed
  moreover have "noCall jid m'"
    using job_step_tasks [OF step inv] n
    by (fastforce simp: tasks_follow_def noCall_def follows_def split: option.splits)
  ultimately show ?thesis by simp
qed

lemma noCall_run: "job_run m ls m' \<Longrightarrow> job_inv m \<Longrightarrow> noCall jid m \<Longrightarrow> noCall jid m' \<and> Ran jid \<notin> set ls"
proof (induction rule: job_run.induct)
  case (more m l m' ls m'')
  with noCall_step [OF more.hyps(1)] job_step_inv [OF more.hyps(1)] show ?case by auto
qed simp

lemma ran_noCall: "job_step m (Ran jid) m' \<Longrightarrow> job_inv m \<Longrightarrow> noCall jid m'"
  using job_inv_task by (fastforce simp: noCall_def dest!: job_step_ran)

lemma ran_once: "job_run m ls m' \<Longrightarrow> job_inv m \<Longrightarrow> count_list ls (Ran jid) \<le> 1"
proof (induction rule: job_run.induct)
  case (more m l m' ls m'')
  note inv' = job_step_inv [OF more.hyps(1) more.prems]
  show ?case
  proof (cases "l = Ran jid")
    case True
    then have "noCall jid m'" using more ran_noCall by blast
    with more.hyps(2) inv' have "Ran jid \<notin> set ls" using noCall_run by blast
    with True show ?thesis by simp
  qed (use more inv' in simp)
qed simp

lemma job_run_settled:
  "job_run m ls m' \<Longrightarrow> job_inv m \<Longrightarrow> job_row m k = Some r \<Longrightarrow> settled (jrStatus r) \<Longrightarrow> job_row m' k = Some r"
  by (induction rule: job_run.induct) (auto intro: job_step_settled job_step_inv)

subsection \<open>Properties\<close>

text \<open>
  C24: In every state the job manager can reach, over restarts, failing writes and shutdown, the table
  of jobs is well-formed: identifiers are unique, a done job has progress equal to its total, a pending
  job has made no progress, progress is otherwise not negative, and only a failed job carries an error.
\<close>

theorem job_rows_typed:
  assumes "job_init m\<^sub>0" "job_run m\<^sub>0 ls m"
  shows "uniq_by jrID (mgRows m) \<and> list_all (\<lambda>r. job_ok (rowJob r)) (mgRows m)"
  using job_run_inv [OF assms(2) job_init_inv [OF assms(1)]] by (simp add: job_inv_def rows_ok_def)


text \<open>A percentage computed in floating point can be one short: 29 of 100 bytes are reported as 28.\<close>

lemma percent_short: "reportPercent \<lparr>puPercent = 0, puCompleted = 0, puTotal = 0, puPhase = [], puFile = [],
    puCompletedBytes = 29, puTotalBytes = 100\<rparr> = 28"
proof -
  have i: "fl 29 = 29" "fl 100 = 100" by (rule fl_exact [of _ 29 0] fl_exact [of _ 100 0]; simp)+
  have "fl (29 / 100) = of_int 5224175567749775 * 2 powi (-2 - 52)"
    by (rule fl_eval, simp_all add: power_int_minus, rule roundEven_near, simp)
  then have q: "fl (29 / 100) = 5224175567749775 / 18014398509481984" by (simp add: power_int_minus)
  have "fl (5224175567749775 / 18014398509481984 * 100) = of_int 8162774324609023 * 2 powi (4 - 52)"
    by (rule fl_eval, simp_all add: power_int_minus, rule roundEven_near, simp)
  then have p: "fl (fl (29 / 100) * 100) = 8162774324609023 / 281474976710656"
    unfolding q by (simp add: power_int_minus)
  have "\<lfloor>8162774324609023 / 281474976710656 :: rat\<rfloor> = 28" by (simp add: floor_eq_iff)
  then show ?thesis by (simp add: reportPercent_def goTrunc_def i p)
qed

text \<open>The failure observer is told of a success.\<close>

lemma observer_sees_success:
  "task m jid = Some tk \<Longrightarrow> mgObserved m \<Longrightarrow>
     mgFailures (finishTask ok t t' None jid m) = mgFailures m @ [jbKind (tkJob tk)]"
  by (simp add: finishTask_def Let_def settleJob_def)

subsection \<open>A concrete run\<close>

definition demoJobs0 :: Manager where
  "demoJobs0 = Start 0 (NewManager [] 1)"

definition demoJobs1 :: Manager where
  "demoJobs1 = fst (submitWithProgress ''j'' ''import'' ''b'' 3 False demoJobs0)"

definition demoJobs2 :: Manager where
  "demoJobs2 = persistFirst ''j'' None 1 1 demoJobs1"

definition demoJobs3 :: Manager where
  "demoJobs3 = (case takeTask False demoJobs2 of Some (_, m) \<Rightarrow> m | None \<Rightarrow> demoJobs2)"

definition demoJobs4 :: Manager where
  "demoJobs4 = (case runTask True 2 2 ''j'' demoJobs3 of Some (m, _) \<Rightarrow> m | None \<Rightarrow> demoJobs3)"

definition demoJobs5 :: Manager where
  "demoJobs5 = finishTask True 3 3 None ''j'' demoJobs4"

lemma demo_job_states:
  "''j'' \<notin> set (mgIssued demoJobs0)"
  "map_option (\<lambda>k. tkPersisted k = None) (task demoJobs1 ''j'') = Some True" "inQueue ''j'' demoJobs1"
  "takeTask False demoJobs2 = Some (''j'', demoJobs3)"
  "runTask True 2 2 ''j'' demoJobs3 = Some (demoJobs4, True)"
  "map_option (\<lambda>k. tkStage k = Executing) (task demoJobs4 ''j'') = Some True"
  "map_option (\<lambda>r. jrStatus r = JobDone) (job_row demoJobs5 ''j'') = Some True"
  by code_simp+

lemma demo_job_steps:
  "job_init demoJobs0" "job_step demoJobs0 Other demoJobs1" "job_step demoJobs1 Other demoJobs2"
  "job_step demoJobs2 Other demoJobs3" "job_step demoJobs3 (Ran ''j'') demoJobs4" "job_step demoJobs4 Other demoJobs5"
proof -
  show "job_init demoJobs0" unfolding job_init_def demoJobs0_def by blast
  show "job_step demoJobs0 Other demoJobs1"
    unfolding demoJobs1_def by (rule job_step.submit) (rule demo_job_states)
  obtain tk where tk: "task demoJobs1 ''j'' = Some tk" "tkPersisted tk = None"
    using demo_job_states(2) by (auto simp: map_option_eq_Some)
  show "job_step demoJobs1 Other demoJobs2"
    unfolding demoJobs2_def by (rule job_step.persisted [OF tk]) (use demo_job_states(3) in simp)
  show "job_step demoJobs2 Other demoJobs3" by (rule job_step.take [OF demo_job_states(4)])
  show "job_step demoJobs3 (Ran ''j'') demoJobs4" using job_step.run [OF demo_job_states(5)] by simp
  obtain tk where tk: "task demoJobs4 ''j'' = Some tk" "tkStage tk = Executing"
    using demo_job_states(6) by (auto simp: map_option_eq_Some)
  show "job_step demoJobs4 Other demoJobs5" unfolding demoJobs5_def by (rule job_step.finish [OF tk])
qed

lemma demo_job_run:
  "job_run demoJobs0 [Other, Other, Other, Ran ''j'', Other] demoJobs5" "job_run demoJobs5 [Other] (StopWithContext demoJobs5)"
  by (rule job_run.intros demo_job_steps job_step.stop)+

lemma job_rows_typed_witness:
  "uniq_by jrID (mgRows demoJobs5) \<and> list_all (\<lambda>r. job_ok (rowJob r)) (mgRows demoJobs5)
     \<and> mgRows demoJobs5 \<noteq> []"
proof -
  have "mgRows demoJobs5 \<noteq> []" using demo_job_states(7) by (auto simp: sel_by_def)
  with job_rows_typed [OF demo_job_steps(1) demo_job_run(1)] show ?thesis by simp
qed


end
