(* ===== verification/Retrieval.thy ===== *)
theory Retrieval
  imports GoText GoFloat "HOL-Library.Char_ord" "HOL-Library.List_Lexorder"
begin

text \<open>
  The ranking primitives (\<open>internal/retrieval/retrieval.go\<close>): tokens, BM25, cosine similarity, rank
  fusion, diversification and \<open>Rank\<close>. Numbers are \<open>float64\<close> as in \<open>GoFloat\<close>, rounded after each
  operation; \<open>lower\<close> is \<open>strings.ToLower\<close> and \<open>logf\<close> is \<open>math.Log\<close>. A Go map is a HOL map; where the code ranges
  over a map, the order of its keys is an argument, since Go does not fix it.
\<close>

abbreviation RRFK :: rat where "RRFK \<equiv> 60"
abbreviation BM25K1 :: rat where "BM25K1 \<equiv> 3/2"
abbreviation BM25B :: rat where "BM25B \<equiv> 3/4"

subsection \<open>Tokens\<close>

definition latinByte :: "char \<Rightarrow> bool" where
  "latinByte c = (let k = byteOf c in (97 \<le> k \<and> k \<le> 122) \<or> (48 \<le> k \<and> k \<le> 57) \<or> k = 95)"

definition cjkRune :: "string \<Rightarrow> bool" where
  "cjkRune e = (let r = fst (decodeRune e) in (0x3040 \<le> r \<and> r \<le> 0x30FF) \<or> (0x3400 \<le> r \<and> r \<le> 0x4DBF)
     \<or> (0x4E00 \<le> r \<and> r \<le> 0x9FFF) \<or> (0xAC00 \<le> r \<and> r \<le> 0xD7AF))"

fun runeBigrams :: "string list \<Rightarrow> string list" where
  "runeBigrams (a # b # rs) = (a @ b) # runeBigrams (b # rs)"
| "runeBigrams _ = []"

definition Tokenize :: "(string \<Rightarrow> string) \<Rightarrow> string \<Rightarrow> string list" where
  "Tokenize lower text = (let lowered = lower text in
     filter (\<lambda>w. 1 < length w) (runsOf latinByte lowered)
     @ concat (map (\<lambda>run. if length run = 1 then run else runeBigrams run) (runsOf cjkRune (runeSlices lowered))))"

subsection \<open>Scores\<close>

text \<open>Vectors hold \<open>float32\<close> values; the sum is formed from the left.\<close>

definition CosineSimilarity :: "rat list \<Rightarrow> rat list \<Rightarrow> rat" where
  "CosineSimilarity a b = (if a = [] \<or> length a \<noteq> length b then 0
     else (let dot = fold (\<lambda>(x, y) s. fl (s + fl (x * y))) (zip a b) 0 in
       if dot < 0 then 0 else if 1 < dot then 1 else dot))"

record CorpusDoc =
  cdID :: string
  cdText :: string

record Bm25Scorer =
  bmDocTokens :: "string \<rightharpoonup> string list"
  bmDF :: "string \<rightharpoonup> nat"
  bmAvgdl :: rat
  bmN :: nat

definition countDF :: "string list \<Rightarrow> (string \<rightharpoonup> nat) \<Rightarrow> (string \<rightharpoonup> nat)" where
  "countDF tokens df = fold (\<lambda>t m. m(t \<mapsto> Suc (case m t of None \<Rightarrow> 0 | Some n \<Rightarrow> n))) (remdups tokens) df"

definition BuildBm25 :: "(string \<Rightarrow> string) \<Rightarrow> CorpusDoc list \<Rightarrow> Bm25Scorer" where
  "BuildBm25 lower docs = (let
     toks = map (\<lambda>d. (cdID d, Tokenize lower (cdText d))) docs;
     total = sum_list (map (length \<circ> snd) toks) in
     \<lparr>bmDocTokens = fold (\<lambda>(i, ts) m. m(i \<mapsto> ts)) toks Map.empty,
      bmDF = fold (countDF \<circ> snd) toks Map.empty,
      bmAvgdl = (if 0 < length docs then fl (of_nat total / of_nat (length docs)) else 0),
      bmN = length docs\<rparr>)"

definition idf :: "(rat \<Rightarrow> rat) \<Rightarrow> nat \<Rightarrow> nat \<Rightarrow> rat" where
  "idf logf n df = logf (fl (fl (fl (of_int (int n - int df) + 1/2) / fl (of_nat df + 1/2)) + 1))"

definition termNorm :: "nat \<Rightarrow> nat \<Rightarrow> rat \<Rightarrow> rat" where
  "termNorm tf len avgdl = fl (of_nat tf / fl (of_nat tf +
     fl (BM25K1 * fl (1/4 + fl (fl (BM25B * of_nat len) / avgdl)))))"

definition Score :: "(rat \<Rightarrow> rat) \<Rightarrow> string \<Rightarrow> string list \<Rightarrow> Bm25Scorer \<Rightarrow> rat" where
  "Score logf i queryTokens s = (case bmDocTokens s i of None \<Rightarrow> 0
     | Some tokens \<Rightarrow> if tokens = [] then 0
         else fold (\<lambda>q sm. case bmDF s q of None \<Rightarrow> sm
             | Some df \<Rightarrow> (let tf = count_list tokens q in
                 if tf = 0 then sm else fl (sm + fl (idf logf (bmN s) df * termNorm tf (length tokens) (bmAvgdl s)))))
           queryTokens 0)"

definition NormalizeBm25 :: "rat \<Rightarrow> rat" where
  "NormalizeBm25 raw = fl (raw / fl (raw + 1))"

definition getScore :: "(string \<rightharpoonup> rat) \<Rightarrow> string \<Rightarrow> rat" where
  "getScore m i = (case m i of None \<Rightarrow> 0 | Some v \<Rightarrow> v)"

text \<open>A list beyond the end of \<open>weights\<close> has weight one.\<close>

definition fuseList :: "rat \<Rightarrow> string list \<Rightarrow> (string \<rightharpoonup> rat) \<Rightarrow> (string \<rightharpoonup> rat)" where
  "fuseList weight l m = fold (\<lambda>(index, i) m. m(i \<mapsto> fl (getScore m i + fl (weight / fl (fl (RRFK + of_nat index) + 1)))))
     (zip [0 ..< length l] l) m"

definition ReciprocalRankFusion :: "string list list \<Rightarrow> rat list \<Rightarrow> (string \<rightharpoonup> rat)" where
  "ReciprocalRankFusion rankedLists weights = fold (\<lambda>(k, l). fuseList (if k < length weights then weights ! k else 1) l)
     (zip [0 ..< length rankedLists] rankedLists) Map.empty"

subsection \<open>Diversification\<close>

record RankedHit =
  rhID :: string
  rhScore :: rat
  rhVectorScore :: rat
  rhLexicalScore :: rat
  rhHasVector :: bool
  rhHasLexical :: bool
  rhEmbedding :: "rat list"
  rhMMRScore :: rat

definition maxSimilarity :: "RankedHit \<Rightarrow> RankedHit list \<Rightarrow> rat" where
  "maxSimilarity c selected = fold (\<lambda>p m. let sim = CosineSimilarity (rhEmbedding c) (rhEmbedding p) in
     if m < sim then sim else m) selected 0"

definition mmrScore :: "rat \<Rightarrow> RankedHit list \<Rightarrow> RankedHit \<Rightarrow> rat" where
  "mmrScore lambda selected c = fl (fl (lambda * rhScore c) - fl (fl (1 - lambda) * maxSimilarity c selected))"

text \<open>The first of the best candidates: its index and its score; any score beats minus infinity.\<close>

fun bestFrom :: "('a \<Rightarrow> rat) \<Rightarrow> nat \<Rightarrow> nat \<times> rat \<Rightarrow> 'a list \<Rightarrow> nat \<times> rat" where
  "bestFrom f i best [] = best"
| "bestFrom f i best (c # cs) = bestFrom f (Suc i) (if snd best < f c then (i, f c) else best) cs"

definition bestCandidate :: "('a \<Rightarrow> rat) \<Rightarrow> 'a list \<Rightarrow> nat \<times> rat" where
  "bestCandidate f cs = (case cs of [] \<Rightarrow> (0, 0) | c # r \<Rightarrow> bestFrom f 1 (0, f c) r)"

lemma bestFrom_bound: "fst best < i \<Longrightarrow> fst (bestFrom f i best cs) < i + length cs"
proof (induction cs arbitrary: i best)
  case (Cons c cs)
  have "fst (if snd best < f c then (i, f c) else best) < Suc i" using Cons.prems by simp
  from Cons.IH [OF this] show ?case by simp
qed simp

lemma bestCandidate_bound: "cs \<noteq> [] \<Longrightarrow> fst (bestCandidate f cs) < length cs"
  using bestFrom_bound [of "(0, f (hd cs))" 1 f "tl cs"] by (cases cs) (simp_all add: bestCandidate_def)

function mmrLoop :: "rat \<Rightarrow> int \<Rightarrow> RankedHit list \<Rightarrow> RankedHit list \<Rightarrow> RankedHit list \<times> RankedHit list" where
  "mmrLoop lambda target selected remaining =
     (if int (length selected) < target \<and> remaining \<noteq> []
      then (let (i, score) = bestCandidate (mmrScore lambda selected) remaining in
        mmrLoop lambda target (selected @ [(remaining ! i)\<lparr>rhMMRScore := score\<rparr>])
          (take i remaining @ drop (Suc i) remaining))
      else (selected, remaining))"
  by pat_completeness auto
termination
proof (relation "measure (\<lambda>(l, t, s, r). length r)")
  fix lambda target and selected remaining :: "RankedHit list" and p i score
  assume c: "int (length selected) < target \<and> remaining \<noteq> []"
    and p: "p = bestCandidate (mmrScore lambda selected) remaining" and q: "(i, score) = p"
  have "i < length remaining" using bestCandidate_bound [of remaining "mmrScore lambda selected"] c p q by (metis fst_conv)
  then show "((lambda, target, selected @ [(remaining ! i)\<lparr>rhMMRScore := score\<rparr>], take i remaining @ drop (Suc i) remaining),
      (lambda, target, selected, remaining)) \<in> measure (\<lambda>(l, t, s, r). length r)" by simp
qed simp

declare mmrLoop.simps [simp del]

definition embedded :: "rat list \<Rightarrow> RankedHit \<Rightarrow> bool" where
  "embedded queryVector h \<longleftrightarrow> length (rhEmbedding h) = length queryVector \<and> queryVector \<noteq> []"

definition MaximalMarginalRelevance :: "RankedHit list \<Rightarrow> rat list \<Rightarrow> rat \<Rightarrow> int \<Rightarrow> RankedHit list" where
  "MaximalMarginalRelevance hits queryVector lambda topK = (let
     lambda = (if lambda < 0 then 0 else if 1 < lambda then 1 else lambda);
     withEmbedding = filter (embedded queryVector) hits;
     without = filter (\<lambda>h. \<not> embedded queryVector h) hits in
     if length withEmbedding < 2 then hits
     else (let target = (if int (length withEmbedding) < topK then int (length withEmbedding) else topK);
         (selected, remaining) = mmrLoop lambda target [] withEmbedding in
       selected @ remaining @ without))"

subsection \<open>Rank\<close>

record RankOptions =
  roMode :: string
  roTopK :: int
  roThreshold :: rat
  roMMR :: bool
  roMMRLambda :: rat
  roQueryVector :: "rat list"

record Candidates =
  caDocs :: "CorpusDoc list"
  caEmbedding :: "string \<rightharpoonup> rat list"

definition sameLength :: "RankOptions \<Rightarrow> Candidates \<Rightarrow> string \<Rightarrow> bool" where
  "sameLength opts ca i = (case caEmbedding ca i of None \<Rightarrow> False | Some v \<Rightarrow> length v = length (roQueryVector opts))"

definition vectorAvailable :: "RankOptions \<Rightarrow> Candidates \<Rightarrow> bool" where
  "vectorAvailable opts ca \<longleftrightarrow> roQueryVector opts \<noteq> [] \<or> list_ex (\<lambda>d. sameLength opts ca (cdID d)) (caDocs ca)"

datatype RankMode = VectorMode | LexicalMode | HybridMode

definition rankMode :: "RankOptions \<Rightarrow> Candidates \<Rightarrow> RankMode" where
  "rankMode opts ca = (
     if roMode opts = ''hybrid'' \<or> roMode opts = ''vector'' then
       (if \<not> vectorAvailable opts ca then LexicalMode
        else if roMode opts = ''vector'' then VectorMode else HybridMode)
     else if roMode opts = ''lexical'' then LexicalMode
     else if vectorAvailable opts ca then HybridMode else LexicalMode)"

definition lexicalScores :: "(string \<Rightarrow> string) \<Rightarrow> (rat \<Rightarrow> rat) \<Rightarrow> string \<Rightarrow> Candidates \<Rightarrow> (string \<rightharpoonup> rat)" where
  "lexicalScores lower logf query ca = (let scorer = BuildBm25 lower (caDocs ca); tokens = Tokenize lower query in
     fold (\<lambda>d m. m(cdID d \<mapsto> NormalizeBm25 (Score logf (cdID d) tokens scorer))) (caDocs ca) Map.empty)"

definition vectorScores :: "RankOptions \<Rightarrow> Candidates \<Rightarrow> (string \<rightharpoonup> rat)" where
  "vectorScores opts ca = (if roQueryVector opts = [] then Map.empty
     else fold (\<lambda>d m. case caEmbedding ca (cdID d) of None \<Rightarrow> m
         | Some v \<Rightarrow> if length v = length (roQueryVector opts)
             then m(cdID d \<mapsto> CosineSimilarity (roQueryVector opts) v) else m) (caDocs ca) Map.empty)"

text \<open>\<open>order\<close> lists the keys of a map as a \<open>range\<close> loop meets them.\<close>

definition sortedIDs :: "((string \<rightharpoonup> rat) \<Rightarrow> string list) \<Rightarrow> (string \<rightharpoonup> rat) \<Rightarrow> string list" where
  "sortedIDs order scores = sort_key (\<lambda>i. - getScore scores i) (filter (\<lambda>i. 0 < getScore scores i) (order scores))"

definition embeddingOf :: "Candidates \<Rightarrow> string \<Rightarrow> rat list" where
  "embeddingOf ca i = (case caEmbedding ca i of None \<Rightarrow> [] | Some v \<Rightarrow> v)"

definition rankedHits :: "((string \<rightharpoonup> rat) \<Rightarrow> string list) \<Rightarrow> RankMode \<Rightarrow> (string \<rightharpoonup> rat) \<Rightarrow> (string \<rightharpoonup> rat) \<Rightarrow> Candidates \<Rightarrow> RankedHit list" where
  "rankedHits order mode vecScores lexScores ca = (let
     hit = (\<lambda>i score hasVector. \<lparr>rhID = i, rhScore = score, rhVectorScore = getScore vecScores i, rhLexicalScore = getScore lexScores i,
       rhHasVector = hasVector, rhHasLexical = True, rhEmbedding = embeddingOf ca i, rhMMRScore = 0\<rparr>) in
     case mode of
       VectorMode \<Rightarrow> map (\<lambda>i. hit i (getScore vecScores i) True) (order vecScores)
     | LexicalMode \<Rightarrow> map (\<lambda>i. hit i (getScore lexScores i) False) (order lexScores)
     | HybridMode \<Rightarrow> (let fused = ReciprocalRankFusion [sortedIDs order vecScores, sortedIDs order lexScores] [];
           maxFused = fl (2 / (RRFK + 1)) in
         map (\<lambda>d. hit (cdID d) (fl (getScore fused (cdID d) / maxFused)) True) (caDocs ca)))"

text \<open>The threshold comes before the diversification, which only reorders what passed it.\<close>

definition eligibleHits :: "(string \<Rightarrow> string) \<Rightarrow> (rat \<Rightarrow> rat) \<Rightarrow> ((string \<rightharpoonup> rat) \<Rightarrow> string list) \<Rightarrow> string \<Rightarrow> Candidates
    \<Rightarrow> RankOptions \<Rightarrow> RankedHit list" where
  "eligibleHits lower logf order query ca opts = filter (\<lambda>h. roThreshold opts \<le> rhScore h)
     (sort_key (\<lambda>h. - rhScore h) (rankedHits order (rankMode opts ca) (vectorScores opts ca)
       (lexicalScores lower logf query ca) ca))"

definition diversified :: "RankOptions \<Rightarrow> RankedHit list \<Rightarrow> RankedHit list" where
  "diversified opts eligible = (if roMMR opts \<and> 0 < roMMRLambda opts \<and> roQueryVector opts \<noteq> []
     then (let pool = wrap64 (roTopK opts * 3);
         pool = (if pool < 12 then 12 else pool);
         e = (if pool < int (length eligible) then take (nat pool) eligible else eligible) in
       MaximalMarginalRelevance e (roQueryVector opts) (roMMRLambda opts) (int (length e)))
     else eligible)"

text \<open>A limit below one never stops the copy: everything is returned.\<close>

definition Rank :: "(string \<Rightarrow> string) \<Rightarrow> (rat \<Rightarrow> rat) \<Rightarrow> ((string \<rightharpoonup> rat) \<Rightarrow> string list) \<Rightarrow> string \<Rightarrow> Candidates \<Rightarrow> RankOptions
    \<Rightarrow> RankedHit list" where
  "Rank lower logf order query ca opts = (let
     eligible = diversified opts (eligibleHits lower logf order query ca opts) in
     if 1 \<le> roTopK opts then take (nat (roTopK opts)) eligible else eligible)"

end
