(* ===== verification/RetrievalProperties.thy ===== *)
theory RetrievalProperties
  imports Retrieval "HOL-Library.Multiset"
begin

text \<open>
  What \<open>Rank\<close> promises: which candidates it returns, how many, in which order, with which scores; what
  the diversification may change; and where the contract in the package's comments does not hold.
\<close>

subsection \<open>Maps of scores\<close>

definition docIDs :: "Candidates \<Rightarrow> string set" where
  "docIDs ca = cdID ` set (caDocs ca)"

text \<open>What Go promises of a \<open>range\<close> over a map whose keys are candidates: each key once.\<close>

definition ranges_over :: "((string \<rightharpoonup> rat) \<Rightarrow> string list) \<Rightarrow> Candidates \<Rightarrow> bool" where
  "ranges_over order ca \<longleftrightarrow> (\<forall>m. dom m \<subseteq> docIDs ca \<longrightarrow> set (order m) = dom m \<and> distinct (order m))"

lemma ranges_overD: "ranges_over order ca \<Longrightarrow> dom m \<subseteq> docIDs ca \<Longrightarrow> set (order m) = dom m \<and> distinct (order m)"
  by (auto simp: ranges_over_def)

lemma fold_upd_dom: "dom (fold (\<lambda>d m. m(f d \<mapsto> g d)) ds m) = f ` set ds \<union> dom m"
  by (induction ds arbitrary: m) auto

lemma fold_upd_range: "(\<And>d. d \<in> set ds \<Longrightarrow> P (g d)) \<Longrightarrow> pred_option P (m i)
    \<Longrightarrow> pred_option P (fold (\<lambda>d m. m(f d \<mapsto> g d)) ds m i)"
  by (induction ds arbitrary: m) (auto simp: fun_upd_def)

lemma lexicalScores_dom: "dom (lexicalScores lower logf query ca) = docIDs ca"
  by (simp add: lexicalScores_def Let_def fold_upd_dom docIDs_def)

definition scored :: "RankOptions \<Rightarrow> Candidates \<Rightarrow> CorpusDoc \<Rightarrow> bool" where
  "scored opts ca d \<longleftrightarrow> roQueryVector opts \<noteq> [] \<and> sameLength opts ca (cdID d)"

lemma fold_filter_case:
  assumes "\<And>d m. step d m = (if Q d then f d m else m)"
  shows "fold step ds m = fold f (filter Q ds) m"
  by (induction ds arbitrary: m) (auto simp: assms)

lemma vectorScores_eq: "vectorScores opts ca = fold (\<lambda>d m. m(cdID d \<mapsto> CosineSimilarity (roQueryVector opts) (embeddingOf ca (cdID d))))
    (filter (scored opts ca) (caDocs ca)) Map.empty"
proof (cases "roQueryVector opts = []")
  case True
  then show ?thesis by (simp add: vectorScores_def scored_def)
next
  case False
  show ?thesis unfolding vectorScores_def using False
    by (simp, intro fold_filter_case) (auto simp: scored_def sameLength_def embeddingOf_def fun_eq_iff split: option.splits)
qed

lemma vectorScores_dom: "dom (vectorScores opts ca) = cdID ` {d \<in> set (caDocs ca). scored opts ca d}"
  by (simp add: vectorScores_eq fold_upd_dom)

lemma vectorScores_docs: "dom (vectorScores opts ca) \<subseteq> docIDs ca"
  by (auto simp: vectorScores_dom docIDs_def)

subsection \<open>Ranked candidates\<close>

lemma rankedHits_ids:
  assumes "ranges_over order ca" "dom lx = docIDs ca" "dom vs \<subseteq> docIDs ca"
  shows "rhID ` set (rankedHits order mode vs lx ca) \<subseteq> docIDs ca"
proof -
  have "set (order vs) = dom vs" "set (order lx) = dom lx" using assms ranges_overD [OF assms(1)] by auto
  then show ?thesis using assms(2,3) by (cases mode) (auto simp: rankedHits_def Let_def docIDs_def)
qed

lemma rankedHits_distinct:
  assumes "ranges_over order ca" "dom lx = docIDs ca" "dom vs \<subseteq> docIDs ca" "distinct (map cdID (caDocs ca))"
  shows "distinct (map rhID (rankedHits order mode vs lx ca))"
proof -
  have "distinct (order vs)" "distinct (order lx)" using assms ranges_overD [OF assms(1)] by auto
  then show ?thesis using assms(4) by (cases mode) (simp_all add: rankedHits_def Let_def comp_def)
qed

lemma eligible_ids:
  "ranges_over order ca \<Longrightarrow> rhID ` set (eligibleHits lower logf order query ca opts) \<subseteq> docIDs ca"
  using rankedHits_ids [OF _ lexicalScores_dom vectorScores_docs] by (fastforce simp: eligibleHits_def)

lemma eligible_distinct:
  assumes "ranges_over order ca" "distinct (map cdID (caDocs ca))"
  shows "distinct (map rhID (eligibleHits lower logf order query ca opts))"
proof -
  let ?hits = "rankedHits order (rankMode opts ca) (vectorScores opts ca) (lexicalScores lower logf query ca) ca"
  have "distinct (map rhID ?hits)" by (rule rankedHits_distinct [OF assms(1) lexicalScores_dom vectorScores_docs assms(2)])
  moreover have "mset (map rhID (sort_key (\<lambda>h. - rhScore h) ?hits)) = mset (map rhID ?hits)" by simp
  ultimately have "distinct (map rhID (sort_key (\<lambda>h. - rhScore h) ?hits))" by (metis distinct_count_atmost_1 mset_eq_setD)
  then show ?thesis by (simp add: eligibleHits_def distinct_map_filter)
qed

lemma eligible_threshold: "h \<in> set (eligibleHits lower logf order query ca opts) \<Longrightarrow> roThreshold opts \<le> rhScore h"
  by (simp add: eligibleHits_def)

lemma eligible_sorted: "sorted_wrt (\<lambda>a b. rhScore b \<le> rhScore a) (eligibleHits lower logf order query ca opts)"
proof -
  have "sorted (map (\<lambda>h. - rhScore h) (eligibleHits lower logf order query ca opts))"
    unfolding eligibleHits_def by (rule sorted_filter) (rule sorted_sort_key)
  then show ?thesis by (simp add: sorted_map)
qed

subsection \<open>Diversification\<close>

definition unmarked :: "RankedHit \<Rightarrow> RankedHit" where
  "unmarked h = h\<lparr>rhMMRScore := 0\<rparr>"

lemma unmarked_simps [simp]: "unmarked (h\<lparr>rhMMRScore := s\<rparr>) = unmarked h" "rhID (unmarked h) = rhID h"
  "rhScore (unmarked h) = rhScore h"
  by (simp_all add: unmarked_def)

lemma take_drop_mset: "i < length xs \<Longrightarrow> add_mset (f (xs ! i)) (mset (map f (take i xs @ drop (Suc i) xs))) = mset (map f xs)"
  by (subst (4) id_take_nth_drop [of i xs]) simp_all

lemma mmrLoop_mset: "mmrLoop lambda target sel rem = (s, r)
    \<Longrightarrow> mset (map unmarked s) + mset (map unmarked r) = mset (map unmarked sel) + mset (map unmarked rem)"
proof (induction lambda target sel rem rule: mmrLoop.induct)
  case (1 lambda target sel rem)
  show ?case
  proof (cases "int (length sel) < target \<and> rem \<noteq> []")
    case True
    obtain i v where b: "bestCandidate (mmrScore lambda sel) rem = (i, v)" by fastforce
    have i: "i < length rem" using bestCandidate_bound [of rem "mmrScore lambda sel"] True b by simp
    from 1(2) True b have "mmrLoop lambda target (sel @ [(rem ! i)\<lparr>rhMMRScore := v\<rparr>]) (take i rem @ drop (Suc i) rem) = (s, r)"
      by (subst (asm) mmrLoop.simps) simp
    from 1(1) [OF True b [symmetric] refl this] take_drop_mset [OF i, of unmarked] show ?thesis by simp
  next
    case False
    then have "mmrLoop lambda target sel rem = (sel, rem)" by (subst mmrLoop.simps) auto
    with 1(2) show ?thesis by simp
  qed
qed

lemma mset_parts: "mset (map f (filter P xs)) + mset (map f (filter (\<lambda>x. \<not> P x) xs)) = mset (map f xs)"
  by (induction xs) auto

lemma mmr_mset: "mset (map unmarked (MaximalMarginalRelevance hits q lambda k)) = mset (map unmarked hits)"
proof (cases "length (filter (embedded q) hits) < 2")
  case False
  let ?w = "filter (embedded q) hits"
  let ?l = "if lambda < 0 then 0 else if 1 < lambda then 1 else lambda"
  let ?t = "if int (length ?w) < k then int (length ?w) else k"
  obtain s r where l: "mmrLoop ?l ?t [] ?w = (s, r)" by fastforce
  have "mset (map unmarked s) + mset (map unmarked r) = mset (map unmarked ?w)" using mmrLoop_mset [OF l] by simp
  then show ?thesis using False l mset_parts [of unmarked "embedded q" hits]
    by (simp add: MaximalMarginalRelevance_def Let_def add.assoc [symmetric])
qed (simp add: MaximalMarginalRelevance_def Let_def)

lemma mmr_ids: "mset (map rhID (MaximalMarginalRelevance hits q lambda k)) = mset (map rhID hits)"
proof -
  have ids: "map rhID hs = map rhID (map unmarked hs)" for hs by simp
  show ?thesis by (subst (1 2) ids, subst (1 2) mset_map, simp only: mmr_mset)
qed

lemma mmr_scores: "set (map (\<lambda>h. (rhID h, rhScore h)) (MaximalMarginalRelevance hits q lambda k)) = set (map (\<lambda>h. (rhID h, rhScore h)) hits)"
proof -
  have u: "set (map (\<lambda>h. (rhID h, rhScore h)) hs) = (\<lambda>h. (rhID h, rhScore h)) ` set_mset (mset (map unmarked hs))" for hs
    by (force simp: image_iff)
  show ?thesis unfolding u mmr_mset ..
qed

lemma diversified_keeps:
  obtains e where "mset (map rhID (diversified opts hits)) = mset (map rhID e)"
    "set (map (\<lambda>h. (rhID h, rhScore h)) (diversified opts hits)) = set (map (\<lambda>h. (rhID h, rhScore h)) e)"
    "\<exists>n. e = take n hits"
proof (cases "roMMR opts \<and> 0 < roMMRLambda opts \<and> roQueryVector opts \<noteq> []")
  case True
  let ?p = "if wrap64 (roTopK opts * 3) < 12 then 12 else wrap64 (roTopK opts * 3)"
  let ?e = "if ?p < int (length hits) then take (nat ?p) hits else hits"
  have d: "diversified opts hits = MaximalMarginalRelevance ?e (roQueryVector opts) (roMMRLambda opts) (int (length ?e))"
    using True by (simp add: diversified_def Let_def)
  have "\<exists>n. ?e = take n hits" by (metis take_all order_refl)
  then show ?thesis by (rule that [unfolded d, OF mmr_ids mmr_scores])
next
  case False
  have "\<exists>n. hits = take n hits" by (metis take_all order_refl)
  then show ?thesis using that [of hits] False by (auto simp: diversified_def)
qed

lemma bestFrom_best:
  assumes "snd best = f x" "bestFrom f i best cs = (j, v)"
  shows "(v = f x \<and> j = fst best \<or> i \<le> j \<and> j < i + length cs \<and> v = f (cs ! (j - i))) \<and> f x \<le> v \<and> (\<forall>c \<in> set cs. f c \<le> v)"
  using assms
proof (induction cs arbitrary: i best x)
  case (Cons c cs)
  show ?case
  proof (cases "snd best < f c")
    case True
    have "bestFrom f (Suc i) (i, f c) cs = (j, v)" using Cons.prems True by simp
    from Cons.IH [OF _ this, of c] True Cons.prems(1) show ?thesis
      by (cases "j = i") (auto simp: nth_Cons' Suc_diff_le)
  next
    case False
    have "bestFrom f (Suc i) best cs = (j, v)" using Cons.prems False by simp
    from Cons.IH [OF Cons.prems(1) this] False Cons.prems(1) show ?thesis
      by (auto simp: nth_Cons' Suc_diff_le)
  qed
qed auto

lemma bestCandidate_best:
  assumes "bestCandidate f cs = (j, v)" "cs \<noteq> []"
  shows "v = f (cs ! j)" "\<forall>c \<in> set cs. f c \<le> v"
proof -
  obtain x r where cs: "cs = x # r" using assms(2) by (cases cs) auto
  have "bestFrom f 1 (0, f x) r = (j, v)" using assms(1) by (simp add: bestCandidate_def cs)
  from bestFrom_best [OF _ this, of x] show "v = f (cs ! j)" "\<forall>c \<in> set cs. f c \<le> v"
    by (auto simp: cs nth_Cons')
qed

lemma mmrScore_unmarked: "mmrScore lambda sel (unmarked h) = mmrScore lambda sel h"
  by (simp add: mmrScore_def maxSimilarity_def unmarked_def)

definition greedyAt :: "rat \<Rightarrow> RankedHit list \<Rightarrow> RankedHit list \<Rightarrow> nat \<Rightarrow> bool" where
  "greedyAt lambda s r i \<longleftrightarrow> rhMMRScore (s ! i) = mmrScore lambda (take i s) (s ! i)
     \<and> (\<forall>h \<in> set (drop i s @ r). mmrScore lambda (take i s) h \<le> rhMMRScore (s ! i))"

lemma mmrLoop_greedy: "mmrLoop lambda target sel rem = (s, r)
    \<Longrightarrow> take (length sel) s = sel \<and> length s = length sel + min (nat (target - int (length sel))) (length rem)
      \<and> (\<forall>i. length sel \<le> i \<and> i < length s \<longrightarrow> greedyAt lambda s r i)"
proof (induction lambda target sel rem rule: mmrLoop.induct)
  case (1 lambda target sel rem)
  show ?case
  proof (cases "int (length sel) < target \<and> rem \<noteq> []")
    case True
    obtain j v where b: "bestCandidate (mmrScore lambda sel) rem = (j, v)" by fastforce
    have j: "j < length rem" using bestCandidate_bound [of rem "mmrScore lambda sel"] True b by simp
    let ?x = "(rem ! j)\<lparr>rhMMRScore := v\<rparr>" and ?rest = "take j rem @ drop (Suc j) rem"
    from 1(2) True b have l: "mmrLoop lambda target (sel @ [?x]) ?rest = (s, r)"
      by (subst (asm) mmrLoop.simps) simp
    from 1(1) [OF True b [symmetric] refl l]
    have ih: "take (Suc (length sel)) s = sel @ [?x]"
      "length s = Suc (length sel) + min (nat (target - int (Suc (length sel)))) (length ?rest)"
      "\<And>i. Suc (length sel) \<le> i \<Longrightarrow> i < length s \<Longrightarrow> greedyAt lambda s r i"
      by simp_all
    obtain t where s: "s = (sel @ [?x]) @ t" using ih(1) by (metis append_take_drop_id)
    have "mset (map unmarked (t @ r)) = mset (map unmarked ?rest)" using mmrLoop_mset [OF l] by (simp add: s)
    then have "set (map unmarked (t @ r)) = set (map unmarked ?rest)" by (rule mset_eq_setD)
    then have img: "unmarked ` set (t @ r) = unmarked ` set ?rest" by (simp add: image_Un)
    have sub: "set ?rest \<subseteq> set rem" by (auto dest: in_set_takeD in_set_dropD)
    have from_rem: "\<exists>g \<in> set rem. unmarked g = unmarked h" if "h \<in> set (t @ r)" for h
    proof -
      have "unmarked h \<in> unmarked ` set ?rest" using imageI [OF that, of unmarked] by (simp only: img)
      then obtain g where "g \<in> set ?rest" "unmarked h = unmarked g" by (rule imageE)
      with sub show ?thesis by auto
    qed
    have best: "v = mmrScore lambda sel (rem ! j)" "\<forall>c \<in> set rem. mmrScore lambda sel c \<le> v"
      using bestCandidate_best [OF b] True by simp_all
    have v: "mmrScore lambda sel ?x = v" using best(1) mmrScore_unmarked [of lambda sel ?x] mmrScore_unmarked [of lambda sel "rem ! j"] by simp
    have rest: "mmrScore lambda sel h \<le> v" if "h \<in> set (t @ r)" for h
      using from_rem [OF that] best(2) mmrScore_unmarked by metis
    have "greedyAt lambda s r (length sel)" using v rest by (auto simp: greedyAt_def s nth_append)
    with ih(3) have "greedyAt lambda s r i" if "length sel \<le> i" "i < length s" for i
      using that by (cases "i = length sel") auto
    moreover have "length s = length sel + min (nat (target - int (length sel))) (length rem)"
      using True j ih(2) by auto
    moreover have "take (length sel) s = sel" by (simp add: s)
    ultimately show ?thesis by blast
  next
    case False
    then have "mmrLoop lambda target sel rem = (sel, rem)" by (subst mmrLoop.simps) auto
    with 1(2) False show ?thesis by auto
  qed
qed

subsection \<open>Scores lie between zero and one\<close>

lemma fl_idem: "0 \<le> q \<Longrightarrow> fl (fl q) = fl q"
proof (cases "q = 0")
  case False
  assume "0 \<le> q"
  with False have q: "0 < q" by simp
  define k where "k = fexp q - 52"
  define n where "n = roundEven (\<bar>q\<bar> / 2 powi k)"
  have f: "fl q = of_int n * 2 powi k" using q by (simp add: fl_def Let_def k_def n_def)
  have b: "0 < fl q" "fl q \<le> 2 powi (k + 53)" using fl_pos [OF q] fl_pos_bounds(2) [OF q] by (simp_all add: k_def add.commute)
  show ?thesis
  proof (cases "fl q = 2 powi (k + 53)")
    case True
    then have "fl q = of_int 1 * 2 powi (k + 53)" by simp
    moreover have "\<bar>fl q\<bar> < 2 powi (k + 53 + 53)" using True by (simp add: power_int_add)
    ultimately show ?thesis by (rule fl_exact)
  next
    case False
    with b have "\<bar>fl q\<bar> < 2 powi (k + 53)" by simp
    with f show ?thesis by (rule fl_exact)
  qed
qed simp

lemma fl_double: "0 < q \<Longrightarrow> fl (2 * q) = 2 * fl q"
proof -
  assume q: "0 < q"
  have "2 powi (fexp q + 1) \<le> \<bar>2 * q\<bar>" "\<bar>2 * q\<bar> < 2 powi (fexp q + 1 + 1)"
    using fexp_lower [of q] fexp_upper [of q] q by (simp_all add: power_int_add)
  then have e: "fexp (2 * q) = fexp q + 1" by (rule fexp_unique)
  have p: "(2::rat) powi (fexp q - 51) = 2 * 2 powi (fexp q - 52)"
    by (simp add: power_int_diff)
  show ?thesis using q by (simp add: fl_def Let_def e p)
qed

lemma CosineSimilarity_unit: "0 \<le> CosineSimilarity a b" "CosineSimilarity a b \<le> 1"
  by (auto simp: CosineSimilarity_def Let_def)

lemma countDF_value: "countDF ts df q = (if q \<in> set ts then Some (Suc (case df q of None \<Rightarrow> 0 | Some n \<Rightarrow> n)) else df q)"
proof -
  have "distinct xs \<Longrightarrow> fold (\<lambda>t m. m(t \<mapsto> Suc (case m t of None \<Rightarrow> 0 | Some n \<Rightarrow> n))) xs df q
      = (if q \<in> set xs then Some (Suc (case df q of None \<Rightarrow> 0 | Some n \<Rightarrow> n)) else df q)" for xs
    by (induction xs arbitrary: df) auto
  from this [of "remdups ts"] show ?thesis by (simp add: countDF_def)
qed

lemma df_bound: "fold (countDF \<circ> snd) ts df q = Some n \<Longrightarrow> n \<le> length ts + (case df q of None \<Rightarrow> 0 | Some k \<Rightarrow> k)"
proof (induction ts arbitrary: df)
  case (Cons t ts)
  from Cons.IH [of "countDF (snd t) df"] Cons.prems show ?case
    by (auto simp: countDF_value split: if_splits option.splits)
qed simp

lemma BuildBm25_df: "bmDF (BuildBm25 lower docs) q = Some n \<Longrightarrow> n \<le> bmN (BuildBm25 lower docs)"
  using df_bound [of _ Map.empty q n] by (fastforce simp: BuildBm25_def Let_def)

lemma BuildBm25_avgdl: "0 \<le> bmAvgdl (BuildBm25 lower docs)"
  by (simp add: BuildBm25_def Let_def fl_nonneg)

definition log_ok :: "(rat \<Rightarrow> rat) \<Rightarrow> bool" where
  "log_ok logf \<longleftrightarrow> (\<forall>x. 1 \<le> x \<longrightarrow> 0 \<le> logf x)"

lemma fl_ge_one: "1 \<le> q \<Longrightarrow> 1 \<le> fl q"
  using fl_mono [of 1 q] by simp

lemma idf_nonneg: "log_ok logf \<Longrightarrow> df \<le> n \<Longrightarrow> 0 \<le> idf logf n df"
proof -
  assume l: "log_ok logf" and "df \<le> n"
  then have "0 \<le> (of_int (int n - int df) + 1/2 :: rat)" by simp
  then have "0 \<le> fl (fl (of_int (int n - int df) + 1/2) / fl (of_nat df + 1/2))" by (intro fl_nonneg divide_nonneg_nonneg) auto
  then have "1 \<le> fl (fl (fl (of_int (int n - int df) + 1/2) / fl (of_nat df + 1/2)) + 1)" by (intro fl_ge_one) simp
  with l show ?thesis by (simp add: idf_def log_ok_def)
qed

lemma termNorm_nonneg: "0 \<le> avgdl \<Longrightarrow> 0 \<le> termNorm tf len avgdl"
  unfolding termNorm_def by (intro fl_nonneg divide_nonneg_nonneg add_nonneg_nonneg mult_nonneg_nonneg) auto

lemma Score_float:
  assumes "log_ok logf"
  shows "0 \<le> Score logf i qs (BuildBm25 lower docs) \<and> fl (Score logf i qs (BuildBm25 lower docs)) = Score logf i qs (BuildBm25 lower docs)"
proof -
  let ?s = "BuildBm25 lower docs"
  define step where "step tokens = (\<lambda>q sm. case bmDF ?s q of None \<Rightarrow> sm
     | Some df \<Rightarrow> (let tf = count_list tokens q in
         if tf = 0 then sm else fl (sm + fl (idf logf (bmN ?s) df * termNorm tf (length tokens) (bmAvgdl ?s)))))" for tokens
  have one: "0 \<le> step ts q x \<and> fl (step ts q x) = step ts q x" if x: "0 \<le> x \<and> fl x = x" for ts q x
  proof (cases "bmDF ?s q")
    case (Some df)
    have "0 \<le> x + fl (idf logf (bmN ?s) df * termNorm tf l (bmAvgdl ?s))" for tf l
      using x idf_nonneg [OF assms BuildBm25_df [OF Some]] termNorm_nonneg [OF BuildBm25_avgdl]
      by (simp add: fl_nonneg)
    with x Some show ?thesis by (simp add: step_def Let_def fl_idem fl_nonneg)
  qed (use x in \<open>simp add: step_def\<close>)
  have "0 \<le> fold (step ts) qs x \<and> fl (fold (step ts) qs x) = fold (step ts) qs x" if "0 \<le> x \<and> fl x = x" for ts x
    using that by (induction qs arbitrary: x) (simp_all add: one)
  from this [of 0] show ?thesis by (auto simp: Score_def step_def [symmetric] split: option.splits)
qed

lemma NormalizeBm25_unit: "0 \<le> raw \<Longrightarrow> fl raw = raw \<Longrightarrow> 0 \<le> NormalizeBm25 raw \<and> NormalizeBm25 raw \<le> 1"
proof -
  assume r: "0 \<le> raw" "fl raw = raw"
  have le: "raw \<le> fl (raw + 1)" using fl_mono [of raw "raw + 1"] r by simp
  then have "0 \<le> raw / fl (raw + 1)" "raw / fl (raw + 1) \<le> 1" using r(1) by (auto simp: divide_le_eq_1)
  then show ?thesis using fl_nonneg fl_mono [of "raw / fl (raw + 1)" 1] by (simp add: NormalizeBm25_def)
qed

text \<open>A list without repeats adds at most the weight of its first position to any one score.\<close>

definition firstWeight :: rat where
  "firstWeight = fl (1 / 61)"

lemma rank_weight: "0 \<le> fl (1 / fl (fl (RRFK + of_nat index) + 1))" "fl (1 / fl (fl (RRFK + of_nat index) + 1)) \<le> firstWeight"
proof -
  have "fl 60 = 60" by (rule fl_exact [of _ 60 0]) simp_all
  then have "60 = fl 60" by simp
  also have "\<dots> \<le> fl (RRFK + of_nat index)" by (rule fl_mono) simp_all
  finally have a: "61 \<le> fl (RRFK + of_nat index) + 1" by simp
  have "fl 61 = 61" by (rule fl_exact [of _ 61 0]) simp_all
  then have "61 = fl 61" by simp
  also have "\<dots> \<le> fl (fl (RRFK + of_nat index) + 1)" using a by (intro fl_mono) simp_all
  finally have b: "61 \<le> fl (fl (RRFK + of_nat index) + 1)" .
  show "0 \<le> fl (1 / fl (fl (RRFK + of_nat index) + 1))" using b by (intro fl_nonneg) simp
  show "fl (1 / fl (fl (RRFK + of_nat index) + 1)) \<le> firstWeight" unfolding firstWeight_def
    using b by (intro fl_mono frac_le) simp_all
qed

lemma getScore_upd [simp]: "getScore (m(i \<mapsto> v)) j = (if i = j then v else getScore m j)"
  by (simp add: getScore_def)

lemma fuse_from:
  assumes "distinct l" "0 \<le> getScore m i"
  defines "step \<equiv> (\<lambda>(index, i) m. m(i \<mapsto> fl (getScore m i + fl (1 / fl (fl (RRFK + of_nat index) + 1)))))"
  shows "getScore (fold step (zip [a ..< a + length l] l) m) i \<in> {getScore m i} \<union> {0 .. fl (getScore m i + firstWeight)}"
  using assms(1,2)
proof (induction l arbitrary: a m)
  case (Cons x l)
  have z: "zip [a ..< a + length (x # l)] (x # l) = (a, x) # zip [Suc a ..< Suc a + length l] l"
    by (simp add: upt_conv_Cons del: upt_Suc)
  let ?m = "step (a, x) m"
  have same: "getScore (fold step (zip [b ..< b + length l] l) m') x = getScore m' x" if "x \<notin> set l" for b m'
    using that
  proof (induction l arbitrary: b m')
    case (Cons y l)
    then show ?case using Cons.IH [of "Suc b"] by (auto simp: upt_conv_Cons step_def simp del: upt_Suc)
  qed simp
  show ?case
  proof (cases "i = x")
    case True
    have "getScore ?m x \<in> {0 .. fl (getScore m x + firstWeight)}"
      using Cons.prems(2) True rank_weight [of a] by (auto simp: step_def intro: fl_nonneg fl_mono)
    with True same [of "Suc a" ?m] Cons.prems(1) z show ?thesis by simp
  next
    case False
    then have "getScore ?m i = getScore m i" by (simp add: step_def)
    with Cons.IH [of ?m "Suc a"] Cons.prems z show ?thesis by simp
  qed
qed simp

lemma fuseList_score: "distinct l \<Longrightarrow> 0 \<le> getScore m i
    \<Longrightarrow> getScore (fuseList 1 l m) i \<in> {getScore m i} \<union> {0 .. fl (getScore m i + firstWeight)}"
  using fuse_from [of l m i 0] by (simp add: fuseList_def)

lemma firstWeight_simps: "0 < firstWeight" "fl firstWeight = firstWeight" "fl (firstWeight + firstWeight) = 2 * firstWeight"
  "fl (2 / (RRFK + 1)) = 2 * firstWeight"
proof -
  show p: "0 < firstWeight" unfolding firstWeight_def by (intro fl_pos) simp
  show f: "fl firstWeight = firstWeight" by (simp add: firstWeight_def fl_idem)
  have "firstWeight + firstWeight = 2 * firstWeight" by simp
  then show "fl (firstWeight + firstWeight) = 2 * firstWeight" using fl_double [OF p] f by simp
  show "fl (2 / (RRFK + 1)) = 2 * firstWeight" using fl_double [of "1/61"] by (simp add: firstWeight_def)
qed

lemma fused_unit:
  assumes "distinct a" "distinct b"
  shows "0 \<le> fl (getScore (ReciprocalRankFusion [a, b] []) i / fl (2 / (RRFK + 1)))"
    "fl (getScore (ReciprocalRankFusion [a, b] []) i / fl (2 / (RRFK + 1))) \<le> 1"
proof -
  let ?m = "fuseList 1 a Map.empty"
  let ?v = "getScore (fuseList 1 b ?m) i"
  note w = firstWeight_simps
  have r: "ReciprocalRankFusion [a, b] [] = fuseList 1 b ?m" by (simp add: ReciprocalRankFusion_def)
  have m: "0 \<le> getScore ?m i" "getScore ?m i \<le> firstWeight"
    using fuseList_score [OF assms(1), of Map.empty i] w by (auto simp: getScore_def)
  have "fl (getScore ?m i + firstWeight) \<le> 2 * firstWeight"
    using fl_mono [of "getScore ?m i + firstWeight" "firstWeight + firstWeight"] m w by simp
  with fuseList_score [OF assms(2) m(1)] m w(1) have v: "0 \<le> ?v" "?v \<le> 2 * firstWeight" by auto
  then have "0 \<le> ?v / (2 * firstWeight)" "?v / (2 * firstWeight) \<le> 1" using w(1) by simp_all
  then show "0 \<le> fl (getScore (ReciprocalRankFusion [a, b] []) i / fl (2 / (RRFK + 1)))"
    "fl (getScore (ReciprocalRankFusion [a, b] []) i / fl (2 / (RRFK + 1))) \<le> 1"
    unfolding r w(4) using fl_nonneg fl_mono [of "?v / (2 * firstWeight)" 1] by simp_all
qed

lemma lexical_unit: "log_ok logf \<Longrightarrow> getScore (lexicalScores lower logf query ca) i \<in> {0..1}"
proof -
  assume l: "log_ok logf"
  have "NormalizeBm25 (Score logf j ts (BuildBm25 lower docs)) \<in> {0..1}" for j ts docs
    using NormalizeBm25_unit Score_float [OF l] by simp
  then have "pred_option (\<lambda>v. v \<in> {0..1}) (lexicalScores lower logf query ca i)"
    unfolding lexicalScores_def Let_def by (intro fold_upd_range) simp_all
  then show ?thesis by (auto simp: getScore_def split: option.splits)
qed

lemma vector_unit: "getScore (vectorScores opts ca) i \<in> {0..1}"
proof -
  have "pred_option (\<lambda>v. v \<in> {0..1}) (vectorScores opts ca i)"
    unfolding vectorScores_eq by (intro fold_upd_range) (simp_all add: CosineSimilarity_unit)
  then show ?thesis by (auto simp: getScore_def split: option.splits)
qed

lemma sortedIDs_distinct: "ranges_over order ca \<Longrightarrow> dom m \<subseteq> docIDs ca \<Longrightarrow> distinct (sortedIDs order m)"
  using ranges_overD by (simp add: sortedIDs_def)

lemma ranked_unit:
  assumes "ranges_over order ca" "log_ok logf"
    "h \<in> set (rankedHits order mode (vectorScores opts ca) (lexicalScores lower logf query ca) ca)"
  shows "rhScore h \<in> {0..1}"
proof -
  have "distinct (sortedIDs order (vectorScores opts ca))" "distinct (sortedIDs order (lexicalScores lower logf query ca))"
    by (intro sortedIDs_distinct [OF assms(1)] vectorScores_docs, intro sortedIDs_distinct [OF assms(1)]) (simp add: lexicalScores_dom)
  then show ?thesis using assms(3) vector_unit lexical_unit [OF assms(2)] fused_unit
    by (cases mode) (auto simp: rankedHits_def Let_def)
qed

subsection \<open>The contract of Rank\<close>

lemma rank_prefix: "\<exists>n. Rank lower logf order query ca opts = take n (diversified opts (eligibleHits lower logf order query ca opts))
    \<and> (1 \<le> roTopK opts \<longrightarrow> n = nat (roTopK opts))"
proof (cases "1 \<le> roTopK opts")
  case False
  then have "Rank lower logf order query ca opts = take (length (diversified opts (eligibleHits lower logf order query ca opts)))
      (diversified opts (eligibleHits lower logf order query ca opts))" by (simp add: Rank_def)
  with False show ?thesis by blast
qed (auto simp: Rank_def)

lemma rank_source: "h \<in> set (Rank lower logf order query ca opts)
    \<Longrightarrow> \<exists>g \<in> set (eligibleHits lower logf order query ca opts). rhID g = rhID h \<and> rhScore g = rhScore h"
proof -
  let ?e = "eligibleHits lower logf order query ca opts"
  let ?key = "\<lambda>h. (rhID h, rhScore h)"
  assume "h \<in> set (Rank lower logf order query ca opts)"
  then have d: "h \<in> set (diversified opts ?e)" using rank_prefix [of lower logf order query ca opts] in_set_takeD by metis
  obtain e where e: "set (map ?key (diversified opts ?e)) = set (map ?key e)" "\<exists>n. e = take n ?e"
    by (rule diversified_keeps [of opts ?e])
  from d have "?key h \<in> set (map ?key (diversified opts ?e))" by simp
  with e obtain g where "g \<in> set ?e" "?key g = ?key h" by (auto dest: in_set_takeD)
  then show ?thesis by auto
qed

text \<open>
  C26: \<open>Rank\<close> returns candidates of the pool only, each at most once, none below the threshold and no more
  than the limit; without diversification they come best first, and no candidate that passed the threshold
  and was left out scores higher than one returned.
\<close>

theorem rank_contract:
  assumes "ranges_over order ca" "distinct (map cdID (caDocs ca))"
    "hits = Rank lower logf order query ca opts"
  shows "rhID ` set hits \<subseteq> docIDs ca \<and> distinct (map rhID hits) \<and> list_all (\<lambda>h. roThreshold opts \<le> rhScore h) hits
    \<and> (1 \<le> roTopK opts \<longrightarrow> int (length hits) \<le> roTopK opts)
    \<and> (\<not> roMMR opts \<longrightarrow> sorted_wrt (\<lambda>a b. rhScore b \<le> rhScore a)
         (hits @ filter (\<lambda>h. h \<notin> set hits) (eligibleHits lower logf order query ca opts)))"
proof (intro conjI impI)
  let ?e = "eligibleHits lower logf order query ca opts"
  obtain n where n: "hits = take n (diversified opts ?e)" "1 \<le> roTopK opts \<Longrightarrow> n = nat (roTopK opts)"
    using rank_prefix [of lower logf order query ca opts] assms(3) by blast
  show "rhID ` set hits \<subseteq> docIDs ca" using rank_source eligible_ids [OF assms(1)] unfolding assms(3) by (fastforce simp: image_subset_iff)
  show "list_all (\<lambda>h. roThreshold opts \<le> rhScore h) hits"
    using rank_source eligible_threshold unfolding assms(3) list_all_iff by metis
  show "int (length hits) \<le> roTopK opts" if "1 \<le> roTopK opts" using that n by simp
  show "distinct (map rhID hits)"
  proof -
    obtain e m where e: "mset (map rhID (diversified opts ?e)) = mset (map rhID e)" "e = take m ?e"
      using diversified_keeps [of opts ?e] by metis
    have "distinct (map rhID e)" unfolding e(2) take_map [symmetric] by (intro distinct_take eligible_distinct assms)
    then have "distinct (map rhID (diversified opts ?e))" using e(1) by (metis mset_eq_imp_distinct_iff)
    then show ?thesis by (simp add: n(1) take_map [symmetric])
  qed
  show "sorted_wrt (\<lambda>a b. rhScore b \<le> rhScore a) (hits @ filter (\<lambda>h. h \<notin> set hits) ?e)" if "\<not> roMMR opts"
  proof -
    have h: "hits = take n ?e" using n that by (simp add: diversified_def)
    have "distinct ?e" using eligible_distinct [OF assms(1,2)] by (simp add: distinct_map)
    then have "filter (\<lambda>h. h \<notin> set hits) ?e = drop n ?e" unfolding h
      by (subst (1) append_take_drop_id [of n ?e, symmetric], subst filter_append)
        (simp add: set_take_disj_set_drop_if_distinct disjoint_iff filter_id_conv, metis disjoint_iff order_refl set_take_disj_set_drop_if_distinct)
    with h eligible_sorted show ?thesis by simp
  qed
qed

text \<open>
  C27: every score \<open>Rank\<close> returns lies between zero and one in every mode, rounding of the \<open>float64\<close>
  operations included, provided the logarithm is not negative from one on.
\<close>

theorem rank_scores_unit:
  assumes "ranges_over order ca" "log_ok logf"
  shows "list_all (\<lambda>h. 0 \<le> rhScore h \<and> rhScore h \<le> 1) (Rank lower logf order query ca opts)"
proof -
  have "rhScore g \<in> {0..1}" if "g \<in> set (eligibleHits lower logf order query ca opts)" for g
    using that by (intro ranked_unit [OF assms]) (auto simp: eligibleHits_def)
  then show ?thesis unfolding list_all_iff using rank_source by (metis atLeastAtMost_iff)
qed

text \<open>
  \<open>MaximalMarginalRelevance\<close> only reorders: the same candidates come back, nothing but the recorded
  score changed. Each position it fills holds a candidate that maximises relevance minus similarity to those
  before it, over every embedded candidate not yet placed, and records that score.
\<close>

theorem mmr_greedy_permutation:
  assumes "2 \<le> length (filter (embedded q) hits)" "out = MaximalMarginalRelevance hits q lambda k"
  shows "mset (map unmarked out) = mset (map unmarked hits)
    \<and> (\<forall>i < min (nat k) (length (filter (embedded q) hits)). \<forall>h \<in> set (drop i out). embedded q h \<longrightarrow>
        rhMMRScore (out ! i) = mmrScore (min 1 (max 0 lambda)) (take i out) (out ! i)
        \<and> mmrScore (min 1 (max 0 lambda)) (take i out) h \<le> rhMMRScore (out ! i))"
proof (intro conjI allI impI ballI)
  show "mset (map unmarked out) = mset (map unmarked hits)" unfolding assms(2) by (rule mmr_mset)
next
  fix i h
  assume i: "i < min (nat k) (length (filter (embedded q) hits))" and h: "h \<in> set (drop i out)" "embedded q h"
  let ?w = "filter (embedded q) hits" and ?l = "min 1 (max 0 lambda)"
  let ?t = "if int (length ?w) < k then int (length ?w) else k"
  obtain s r where l: "mmrLoop ?l ?t [] ?w = (s, r)" by fastforce
  have "(if lambda < 0 then 0 else if 1 < lambda then 1 else lambda) = ?l" by (simp add: min_def max_def)
  then have out: "out = s @ r @ filter (\<lambda>h. \<not> embedded q h) hits"
    using assms l by (simp add: MaximalMarginalRelevance_def Let_def)
  from mmrLoop_greedy [OF l] i have len: "i < length s" and g: "greedyAt ?l s r i" by (auto split: if_splits)
  have "h \<in> set (drop i s @ r)" using h len by (auto simp: out dest: in_set_dropD)
  with g len show "rhMMRScore (out ! i) = mmrScore ?l (take i out) (out ! i)" "mmrScore ?l (take i out) h \<le> rhMMRScore (out ! i)"
    by (auto simp: greedyAt_def out nth_append)
qed

text \<open>
  with a query vector but no stored vector of its length, mode \<open>vector\<close> returns nothing, whatever the
  words match: the comment on \<open>Rank\<close> promises that it degrades to lexical, never to nothing.
\<close>

theorem vector_mode_returns_nothing:
  assumes "roMode opts = ''vector''" "roQueryVector opts \<noteq> []" "ranges_over order ca"
    "list_all (\<lambda>d. \<not> sameLength opts ca (cdID d)) (caDocs ca)"
  shows "Rank lower logf order query ca opts = []"
proof -
  have "dom (vectorScores opts ca) = {}" using assms(4) by (auto simp: vectorScores_dom scored_def list_all_iff)
  moreover have "set (order (vectorScores opts ca)) = dom (vectorScores opts ca)"
    using ranges_overD [OF assms(3) vectorScores_docs] by simp
  ultimately have "order (vectorScores opts ca) = []" by simp
  moreover have "rankMode opts ca = VectorMode" using assms(1,2) by (simp add: rankMode_def vectorAvailable_def)
  ultimately have "eligibleHits lower logf order query ca opts = []"
    by (simp add: eligibleHits_def rankedHits_def Let_def)
  then show ?thesis by (simp add: Rank_def diversified_def MaximalMarginalRelevance_def Let_def)
qed

subsection \<open>Concrete inputs\<close>

definition demoPool :: Candidates where
  "demoPool = \<lparr>caDocs = [\<lparr>cdID = ''a'', cdText = ''red fox''\<rparr>, \<lparr>cdID = ''b'', cdText = ''old oak''\<rparr>], caEmbedding = Map.empty\<rparr>"

definition demoOrder :: "(string \<rightharpoonup> rat) \<Rightarrow> string list" where
  "demoOrder m = filter (\<lambda>i. m i \<noteq> None) [''a'', ''b'']"

lemma demoOrder_ok: "ranges_over demoOrder demoPool"
  by (auto simp: ranges_over_def demoOrder_def docIDs_def demoPool_def)

abbreviation demoRankOptions :: "string \<Rightarrow> RankOptions" where
  "demoRankOptions mode \<equiv> \<lparr>roMode = mode, roTopK = 1, roThreshold = 0, roMMR = False, roMMRLambda = 0, roQueryVector = [1]\<rparr>"

abbreviation demoHit :: "string \<Rightarrow> rat \<Rightarrow> rat list \<Rightarrow> RankedHit" where
  "demoHit i score v \<equiv> \<lparr>rhID = i, rhScore = score, rhVectorScore = score, rhLexicalScore = 0, rhHasVector = True,
     rhHasLexical = True, rhEmbedding = v, rhMMRScore = 0\<rparr>"

lemma rank_contract_witness: "\<exists>hits. hits = Rank id (\<lambda>_. 1) demoOrder ''red fox'' demoPool (demoRankOptions ''hybrid'')
    \<and> rhID ` set hits \<subseteq> docIDs demoPool \<and> int (length hits) \<le> 1"
proof -
  have "distinct (map cdID (caDocs demoPool))" by (simp add: demoPool_def)
  from rank_contract [OF demoOrder_ok this refl, of id "\<lambda>_. 1" "''red fox''" "demoRankOptions ''hybrid''"]
  show ?thesis by simp
qed

lemma rank_scores_unit_witness:
  "list_all (\<lambda>h. 0 \<le> rhScore h \<and> rhScore h \<le> 1) (Rank id (\<lambda>_. 1) demoOrder ''red fox'' demoPool (demoRankOptions ''hybrid''))"
proof -
  have "log_ok (\<lambda>_. 1)" by (simp add: log_ok_def)
  from rank_scores_unit [OF demoOrder_ok this] show ?thesis .
qed

lemma mmr_greedy_permutation_witness:
  "mset (map unmarked (MaximalMarginalRelevance [demoHit ''a'' 1 [1], demoHit ''b'' 1 [1], demoHit ''c'' 0 [0]] [1] (1/2) 2))
    = mset [demoHit ''a'' 1 [1], demoHit ''b'' 1 [1], demoHit ''c'' 0 [0]]"
proof -
  have "2 \<le> length (filter (embedded [1]) [demoHit ''a'' 1 [1], demoHit ''b'' 1 [1], demoHit ''c'' 0 [0]])"
    by (simp add: embedded_def)
  from mmr_greedy_permutation [OF this refl, of "1/2" 2] show ?thesis by (simp add: unmarked_def)
qed

lemma vector_mode_returns_nothing_witness: "Rank id (\<lambda>_. 1) demoOrder ''red fox'' demoPool (demoRankOptions ''vector'') = []"
proof -
  have "list_all (\<lambda>d. \<not> sameLength (demoRankOptions ''vector'') demoPool (cdID d)) (caDocs demoPool)"
    by (simp add: demoPool_def sameLength_def)
  with vector_mode_returns_nothing [OF _ _ demoOrder_ok, of "demoRankOptions ''vector''"] show ?thesis by simp
qed

end
