(* ===== verification/Rerank.thy ===== *)
theory Rerank
  imports GoNumber Complex_Main
begin

text \<open>
  The reranking providers (\<open>internal/rerank\<close>): the remote one over HTTP, the local one over the helper
  process, and the circuit breaker around either. The exchange itself is a parameter: what \<open>client.Do\<close> and
  the JSON decoder returned, or what the helper answered. Scores are finite, since JSON has no other
  numbers. Times are nanoseconds.
\<close>

datatype ErrorCode = ProviderError | TimedOut | InvalidResponse | CircuitOpen | Disabled

record RerankError =
  erCode :: ErrorCode
  erMessage :: string
  erRetryable :: bool

abbreviation failed :: "ErrorCode \<Rightarrow> string \<Rightarrow> bool \<Rightarrow> RerankError + 'a" where
  "failed code message retryable \<equiv> Inl \<lparr>erCode = code, erMessage = message, erRetryable = retryable\<rparr>"

subsection \<open>Remote provider\<close>

record Result =
  rsIndex :: int
  rsRelevanceScore :: rat
  rsScore :: rat

text \<open>A failed \<open>Do\<close> carries the error of the call's context, if it has one, and its own.\<close>

datatype Exchange =
    BadRequest string
  | NoResponse "string option" string
  | Response int "string + Result list"

definition resultScore :: "Result \<Rightarrow> rat" where
  "resultScore r = (if rsRelevanceScore r = 0 then rsScore r else rsRelevanceScore r)"

fun placeScores :: "Result list \<Rightarrow> rat list \<Rightarrow> RerankError + rat list" where
  "placeScores [] scores = Inr scores"
| "placeScores (r # rs) scores = (let score = resultScore r in
     if rsIndex r < 0 \<or> int (length scores) \<le> rsIndex r \<or> score < 0 \<or> 1 < score
     then failed InvalidResponse ''score out of range or index invalid'' False
     else placeScores rs (scores[nat (rsIndex r) := score]))"

definition expectedScores :: "nat \<Rightarrow> nat \<Rightarrow> string" where
  "expectedScores n k = ''expected '' @ formatInt (int n) @ '' scores, got '' @ formatInt (int k)"

record remoteProvider =
  rpBaseURL :: string
  rpModel :: string

definition remoteRerank :: "remoteProvider \<Rightarrow> string list \<Rightarrow> Exchange \<Rightarrow> RerankError + rat list" where
  "remoteRerank p texts reply = (
     if texts = [] then Inr []
     else if rpModel p = '''' then failed Disabled ''rerank model is empty'' False
     else if rpBaseURL p = '''' then failed Disabled ''rerank base URL is empty'' False
     else (case reply of
         BadRequest e \<Rightarrow> failed ProviderError e False
       | NoResponse (Some e) _ \<Rightarrow> failed TimedOut e True
       | NoResponse None e \<Rightarrow> failed ProviderError e True
       | Response status body \<Rightarrow>
           if status \<noteq> 200 then failed ProviderError (''HTTP '' @ formatInt status) True
           else (case body of
               Inl e \<Rightarrow> failed InvalidResponse (''decode: '' @ e) False
             | Inr results \<Rightarrow>
                 if length results \<noteq> length texts
                 then failed InvalidResponse (expectedScores (length texts) (length results)) False
                 else placeScores results (replicate (length texts) 0))))"

subsection \<open>Local provider\<close>

text \<open>
  \<open>cancelled k\<close> is \<open>ctx.Err\<close> before batch \<open>k\<close> and \<open>call k batch\<close> what the helper process answers to it.
\<close>

fun takeScores :: "rat list \<Rightarrow> rat list \<Rightarrow> RerankError + rat list" where
  "takeScores [] scores = Inr scores"
| "takeScores (s # ss) scores = (if s < 0 \<or> 1 < s then failed InvalidResponse ''score out of range'' False
     else takeScores ss (scores @ [s]))"

function localLoop :: "(nat \<Rightarrow> string option) \<Rightarrow> (nat \<Rightarrow> string list \<Rightarrow> string + rat list) \<Rightarrow> nat \<Rightarrow> string list \<Rightarrow> rat list
    \<Rightarrow> RerankError + rat list" where
  "localLoop cancelled call k texts scores = (
     if texts = [] then Inr scores
     else (case cancelled k of Some e \<Rightarrow> failed TimedOut e True
       | None \<Rightarrow> (let batch = take 8 texts in
           case call k batch of
             Inl e \<Rightarrow> failed ProviderError e True
           | Inr reply \<Rightarrow>
               if length reply \<noteq> length batch
               then failed InvalidResponse (expectedScores (length batch) (length reply)) False
               else (case takeScores reply scores of Inl e \<Rightarrow> Inl e
                 | Inr scores \<Rightarrow> localLoop cancelled call (Suc k) (drop 8 texts) scores))))"
  by pat_completeness auto
termination by (relation "measure (\<lambda>(_, _, _, texts, _). length texts)") auto

declare localLoop.simps [simp del]

definition localRerank :: "bool \<Rightarrow> string \<Rightarrow> (nat \<Rightarrow> string option) \<Rightarrow> (nat \<Rightarrow> string list \<Rightarrow> string + rat list)
    \<Rightarrow> string list \<Rightarrow> RerankError + rat list" where
  "localRerank configured model cancelled call texts = (
     if texts = [] then Inr []
     else if \<not> configured then failed Disabled ''local rerank runtime is not configured'' False
     else if model = '''' then failed Disabled ''local rerank model is empty'' False
     else localLoop cancelled call 0 texts [])"

subsection \<open>Circuit breaker\<close>

record breaker =
  brConsecutive :: int
  brOpenUntil :: int
  brThreshold :: int
  brOpenDuration :: int

text \<open>The defaults: three failures, five minutes. The zero time lies before every clock reading.\<close>

definition newBreaker :: "int \<Rightarrow> int \<Rightarrow> breaker" where
  "newBreaker threshold openDuration = \<lparr>brConsecutive = 0, brOpenUntil = 0,
     brThreshold = (if threshold \<le> 0 then 3 else threshold),
     brOpenDuration = (if openDuration \<le> 0 then 300000000000 else openDuration)\<rparr>"

text \<open>The two critical sections of a call: before the provider is asked, at \<open>now\<close>, and after it answered.\<close>

definition breakerAdmits :: "int \<Rightarrow> breaker \<Rightarrow> bool" where
  "breakerAdmits now b \<longleftrightarrow> \<not> now < brOpenUntil b"

definition breakerRecord :: "int \<Rightarrow> bool \<Rightarrow> breaker \<Rightarrow> breaker" where
  "breakerRecord now ok b = (if ok then b\<lparr>brConsecutive := 0\<rparr>
     else if brThreshold b \<le> brConsecutive b + 1
     then b\<lparr>brOpenUntil := now + brOpenDuration b, brConsecutive := 0\<rparr>
     else b\<lparr>brConsecutive := brConsecutive b + 1\<rparr>)"

definition breakerRerank :: "int \<Rightarrow> int \<Rightarrow> RerankError + rat list \<Rightarrow> breaker \<Rightarrow> (RerankError + rat list) \<times> breaker" where
  "breakerRerank before after answer b = (
     if \<not> breakerAdmits before b then (failed CircuitOpen ''reranker circuit is open'' True, b)
     else (answer, breakerRecord after (case answer of Inl _ \<Rightarrow> False | Inr _ \<Rightarrow> True) b))"

text \<open>A sequence of calls, each with its two clock readings and what the provider would answer; the calls that reach it.\<close>

fun providerCalls :: "breaker \<Rightarrow> (int \<times> int \<times> (RerankError + rat list)) list \<Rightarrow> nat" where
  "providerCalls b [] = 0"
| "providerCalls b ((before, after, answer) # cs) = (if breakerAdmits before b then 1 else 0)
     + providerCalls (snd (breakerRerank before after answer b)) cs"

subsection \<open>Scores that are accepted\<close>

lemma placeScores_ok:
  "placeScores rs scores = Inr out \<Longrightarrow> length out = length scores
    \<and> (list_all (\<lambda>s. 0 \<le> s \<and> s \<le> 1) scores \<longrightarrow> list_all (\<lambda>s. 0 \<le> s \<and> s \<le> 1) out)
    \<and> list_all (\<lambda>r. 0 \<le> rsIndex r \<and> rsIndex r < int (length scores)) rs
    \<and> (\<forall>i < length scores. int i \<notin> rsIndex ` set rs \<longrightarrow> out ! i = scores ! i)"
proof (induction rs arbitrary: scores)
  case (Cons r rs)
  let ?scores = "scores[nat (rsIndex r) := resultScore r]"
  from Cons.prems have r: "0 \<le> rsIndex r" "rsIndex r < int (length scores)" "0 \<le> resultScore r" "resultScore r \<le> 1"
    and "placeScores rs ?scores = Inr out" by (auto simp: Let_def split: if_splits)
  note ih = Cons.IH [OF this(5)]
  have "list_all (\<lambda>s. 0 \<le> s \<and> s \<le> 1) ?scores" if "list_all (\<lambda>s. 0 \<le> s \<and> s \<le> 1) scores"
    using that r(3,4) set_update_subset_insert [of scores "nat (rsIndex r)" "resultScore r"]
    unfolding list_all_iff by (metis insert_iff subsetD)
  moreover have "?scores ! i = scores ! i" if "int i \<notin> rsIndex ` set (r # rs)" for i
    using that r(1) by (metis image_insert insertCI list.simps(15) nat_0_le nth_list_update_neq)
  ultimately show ?case using ih r(1,2) by simp
qed simp

lemma placeScores_at:
  "placeScores rs scores = Inr out \<Longrightarrow> distinct (map rsIndex rs) \<Longrightarrow> r \<in> set rs \<Longrightarrow> out ! nat (rsIndex r) = resultScore r"
proof (induction rs arbitrary: scores)
  case (Cons x rs)
  let ?scores = "scores[nat (rsIndex x) := resultScore x]"
  from Cons.prems have x: "0 \<le> rsIndex x" "rsIndex x < int (length scores)"
    and p: "placeScores rs ?scores = Inr out" by (auto simp: Let_def split: if_splits)
  show ?case
  proof (cases "r = x")
    case True
    have "int (nat (rsIndex x)) \<notin> rsIndex ` set rs" using Cons.prems(2) x by auto
    with placeScores_ok [OF p] x True show ?thesis by auto
  next
    case False
    with Cons p show ?thesis by auto
  qed
qed simp



text \<open>A response that names one text twice has the right number of results, so another text silently scores zero.\<close>

lemma duplicate_index_accepted:
  assumes "0 \<le> s" "s \<le> 1"
  shows "remoteRerank \<lparr>rpBaseURL = ''u'', rpModel = ''m''\<rparr> [a, b]
    (Response 200 (Inr [\<lparr>rsIndex = 0, rsRelevanceScore = s, rsScore = 0\<rparr>, \<lparr>rsIndex = 0, rsRelevanceScore = s, rsScore = 0\<rparr>])) = Inr [s, 0]"
  using assms by (simp add: remoteRerank_def resultScore_def)

lemma takeScores_ok: "takeScores ss scores = Inr out \<Longrightarrow> out = scores @ ss \<and> list_all (\<lambda>s. 0 \<le> s \<and> s \<le> 1) ss"
proof (induction ss arbitrary: scores)
  case (Cons a ss)
  then have "takeScores ss (scores @ [a]) = Inr out" "0 \<le> a" "a \<le> 1" by (auto split: if_splits)
  with Cons.IH [of "scores @ [a]"] show ?case by simp
qed simp

lemma localLoop_ok: "localLoop cancelled call k texts scores = Inr out
    \<Longrightarrow> \<exists>new. out = scores @ new \<and> length new = length texts \<and> list_all (\<lambda>s. 0 \<le> s \<and> s \<le> 1) new"
proof (induction cancelled call k texts scores rule: localLoop.induct)
  case (1 cancelled call k texts scores)
  show ?case
  proof (cases "texts = []")
    case True
    with 1(2) show ?thesis by (simp add: localLoop.simps)
  next
    case False
    with 1(2) obtain reply more where c: "cancelled k = None" "call k (take 8 texts) = Inr reply"
      "length reply = length (take 8 texts)" "takeScores reply scores = Inr more"
      "localLoop cancelled call (Suc k) (drop 8 texts) more = Inr out"
      by (subst (asm) localLoop.simps) (auto simp: Let_def split: option.splits sum.splits if_splits)
    from 1(1) [OF False c(1) refl c(2) _ c(4) c(5)] c(3) obtain new where
      "out = more @ new" "length new = length (drop 8 texts)" "list_all (\<lambda>s. 0 \<le> s \<and> s \<le> 1) new" by auto
    with takeScores_ok [OF c(4)] c(3) show ?thesis by (intro exI [of _ "reply @ new"]) auto
  qed
qed

subsection \<open>An outage\<close>

definition brOK :: "breaker \<Rightarrow> bool" where
  "brOK b \<longleftrightarrow> 0 \<le> brConsecutive b \<and> brConsecutive b < brThreshold b \<and> 0 < brOpenDuration b"

lemma brOK_new: "brOK (newBreaker threshold openDuration)"
  by (simp add: brOK_def newBreaker_def)

lemma brOK_record: "brOK b \<Longrightarrow> brOK (breakerRecord now ok b)"
  by (auto simp: brOK_def breakerRecord_def)

text \<open>Calls one after the other, none of which the provider answers.\<close>

fun outage :: "int \<Rightarrow> int \<Rightarrow> (int \<times> int \<times> (RerankError + rat list)) list \<Rightarrow> bool" where
  "outage start until [] \<longleftrightarrow> True"
| "outage start until ((before, after, answer) # cs) \<longleftrightarrow>
     start \<le> before \<and> before \<le> after \<and> after \<le> until \<and> (\<exists>e. answer = Inl e) \<and> outage after until cs"

lemma div_window: "0 < (d :: int) \<Longrightarrow> (l - (t + d)) div d + 1 = (l - t) div d"
proof -
  assume "0 < d"
  moreover have "l - t = (l - (t + d)) + d" by simp
  ultimately show ?thesis using div_add_self2 [of d "l - (t + d)"] by simp
qed

lemma outage_bound:
  assumes "brOK b" "outage start until cs"
  defines "s \<equiv> max start (brOpenUntil b)"
  shows "int (providerCalls b cs) \<le> (if s \<le> until then brThreshold b - brConsecutive b + brThreshold b * ((until - s) div brOpenDuration b) else 0)"
  using assms(1,2) unfolding s_def
proof (induction cs arbitrary: b start)
  case Nil
  then show ?case by (auto simp: brOK_def pos_imp_zdiv_nonneg_iff)
next
  case (Cons c cs)
  obtain x y e where c: "c = (x, y, Inl e)" "start \<le> x" "x \<le> y" "y \<le> until" "outage y until cs"
    using Cons.prems(2) by (cases c) auto
  note ok = Cons.prems(1)
  let ?d = "brOpenDuration b" and ?th = "brThreshold b" and ?s = "max start (brOpenUntil b)"
  have d: "0 < ?d" and th: "0 < ?th" using ok by (simp_all add: brOK_def)
  have mono: "?th * ((until - q) div ?d) \<le> ?th * ((until - p) div ?d)" if "p \<le> q" for p q
    using that d th by (intro mult_left_mono zdiv_mono1) auto
  show ?case
  proof (cases "breakerAdmits x b")
    case False
    then have x: "x < brOpenUntil b" by (simp add: breakerAdmits_def)
    have e: "providerCalls b (c # cs) = providerCalls b cs" using False by (simp add: c(1) breakerRerank_def)
    show ?thesis
    proof (cases "y \<le> brOpenUntil b")
      case True
      with x c have m: "max y (brOpenUntil b) = ?s" by simp
      from Cons.IH [OF ok c(5)] show ?thesis unfolding e m .
    next
      case False
      with x c have "?s \<le> until" "?s \<le> max y (brOpenUntil b)" "max y (brOpenUntil b) \<le> until" by simp_all
      with Cons.IH [OF ok c(5)] e mono [of ?s "max y (brOpenUntil b)"] show ?thesis by simp
    qed
  next
    case True
    then have x: "brOpenUntil b \<le> x" by (simp add: breakerAdmits_def)
    let ?b = "breakerRecord y False b"
    have e: "providerCalls b (c # cs) = Suc (providerCalls ?b cs)" using True by (simp add: c(1) breakerRerank_def)
    have s: "?s \<le> y" "?s \<le> until" using x c by auto
    note ih = Cons.IH [OF brOK_record [OF ok, of y False] c(5)]
    show ?thesis
    proof (cases "?th \<le> brConsecutive b + 1")
      case True
      then have b: "?b = b\<lparr>brOpenUntil := y + ?d, brConsecutive := 0\<rparr>" by (simp add: breakerRecord_def)
      have m: "max y (y + ?d) = y + ?d" using d by simp
      have room: "1 \<le> ?th - brConsecutive b" using ok by (simp add: brOK_def)
      show ?thesis
      proof (cases "y + ?d \<le> until")
        case True
        with ih have "int (providerCalls ?b cs) \<le> ?th + ?th * ((until - (y + ?d)) div ?d)" by (simp add: b m)
        also have "\<dots> = ?th * ((until - (y + ?d)) div ?d + 1)" by (simp add: algebra_simps)
        also have "\<dots> = ?th * ((until - y) div ?d)" by (simp add: div_window [OF d])
        also have "\<dots> \<le> ?th * ((until - ?s) div ?d)" by (rule mono [OF s(1)])
        finally show ?thesis using e s room by simp
      next
        case False
        with ih have "int (providerCalls ?b cs) = 0" by (simp add: b m)
        moreover have "0 \<le> ?th * ((until - ?s) div ?d)" using s d th by (simp add: pos_imp_zdiv_nonneg_iff)
        ultimately show ?thesis using e s room by simp
      qed
    next
      case False
      then have b: "?b = b\<lparr>brConsecutive := brConsecutive b + 1\<rparr>" by (simp add: breakerRecord_def)
      have "max y (brOpenUntil b) = y" using x c by simp
      with ih c have "int (providerCalls ?b cs) \<le> ?th - (brConsecutive b + 1) + ?th * ((until - y) div ?d)" by (simp add: b)
      with mono [OF s(1)] e s show ?thesis by simp
    qed
  qed
qed



end
