(* ===== verification/GoRegexp.thy ===== *)
theory GoRegexp
  imports GoText
begin

text \<open>
  The part of package \<open>regexp\<close> the code uses: patterns over runes with groups and anchors, matched
  leftmost-first, that is the first match a backtracking search in the order of the alternatives finds,
  as the package documents. The subject is the list of its runes, each with its bytes, so that a captured
  text is given back byte for byte; an invalid byte matches as U+FFFD.
\<close>

datatype rx =
    Eps
  | Cls "nat \<Rightarrow> bool"
  | Bol
  | Eol
  | Wordb
  | Seq rx rx
  | Alt rx rx
  | Star rx
  | Lazy rx
  | Grp nat rx

abbreviation opt :: "rx \<Rightarrow> rx" where "opt r \<equiv> Alt r Eps"
abbreviation plus1 :: "rx \<Rightarrow> rx" where "plus1 r \<equiv> Seq r (Star r)"

fun seqs :: "rx list \<Rightarrow> rx" where
  "seqs [] = Eps"
| "seqs [r] = r"
| "seqs (r # s # rs) = Seq r (seqs (s # rs))"

fun alts :: "rx list \<Rightarrow> rx" where
  "alts [] = Cls (\<lambda>_. False)"
| "alts [r] = r"
| "alts (r # s # rs) = Alt r (alts (s # rs))"

text \<open>A position and the groups captured so far.\<close>

type_synonym rxstate = "nat \<times> (nat \<rightharpoonup> nat \<times> nat)"

abbreviation runeAt :: "string list \<Rightarrow> nat \<Rightarrow> nat" where
  "runeAt t i \<equiv> fst (decodeRune (t ! i))"

definition wordRune :: "nat \<Rightarrow> bool" where
  "wordRune r \<longleftrightarrow> (48 \<le> r \<and> r \<le> 57) \<or> (65 \<le> r \<and> r \<le> 90) \<or> (97 \<le> r \<and> r \<le> 122) \<or> r = 95"

definition atWordBoundary :: "string list \<Rightarrow> nat \<Rightarrow> bool" where
  "atWordBoundary t i \<longleftrightarrow> (0 < i \<and> i \<le> length t \<and> wordRune (runeAt t (i - 1))) \<noteq> (i < length t \<and> wordRune (runeAt t i))"

text \<open>Repetition tries one more round first; a round has to move on.\<close>

function repeatMatch :: "nat \<Rightarrow> (rxstate \<Rightarrow> rxstate list) \<Rightarrow> rxstate \<Rightarrow> rxstate list" where
  "repeatMatch limit f st =
     concat (map (\<lambda>st'. if fst st < fst st' \<and> fst st' \<le> limit then repeatMatch limit f st' else []) (f st)) @ [st]"
  by pat_completeness auto
termination by (relation "measure (\<lambda>(limit, f, st). limit - fst st)") auto

declare repeatMatch.simps [simp del]

text \<open>A lazy repetition tries to stop first.\<close>

function lazyMatch :: "nat \<Rightarrow> (rxstate \<Rightarrow> rxstate list) \<Rightarrow> rxstate \<Rightarrow> rxstate list" where
  "lazyMatch limit f st =
     st # concat (map (\<lambda>st'. if fst st < fst st' \<and> fst st' \<le> limit then lazyMatch limit f st' else []) (f st))"
  by pat_completeness auto
termination by (relation "measure (\<lambda>(limit, f, st). limit - fst st)") auto

declare lazyMatch.simps [simp del]

text \<open>All ways to match from a state, in the order of preference.\<close>

primrec matches :: "string list \<Rightarrow> rx \<Rightarrow> rxstate \<Rightarrow> rxstate list" where
  "matches t Eps st = [st]"
| "matches t (Cls p) st = (if fst st < length t \<and> p (runeAt t (fst st)) then [(Suc (fst st), snd st)] else [])"
| "matches t Bol st = (if fst st = 0 then [st] else [])"
| "matches t Eol st = (if fst st = length t then [st] else [])"
| "matches t Wordb st = (if atWordBoundary t (fst st) then [st] else [])"
| "matches t (Seq a b) st = concat (map (matches t b) (matches t a st))"
| "matches t (Alt a b) st = matches t a st @ matches t b st"
| "matches t (Star a) st = repeatMatch (length t) (matches t a) st"
| "matches t (Lazy a) st = lazyMatch (length t) (matches t a) st"
| "matches t (Grp n a) st = map (\<lambda>st'. (fst st', (snd st')(n \<mapsto> (fst st, fst st')))) (matches t a st)"

fun firstMatch :: "string list \<Rightarrow> rx \<Rightarrow> nat list \<Rightarrow> (nat \<times> rxstate) option" where
  "firstMatch t r [] = None"
| "firstMatch t r (i # is) = (case matches t r (i, Map.empty) of [] \<Rightarrow> firstMatch t r is | st # _ \<Rightarrow> Some (i, st))"

text \<open>The text of a group; a group that took no part is empty.\<close>

definition groupText :: "string list \<Rightarrow> (nat \<rightharpoonup> nat \<times> nat) \<Rightarrow> nat \<Rightarrow> string" where
  "groupText t caps n = (case caps n of None \<Rightarrow> [] | Some (a, b) \<Rightarrow> concat (take (b - a) (drop a t)))"

text \<open>\<open>FindStringSubmatch\<close>: the groups of the leftmost match.\<close>

definition FindStringSubmatch :: "rx \<Rightarrow> string \<Rightarrow> (nat \<Rightarrow> string) option" where
  "FindStringSubmatch r s = (let t = runeSlices s in
     map_option (\<lambda>(i, j, caps). groupText t caps) (firstMatch t r [0 ..< Suc (length t)]))"

text \<open>Successive matches that do not overlap, as \<open>FindAll\<close> and \<open>ReplaceAll\<close> meet them; the patterns here never match the empty text.\<close>

function matchesFrom :: "string list \<Rightarrow> rx \<Rightarrow> nat \<Rightarrow> (nat \<times> rxstate) list" where
  "matchesFrom t r i = (case firstMatch t r [i ..< Suc (length t)] of None \<Rightarrow> []
     | Some (a, j, caps) \<Rightarrow> (a, j, caps) # (if i < j \<and> j \<le> length t then matchesFrom t r j else []))"
  by pat_completeness auto
termination by (relation "measure (\<lambda>(t, r, i). length t - i)") auto

declare matchesFrom.simps [simp del]

definition FindAllStringSubmatch :: "rx \<Rightarrow> string \<Rightarrow> nat \<Rightarrow> (nat \<Rightarrow> string) list" where
  "FindAllStringSubmatch r s n = (let t = runeSlices s in
     map (\<lambda>(i, j, caps). groupText t caps) (take n (matchesFrom t r 0)))"

fun replaceSpans :: "string list \<Rightarrow> nat \<Rightarrow> (nat \<times> rxstate) list \<Rightarrow> string \<Rightarrow> string" where
  "replaceSpans t i [] new = concat (drop i t)"
| "replaceSpans t i ((a, j, caps) # ms) new = concat (take (a - i) (drop i t)) @ new @ replaceSpans t j ms new"

text \<open>\<open>ReplaceAllString\<close> with a text that has no references to groups.\<close>

definition ReplaceAllString :: "rx \<Rightarrow> string \<Rightarrow> string \<Rightarrow> string" where
  "ReplaceAllString r s new = (let t = runeSlices s in replaceSpans t 0 (matchesFrom t r 0) new)"

subsection \<open>Classes\<close>

definition digitRune :: "nat \<Rightarrow> bool" where
  "digitRune r \<longleftrightarrow> 48 \<le> r \<and> r \<le> 57"

text \<open>\<open>[a-z]\<close> under \<open>(?i)\<close>: both cases, and the two runes that fold to \<open>s\<close> and \<open>k\<close>.\<close>

definition letterFold :: "nat \<Rightarrow> bool" where
  "letterFold r \<longleftrightarrow> (97 \<le> r \<and> r \<le> 122) \<or> (65 \<le> r \<and> r \<le> 90) \<or> r = 0x17F \<or> r = 0x212A"

definition letterIs :: "char \<Rightarrow> nat \<Rightarrow> bool" where
  "letterIs c r \<longleftrightarrow> r = byteOf c \<or> (97 \<le> byteOf c \<and> byteOf c \<le> 122 \<and>
     (r = byteOf c - 32 \<or> c = CHR ''s'' \<and> r = 0x17F \<or> c = CHR ''k'' \<and> r = 0x212A))"

text \<open>A literal text of ASCII characters, with letters of either case.\<close>

definition litFold :: "string \<Rightarrow> rx" where
  "litFold s = seqs (map (\<lambda>c. Cls (letterIs c)) s)"

definition oneOf :: "string \<Rightarrow> rx" where
  "oneOf s = Cls (\<lambda>r. r \<in> byteOf ` set s)"

end
