(* ===== verification/SemTemporal.thy ===== *)
theory SemTemporal
  imports GoRegexp GoNumber Complex_Main "HOL-Library.Char_ord" "HOL-Library.List_Lexorder"
begin

text \<open>
  Version identities (\<open>internal/semantic/temporal.go\<close>): recognising and normalising them, their order, and
  the latest of a set. \<open>lower\<close> is \<open>strings.ToLower\<close>, \<open>equalFold\<close> is \<open>strings.EqualFold\<close>.
\<close>

subsection \<open>Patterns\<close>

definition notAlnum :: rx where
  "notAlnum = Cls (\<lambda>r. \<not> digitRune r \<and> \<not> letterFold r)"

abbreviation "digitCls \<equiv> Cls digitRune"
abbreviation "letterCls \<equiv> Cls letterFold"
abbreviation "vLetter \<equiv> Cls (letterIs CHR ''v'')"

definition notDigitOrEnd :: rx where
  "notDigitOrEnd = Alt (Cls (\<lambda>r. \<not> digitRune r)) Eol"

text \<open>\<open>[0-9]+(?:\.[0-9]+){1,3}\<close>\<close>

definition dottedNumber :: rx where
  "dottedNumber = (let part = Seq (oneOf ''.'') (plus1 digitCls) in Seq (plus1 digitCls) (Seq part (opt (Seq part (opt part)))))"

definition semanticVersionPattern :: rx where
  "semanticVersionPattern = seqs [Alt Bol notAlnum, opt vLetter, Grp 1 dottedNumber,
     opt (Seq (Grp 2 (oneOf ''._-''))
       (Grp 3 (Seq (Cls (\<lambda>r. digitRune r \<or> letterFold r)) (Star (Cls (\<lambda>r. digitRune r \<or> letterFold r \<or> r \<in> byteOf ` set ''._-'')))))),
     notDigitOrEnd]"

definition releaseVersionPattern :: rx where
  "releaseVersionPattern = seqs [Alt Bol notAlnum,
     Alt (Seq (litFold ''rel'') (opt (oneOf ''._-''))) (Seq (litFold ''release'') (opt (oneOf '' _-''))),
     opt (Seq vLetter (opt (oneOf '' _-''))),
     Grp 1 (Seq digitCls (opt (Seq digitCls (opt digitCls)))),
     Alt (Cls (\<lambda>r. \<not> digitRune r \<and> r \<noteq> 46)) Eol]"

definition twoDigits :: "nat \<Rightarrow> rx" where
  "twoDigits n = Grp n (Seq digitCls digitCls)"

definition threeGPPVersionPattern :: rx where
  "threeGPPVersionPattern = seqs [Alt Bol notAlnum, vLetter, twoDigits 1, twoDigits 2, twoDigits 3, opt letterCls, notDigitOrEnd]"

definition compact3GPPPattern :: rx where
  "compact3GPPPattern = seqs [vLetter, twoDigits 1, twoDigits 2, twoDigits 3, opt letterCls, Alt (oneOf ''._'') Eol]"

subsection \<open>Identities\<close>

definition trimPrefix :: "string \<Rightarrow> string \<Rightarrow> string" where
  "trimPrefix s p = (if hasPrefix s p then drop (length p) s else s)"

definition noZeros :: "string \<Rightarrow> string" where
  "noZeros s = (let d = trimLeft [''0''] s in if d = [] then ''0'' else d)"

text \<open>The version of a semantic match: the numbers and, after the separator, the suffix.\<close>

definition withSuffix :: "string \<Rightarrow> string \<Rightarrow> string \<Rightarrow> string" where
  "withSuffix version separator sfx = (if sfx = [] then version
     else version @ (if separator = ''_'' then ''-'' else separator) @ sfx)"

definition NormalizeVersionIdentity :: "(string \<Rightarrow> string) \<Rightarrow> string \<Rightarrow> string option" where
  "NormalizeVersionIdentity lower value = (let trimmed = trimSpace value in
     if trimmed = [] then None
     else (let low = lower trimmed in
       case FindStringSubmatch releaseVersionPattern low of Some g \<Rightarrow> Some (''rel-'' @ g 1)
     | None \<Rightarrow> (case FindStringSubmatch threeGPPVersionPattern low of
         Some g \<Rightarrow> Some (noZeros (g 1) @ ''.'' @ noZeros (g 2) @ ''.'' @ noZeros (g 3))
       | None \<Rightarrow> (case FindStringSubmatch semanticVersionPattern low of
           Some g \<Rightarrow> Some (withSuffix (trimPrefix (g 1) ''v'') (g 2) (lower (g 3)))
         | None \<Rightarrow>
             if length low \<le> 64 \<and> \<not> list_ex (\<lambda>c. c \<in> {CHR '' '', CHR 0x09, CHR 0x0D, CHR 0x0A}) low
             then (let cleaned = trimPrefix (trimPrefix low ''version:'') ''release:'' in
               if cleaned = [] then None else Some cleaned)
             else None))))"

record versionIdentity =
  viNormalized :: string
  viRelease :: bool
  viParts :: "int list"
  viSuffix :: string
  viKnownOrder :: bool

fun indexAny :: "string \<Rightarrow> string \<Rightarrow> nat option" where
  "indexAny [] cs = None"
| "indexAny (c # s) cs = (if c \<in> set cs then Some 0 else map_option Suc (indexAny s cs))"

text \<open>The numbers of a dotted version; an empty, malformed or negative part is refused.\<close>

fun numbers :: "string list \<Rightarrow> int list option" where
  "numbers [] = Some []"
| "numbers (f # fs) = (case parseInt f of None \<Rightarrow> None
     | Some n \<Rightarrow> if f = [] \<or> n < 0 then None else map_option ((#) n) (numbers fs))"

definition identityOf :: "string \<Rightarrow> versionIdentity option" where
  "identityOf normalized = (
     if hasPrefix normalized ''rel-'' then
       Some (case parseInt (trimPrefix normalized ''rel-'') of
         Some n \<Rightarrow> \<lparr>viNormalized = normalized, viRelease = True, viParts = [n], viSuffix = [], viKnownOrder = True\<rparr>
       | None \<Rightarrow> \<lparr>viNormalized = normalized, viRelease = False, viParts = [], viSuffix = [], viKnownOrder = False\<rparr>)
     else (let (main, sfx) = (case indexAny normalized ''-_+'' of None \<Rightarrow> (normalized, [])
           | Some b \<Rightarrow> (take b normalized, drop (Suc b) normalized));
         parts = splitOn main ''.'' in
       if length parts < 2 \<or> 4 < length parts then None
       else (case numbers parts of None \<Rightarrow> None
         | Some ns \<Rightarrow> Some \<lparr>viNormalized = normalized, viRelease = False, viParts = ns, viSuffix = sfx, viKnownOrder = (sfx = [])\<rparr>)))"

definition parseVersionIdentity :: "(string \<Rightarrow> string) \<Rightarrow> string \<Rightarrow> versionIdentity option" where
  "parseVersionIdentity lower value = Option.bind (NormalizeVersionIdentity lower value) identityOf"

text \<open>Missing numbers count as zero.\<close>

fun compareParts :: "int list \<Rightarrow> int list \<Rightarrow> int" where
  "compareParts [] [] = 0"
| "compareParts (a # as) [] = (if a < 0 then -1 else if 0 < a then 1 else compareParts as [])"
| "compareParts [] (b # bs) = (if 0 < b then -1 else if b < 0 then 1 else compareParts [] bs)"
| "compareParts (a # as) (b # bs) = (if a < b then -1 else if b < a then 1 else compareParts as bs)"

definition CompareVersionIdentity :: "(string \<Rightarrow> string) \<Rightarrow> (string \<Rightarrow> string \<Rightarrow> bool) \<Rightarrow> string \<Rightarrow> string \<Rightarrow> int option" where
  "CompareVersionIdentity lower equalFold left right = (if equalFold left right then Some 0
     else (case (parseVersionIdentity lower left, parseVersionIdentity lower right) of
         (Some a, Some b) \<Rightarrow> if viKnownOrder a \<and> viKnownOrder b \<and> viRelease a = viRelease b
           then Some (compareParts (viParts a) (viParts b)) else None
       | _ \<Rightarrow> None))"

definition CompareEqual :: "(string \<Rightarrow> string) \<Rightarrow> (string \<Rightarrow> string \<Rightarrow> bool) \<Rightarrow> string \<Rightarrow> string \<Rightarrow> bool" where
  "CompareEqual lower equalFold left right \<longleftrightarrow> CompareVersionIdentity lower equalFold left right = Some 0"

text \<open>The normalised identities of the values whose order is known.\<close>

definition orderedIdentity :: "(string \<Rightarrow> string) \<Rightarrow> string \<Rightarrow> string option" where
  "orderedIdentity lower value = (case parseVersionIdentity lower value of None \<Rightarrow> None
     | Some i \<Rightarrow> if viKnownOrder i then Some (viNormalized i) else None)"

fun latestOf :: "(string \<Rightarrow> string \<Rightarrow> int option) \<Rightarrow> string \<Rightarrow> string list \<Rightarrow> string option" where
  "latestOf cmp latest [] = Some latest"
| "latestOf cmp latest (c # cs) = (case cmp latest c of None \<Rightarrow> None
     | Some order \<Rightarrow> latestOf cmp (if order < 0 then c else latest) cs)"

definition LatestComparableVersion :: "(string \<Rightarrow> string) \<Rightarrow> (string \<Rightarrow> string \<Rightarrow> bool) \<Rightarrow> string list \<Rightarrow> string option" where
  "LatestComparableVersion lower equalFold values = (case sort (remdups (List.map_filter (orderedIdentity lower) values)) of
     [] \<Rightarrow> None
   | c # cs \<Rightarrow> latestOf (CompareVersionIdentity lower equalFold) c cs)"

subsection \<open>Order of identities\<close>

lemma compareParts_range: "compareParts as bs \<in> {-1, 0, 1}"
  by (induction as bs rule: compareParts.induct) auto

lemma compareParts_swap: "compareParts bs as = - compareParts as bs"
  by (induction as bs rule: compareParts.induct) auto

definition hd0 :: "int list \<Rightarrow> int" where
  "hd0 xs = (case xs of [] \<Rightarrow> 0 | x # _ \<Rightarrow> x)"

lemma compareParts_step: "compareParts as bs = (if hd0 as < hd0 bs then -1 else if hd0 bs < hd0 as then 1 else compareParts (tl as) (tl bs))"
  by (cases as; cases bs) (simp_all add: hd0_def)

lemma compareParts_trans: "compareParts as bs \<le> 0 \<Longrightarrow> compareParts bs cs \<le> 0 \<Longrightarrow> compareParts as cs \<le> 0"
proof (induction "length as + length bs + length cs" arbitrary: as bs cs rule: less_induct)
  case less
  show ?case
  proof (cases "as = [] \<and> bs = [] \<and> cs = []")
    case False
    then have "length (tl as) + length (tl bs) + length (tl cs) < length as + length bs + length cs"
      by (cases as; cases bs; cases cs) auto
    from less(1) [OF this] less(2,3) show ?thesis
      unfolding compareParts_step [of as bs] compareParts_step [of bs cs] compareParts_step [of as cs]
      by (simp split: if_splits)
  qed simp
qed

subsection \<open>The latest identity\<close>

definition asciiLower :: "char \<Rightarrow> char" where
  "asciiLower c = (if 65 \<le> byteOf c \<and> byteOf c \<le> 90 then char_of (byteOf c + 32) else c)"

text \<open>What \<open>strings.EqualFold\<close> does on ASCII texts; beyond them nothing is needed.\<close>

definition folds_ascii :: "(string \<Rightarrow> string \<Rightarrow> bool) \<Rightarrow> bool" where
  "folds_ascii equalFold \<longleftrightarrow> (\<forall>a b. list_all (\<lambda>c. byteOf c < 128) (a @ b) \<longrightarrow> (equalFold a b \<longleftrightarrow> map asciiLower a = map asciiLower b))"

definition versionChar :: "char \<Rightarrow> bool" where
  "versionChar c \<longleftrightarrow> byteOf c < 128 \<and> asciiLower c = c"

definition ordered :: "string \<Rightarrow> bool" where
  "ordered n \<longleftrightarrow> (\<exists>i. identityOf n = Some i \<and> viKnownOrder i)"

lemma versionChar_range: "versionChar c \<longleftrightarrow> byteOf c < 128 \<and> \<not> (65 \<le> byteOf c \<and> byteOf c \<le> 90)"
proof -
  have "char_of (byteOf c + 32) \<noteq> c" if "byteOf c \<le> 90"
  proof
    assume "char_of (byteOf c + 32) = c"
    then have "byteOf (char_of (byteOf c + 32)) = byteOf c" by simp
    with that show False by (simp add: byteOf_def)
  qed
  then show ?thesis by (auto simp: versionChar_def asciiLower_def)
qed

lemma parseDigits_chars: "parseDigits a s = Some n \<Longrightarrow> list_all versionChar s"
proof (induction s arbitrary: a)
  case (Cons c s)
  then obtain d where "digitValue c = Some d" "parseDigits (a * 10 + d) s = Some n" by (auto split: option.splits)
  with Cons.IH show ?case by (auto simp: digitValue_def versionChar_range byteOf_def split: if_splits)
qed simp

lemma parseInt_chars: "parseInt s = Some n \<Longrightarrow> list_all versionChar s"
proof -
  assume p: "parseInt s = Some n"
  let ?b = "if hasPrefix s ''-'' \<or> hasPrefix s ''+'' then drop 1 s else s"
  obtain k where "parseDigits 0 ?b = Some k" using p by (auto simp: parseInt_def Let_def split: if_splits option.splits)
  then have b: "list_all versionChar ?b" by (rule parseDigits_chars)
  show ?thesis
  proof (cases "hasPrefix s ''-'' \<or> hasPrefix s ''+''")
    case True
    then obtain c t where "s = c # t" "c = CHR ''-'' \<or> c = CHR ''+''" by (auto simp: hasPrefix_append)
    with b True show ?thesis by (auto simp: versionChar_range byteOf_def)
  qed (use b in simp)
qed

lemma numbers_chars: "numbers fs = Some ns \<Longrightarrow> list_all (list_all versionChar) fs"
proof (induction fs arbitrary: ns)
  case (Cons f fs)
  then obtain k ms where "parseInt f = Some k" "numbers fs = Some ms" by (auto split: option.splits if_splits)
  with Cons.IH parseInt_chars show ?case by auto
qed simp

lemma joinWith_all: "list_all P sep \<Longrightarrow> list_all (list_all P) xs \<Longrightarrow> list_all P (joinWith sep xs)"
  by (induction sep xs rule: joinWith.induct) auto

lemma indexAny_Some: "indexAny s cs = Some b \<Longrightarrow> b < length s \<and> s ! b \<in> set cs"
  by (induction s arbitrary: b) (auto split: if_splits)

lemma ordered_chars: "ordered n \<Longrightarrow> list_all versionChar n"
proof -
  assume "ordered n"
  then obtain i where i: "identityOf n = Some i" "viKnownOrder i" by (auto simp: ordered_def)
  have special: "versionChar (CHR ''-'')" "versionChar (CHR ''_'')" "versionChar (CHR ''+'')" "versionChar (CHR ''.'')"
    "list_all versionChar ''rel-''" by (simp_all add: versionChar_range byteOf_def)
  show ?thesis
  proof (cases "hasPrefix n ''rel-''")
    case True
    then obtain t where t: "n = ''rel-'' @ t" by (auto simp: hasPrefix_append)
    with i True have "parseInt t \<noteq> None" by (auto simp: identityOf_def trimPrefix_def split: option.splits)
    then have "list_all versionChar t" using parseInt_chars by auto
    with special(5) show ?thesis by (simp add: t)
  next
    case False
    define m where "m = (case indexAny n ''-_+'' of None \<Rightarrow> n | Some b \<Rightarrow> take b n)"
    obtain ns where ns: "numbers (splitOn m ''.'') = Some ns"
      using i(1) False by (auto simp: identityOf_def m_def Let_def split: option.splits if_splits)
    have main: "list_all versionChar m"
      using joinWith_all [OF _ numbers_chars [OF ns], of "''.''"] special(4) by (simp add: joinWith_splitOn)
    show ?thesis
    proof (cases "indexAny n ''-_+''")
      case None
      with main show ?thesis by (simp add: m_def)
    next
      case (Some b)
      then have "drop (Suc b) n = []"
        using i False by (auto simp: identityOf_def Let_def split: option.splits if_splits)
      then have "n = m @ [n ! b]" using indexAny_Some [OF Some] by (simp add: m_def Some take_Suc_conv_app_nth [symmetric])
      moreover have "versionChar (n ! b)" using indexAny_Some [OF Some] special by auto
      ultimately show ?thesis using main by (metis list_all_append list.pred_inject(1) list.pred_inject(2))
    qed
  qed
qed

lemma fold_exact: "folds_ascii equalFold \<Longrightarrow> ordered a \<Longrightarrow> ordered b \<Longrightarrow> equalFold a b \<longleftrightarrow> a = b"
proof -
  assume f: "folds_ascii equalFold" and "ordered a" "ordered b"
  then have c: "list_all versionChar a" "list_all versionChar b" by (simp_all add: ordered_chars)
  have low: "map asciiLower x = x" if "list_all versionChar x" for x
    using that by (induction x) (auto simp: versionChar_def)
  have "list_all (\<lambda>c. byteOf c < 128) (a @ b)" using c by (auto simp: versionChar_def list_all_iff)
  then show ?thesis using f low [OF c(1)] low [OF c(2)] by (simp add: folds_ascii_def)
qed

lemma compare_refl: "folds_ascii equalFold \<Longrightarrow> ordered a \<Longrightarrow> CompareVersionIdentity lower equalFold a a = Some 0"
  by (simp add: CompareVersionIdentity_def fold_exact)

lemma compare_swap:
  assumes "folds_ascii equalFold" "ordered a" "ordered b"
  shows "CompareVersionIdentity lower equalFold b a = map_option uminus (CompareVersionIdentity lower equalFold a b)"
proof (cases "a = b")
  case True
  then show ?thesis by (simp add: compare_refl assms)
next
  case False
  note e = fold_exact [OF assms(1,2,3)] fold_exact [OF assms(1,3,2)]
  show ?thesis
  proof (cases "parseVersionIdentity lower a = None \<or> parseVersionIdentity lower b = None")
    case True
    with False e show ?thesis by (auto simp: CompareVersionIdentity_def split: option.splits)
  next
    case parsed: False
    then obtain x y where "parseVersionIdentity lower a = Some x" "parseVersionIdentity lower b = Some y" by auto
    with False e show ?thesis by (simp add: CompareVersionIdentity_def compareParts_swap [of "viParts y" "viParts x"])
  qed
qed

lemma compare_trans:
  assumes "folds_ascii equalFold" "ordered a" "ordered b" "ordered c"
    "CompareVersionIdentity lower equalFold a b = Some r" "r \<le> 0" "CompareVersionIdentity lower equalFold b c = Some s" "s \<le> 0"
  shows "\<exists>t \<le> 0. CompareVersionIdentity lower equalFold a c = Some t"
proof (cases "a = b \<or> b = c \<or> a = c")
  case True
  with assms compare_refl show ?thesis by blast
next
  case False
  then have ne: "\<not> equalFold a b" "\<not> equalFold b c" "\<not> equalFold a c" using fold_exact [OF assms(1)] assms(2-4) by auto
  obtain x y where xy: "parseVersionIdentity lower a = Some x" "parseVersionIdentity lower b = Some y"
    "viKnownOrder x" "viKnownOrder y" "viRelease x = viRelease y" "r = compareParts (viParts x) (viParts y)"
    using assms(5) ne(1) by (auto simp: CompareVersionIdentity_def split: option.splits if_splits)
  obtain z where z: "parseVersionIdentity lower c = Some z" "viKnownOrder z" "viRelease y = viRelease z"
    "s = compareParts (viParts y) (viParts z)"
    using assms(7) ne(2) xy(2) by (auto simp: CompareVersionIdentity_def split: option.splits if_splits)
  have "CompareVersionIdentity lower equalFold a c = Some (compareParts (viParts x) (viParts z))"
    using ne(3) xy z by (simp add: CompareVersionIdentity_def)
  moreover have "compareParts (viParts x) (viParts z) \<le> 0"
    by (rule compareParts_trans [of _ "viParts y"]) (use xy(6) z(4) assms(6,8) in simp_all)
  ultimately show ?thesis by blast
qed

lemma orderedIdentity_ordered: "orderedIdentity lower x = Some n \<Longrightarrow> ordered n"
proof -
  assume "orderedIdentity lower x = Some n"
  then obtain m i where i: "identityOf m = Some i" "viKnownOrder i" "n = viNormalized i"
    by (auto simp: orderedIdentity_def parseVersionIdentity_def bind_eq_Some_conv split: option.splits if_splits)
  have "viNormalized i = m" using i(1) by (auto simp: identityOf_def Let_def split: option.splits if_splits prod.splits)
  with i show ?thesis by (auto simp: ordered_def)
qed

lemma latestOf_greatest:
  assumes "folds_ascii equalFold" "latestOf (CompareVersionIdentity lower equalFold) l cs = Some v" "list_all ordered (l # cs)"
  shows "v \<in> set (l # cs) \<and> (\<forall>c \<in> set (l # cs). \<exists>t \<le> 0. CompareVersionIdentity lower equalFold c v = Some t)"
  using assms(2,3)
proof (induction cs arbitrary: l)
  case Nil
  then show ?case using compare_refl [OF assms(1)] by auto
next
  case (Cons c cs)
  let ?cmp = "CompareVersionIdentity lower equalFold"
  obtain r where r: "?cmp l c = Some r" using Cons.prems(1) by (auto split: option.splits)
  let ?l = "if r < 0 then c else l"
  have ih: "v \<in> set (?l # cs) \<and> (\<forall>c \<in> set (?l # cs). \<exists>t \<le> 0. ?cmp c v = Some t)"
    using Cons.IH [of ?l] Cons.prems r by (cases "r < 0") auto
  then obtain t where t: "t \<le> 0" "?cmp ?l v = Some t" by auto
  have o: "ordered l" "ordered c" "ordered v" using ih Cons.prems(2) by (auto simp: list_all_iff split: if_splits)
  have "\<exists>t \<le> 0. ?cmp x v = Some t" if x: "x = l \<or> x = c" for x
  proof (cases "r < 0")
    case True
    with t r compare_trans [OF assms(1) o(1,2,3) r _ _ t(1)] x show ?thesis by auto
  next
    case False
    have "?cmp c l = Some (- r)" using compare_swap [OF assms(1) o(1,2), of lower] r by simp
    with t compare_trans [OF assms(1) o(2,1,3) this _ _ t(1)] False x show ?thesis by auto
  qed
  with ih show ?case by (auto split: if_splits)
qed

text \<open>The identities \<open>LatestComparableVersion\<close> chooses among.\<close>

definition identities :: "(string \<Rightarrow> string) \<Rightarrow> string list \<Rightarrow> string set" where
  "identities lower values = {n. \<exists>x \<in> set values. orderedIdentity lower x = Some n}"

lemma map_filter_set: "set (List.map_filter (orderedIdentity lower) values) = identities lower values"
  by (induction "values") (auto simp: identities_def List.map_filter_def)

lemma latest_choice: "LatestComparableVersion lower equalFold values = (case sorted_list_of_set (identities lower values) of
    [] \<Rightarrow> None | c # cs \<Rightarrow> latestOf (CompareVersionIdentity lower equalFold) c cs)"
  by (simp add: LatestComparableVersion_def sorted_list_of_set_sort_remdups [symmetric] map_filter_set)



text \<open>Two versions separated by one character: the match of the first takes the separator, so the second is not found.\<close>

lemma adjacent_version_missed:
  "map (\<lambda>g. g 1) (FindAllStringSubmatch semanticVersionPattern ''compare 1.2/1.3'' 4) = [''1.2'']"
  by code_simp

end
