(* ===== verification/SemModel.thy ===== *)
theory SemModel
  imports Base64 Complex_Main "HOL-Library.Char_ord" "HOL-Library.List_Lexorder" "HOL-Library.Product_Lexorder"
begin

text \<open>
  The model of compiled knowledge (\<open>internal/semantic/model.go\<close>): units, relations, compilations, their
  validation, the cycle check over provenance and the resolution of evidence. \<open>sha\<close> is SHA-256; kinds,
  statuses and states are the strings Go uses, since the code has to cope with any string. Confidences are
  numbers, an anchor is its JSON text.
\<close>

abbreviation blank :: "string \<Rightarrow> bool" where
  "blank s \<equiv> trimSpace s = []"

subsection \<open>Data\<close>

abbreviation "UnitFact \<equiv> ''fact''"
abbreviation "UnitConcept \<equiv> ''concept''"
abbreviation "UnitTopic \<equiv> ''topic''"
abbreviation "UnitSummary \<equiv> ''summary''"
abbreviation "UnitKnowledgePage \<equiv> ''knowledge_page''"

abbreviation "UnitActive \<equiv> ''active''"
abbreviation "UnitSuperseded \<equiv> ''superseded''"
abbreviation "UnitConflicted \<equiv> ''conflicted''"
abbreviation "UnitDeleted \<equiv> ''deleted''"

definition unitKinds :: "string list" where
  "unitKinds = [UnitFact, UnitConcept, UnitTopic, UnitSummary, UnitKnowledgePage]"

definition unitStatuses :: "string list" where
  "unitStatuses = [UnitActive, UnitSuperseded, UnitConflicted, UnitDeleted]"

abbreviation "RelationDerivedFrom \<equiv> ''derived_from''"
abbreviation "RelationSupersedes \<equiv> ''supersedes''"
abbreviation "RelationContradicts \<equiv> ''contradicts''"
abbreviation "RelationRelatedTo \<equiv> ''related_to''"

definition relationTypes :: "string list" where
  "relationTypes = [RelationDerivedFrom, ''part_of'', ''mentions'', RelationRelatedTo, ''supports'', RelationContradicts,
     RelationSupersedes, ''same_topic'']"

abbreviation "CompilationBuilding \<equiv> ''building''"

definition compilationStates :: "string list" where
  "compilationStates = [CompilationBuilding, ''active'', ''retired'', ''failed'']"

record EvidenceSource =
  esUnitID :: string
  esDocumentID :: string
  esIndexGeneration :: int
  esSourceVersion :: int
  esNodeID :: string
  esChunkID :: string
  esSourceAnchor :: string
  esSourceOrder :: int

record Unit =
  uID :: string
  uBaseID :: string
  uGeneration :: int
  uType :: string
  uTitle :: string
  uCanonicalKey :: string
  uContent :: string
  uAliases :: "string list"
  uParentUnitID :: string
  uConfidence :: rat
  uStatus :: string
  uValidFrom :: int
  uValidTo :: int
  uSupersededBy :: string
  uVersion :: string
  uPublishedAt :: int
  uEffectiveAt :: int
  uSourceAuthority :: int
  uMetadata :: "string \<rightharpoonup> string"
  uSources :: "EvidenceSource list"
  uDerivedFrom :: "string list"
  uCreatedAt :: int
  uUpdatedAt :: int

record Relation =
  rlID :: string
  rlBaseID :: string
  rlGeneration :: int
  rlType :: string
  rlSubjectUnitID :: string
  rlObjectUnitID :: string
  rlPredicate :: string
  rlStatement :: string
  rlCanonicalKey :: string
  rlConfidence :: rat
  rlStatus :: string
  rlValidFrom :: int
  rlValidTo :: int
  rlSupersededBy :: string
  rlMetadata :: "string \<rightharpoonup> string"
  rlSources :: "EvidenceSource list"
  rlCreatedAt :: int
  rlUpdatedAt :: int

record Compilation =
  cpBaseID :: string
  cpGeneration :: int
  cpState :: string
  cpCompiler :: string
  cpCompilerVersion :: string
  cpModel :: string
  cpModelVersion :: string
  cpPromptVersion :: string
  cpSourceDocumentIDs :: "string list"
  cpMetadata :: "string \<rightharpoonup> string"
  cpUnits :: "Unit list"
  cpRelations :: "Relation list"
  cpCreatedAt :: int
  cpCompletedAt :: int

definition seedOf :: "string list \<Rightarrow> string" where
  "seedOf parts = joinWith [CHR 0x00] parts"

definition UnitID :: "(string \<Rightarrow> string) \<Rightarrow> string \<Rightarrow> int \<Rightarrow> string \<Rightarrow> string \<Rightarrow> string" where
  "UnitID sha baseID generation kind canonicalKey =
     ''ku_'' @ hexEncode (take 16 (sha (seedOf [baseID, formatInt generation, kind, canonicalKey])))"

definition RelationID :: "(string \<Rightarrow> string) \<Rightarrow> string \<Rightarrow> int \<Rightarrow> string \<Rightarrow> string \<Rightarrow> string \<Rightarrow> string \<Rightarrow> string" where
  "RelationID sha baseID generation relationType subjectID objectID canonicalKey =
     ''kr_'' @ hexEncode (take 16 (sha (seedOf [baseID, formatInt generation, relationType, subjectID, objectID, canonicalKey])))"

subsection \<open>Validation of one element\<close>

text \<open>An error is its format string with the texts it prints, or wraps another error. Confidences are not printed here.\<close>

datatype SemError = Fault string "string list" | Wrapped string string SemError | OutOfFuel

text \<open>A check returns its error or nothing; the first error of a sequence of checks counts.\<close>

definition check :: "bool \<Rightarrow> SemError \<Rightarrow> SemError option" where
  "check bad e = (if bad then Some e else None)"

fun firstFailure :: "SemError option list \<Rightarrow> SemError option" where
  "firstFailure [] = None"
| "firstFailure (Some e # cs) = Some e"
| "firstFailure (None # cs) = firstFailure cs"

lemma firstFailure_None [simp]: "firstFailure cs = None \<longleftrightarrow> list_all (\<lambda>c. c = None) cs"
  by (induction cs rule: firstFailure.induct) auto

lemma check_None [simp]: "check bad e = None \<longleftrightarrow> \<not> bad"
  by (simp add: check_def)

definition sourceValidate :: "EvidenceSource \<Rightarrow> SemError option" where
  "sourceValidate s = firstFailure [
     check (blank (esDocumentID s)) (Fault ''knowledge evidence source has no document ID'' []),
     check (esIndexGeneration s \<le> 0 \<or> esSourceVersion s \<le> 0) (Fault ''knowledge evidence source %s has invalid generation/version'' [esDocumentID s]),
     check (blank (esNodeID s) \<and> blank (esChunkID s)) (Fault ''knowledge evidence source %s has neither an IR node nor chunk'' [esDocumentID s])]"

fun checkSources :: "string \<Rightarrow> int list \<Rightarrow> EvidenceSource list \<Rightarrow> SemError option" where
  "checkSources i seen [] = None"
| "checkSources i seen (s # ss) = firstFailure [
     check (esSourceOrder s < 0) (Fault ''knowledge unit %s has a negative source order'' [i]),
     check (esSourceOrder s \<in> set seen) (Fault ''knowledge unit %s repeats source order %d'' [i, formatInt (esSourceOrder s)]),
     map_option (Wrapped ''unit %s: %w'' i) (sourceValidate s),
     checkSources i (esSourceOrder s # seen) ss]"

fun checkDerived :: "string \<Rightarrow> string list \<Rightarrow> string list \<Rightarrow> SemError option" where
  "checkDerived i seen [] = None"
| "checkDerived i seen (d # ds) = firstFailure [
     check (blank d) (Fault ''knowledge unit %s has an empty derived_from target'' [i]),
     check (d = i) (Fault ''knowledge unit %s derives from itself'' [i]),
     check (d \<in> set seen) (Fault ''knowledge unit %s repeats derived_from target %s'' [i, d]),
     checkDerived i (d # seen) ds]"

text \<open>An empty status stands for active.\<close>

definition badStatus :: "string \<Rightarrow> bool" where
  "badStatus s \<longleftrightarrow> s \<noteq> [] \<and> s \<notin> set unitStatuses"

definition inverted :: "int \<Rightarrow> int \<Rightarrow> bool" where
  "inverted validFrom validTo \<longleftrightarrow> validFrom \<noteq> 0 \<and> validTo \<noteq> 0 \<and> validTo < validFrom"

definition unitValidate :: "(string \<Rightarrow> string) \<Rightarrow> Unit \<Rightarrow> SemError option" where
  "unitValidate sha u = (let i = uID u; expected = UnitID sha (uBaseID u) (uGeneration u) (uType u) (uCanonicalKey u) in firstFailure [
     check (blank i) (Fault ''knowledge unit has no ID'' []),
     check (uType u \<notin> set unitKinds) (Fault ''knowledge unit %s has unsupported type %q'' [i, uType u]),
     check (blank (uBaseID u) \<or> uGeneration u \<le> 0) (Fault ''knowledge unit %s has no base/generation scope'' [i]),
     check (blank (uTitle u) \<or> blank (uCanonicalKey u) \<or> blank (uContent u)) (Fault ''knowledge unit %s must have title, canonical key, and content'' [i]),
     check (uConfidence u < 0 \<or> 1 < uConfidence u) (Fault ''knowledge unit %s confidence %v is outside [0,1]'' [i]),
     check (badStatus (uStatus u)) (Fault ''knowledge unit %s has unsupported status %q'' [i, uStatus u]),
     check (inverted (uValidFrom u) (uValidTo u)) (Fault ''knowledge unit %s has inverted validity interval'' [i]),
     check (uParentUnitID u = i) (Fault ''knowledge unit %s is its own parent'' [i]),
     check (uStatus u = UnitSuperseded \<and> blank (uSupersededBy u)) (Fault ''superseded knowledge unit %s has no successor'' [i]),
     check (uSupersededBy u = i) (Fault ''knowledge unit %s supersedes itself'' [i]),
     check (uSources u = [] \<and> uDerivedFrom u = []) (Fault ''knowledge unit %s has neither evidence nor derived_from provenance'' [i]),
     checkSources i [] (uSources u),
     checkDerived i [] (uDerivedFrom u),
     check (i \<noteq> expected) (Fault ''knowledge unit ID %s is not deterministic (want %s)'' [i, expected])])"

fun checkRelationSources :: "string \<Rightarrow> EvidenceSource list \<Rightarrow> SemError option" where
  "checkRelationSources i [] = None"
| "checkRelationSources i (s # ss) = firstFailure [map_option (Wrapped ''relation %s: %w'' i) (sourceValidate s), checkRelationSources i ss]"

definition relationValidate :: "(string \<Rightarrow> string) \<Rightarrow> Relation \<Rightarrow> SemError option" where
  "relationValidate sha r = (let i = rlID r;
       expected = RelationID sha (rlBaseID r) (rlGeneration r) (rlType r) (rlSubjectUnitID r) (rlObjectUnitID r) (rlCanonicalKey r) in
     firstFailure [
     check (blank i) (Fault ''knowledge relation has no ID'' []),
     check (rlType r \<notin> set relationTypes) (Fault ''knowledge relation %s has unsupported type %q'' [i, rlType r]),
     check (blank (rlBaseID r) \<or> rlGeneration r \<le> 0) (Fault ''knowledge relation %s has no base/generation scope'' [i]),
     check (blank (rlSubjectUnitID r) \<or> blank (rlObjectUnitID r)) (Fault ''knowledge relation %s has an empty endpoint'' [i]),
     check (rlSubjectUnitID r = rlObjectUnitID r) (Fault ''knowledge relation %s is self-referential'' [i]),
     check (rlStatus r = UnitSuperseded \<and> blank (rlSupersededBy r)) (Fault ''superseded knowledge relation %s has no successor'' [i]),
     check (rlSupersededBy r = i) (Fault ''knowledge relation %s supersedes itself'' [i]),
     check (blank (rlCanonicalKey r)) (Fault ''knowledge relation %s has no canonical key'' [i]),
     check (rlSources r = [] \<and> rlType r \<noteq> RelationDerivedFrom) (Fault ''knowledge relation %s has neither evidence nor derived_from provenance'' [i]),
     check (rlConfidence r < 0 \<or> 1 < rlConfidence r) (Fault ''knowledge relation %s confidence %v is outside [0,1]'' [i]),
     check (badStatus (rlStatus r)) (Fault ''knowledge relation %s has unsupported status %q'' [i, rlStatus r]),
     check (inverted (rlValidFrom r) (rlValidTo r)) (Fault ''knowledge relation %s has inverted validity interval'' [i]),
     checkRelationSources i (rlSources r),
     check (i \<noteq> expected) (Fault ''knowledge relation ID %s is not deterministic (want %s)'' [i, expected])])"

subsection \<open>Cycle check\<close>

definition byID :: "Unit list \<Rightarrow> (string \<rightharpoonup> Unit)" where
  "byID us = fold (\<lambda>u m. m(uID u \<mapsto> u)) us Map.empty"

datatype Color = White | Gray | Black

text \<open>The links of a unit in the order of the visit, each with the error of a missing target. A unit that is not in the map is Go's zero value.\<close>

definition provenanceLinks :: "(string \<rightharpoonup> Unit) \<Rightarrow> string \<Rightarrow> (string \<times> SemError) list" where
  "provenanceLinks m i = (case m i of None \<Rightarrow> []
     | Some u \<Rightarrow> map (\<lambda>d. (d, Fault ''knowledge unit %s derives from missing unit %s'' [i, d])) (uDerivedFrom u)
         @ (if uParentUnitID u = [] then [] else [(uParentUnitID u, Fault ''knowledge unit %s references missing parent %s'' [i, uParentUnitID u])]))"

text \<open>The recursion is bounded by fuel: its depth cannot exceed the number of units, each level turns one more gray.\<close>

function (sequential) visit :: "(string \<rightharpoonup> Unit) \<Rightarrow> nat \<Rightarrow> string \<Rightarrow> (string \<Rightarrow> Color) \<Rightarrow> SemError + (string \<Rightarrow> Color)"
  and visitLinks :: "(string \<rightharpoonup> Unit) \<Rightarrow> nat \<Rightarrow> (string \<times> SemError) list \<Rightarrow> (string \<Rightarrow> Color) \<Rightarrow> SemError + (string \<Rightarrow> Color)" where
  "visit m 0 i st = Inl OutOfFuel"
| "visit m (Suc n) i st = (case st i of
     Black \<Rightarrow> Inr st
   | Gray \<Rightarrow> Inl (Fault ''knowledge provenance cycle at unit %s'' [i])
   | White \<Rightarrow> (case visitLinks m n (provenanceLinks m i) (st(i := Gray)) of
       Inl e \<Rightarrow> Inl e
     | Inr st \<Rightarrow> Inr (st(i := Black))))"
| "visitLinks m n [] st = Inr st"
| "visitLinks m n ((t, missing) # ls) st = (if m t = None then Inl missing
     else (case visit m n t st of Inl e \<Rightarrow> Inl e | Inr st \<Rightarrow> visitLinks m n ls st))"
  by pat_completeness auto
termination
  by (relation "measures [\<lambda>x. case x of Inl (m, n, i, st) \<Rightarrow> n | Inr (m, n, ls, st) \<Rightarrow> n,
      \<lambda>x. case x of Inl (m, n, i, st) \<Rightarrow> 0 | Inr (m, n, ls, st) \<Rightarrow> Suc (length ls)]") simp_all

fun visitAll :: "(string \<rightharpoonup> Unit) \<Rightarrow> nat \<Rightarrow> string list \<Rightarrow> (string \<Rightarrow> Color) \<Rightarrow> SemError option" where
  "visitAll m n [] st = None"
| "visitAll m n (i # is) st = (case visit m n i st of Inl e \<Rightarrow> Some e | Inr st \<Rightarrow> visitAll m n is st)"

definition validateUnitAcyclic :: "Unit list \<Rightarrow> SemError option" where
  "validateUnitAcyclic us = visitAll (byID us) (Suc (length us)) (sort (map uID us)) (\<lambda>_. White)"

subsection \<open>Validation of a compilation\<close>

text \<open>The units seen so far, newest first, stand for the two maps of the first loop.\<close>

fun checkUnits :: "(string \<Rightarrow> string) \<Rightarrow> Compilation \<Rightarrow> Unit list \<Rightarrow> Unit list \<Rightarrow> SemError option" where
  "checkUnits sha c seen [] = None"
| "checkUnits sha c seen (u # us) = firstFailure [
     unitValidate sha u,
     check (uBaseID u \<noteq> cpBaseID c \<or> uGeneration u \<noteq> cpGeneration c) (Fault ''knowledge unit %s does not belong to compilation %s/%d'' [uID u, cpBaseID c, formatInt (cpGeneration c)]),
     check (uID u \<in> uID ` set seen) (Fault ''duplicate knowledge unit ID %s'' [uID u]),
     map_option (\<lambda>p. Fault ''duplicate canonical unit %q (%s and %s)'' [uCanonicalKey u, uID p, uID u])
       (find (\<lambda>p. uType p = uType u \<and> uCanonicalKey p = uCanonicalKey u) seen),
     checkUnits sha c (u # seen) us]"

definition checkUnitLinks :: "(string \<rightharpoonup> Unit) \<Rightarrow> Unit \<Rightarrow> SemError option" where
  "checkUnitLinks m u = firstFailure ([
     check (uParentUnitID u \<noteq> [] \<and> m (uParentUnitID u) = None) (Fault ''knowledge unit %s references missing parent %s'' [uID u, uParentUnitID u])]
     @ map (\<lambda>d. check (m d = None) (Fault ''knowledge unit %s derives from missing unit %s'' [uID u, d])) (uDerivedFrom u)
     @ [check (uSupersededBy u \<noteq> [] \<and> m (uSupersededBy u) = None) (Fault ''knowledge unit %s references missing successor %s'' [uID u, uSupersededBy u])])"

fun checkRelations :: "(string \<Rightarrow> string) \<Rightarrow> Compilation \<Rightarrow> (string \<rightharpoonup> Unit) \<Rightarrow> Relation list \<Rightarrow> Relation list \<Rightarrow> SemError option" where
  "checkRelations sha c m seen [] = None"
| "checkRelations sha c m seen (r # rs) = firstFailure [
     relationValidate sha r,
     check (rlBaseID r \<noteq> cpBaseID c \<or> rlGeneration r \<noteq> cpGeneration c) (Fault ''knowledge relation %s does not belong to compilation %s/%d'' [rlID r, cpBaseID c, formatInt (cpGeneration c)]),
     check (m (rlSubjectUnitID r) = None) (Fault ''knowledge relation %s references missing subject %s'' [rlID r, rlSubjectUnitID r]),
     check (m (rlObjectUnitID r) = None) (Fault ''knowledge relation %s references missing object %s'' [rlID r, rlObjectUnitID r]),
     check (rlID r \<in> rlID ` set seen) (Fault ''duplicate knowledge relation ID %s'' [rlID r]),
     map_option (\<lambda>p. Fault ''duplicate canonical relation %q (%s and %s)'' [rlCanonicalKey r, rlID p, rlID r])
       (find (\<lambda>p. rlType p = rlType r \<and> rlCanonicalKey p = rlCanonicalKey r) seen),
     checkRelations sha c m (r # seen) rs]"

definition compilationValidate :: "(string \<Rightarrow> string) \<Rightarrow> Compilation \<Rightarrow> SemError option" where
  "compilationValidate sha c = firstFailure [
     check (blank (cpBaseID c) \<or> cpGeneration c \<le> 0) (Fault ''knowledge compilation has no base/generation scope'' []),
     check (cpState c \<noteq> [] \<and> cpState c \<notin> set compilationStates) (Fault ''knowledge compilation has unsupported state %q'' [cpState c]),
     check (blank (cpCompiler c) \<or> blank (cpCompilerVersion c) \<or> blank (cpModel c) \<or> blank (cpModelVersion c) \<or> blank (cpPromptVersion c))
       (Fault ''knowledge compilation %s/%d lacks compiler/model/prompt provenance'' [cpBaseID c, formatInt (cpGeneration c)]),
     check (cpCreatedAt c \<le> 0) (Fault ''knowledge compilation %s/%d lacks creation time'' [cpBaseID c, formatInt (cpGeneration c)]),
     checkUnits sha c [] (cpUnits c),
     firstFailure (map (checkUnitLinks (byID (cpUnits c))) (cpUnits c)),
     validateUnitAcyclic (cpUnits c),
     checkRelations sha c (byID (cpUnits c)) [] (cpRelations c),
     firstFailure (map (\<lambda>r. check (rlSupersededBy r \<noteq> [] \<and> rlSupersededBy r \<notin> rlID ` set (cpRelations c))
       (Fault ''knowledge relation %s references missing successor %s'' [rlID r, rlSupersededBy r])) (cpRelations c))]"

subsection \<open>Evidence\<close>

definition SortEvidenceSources :: "EvidenceSource list \<Rightarrow> EvidenceSource list" where
  "SortEvidenceSources = sort_key (\<lambda>s. (esDocumentID s, esIndexGeneration s, esNodeID s, esChunkID s))"

text \<open>The traversal carries the units seen and the sources collected; its depth is bounded as above.\<close>

function (sequential) collect :: "(string \<rightharpoonup> Unit) \<Rightarrow> nat \<Rightarrow> Unit \<Rightarrow> string list \<times> EvidenceSource list
    \<Rightarrow> SemError + string list \<times> EvidenceSource list"
  and collectAll :: "(string \<rightharpoonup> Unit) \<Rightarrow> nat \<Rightarrow> string \<Rightarrow> string list \<Rightarrow> string list \<times> EvidenceSource list
    \<Rightarrow> SemError + string list \<times> EvidenceSource list" where
  "collect m 0 u st = Inl OutOfFuel"
| "collect m (Suc n) u st = (if uID u \<in> set (fst st) then Inr st
     else collectAll m n (uID u) (uDerivedFrom u) (uID u # fst st, snd st @ uSources u))"
| "collectAll m n i [] st = Inr st"
| "collectAll m n i (d # ds) st = (case m d of None \<Rightarrow> Inl (Fault ''knowledge unit %s derives from missing unit %s'' [i, d])
     | Some v \<Rightarrow> (case collect m n v st of Inl e \<Rightarrow> Inl e | Inr st \<Rightarrow> collectAll m n i ds st))"
  by pat_completeness auto
termination
  by (relation "measures [\<lambda>x. case x of Inl (m, n, u, st) \<Rightarrow> n | Inr (m, n, i, ds, st) \<Rightarrow> n,
      \<lambda>x. case x of Inl (m, n, u, st) \<Rightarrow> 0 | Inr (m, n, i, ds, st) \<Rightarrow> Suc (length ds)]") simp_all

definition ResolveEvidence :: "Unit list \<Rightarrow> string \<Rightarrow> SemError + EvidenceSource list" where
  "ResolveEvidence us i = (case byID us i of None \<Rightarrow> Inl (Fault ''knowledge unit %s not found'' [i])
     | Some v \<Rightarrow> (case collect (byID us) (Suc (length us)) v ([], []) of
         Inl e \<Rightarrow> Inl e
       | Inr (seen, out) \<Rightarrow> Inr (SortEvidenceSources out)))"

end
