(* ===== verification/SemReconcile.thy ===== *)
theory SemReconcile
  imports SemTemporal SemModel GoFloat
begin

text \<open>
  Supersession of versioned facts (\<open>reconcileTemporalUnits\<close> of \<open>internal/semantic/compiler.go\<close>): facts of the
  form "Version X uses ..." are grouped by predicate and attribute, each group is ordered by version, and
  the newest fact supersedes the chain of comparable older ones. What the code takes from the standard
  library is in the record \<open>Lib\<close>; \<open>sort.Slice\<close> is an argument, as its result is only fixed when the
  comparison is a strict weak order.
\<close>

record Lib =
  lbLower :: "string \<Rightarrow> string"
  lbEqualFold :: "string \<Rightarrow> string \<Rightarrow> bool"
  lbIsFloat :: "string \<Rightarrow> bool"
  lbTime :: "string \<Rightarrow> string \<Rightarrow> int option"
  lbSha :: "string \<Rightarrow> string"

abbreviation compareVersions :: "Lib \<Rightarrow> string \<Rightarrow> string \<Rightarrow> int option" where
  "compareVersions lib \<equiv> CompareVersionIdentity (lbLower lib) (lbEqualFold lib)"

subsection \<open>Versioned facts\<close>

definition trimSuffix :: "string \<Rightarrow> string \<Rightarrow> string" where
  "trimSuffix s p = (if hasPrefix (rev s) (rev p) then take (length s - length p) s else s)"

text \<open>\<open>parseVersionNumber\<close>, of which only success matters.\<close>

definition parseVersionNumber :: "Lib \<Rightarrow> string \<Rightarrow> bool" where
  "parseVersionNumber lib value = lbIsFloat lib (trimSuffix value ''x'')"

definition versionedIdentifierSuffix :: rx where
  "versionedIdentifierSuffix = seqs [oneOf ''_'', opt (Cls (\<lambda>r. 97 \<le> r \<and> r \<le> 122)), plus1 digitCls]"

definition strippedTexts :: "string list" where
  "strippedTexts = [''the '', ''a '', ''an '', ''0'', ''1'', ''2'', ''3'', ''4'', ''5'', ''6'', ''7'', ''8'', ''9'',
     ''.'', '','', ''%'', ''k'', ''m'', ''x'']"

definition normalizeTemporalAttribute :: "Lib \<Rightarrow> string \<Rightarrow> string" where
  "normalizeTemporalAttribute lib value = (let t = ReplaceAllString versionedIdentifierSuffix (lbLower lib value) '' '' in
     joinWith '' '' (fieldsOf (fold (\<lambda>r t. replaceAll t r '' '') strippedTexts t)))"

definition versionPrefixes :: "string list" where
  "versionPrefixes = [''version '', [CHR 0xE7, CHR 0x89, CHR 0x88, CHR 0xE6, CHR 0x9C, CHR 0xAC, CHR 0x20]]"

definition predicates :: "string list" where
  "predicates = [''supports '', ''uses '', ''requires '', ''provides '',
     [CHR 0xE6, CHR 0x94, CHR 0xAF, CHR 0xE6, CHR 0x8C, CHR 0x81, CHR 0x20],
     [CHR 0xE4, CHR 0xBD, CHR 0xBF, CHR 0xE7, CHR 0x94, CHR 0xA8, CHR 0x20],
     [CHR 0xE9, CHR 0x9C, CHR 0x80, CHR 0xE8, CHR 0xA6, CHR 0x81, CHR 0x20],
     [CHR 0xE6, CHR 0x8F, CHR 0x90, CHR 0xE4, CHR 0xBE, CHR 0x9B, CHR 0x20]]"

text \<open>Version, predicate and attribute of a versioned fact.\<close>

definition parseVersionedFact :: "Lib \<Rightarrow> string \<Rightarrow> (string \<times> string \<times> string) option" where
  "parseVersionedFact lib content = (let low = lbLower lib (joinWith '' '' (fieldsOf (trimSpace content))) in
     case find (hasPrefix low) versionPrefixes of None \<Rightarrow> None
   | Some p \<Rightarrow> (let body = drop (length p) low in
       case indexOf body '' '' of None \<Rightarrow> None
     | Some i \<Rightarrow> (let number = take i body; rest = drop (Suc i) body in
         if \<not> parseVersionNumber lib number then None
         else (case NormalizeVersionIdentity (lbLower lib) number of None \<Rightarrow> None
           | Some version \<Rightarrow> (case find (hasPrefix rest) predicates of None \<Rightarrow> None
             | Some q \<Rightarrow> (let attribute = normalizeTemporalAttribute lib (drop (length q) rest) in
                 if attribute = [] then None else Some (version, trimSpace q, attribute)))))))"

definition temporalFactScope :: "Lib \<Rightarrow> string \<Rightarrow> (string \<times> string) option" where
  "temporalFactScope lib content = map_option (\<lambda>(version, predicate, attribute). (predicate @ [CHR 0x00] @ attribute, version))
     (parseVersionedFact lib content)"

subsection \<open>Temporal fields of a unit\<close>

definition timeLayouts :: "string list" where
  "timeLayouts = [''2006-01-02T15:04:05Z07:00'', ''2006-01-02T15:04:05'', ''2006-01-02 15:04:05'', ''2006-01-02'']"

definition parseTemporalTimestamp :: "Lib \<Rightarrow> string \<Rightarrow> int" where
  "parseTemporalTimestamp lib value = (let trimmed = trimSpace value in
     if trimmed = [] then 0
     else (case parseInt trimmed of Some n \<Rightarrow> n
       | None \<Rightarrow> (case List.map_filter (\<lambda>layout. lbTime lib layout trimmed) timeLayouts of [] \<Rightarrow> 0 | t # _ \<Rightarrow> t)))"

definition metadataText :: "(string \<rightharpoonup> string) \<Rightarrow> string \<Rightarrow> string" where
  "metadataText m k = (case m k of None \<Rightarrow> [] | Some v \<Rightarrow> v)"

definition syncTemporalFields :: "Lib \<Rightarrow> Unit \<Rightarrow> Unit" where
  "syncTemporalFields lib u = (let m = uMetadata u; authority = metadataText m ''temporal_source_authority'' in
     u\<lparr>uVersion := metadataText m ''temporal_version'',
       uPublishedAt := parseTemporalTimestamp lib (metadataText m ''temporal_published_at''),
       uEffectiveAt := parseTemporalTimestamp lib (metadataText m ''temporal_effective_at''),
       uSourceAuthority := (case parseInt authority of None \<Rightarrow> uSourceAuthority u | Some n \<Rightarrow> n)\<rparr>)"

definition setTemporalStatus :: "string \<Rightarrow> Unit \<Rightarrow> Unit" where
  "setTemporalStatus status u = u\<lparr>uMetadata := (uMetadata u)(''temporal_status'' \<mapsto> status)\<rparr>"

text \<open>The version of a fact: that of its metadata when it can be compared with the one in the text.\<close>

definition factVersion :: "Lib \<Rightarrow> Unit \<Rightarrow> string \<Rightarrow> string" where
  "factVersion lib u version = (if uVersion u \<noteq> [] \<and> compareVersions lib (uVersion u) version \<noteq> None then uVersion u else version)"

definition tagFact :: "Lib \<Rightarrow> Unit \<Rightarrow> (string \<times> string \<times> Unit) option" where
  "tagFact lib u = (if uType u \<noteq> UnitFact then None
     else (case temporalFactScope lib (uContent u) of None \<Rightarrow> None
       | Some (scope, version) \<Rightarrow> (let v = factVersion lib u version in
           Some (scope, v, syncTemporalFields lib (u\<lparr>uMetadata := (uMetadata u)(''temporal_version'' \<mapsto> v)\<rparr>)))))"

definition tagged :: "Lib \<Rightarrow> Unit \<Rightarrow> Unit" where
  "tagged lib u = (case tagFact lib u of None \<Rightarrow> u | Some (_, _, v) \<Rightarrow> v)"

subsection \<open>One group\<close>

text \<open>A member of a group: its version and the index of its unit.\<close>

type_synonym member = "string \<times> nat"

definition memberLess :: "Lib \<Rightarrow> Unit list \<Rightarrow> member \<Rightarrow> member \<Rightarrow> bool" where
  "memberLess lib us a b = (case compareVersions lib (fst a) (fst b) of
     Some order \<Rightarrow> if order \<noteq> 0 then order < 0 else uCanonicalKey (us ! snd a) < uCanonicalKey (us ! snd b)
   | None \<Rightarrow> uCanonicalKey (us ! snd a) < uCanonicalKey (us ! snd b))"

definition older :: "Lib \<Rightarrow> member \<Rightarrow> member \<Rightarrow> bool" where
  "older lib a b = (case compareVersions lib (fst a) (fst b) of Some order \<Rightarrow> order < 0 | None \<Rightarrow> False)"

text \<open>Where the chain of comparable older members that ends at \<open>newest\<close> starts.\<close>

fun chainStart :: "Lib \<Rightarrow> member list \<Rightarrow> member \<Rightarrow> nat \<Rightarrow> nat" where
  "chainStart lib g newest 0 = 0"
| "chainStart lib g newest (Suc s) = (if older lib (g ! s) newest then chainStart lib g newest s else Suc s)"

definition latestDuplicates :: "Lib \<Rightarrow> member list \<Rightarrow> nat" where
  "latestDuplicates lib g = length (takeWhile (\<lambda>m. CompareEqual (lbLower lib) (lbEqualFold lib) (fst m) (fst (last g))) (rev g))"

definition conflictUnit :: "int \<Rightarrow> Unit \<Rightarrow> Unit" where
  "conflictUnit now u = (setTemporalStatus ''conflicted''
     (u\<lparr>uStatus := UnitConflicted, uSupersededBy := [], uMetadata := (uMetadata u)(''temporal_conflict'' \<mapsto> ''same-version'')\<rparr>))\<lparr>uUpdatedAt := now\<rparr>"

definition currentUnit :: "int \<Rightarrow> Unit \<Rightarrow> Unit" where
  "currentUnit now u = (setTemporalStatus ''current'' (u\<lparr>uStatus := UnitActive, uSupersededBy := []\<rparr>))\<lparr>uUpdatedAt := now\<rparr>"

definition unorderedUnit :: "int \<Rightarrow> Unit \<Rightarrow> Unit" where
  "unorderedUnit now u = (setTemporalStatus ''unknown''
     (u\<lparr>uStatus := UnitConflicted, uSupersededBy := [], uMetadata := (uMetadata u)(''temporal_conflict'' \<mapsto> ''unknown-version-order'')\<rparr>))\<lparr>uUpdatedAt := now\<rparr>"

definition supersededUnit :: "int \<Rightarrow> string \<Rightarrow> Unit \<Rightarrow> Unit" where
  "supersededUnit now successor u = (setTemporalStatus ''superseded'' (u\<lparr>uStatus := UnitSuperseded, uSupersededBy := successor\<rparr>))\<lparr>uUpdatedAt := now\<rparr>"

definition newTemporalRelation :: "Lib \<Rightarrow> string \<Rightarrow> int \<Rightarrow> string \<Rightarrow> Unit \<Rightarrow> Unit \<Rightarrow> string \<Rightarrow> string \<Rightarrow> int \<Rightarrow> Relation" where
  "newTemporalRelation lib baseID generation relationType subject object canonicalKey statement now =
     \<lparr>rlID = RelationID (lbSha lib) baseID generation relationType (uID subject) (uID object) canonicalKey,
      rlBaseID = baseID, rlGeneration = generation, rlType = relationType, rlSubjectUnitID = uID subject, rlObjectUnitID = uID object,
      rlPredicate = relationType, rlStatement = statement, rlCanonicalKey = canonicalKey, rlConfidence = fl (41 / 50),
      rlStatus = UnitActive, rlValidFrom = now, rlValidTo = 0, rlSupersededBy = [], rlMetadata = Map.empty,
      rlSources = SortEvidenceSources (uSources subject @ uSources object), rlCreatedAt = now, rlUpdatedAt = now\<rparr>"

definition updateAt :: "nat \<Rightarrow> (Unit \<Rightarrow> Unit) \<Rightarrow> Unit list \<Rightarrow> Unit list" where
  "updateAt i f us = us[i := f (us ! i)]"

text \<open>One older member of the chain.\<close>

definition supersede :: "Lib \<Rightarrow> string \<Rightarrow> int \<Rightarrow> int \<Rightarrow> member \<Rightarrow> member \<Rightarrow> Unit list \<times> Relation list \<Rightarrow> Unit list \<times> Relation list" where
  "supersede lib baseID generation now successor old st = (let (us, rs) = st in
     if \<not> older lib old successor then (updateAt (snd old) (unorderedUnit now) us, rs)
     else (let us = updateAt (snd old) (supersededUnit now (uID (us ! snd successor))) us; u = us ! snd old; v = us ! snd successor in
       (us, rs @ [newTemporalRelation lib baseID generation RelationSupersedes u v
         (''supersedes:'' @ uCanonicalKey u @ '':'' @ uCanonicalKey v) (uContent u @ '' is superseded by '' @ uContent v) now])))"

definition settleChain :: "Lib \<Rightarrow> string \<Rightarrow> int \<Rightarrow> int \<Rightarrow> member list \<Rightarrow> Unit list \<times> Relation list \<Rightarrow> Unit list \<times> Relation list" where
  "settleChain lib baseID generation now g st = (let newest = last g; start = chainStart lib g newest (length g - 1) in
     fold (supersede lib baseID generation now newest) (take (length g - 1 - start) (drop start g))
       (updateAt (snd newest) (currentUnit now) (fst st), snd st))"

definition reconcileGroup :: "Lib \<Rightarrow> string \<Rightarrow> int \<Rightarrow> int \<Rightarrow> member list \<Rightarrow> Unit list \<times> Relation list \<Rightarrow> Unit list \<times> Relation list" where
  "reconcileGroup lib baseID generation now g st = (let d = latestDuplicates lib g; rest = take (length g - d) g in
     if 1 < d then (let st = (fold (\<lambda>m. updateAt (snd m) (conflictUnit now)) (drop (length g - d) g) (fst st), snd st) in
       if rest = [] then st else settleChain lib baseID generation now rest st)
     else settleChain lib baseID generation now g st)"

subsection \<open>All groups\<close>

text \<open>
  The members of a scope, in the order of the units. The code ranges over a map of groups; groups have
  no unit in common and the relations are sorted afterwards, so their order has no effect, and here it is that
  of the first members.
\<close>

definition scopeMembers :: "Lib \<Rightarrow> Unit list \<Rightarrow> string \<Rightarrow> member list" where
  "scopeMembers lib us scope = List.map_filter (\<lambda>i. case tagFact lib (us ! i) of None \<Rightarrow> None
     | Some (s, v, _) \<Rightarrow> if s = scope then Some (v, i) else None) [0 ..< length us]"

definition scopesOf :: "Lib \<Rightarrow> Unit list \<Rightarrow> string list" where
  "scopesOf lib us = remdups (List.map_filter (\<lambda>u. map_option fst (tagFact lib u)) us)"

type_synonym sorter = "(member \<Rightarrow> member \<Rightarrow> bool) \<Rightarrow> member list \<Rightarrow> member list"

definition reconcileTemporalUnits :: "Lib \<Rightarrow> sorter \<Rightarrow> Unit list \<Rightarrow> string \<Rightarrow> int \<Rightarrow> int \<Rightarrow> Unit list \<times> Relation list" where
  "reconcileTemporalUnits lib sortSlice us baseID generation now = (let
     tags = map (tagged lib) us;
     (out, rs) = fold (\<lambda>scope. reconcileGroup lib baseID generation now
       (sortSlice (memberLess lib tags) (scopeMembers lib us scope))) (scopesOf lib us) (tags, []) in
     (out, sort_key rlID rs))"

text \<open>\<open>sort.Slice\<close> on at most twelve elements: insertion sort.\<close>

fun insertBack :: "('a \<Rightarrow> 'a \<Rightarrow> bool) \<Rightarrow> 'a \<Rightarrow> 'a list \<Rightarrow> 'a list" where
  "insertBack lt x [] = [x]"
| "insertBack lt x (y # ys) = (if lt x y then y # insertBack lt x ys else x # y # ys)"

definition insertionSort :: "('a \<Rightarrow> 'a \<Rightarrow> bool) \<Rightarrow> 'a list \<Rightarrow> 'a list" where
  "insertionSort lt xs = rev (fold (insertBack lt) xs [])"

end
