(* ===== verification/SemProvenance.thy ===== *)
theory SemProvenance
  imports SemModel "HOL-Library.Multiset"
begin

text \<open>
  Provenance of compiled knowledge: the three-colour search of \<open>validateUnitAcyclic\<close> accepts exactly the
  graphs without missing targets and without cycles, and in a compilation that \<open>Validate\<close> accepts every
  unit resolves to evidence, namely that of all units it derives from.
\<close>

subsection \<open>The search\<close>

definition links :: "(string \<rightharpoonup> Unit) \<Rightarrow> (string \<times> string) set" where
  "links m = {(i, t). t \<in> fst ` set (provenanceLinks m i)}"

definition grays :: "(string \<Rightarrow> Color) \<Rightarrow> string set" where
  "grays st = {i. st i = Gray}"

definition blacks :: "(string \<Rightarrow> Color) \<Rightarrow> string set" where
  "blacks st = {i. st i = Black}"

text \<open>What the search has finished is closed under links, complete and free of cycles.\<close>

definition settledGraph :: "(string \<rightharpoonup> Unit) \<Rightarrow> string set \<Rightarrow> bool" where
  "settledGraph m B \<longleftrightarrow> links m `` B \<subseteq> B \<inter> dom m \<and> acyclic (links m \<inter> B \<times> UNIV)"

lemma links_iff: "(i, t) \<in> links m \<longleftrightarrow> (\<exists>u. m i = Some u \<and> (t \<in> set (uDerivedFrom u) \<or> t = uParentUnitID u \<and> t \<noteq> []))"
proof (cases "m i")
  case (Some u)
  have "fst ` set (provenanceLinks m i) = set (uDerivedFrom u) \<union> ({uParentUnitID u} - {[]})"
    by (simp add: provenanceLinks_def Some image_Un image_image)
  with Some show ?thesis by (auto simp: links_def)
qed (simp add: links_def provenanceLinks_def)

lemma links_dom: "(i, t) \<in> links m \<Longrightarrow> i \<in> dom m"
  by (auto simp: links_iff)

lemma settledGraph_insert:
  assumes "settledGraph m B" "i \<notin> B" "links m `` {i} \<subseteq> B \<inter> dom m"
  shows "settledGraph m (insert i B)"
proof -
  let ?R = "links m \<inter> B \<times> UNIV" and ?S = "links m \<inter> insert i B \<times> UNIV"
  have cl: "links m `` B \<subseteq> B \<inter> dom m" and ac: "acyclic ?R" using assms(1) by (auto simp: settledGraph_def)
  have R: "?S \<subseteq> ?R \<union> {i} \<times> B" using assms(3) by auto
  have noin: "(x, i) \<notin> ?S" for x using R cl assms(2) by auto
  have "(a, b) \<in> ?R\<^sup>+ \<or> a = i" if "(a, b) \<in> ?S\<^sup>+" for a b
    using that
  proof (induction rule: trancl_induct)
    case (base y)
    then show ?case by auto
  next
    case (step y z)
    have "y \<noteq> i" using step(1) noin by (metis tranclE)
    with step(2) have "(y, z) \<in> ?R" by auto
    with step(3) show ?case by (meson trancl.trancl_into_trancl)
  qed
  moreover have "(i, i) \<notin> ?S\<^sup>+" using noin by (metis tranclE)
  ultimately have "acyclic ?S" using ac unfolding acyclic_def by metis
  with cl assms(3) show ?thesis by (auto simp: settledGraph_def)
qed

lemma visit_sound:
  "visit m n i st = Inr st' \<Longrightarrow> grays st' = grays st \<and> blacks st \<subseteq> blacks st' \<and> i \<in> blacks st'
     \<and> (settledGraph m (blacks st) \<longrightarrow> settledGraph m (blacks st'))"
  "visitLinks m n ls st = Inr st' \<Longrightarrow> grays st' = grays st \<and> blacks st \<subseteq> blacks st'
     \<and> fst ` set ls \<subseteq> blacks st' \<inter> dom m \<and> (settledGraph m (blacks st) \<longrightarrow> settledGraph m (blacks st'))"
proof (induction m n i st and m n ls st arbitrary: st' and st' rule: visit_visitLinks.induct)
  case (2 m n i st)
  show ?case
  proof (cases "st i")
    case White
    with 2(2) obtain st1 where v: "visitLinks m n (provenanceLinks m i) (st(i := Gray)) = Inr st1" "st' = st1(i := Black)"
      by (auto split: sum.splits)
    let ?g = "st(i := Gray)"
    have b: "blacks ?g = blacks st" "grays ?g = insert i (grays st)" "i \<notin> grays st" using White by (auto simp: blacks_def grays_def)
    from 2(1) [OF White v(1)] have ih: "grays st1 = insert i (grays st)" "blacks st \<subseteq> blacks st1"
      "links m `` {i} \<subseteq> blacks st1 \<inter> dom m" "settledGraph m (blacks st) \<longrightarrow> settledGraph m (blacks st1)"
      unfolding b(1,2) links_def by auto
    have "st1 i = Gray" using ih(1) by (auto simp: grays_def)
    then have i: "i \<notin> blacks st1" by (simp add: blacks_def)
    have "blacks st' = insert i (blacks st1)" "grays st' = grays st"
      using v(2) ih(1) b(3) by (auto simp: blacks_def grays_def set_eq_iff)
    with ih settledGraph_insert [OF _ i ih(3)] show ?thesis by auto
  qed (use 2(2) in \<open>auto simp: blacks_def\<close>)
next
  case (4 m n t missing ls st)
  from 4(3) obtain st1 where v: "t \<in> dom m" "visit m n t st = Inr st1" "visitLinks m n ls st1 = Inr st'"
    by (auto split: if_splits sum.splits)
  have "m t \<noteq> None" using v(1) by auto
  from 4(1) [OF this v(2)] 4(2) [OF this v(2) v(3)] v(1) show ?case by auto
qed auto

lemma visit_complete:
  "visit m n i st = Inl e \<Longrightarrow> finite (dom m) \<Longrightarrow> i \<in> dom m \<Longrightarrow> card (dom m - grays st) < n \<Longrightarrow> grays st \<times> {i} \<subseteq> (links m)\<^sup>+
     \<Longrightarrow> \<not> (Range (links m) \<subseteq> dom m \<and> acyclic (links m))"
  "visitLinks m n ls st = Inl e \<Longrightarrow> finite (dom m) \<Longrightarrow> {s} \<times> fst ` set ls \<subseteq> links m \<Longrightarrow> card (dom m - grays st) < n
     \<Longrightarrow> grays st \<times> {s} \<subseteq> (links m)\<^sup>* \<Longrightarrow> \<not> (Range (links m) \<subseteq> dom m \<and> acyclic (links m))"
proof (induction m n i st and m n ls st arbitrary: e and e s rule: visit_visitLinks.induct)
  case (2 m n i st)
  show ?case
  proof (cases "st i")
    case White
    with 2(2) have v: "visitLinks m n (provenanceLinks m i) (st(i := Gray)) = Inl e" by (auto split: sum.splits)
    have g: "grays (st(i := Gray)) = insert i (grays st)" "i \<notin> grays st" using White by (auto simp: grays_def)
    have "card (dom m - insert i (grays st)) < card (dom m - grays st)"
      using 2(3,4) g(2) by (intro psubset_card_mono) auto
    moreover have "insert i (grays st) \<times> {i} \<subseteq> (links m)\<^sup>*" using 2(6) by (auto dest: trancl_into_rtrancl)
    moreover have "{i} \<times> fst ` set (provenanceLinks m i) \<subseteq> links m" by (auto simp: links_def)
    ultimately show ?thesis using 2(1) [OF White v 2(3), of i, unfolded g(1)] 2(5) by simp
  next
    case Gray
    then have "(i, i) \<in> (links m)\<^sup>+" using 2(6) by (auto simp: grays_def)
    then show ?thesis by (auto simp: acyclic_def)
  qed (use 2(2) in simp)
next
  case (4 m n t missing ls st)
  show ?case
  proof (cases "m t = None")
    case True
    then show ?thesis using 4(5) by (auto simp: Range_iff)
  next
    case False
    have st: "(s, t) \<in> links m" using 4(5) by auto
    with 4(7) have p: "grays st \<times> {t} \<subseteq> (links m)\<^sup>+" by (auto intro: rtrancl_into_trancl1)
    show ?thesis
    proof (cases "visit m n t st")
      case (Inl e')
      from 4(1) [OF False Inl 4(4) _ 4(6) p] False show ?thesis by auto
    next
      case (Inr st1)
      with 4(3) False have v: "visitLinks m n ls st1 = Inl e" by simp
      have "grays st1 = grays st" using visit_sound(1) [OF Inr] by simp
      then show ?thesis using 4(2) [OF False Inr v 4(4), of s] 4(5-7) by simp
    qed
  qed
qed auto

lemma visitAll_spec:
  assumes "finite (dom m)" "card (dom m) < n" "set is \<subseteq> dom m" "grays st = {}" "settledGraph m (blacks st)"
  shows "visitAll m n is st = None \<Longrightarrow> \<exists>B. settledGraph m B \<and> set is \<union> blacks st \<subseteq> B"
    "visitAll m n is st = Some e \<Longrightarrow> \<not> (Range (links m) \<subseteq> dom m \<and> acyclic (links m))"
proof -
  have "(visitAll m n is st = None \<longrightarrow> (\<exists>B. settledGraph m B \<and> set is \<union> blacks st \<subseteq> B))
    \<and> (\<forall>e. visitAll m n is st = Some e \<longrightarrow> \<not> (Range (links m) \<subseteq> dom m \<and> acyclic (links m)))"
    using assms(3-5)
  proof (induction "is" arbitrary: st)
    case (Cons i "is")
    show ?case
    proof (cases "visit m n i st")
      case (Inl e)
      with visit_complete(1) [OF Inl assms(1)] Cons.prems assms(2) show ?thesis by auto
    next
      case (Inr st1)
      from visit_sound(1) [OF Inr] Cons.prems have g: "grays st1 = {}" "settledGraph m (blacks st1)" "insert i (blacks st) \<subseteq> blacks st1"
        by auto
      have ih: "visitAll m n is st1 = None \<longrightarrow> (\<exists>B. settledGraph m B \<and> set is \<union> blacks st1 \<subseteq> B)"
        "\<forall>e. visitAll m n is st1 = Some e \<longrightarrow> \<not> (Range (links m) \<subseteq> dom m \<and> acyclic (links m))"
        using Cons.IH [OF _ g(1,2)] Cons.prems(1) by simp_all
      have "\<exists>B. settledGraph m B \<and> set (i # is) \<union> blacks st \<subseteq> B" if none: "visitAll m n is st1 = None"
      proof -
        obtain B where B: "settledGraph m B" "set is \<union> blacks st1 \<subseteq> B" using ih(1) none by blast
        with g(3) have "set (i # is) \<union> blacks st \<subseteq> B" by auto
        with B(1) show ?thesis by blast
      qed
      with ih(2) Inr show ?thesis by simp
    qed
  qed auto
  then show "visitAll m n is st = None \<Longrightarrow> \<exists>B. settledGraph m B \<and> set is \<union> blacks st \<subseteq> B"
    "visitAll m n is st = Some e \<Longrightarrow> \<not> (Range (links m) \<subseteq> dom m \<and> acyclic (links m))" by auto
qed

lemma byID_fold: "distinct (map uID us) \<Longrightarrow> fold (\<lambda>u m. m(uID u \<mapsto> u)) us m i
    = (case find (\<lambda>u. uID u = i) us of None \<Rightarrow> m i | Some u \<Rightarrow> Some u)"
proof (induction us arbitrary: m)
  case (Cons v us)
  have "find (\<lambda>u. uID u = uID v) us = None" using Cons.prems by (simp add: find_None_iff image_iff) (metis)
  with Cons show ?case by (auto split: option.splits)
qed simp

lemma find_key: "distinct (map f us) \<Longrightarrow> find (\<lambda>u. f u = i) us = Some u \<longleftrightarrow> u \<in> set us \<and> f u = i"
proof (induction us)
  case (Cons v us)
  then show ?case by (cases "f v = i") (auto simp: image_iff)
qed simp

lemma byID_iff: "distinct (map uID us) \<Longrightarrow> byID us i = Some u \<longleftrightarrow> u \<in> set us \<and> uID u = i"
  using byID_fold [of us Map.empty i] find_key [of uID us i u] by (auto simp: byID_def split: option.splits)

lemma byID_dom: "distinct (map uID us) \<Longrightarrow> dom (byID us) = uID ` set us"
  by (auto simp: dom_def byID_iff)

text \<open>A link of a unit: what it derives from and its parent.\<close>

definition provenance :: "Unit list \<Rightarrow> (string \<times> string) set" where
  "provenance us = {(uID u, t) | u t. u \<in> set us \<and> (t \<in> set (uDerivedFrom u) \<or> t = uParentUnitID u \<and> t \<noteq> [])}"

lemma links_byID: "distinct (map uID us) \<Longrightarrow> links (byID us) = provenance us"
  by (auto simp: links_iff provenance_def byID_iff)

lemma acyclic_check_exact_iff:
  assumes "distinct (map uID us)"
  shows "validateUnitAcyclic us = None \<longleftrightarrow> Range (provenance us) \<subseteq> uID ` set us \<and> acyclic (provenance us)"
proof -
  let ?m = "byID us" and ?n = "Suc (length us)"
  note l = links_byID [OF assms] byID_dom [OF assms]
  have fin: "finite (dom ?m)" by (simp add: l)
  have "card (uID ` set us) \<le> length us" by (metis card_length length_map set_map)
  then have n: "card (dom ?m) < ?n" by (simp add: l)
  have s: "set (sort (map uID us)) = dom ?m" by (simp add: l)
  have st: "grays (\<lambda>_. White) = {}" "blacks (\<lambda>_. White) = {}" "settledGraph ?m {}"
    by (auto simp: grays_def blacks_def settledGraph_def acyclic_def)
  show ?thesis
  proof (cases "validateUnitAcyclic us")
    case None
    obtain B where B: "settledGraph ?m B" "dom ?m \<subseteq> B"
      using visitAll_spec(1) [OF fin n, of "sort (map uID us)" "\<lambda>_. White"] None st s
      by (auto simp: validateUnitAcyclic_def)
    have sub: "Domain (links ?m) \<subseteq> B" using B(2) links_dom [of _ _ ?m] by blast
    then have "links ?m \<inter> B \<times> UNIV = links ?m" by (auto simp: subset_iff Domain_iff)
    moreover have "links ?m `` B = Range (links ?m)" using sub by (auto simp: subset_iff Domain_iff)
    ultimately have "Range (links ?m) \<subseteq> dom ?m \<and> acyclic (links ?m)" using B(1) by (simp add: settledGraph_def)
    then show ?thesis using None by (simp add: l)
  next
    case (Some e)
    have "\<not> (Range (links ?m) \<subseteq> dom ?m \<and> acyclic (links ?m))"
      using visitAll_spec(2) [OF fin n, of "sort (map uID us)" "\<lambda>_. White" e] Some st s
      by (auto simp: validateUnitAcyclic_def)
    then show ?thesis using Some by (simp add: l)
  qed
qed

text \<open>
  C30: the three-colour search accepts a list of units exactly when every parent and derived-from target
  exists and no unit reaches itself over these links.
\<close>

theorem acyclic_check_exact:
  assumes "distinct (map uID us)"
  shows "validateUnitAcyclic us = None \<longleftrightarrow> Range (provenance us) \<subseteq> uID ` set us \<and> acyclic (provenance us)"
  using assms by (rule acyclic_check_exact_iff)

subsection \<open>Resolving evidence\<close>

definition derivation :: "(string \<rightharpoonup> Unit) \<Rightarrow> (string \<times> string) set" where
  "derivation m = {(i, t). \<exists>u. m i = Some u \<and> t \<in> set (uDerivedFrom u)}"

definition sourcesOf :: "(string \<rightharpoonup> Unit) \<Rightarrow> string \<Rightarrow> EvidenceSource list" where
  "sourcesOf m i = (case m i of None \<Rightarrow> [] | Some u \<Rightarrow> uSources u)"

definition keyed :: "(string \<rightharpoonup> Unit) \<Rightarrow> bool" where
  "keyed m \<longleftrightarrow> (\<forall>i u. m i = Some u \<longrightarrow> uID u = i)"

text \<open>What a traversal adds: new units, each once, all reachable, closed up to what was seen, with their sources in order.\<close>

definition collected :: "(string \<rightharpoonup> Unit) \<Rightarrow> string set \<Rightarrow> string list \<times> EvidenceSource list \<Rightarrow> string list \<times> EvidenceSource list \<Rightarrow> bool" where
  "collected m tops st st' \<longleftrightarrow> (\<exists>new. fst st' = new @ fst st \<and> snd st' = snd st @ concat (map (sourcesOf m) (rev new))
     \<and> distinct new \<and> set new \<inter> set (fst st) = {} \<and> tops \<subseteq> set (fst st') \<and> set new \<subseteq> (derivation m)\<^sup>* `` tops
     \<and> derivation m `` set new \<subseteq> set (fst st'))"

lemma collected_trans:
  assumes "collected m A st st1" "collected m B st1 st2"
  shows "collected m (A \<union> B) st st2"
proof -
  obtain a b where
    a: "fst st1 = a @ fst st" "snd st1 = snd st @ concat (map (sourcesOf m) (rev a))" "distinct a" "set a \<inter> set (fst st) = {}"
      "A \<subseteq> set (fst st1)" "set a \<subseteq> (derivation m)\<^sup>* `` A" "derivation m `` set a \<subseteq> set (fst st1)" and
    b: "fst st2 = b @ fst st1" "snd st2 = snd st1 @ concat (map (sourcesOf m) (rev b))" "distinct b" "set b \<inter> set (fst st1) = {}"
      "B \<subseteq> set (fst st2)" "set b \<subseteq> (derivation m)\<^sup>* `` B" "derivation m `` set b \<subseteq> set (fst st2)"
    using assms unfolding collected_def by metis
  show ?thesis unfolding collected_def
    by (intro exI [of _ "b @ a"]) (use a b in auto)
qed

lemma collect_sound:
  "collect m n u st = Inr st' \<Longrightarrow> keyed m \<Longrightarrow> m (uID u) = Some u \<Longrightarrow> collected m {uID u} st st'"
  "collectAll m n i ds st = Inr st' \<Longrightarrow> keyed m \<Longrightarrow> collected m (set ds) st st'"
proof (induction m n u st and m n i ds st arbitrary: st' and st' rule: collect_collectAll.induct)
  case (2 m n u st)
  show ?case
  proof (cases "uID u \<in> set (fst st)")
    case True
    with 2(2) show ?thesis by (auto simp: collected_def)
  next
    case False
    let ?i = "uID u"
    from False 2(2) have "collectAll m n ?i (uDerivedFrom u) (?i # fst st, snd st @ uSources u) = Inr st'" by simp
    from 2(1) [OF False this 2(3)] obtain new where
      n: "fst st' = new @ ?i # fst st" "snd st' = (snd st @ uSources u) @ concat (map (sourcesOf m) (rev new))" "distinct new"
      "set new \<inter> set (?i # fst st) = {}" "set (uDerivedFrom u) \<subseteq> set (fst st')"
      "set new \<subseteq> (derivation m)\<^sup>* `` set (uDerivedFrom u)" "derivation m `` set new \<subseteq> set (fst st')"
      unfolding collected_def by auto
    have d: "derivation m `` {?i} = set (uDerivedFrom u)" using 2(4) by (auto simp: derivation_def)
    have "(derivation m)\<^sup>* `` set (uDerivedFrom u) \<subseteq> (derivation m)\<^sup>* `` {?i}"
      unfolding d [symmetric] by (auto intro: converse_rtrancl_into_rtrancl)
    with n(6) have "set new \<subseteq> (derivation m)\<^sup>* `` {?i}" by (rule subset_trans)
    with n(1-5,7) d 2(4) False show ?thesis unfolding collected_def
      by (intro exI [of _ "new @ [?i]"]) (auto simp: sourcesOf_def)
  qed
next
  case (4 m n i d ds st)
  from 4(3) obtain v st1 where v: "m d = Some v" "collect m n v st = Inr st1" "collectAll m n i ds st1 = Inr st'"
    by (auto split: option.splits sum.splits)
  have k: "uID v = d" using 4(4) v(1) by (auto simp: keyed_def)
  have "collected m {d} st st1" using 4(1) [OF v(1,2) 4(4)] v(1) k by simp
  from collected_trans [OF this 4(2) [OF v 4(4)]] show ?case by simp
qed (auto simp: collected_def)

lemma collect_complete:
  "collect m n u st = Inl e \<Longrightarrow> keyed m \<Longrightarrow> finite (dom m) \<Longrightarrow> m (uID u) = Some u \<Longrightarrow> card (dom m - set (fst st)) < n
     \<Longrightarrow> \<not> Range (derivation m) \<subseteq> dom m"
  "collectAll m n i ds st = Inl e \<Longrightarrow> keyed m \<Longrightarrow> finite (dom m) \<Longrightarrow> {i} \<times> set ds \<subseteq> derivation m \<Longrightarrow> card (dom m - set (fst st)) < n
     \<Longrightarrow> \<not> Range (derivation m) \<subseteq> dom m"
proof (induction m n u st and m n i ds st arbitrary: e and e rule: collect_collectAll.induct)
  case (2 m n u st)
  have new: "uID u \<notin> set (fst st)" using 2(2) by auto
  have "card (dom m - set (uID u # fst st)) < card (dom m - set (fst st))"
    using 2(4,5) new by (intro psubset_card_mono) auto
  moreover have "{uID u} \<times> set (uDerivedFrom u) \<subseteq> derivation m" using 2(5) by (auto simp: derivation_def)
  ultimately show ?case using 2(1) [OF new _ 2(3,4)] 2(2,6) new by simp
next
  case (4 m n i d ds st)
  show ?case
  proof (cases "m d")
    case None
    then show ?thesis using 4(6) by (auto simp: Range_iff)
  next
    case (Some v)
    have k: "uID v = d" using 4(4) Some by (auto simp: keyed_def)
    show ?thesis
    proof (cases "collect m n v st")
      case (Inl e')
      from 4(1) [OF Some Inl 4(4,5) _ 4(7)] Some k show ?thesis by simp
    next
      case (Inr st1)
      with 4(3) Some have v: "collectAll m n i ds st1 = Inl e" by simp
      have c: "collected m {d} st st1" using collect_sound(1) [OF Inr 4(4)] k Some by simp
      then have "set (fst st) \<subseteq> set (fst st1)" by (auto simp: collected_def)
      then have "card (dom m - set (fst st1)) \<le> card (dom m - set (fst st))" using 4(5) by (intro card_mono) auto
      then show ?thesis using 4(2) [OF Some Inr v 4(4,5)] 4(6,7) by simp
    qed
  qed
qed auto

lemma closed_reaches: "a \<in> A \<Longrightarrow> r `` A \<subseteq> A \<Longrightarrow> A \<subseteq> r\<^sup>* `` {a} \<Longrightarrow> A = r\<^sup>* `` {a}"
proof -
  assume "a \<in> A" "r `` A \<subseteq> A" "A \<subseteq> r\<^sup>* `` {a}"
  moreover have "y \<in> A" if "(a, y) \<in> r\<^sup>*" for y
    using that by (induction rule: rtrancl_induct) (use calculation in auto)
  ultimately show ?thesis by auto
qed

lemma resolve_sources:
  assumes "distinct (map uID us)" "Range (derivation (byID us)) \<subseteq> uID ` set us" "u \<in> set us"
  shows "\<exists>ids. ResolveEvidence us (uID u) = Inr (SortEvidenceSources (concat (map (sourcesOf (byID us)) ids)))
    \<and> distinct ids \<and> set ids = (derivation (byID us))\<^sup>* `` {uID u}"
proof -
  let ?m = "byID us"
  have m: "?m (uID u) = Some u" and k: "keyed ?m" and fin: "finite (dom ?m)"
    using assms(1,3) by (auto simp: byID_iff keyed_def byID_dom)
  have "card (uID ` set us) \<le> length us" by (metis card_length length_map set_map)
  then have n: "card (dom ?m - set (fst ([], []))) < Suc (length us)" by (simp add: byID_dom [OF assms(1)])
  obtain st where st: "collect ?m (Suc (length us)) u ([], []) = Inr st"
  proof (cases "collect ?m (Suc (length us)) u ([], [])")
    case (Inl e)
    from collect_complete(1) [OF Inl k fin m n] assms(2) byID_dom [OF assms(1)] show ?thesis by simp
  qed (rule that)
  from collect_sound(1) [OF st k m] obtain new where
    new: "st = (new, concat (map (sourcesOf ?m) (rev new)))" "distinct new" "uID u \<in> set new"
      "set new \<subseteq> (derivation ?m)\<^sup>* `` {uID u}" "derivation ?m `` set new \<subseteq> set new"
    unfolding collected_def by (cases st) auto
  have "set new = (derivation ?m)\<^sup>* `` {uID u}" by (rule closed_reaches [OF new(3,5,4)])
  then show ?thesis using st new(1,2) m by (intro exI [of _ "rev new"]) (simp add: ResolveEvidence_def)
qed

subsection \<open>Accepted compilations\<close>

lemma checkSources_None: "checkSources i seen ss = None \<Longrightarrow> list_all (\<lambda>s. sourceValidate s = None) ss"
  by (induction ss arbitrary: seen) (auto split: option.splits)

lemma checkUnits_None: "checkUnits sha c seen us = None
    \<Longrightarrow> list_all (\<lambda>u. unitValidate sha u = None) us \<and> distinct (map uID us) \<and> uID ` set us \<inter> uID ` set seen = {}"
proof (induction us arbitrary: seen)
  case (Cons u us)
  from Cons.prems have "unitValidate sha u = None" "uID u \<notin> uID ` set seen" "checkUnits sha c (u # seen) us = None" by simp_all
  with Cons.IH [OF this(3)] show ?case by auto
qed simp

lemma unitValidate_None:
  assumes "unitValidate sha u = None"
  shows "uSources u \<noteq> [] \<or> uDerivedFrom u \<noteq> []" "list_all (\<lambda>s. sourceValidate s = None) (uSources u)"
    "uID u = UnitID sha (uBaseID u) (uGeneration u) (uType u) (uCanonicalKey u)" "0 \<le> uConfidence u" "uConfidence u \<le> 1"
  using assms checkSources_None by (auto simp: unitValidate_def Let_def)

lemma compilation_units:
  assumes "compilationValidate sha c = None"
  shows "list_all (\<lambda>u. unitValidate sha u = None) (cpUnits c)" "distinct (map uID (cpUnits c))"
    "Range (provenance (cpUnits c)) \<subseteq> uID ` set (cpUnits c)" "acyclic (provenance (cpUnits c))"
proof -
  from assms have u: "checkUnits sha c [] (cpUnits c) = None" and a: "validateUnitAcyclic (cpUnits c) = None"
    by (simp_all add: compilationValidate_def)
  show "list_all (\<lambda>u. unitValidate sha u = None) (cpUnits c)" and d: "distinct (map uID (cpUnits c))"
    using checkUnits_None [OF u] by simp_all
  show "Range (provenance (cpUnits c)) \<subseteq> uID ` set (cpUnits c)" "acyclic (provenance (cpUnits c))"
    using acyclic_check_exact_iff [OF d] a by simp_all
qed

lemma derivation_provenance: "distinct (map uID us) \<Longrightarrow> derivation (byID us) \<subseteq> provenance us"
  by (auto simp: derivation_def provenance_def byID_iff)

lemma finite_provenance: "finite (provenance us)"
proof -
  have "provenance us \<subseteq> (\<Union>u \<in> set us. {uID u} \<times> (set (uDerivedFrom u) \<union> {uParentUnitID u}))"
    by (auto simp: provenance_def)
  then show ?thesis by (rule finite_subset) auto
qed

lemma some_source:
  assumes "compilationValidate sha c = None" "i \<in> uID ` set (cpUnits c)"
  shows "\<exists>x. (i, x) \<in> (derivation (byID (cpUnits c)))\<^sup>* \<and> sourcesOf (byID (cpUnits c)) x \<noteq> []"
proof -
  let ?us = "cpUnits c"
  note ok = compilation_units [OF assms(1)]
  have "wf ((provenance ?us)\<inverse>)" by (rule finite_acyclic_wf_converse [OF finite_provenance ok(4)])
  then show ?thesis using assms(2)
  proof (induction i rule: wf_induct_rule)
    case (less i)
    then obtain u where u: "u \<in> set ?us" "uID u = i" by auto
    then have m: "byID ?us i = Some u" using byID_iff [OF ok(2)] by simp
    show ?case
    proof (cases "uSources u = []")
      case False
      then show ?thesis using m by (intro exI [of _ i]) (simp add: sourcesOf_def)
    next
      case True
      then obtain t where t: "t \<in> set (uDerivedFrom u)"
        using unitValidate_None(1) [of sha u] ok(1) u(1) by (cases "uDerivedFrom u") (auto simp: list_all_iff)
      then have e: "(i, t) \<in> derivation (byID ?us)" using m by (auto simp: derivation_def)
      then have p: "(i, t) \<in> provenance ?us" using derivation_provenance [OF ok(2)] by auto
      with ok(3) have "t \<in> uID ` set ?us" by (auto simp: Range_iff)
      with less.IH [of t] p obtain x where "(t, x) \<in> (derivation (byID ?us))\<^sup>*" "sourcesOf (byID ?us) x \<noteq> []" by auto
      with e show ?thesis by (meson converse_rtrancl_into_rtrancl)
    qed
  qed
qed

lemma validated_resolves:
  assumes "compilationValidate sha c = None" "u \<in> set (cpUnits c)"
  shows "\<exists>out ids. ResolveEvidence (cpUnits c) (uID u) = Inr out \<and> out \<noteq> [] \<and> list_all (\<lambda>s. sourceValidate s = None) out
    \<and> distinct ids \<and> set ids = (derivation (byID (cpUnits c)))\<^sup>* `` {uID u}
    \<and> mset out = mset (concat (map (sourcesOf (byID (cpUnits c))) ids))"
proof -
  let ?us = "cpUnits c" and ?m = "byID (cpUnits c)"
  note ok = compilation_units [OF assms(1)]
  have "Range (derivation ?m) \<subseteq> uID ` set ?us" using derivation_provenance [OF ok(2)] ok(3) by (auto simp: Range_iff)
  from resolve_sources [OF ok(2) this assms(2)] obtain ids where
    ids: "ResolveEvidence ?us (uID u) = Inr (SortEvidenceSources (concat (map (sourcesOf ?m) ids)))" "distinct ids"
      "set ids = (derivation ?m)\<^sup>* `` {uID u}" by auto
  obtain x where x: "x \<in> set ids" "sourcesOf ?m x \<noteq> []" using some_source [OF assms(1), of "uID u"] assms(2) ids(3) by auto
  have valid: "sourceValidate s = None" if "s \<in> set (sourcesOf ?m i)" for s i
  proof -
    from that obtain v where v: "?m i = Some v" "s \<in> set (uSources v)" by (cases "?m i") (auto simp: sourcesOf_def)
    then have "unitValidate sha v = None" using byID_iff [OF ok(2)] ok(1) by (simp add: list_all_iff)
    from unitValidate_None(2) [OF this] v(2) show ?thesis by (simp add: list_all_iff)
  qed
  let ?all = "concat (map (sourcesOf ?m) ids)"
  have m: "mset (SortEvidenceSources ?all) = mset ?all" by (simp add: SortEvidenceSources_def)
  have "?all \<noteq> []" using x by auto
  with m have "SortEvidenceSources ?all \<noteq> []" by (metis mset_zero_iff)
  moreover have "list_all (\<lambda>s. sourceValidate s = None) (SortEvidenceSources ?all)"
    unfolding list_all_iff mset_eq_setD [OF m] using valid by simp
  ultimately show ?thesis using ids m by blast
qed

text \<open>
  C31: in a compilation that \<open>Validate\<close> accepts, every unit resolves to evidence: \<open>ResolveEvidence\<close> returns at
  least one pointer, every pointer it returns is valid, and together they are the pointers of the units
  reached over derived-from links, each unit counted once.
\<close>

theorem validated_units_resolve:
  assumes "compilationValidate sha c = None" "u \<in> set (cpUnits c)"
  shows "\<exists>out ids. ResolveEvidence (cpUnits c) (uID u) = Inr out \<and> out \<noteq> [] \<and> list_all (\<lambda>s. sourceValidate s = None) out
    \<and> distinct ids \<and> set ids = (derivation (byID (cpUnits c)))\<^sup>* `` {uID u}
    \<and> mset out = mset (concat (map (sourcesOf (byID (cpUnits c))) ids))"
  using assms by (rule validated_resolves)

subsection \<open>A concrete compilation\<close>

definition demoSha :: "string \<Rightarrow> string" where
  "demoSha s = rev s"

definition demoUnit :: "string \<Rightarrow> string \<Rightarrow> EvidenceSource list \<Rightarrow> string list \<Rightarrow> Unit" where
  "demoUnit kind key sources derived = \<lparr>uID = UnitID demoSha ''b'' 1 kind key, uBaseID = ''b'', uGeneration = 1, uType = kind,
     uTitle = ''t'', uCanonicalKey = key, uContent = ''c'', uAliases = [], uParentUnitID = [], uConfidence = 1/2, uStatus = UnitActive,
     uValidFrom = 0, uValidTo = 0, uSupersededBy = [], uVersion = [], uPublishedAt = 0, uEffectiveAt = 0, uSourceAuthority = 0,
     uMetadata = Map.empty, uSources = sources, uDerivedFrom = derived, uCreatedAt = 1, uUpdatedAt = 1\<rparr>"

definition demoFact :: Unit where
  "demoFact = demoUnit UnitFact ''f'' [\<lparr>esUnitID = [], esDocumentID = ''d'', esIndexGeneration = 1, esSourceVersion = 1, esNodeID = ''n'',
     esChunkID = [], esSourceAnchor = [], esSourceOrder = 0\<rparr>] []"

definition demoConcept :: Unit where
  "demoConcept = demoUnit UnitConcept ''k'' [] [UnitID demoSha ''b'' 1 UnitFact ''f'']"

definition demoCompilation :: Compilation where
  "demoCompilation = \<lparr>cpBaseID = ''b'', cpGeneration = 1, cpState = CompilationBuilding, cpCompiler = ''c'', cpCompilerVersion = ''1'',
     cpModel = ''m'', cpModelVersion = ''1'', cpPromptVersion = ''1'', cpSourceDocumentIDs = [''d''], cpMetadata = Map.empty,
     cpUnits = [demoFact, demoConcept], cpRelations = [], cpCreatedAt = 1, cpCompletedAt = 0\<rparr>"

lemma demoCompilation_ok: "compilationValidate demoSha demoCompilation = None"
  by code_simp

lemma acyclic_check_exact_witness: "acyclic (provenance (cpUnits demoCompilation))"
proof -
  have "distinct (map uID (cpUnits demoCompilation))" by code_simp
  moreover have "validateUnitAcyclic (cpUnits demoCompilation) = None" by code_simp
  ultimately show ?thesis using acyclic_check_exact by blast
qed

lemma validated_units_resolve_witness: "\<exists>out. ResolveEvidence (cpUnits demoCompilation) (uID demoConcept) = Inr out \<and> out \<noteq> []"
proof -
  have "demoConcept \<in> set (cpUnits demoCompilation)" by (simp add: demoCompilation_def)
  from validated_units_resolve [OF demoCompilation_ok this] show ?thesis by blast
qed

end
