(* ===== verification/SemMerge.thy ===== *)
theory SemMerge
  imports SemReconcile SemProvenance
begin

text \<open>
  Incremental recompilation (\<open>internal/semantic/incremental.go\<close>): what remains of the previous generation
  once the evidence of changed and deleted documents is gone is merged with the units compiled from the
  changed documents. Maps keyed by an identifier are lists with distinct keys; the order in which the code
  ranges over them is the argument \<open>shuffle\<close>.
\<close>

subsection \<open>Removing evidence\<close>

text \<open>\<open>retained[unit.ID] = next\<close>.\<close>

definition putUnit :: "Unit \<Rightarrow> Unit list \<Rightarrow> Unit list" where
  "putUnit u us = (if uID u \<in> uID ` set us then map (\<lambda>v. if uID v = uID u then u else v) us else us @ [u])"

definition summaryDocumentID :: "string \<Rightarrow> string" where
  "summaryDocumentID key = (if \<not> hasPrefix key ''summary:doc:'' then []
     else (let remainder = trimPrefix key ''summary:doc:'' in
       case indexOf remainder '':source:'' of None \<Rightarrow> [] | Some i \<Rightarrow> take i remainder))"

definition cleanSources :: "string set \<Rightarrow> EvidenceSource list \<Rightarrow> EvidenceSource list" where
  "cleanSources dirty ss = filter (\<lambda>s. esDocumentID s \<notin> dirty) ss"

definition staleSummary :: "string set \<Rightarrow> Unit \<Rightarrow> bool" where
  "staleSummary dirty u \<longleftrightarrow> uType u = UnitSummary \<and> summaryDocumentID (uCanonicalKey u) \<noteq> [] \<and> summaryDocumentID (uCanonicalKey u) \<in> dirty"

definition sanitizePreviousUnits :: "Unit list \<Rightarrow> string set \<Rightarrow> Unit list \<times> string set" where
  "sanitizePreviousUnits us dirty = fold (\<lambda>u (retained, dropped).
     if staleSummary dirty u then (retained, insert (uID u) dropped)
     else (let next = u\<lparr>uSources := cleanSources dirty (uSources u)\<rparr> in
       if uSources next = [] \<and> uDerivedFrom next = [] then (retained, insert (uID u) dropped)
       else (putUnit next retained, dropped))) us ([], {})"

subsection \<open>Repairing provenance\<close>

definition withoutRefs :: "string set \<Rightarrow> Unit \<Rightarrow> Unit" where
  "withoutRefs dropped u = (let
     u = u\<lparr>uDerivedFrom := filter (\<lambda>t. t \<notin> dropped) (uDerivedFrom u)\<rparr>;
     u = (if uParentUnitID u \<noteq> [] \<and> uParentUnitID u \<in> dropped then u\<lparr>uParentUnitID := []\<rparr> else u) in
     if uSupersededBy u \<noteq> [] \<and> uSupersededBy u \<in> dropped
     then u\<lparr>uSupersededBy := [], uStatus := (if uStatus u = UnitSuperseded then UnitActive else uStatus u)\<rparr> else u)"

definition refsChanged :: "Unit \<Rightarrow> Unit \<Rightarrow> bool" where
  "refsChanged u v \<longleftrightarrow> length (uDerivedFrom u) \<noteq> length (uDerivedFrom v) \<or> uParentUnitID u \<noteq> uParentUnitID v
     \<or> uSupersededBy u \<noteq> uSupersededBy v"

text \<open>One pass over the units: what is left, what is dropped by now, whether anything changed.\<close>

fun fixPass :: "string set \<Rightarrow> Unit list \<Rightarrow> Unit list \<times> string set \<times> bool" where
  "fixPass dropped [] = ([], dropped, False)"
| "fixPass dropped (u # us) = (let next = withoutRefs dropped u in
     if uSources next = [] \<and> uDerivedFrom next = []
     then (case fixPass (insert (uID u) dropped) us of (us', d, c) \<Rightarrow> (us', d, True))
     else (case fixPass dropped us of (us', d, c) \<Rightarrow>
       ((if refsChanged u next then next else u) # us', d, refsChanged u next \<or> c)))"

text \<open>Passes until nothing changes; fuel bounds their number.\<close>

fun fixLoop :: "nat \<Rightarrow> (Unit list \<Rightarrow> Unit list) \<Rightarrow> string set \<Rightarrow> Unit list \<Rightarrow> Unit list option" where
  "fixLoop 0 shuffle dropped us = None"
| "fixLoop (Suc n) shuffle dropped us = (case fixPass dropped (shuffle us) of (us', dropped', changed) \<Rightarrow>
     if changed then fixLoop n shuffle dropped' us' else Some us')"

definition refCount :: "Unit \<Rightarrow> nat" where
  "refCount u = Suc (length (uDerivedFrom u) + (if uParentUnitID u = [] then 0 else 1) + (if uSupersededBy u = [] then 0 else 1))"

definition fixRetainedProvenance :: "(Unit list \<Rightarrow> Unit list) \<Rightarrow> Unit list \<Rightarrow> string set \<Rightarrow> Unit list option" where
  "fixRetainedProvenance shuffle us dropped = fixLoop (Suc (sum_list (map refCount us))) shuffle dropped us"

definition sanitizePreviousRelations :: "Relation list \<Rightarrow> string set \<Rightarrow> string set \<Rightarrow> Relation list" where
  "sanitizePreviousRelations rs units dirty = List.map_filter (\<lambda>r.
     if rlSubjectUnitID r \<notin> units \<or> rlObjectUnitID r \<notin> units then None
     else (let next = r\<lparr>rlSources := cleanSources dirty (rlSources r)\<rparr> in
       if rlSources next = [] \<and> rlType next \<noteq> RelationDerivedFrom then None
       else Some (if rlSupersededBy next \<noteq> [] \<and> rlSupersededBy next \<notin> units
         then next\<lparr>rlSupersededBy := [], rlStatus := (if rlStatus next = UnitSuperseded then UnitActive else rlStatus next)\<rparr>
         else next))) rs"

subsection \<open>New identifiers\<close>

definition remapIDs :: "Lib \<Rightarrow> Unit list \<Rightarrow> int \<Rightarrow> (string \<rightharpoonup> string)" where
  "remapIDs lib us generation = fold (\<lambda>u m. m(uID u \<mapsto> UnitID (lbSha lib) (uBaseID u) generation (uType u) (uCanonicalKey u))) us Map.empty"

definition sortedUnique :: "string list \<Rightarrow> string list" where
  "sortedUnique xs = sort (remdups xs)"

definition remapIDsList :: "string list \<Rightarrow> (string \<rightharpoonup> string) \<Rightarrow> string list" where
  "remapIDsList ids mapping = sortedUnique (List.map_filter mapping ids)"

definition idOrEmpty :: "(string \<rightharpoonup> string) \<Rightarrow> string \<Rightarrow> string" where
  "idOrEmpty ids i = (if i = [] then [] else case ids i of None \<Rightarrow> [] | Some j \<Rightarrow> j)"

definition remapUnit :: "Lib \<Rightarrow> string \<Rightarrow> int \<Rightarrow> (string \<rightharpoonup> string) \<Rightarrow> int \<Rightarrow> Unit \<Rightarrow> Unit" where
  "remapUnit lib baseID generation ids now u = u\<lparr>
     uID := UnitID (lbSha lib) baseID generation (uType u) (uCanonicalKey u), uBaseID := baseID, uGeneration := generation,
     uCreatedAt := now, uUpdatedAt := now, uDerivedFrom := remapIDsList (uDerivedFrom u) ids,
     uParentUnitID := idOrEmpty ids (uParentUnitID u), uSupersededBy := idOrEmpty ids (uSupersededBy u)\<rparr>"

text \<open>None is the empty relation, whose caller skips it.\<close>

definition remapRelation :: "Lib \<Rightarrow> string \<Rightarrow> int \<Rightarrow> (string \<rightharpoonup> string) \<Rightarrow> int \<Rightarrow> Relation \<Rightarrow> Relation option" where
  "remapRelation lib baseID generation ids now r = (case (ids (rlSubjectUnitID r), ids (rlObjectUnitID r)) of
     (Some subject, Some object) \<Rightarrow> Some (r\<lparr>rlSubjectUnitID := subject, rlObjectUnitID := object, rlBaseID := baseID, rlGeneration := generation,
       rlID := RelationID (lbSha lib) baseID generation (rlType r) subject object (rlCanonicalKey r), rlCreatedAt := now, rlUpdatedAt := now,
       rlSupersededBy := (if rlSupersededBy r = [] then [] else case ids (rlSupersededBy r) of None \<Rightarrow> rlSupersededBy r | Some s \<Rightarrow> s)\<rparr>)
   | _ \<Rightarrow> None)"

subsection \<open>Merging\<close>

definition firstNonEmpty :: "string list \<Rightarrow> string" where
  "firstNonEmpty xs = (case find (\<lambda>v. \<not> blank v) xs of None \<Rightarrow> [] | Some v \<Rightarrow> v)"

definition mergeLists :: "string list \<Rightarrow> string list \<Rightarrow> string list" where
  "mergeLists existing update = sortedUnique (filter (\<lambda>v. v \<noteq> []) (existing @ update))"

definition sourceKey :: "EvidenceSource \<Rightarrow> string" where
  "sourceKey s = joinWith [CHR 0x00] [esDocumentID s, formatInt (esIndexGeneration s), formatInt (esSourceVersion s), esNodeID s, esChunkID s]"

fun firstByKey :: "string set \<Rightarrow> EvidenceSource list \<Rightarrow> EvidenceSource list" where
  "firstByKey seen [] = []"
| "firstByKey seen (s # ss) = (if sourceKey s \<in> seen then firstByKey seen ss else s # firstByKey (insert (sourceKey s) seen) ss)"

definition mergeSources :: "EvidenceSource list \<Rightarrow> EvidenceSource list \<Rightarrow> EvidenceSource list" where
  "mergeSources existing update = (let out = SortEvidenceSources (firstByKey {} (existing @ update)) in
     map (\<lambda>(i, s). s\<lparr>esSourceOrder := int i\<rparr>) (zip [0 ..< length out] out))"

definition mergeConfidence :: "Unit \<Rightarrow> Unit \<Rightarrow> rat" where
  "mergeConfidence existing update = (if 0 < uConfidence update
     then (let m = length (uSources existing); n = length (uSources update) in
       if m + n = 0 then uConfidence update
       else fl (fl (fl (uConfidence existing * of_nat m) + fl (uConfidence update * of_nat n)) / of_nat (m + n)))
     else uConfidence existing)"

definition mergeUnits :: "Unit \<Rightarrow> Unit \<Rightarrow> int \<Rightarrow> Unit" where
  "mergeUnits existing update now = existing\<lparr>
     uTitle := firstNonEmpty [uTitle update, uTitle existing], uContent := firstNonEmpty [uContent update, uContent existing],
     uAliases := mergeLists (uAliases existing) (uAliases update), uDerivedFrom := mergeLists (uDerivedFrom existing) (uDerivedFrom update),
     uSources := mergeSources (uSources existing) (uSources update), uMetadata := uMetadata existing ++ uMetadata update,
     uConfidence := mergeConfidence existing update, uStatus := (if uStatus update = [] then uStatus existing else uStatus update),
     uUpdatedAt := now\<rparr>"

definition unitKey :: "Unit \<Rightarrow> string" where
  "unitKey u = uType u @ [CHR 0x00] @ uCanonicalKey u"

definition relationKey :: "Relation \<Rightarrow> string" where
  "relationKey r = rlType r @ [CHR 0x00] @ rlCanonicalKey r"

text \<open>\<open>merged[key] = f(merged[key])\<close>, or a new entry.\<close>

definition putKeyed :: "('a \<Rightarrow> string) \<Rightarrow> ('a \<Rightarrow> 'a \<Rightarrow> 'a) \<Rightarrow> 'a \<Rightarrow> 'a list \<Rightarrow> 'a list" where
  "putKeyed key f x xs = (if key x \<in> key ` set xs then map (\<lambda>y. if key y = key x then f y x else y) xs else xs @ [x])"

definition mergedUnits :: "Lib \<Rightarrow> (Unit list \<Rightarrow> Unit list) \<Rightarrow> Unit list \<Rightarrow> Compilation \<Rightarrow> int \<Rightarrow> Unit list" where
  "mergedUnits lib shuffle retained delta now = (let ids = remapIDs lib retained (cpGeneration delta);
     old = fold (\<lambda>u. putKeyed unitKey (\<lambda>y x. x) (remapUnit lib (cpBaseID delta) (cpGeneration delta) ids now u)) (shuffle retained) [] in
     fold (putKeyed unitKey (\<lambda>y x. mergeUnits y x now)) (cpUnits delta) old)"

definition mergedRelations :: "Lib \<Rightarrow> (string \<rightharpoonup> string) \<Rightarrow> Relation list \<Rightarrow> Relation list \<Rightarrow> Compilation \<Rightarrow> int \<Rightarrow> Relation list" where
  "mergedRelations lib ids retained temporal delta now = (let
     old = fold (putKeyed relationKey (\<lambda>y x. x)) (List.map_filter (remapRelation lib (cpBaseID delta) (cpGeneration delta) ids now) retained) [];
     all = fold (putKeyed relationKey (\<lambda>y x. y)) (cpRelations delta) old in
     fold (putKeyed relationKey (\<lambda>y x. x)) temporal all)"

datatype MergeError = BaseMismatch string string | NoTimestamp | MergeInvalid SemError | FixOutOfFuel

definition MergeIncremental :: "Lib \<Rightarrow> sorter \<Rightarrow> (Unit list \<Rightarrow> Unit list) \<Rightarrow> Compilation \<Rightarrow> Compilation \<Rightarrow> string set \<Rightarrow> string set
    \<Rightarrow> string list \<Rightarrow> int \<Rightarrow> MergeError + Compilation" where
  "MergeIncremental lib sortSlice shuffle previous delta dirtyDocuments deletedDocuments currentSourceDocumentIDs now = (
     if cpBaseID previous \<noteq> cpBaseID delta then Inl (BaseMismatch (cpBaseID previous) (cpBaseID delta))
     else if now \<le> 0 then Inl NoTimestamp
     else (let allDirty = dirtyDocuments \<union> deletedDocuments;
         (sanitized, dropped) = sanitizePreviousUnits (cpUnits previous) allDirty in
       case fixRetainedProvenance shuffle sanitized dropped of None \<Rightarrow> Inl FixOutOfFuel
     | Some retained \<Rightarrow> (let
         retainedRelations = sanitizePreviousRelations (cpRelations previous) (uID ` set retained) allDirty;
         (units, temporal) = reconcileTemporalUnits lib sortSlice (shuffle (mergedUnits lib shuffle retained delta now))
           (cpBaseID delta) (cpGeneration delta) now;
         merged = \<lparr>cpBaseID = cpBaseID delta, cpGeneration = cpGeneration delta, cpState = CompilationBuilding,
           cpCompiler = cpCompiler delta, cpCompilerVersion = cpCompilerVersion delta, cpModel = cpModel delta,
           cpModelVersion = cpModelVersion delta, cpPromptVersion = cpPromptVersion delta,
           cpSourceDocumentIDs = sortedUnique (filter (\<lambda>i. i \<noteq> []) currentSourceDocumentIDs),
           cpMetadata = cpMetadata previous ++ cpMetadata delta,
           cpUnits = sort_key (\<lambda>u. (uType u, uCanonicalKey u)) units,
           cpRelations = sort_key (\<lambda>r. (rlType r, rlCanonicalKey r))
             (mergedRelations lib (remapIDs lib retained (cpGeneration delta)) retainedRelations temporal delta now),
           cpCreatedAt = now, cpCompletedAt = 0\<rparr> in
         case compilationValidate (lbSha lib) merged of Some e \<Rightarrow> Inl (MergeInvalid e) | None \<Rightarrow> Inr merged)))"

end
