(* ===== verification/SemReconcileProperties.thy ===== *)
theory SemReconcileProperties
  imports SemReconcile "HOL-Library.Multiset"
begin

text \<open>
  What supersession establishes, for every result \<open>sort.Slice\<close> may give: each relation it returns links a
  superseded fact to an active one of the same scope with a newer version, and no fact is superseded without
  such a relation. Which facts are superseded still depends on the sort, as the comparison is no order.
\<close>

subsection \<open>What the steps keep\<close>

text \<open>The fields no step changes.\<close>

definition core :: "Unit \<Rightarrow> Unit" where
  "core u = u\<lparr>uStatus := [], uSupersededBy := [], uMetadata := Map.empty, uUpdatedAt := 0, uVersion := [], uPublishedAt := 0,
     uEffectiveAt := 0, uSourceAuthority := 0\<rparr>"

lemma core_steps [simp]: "core (conflictUnit now u) = core u" "core (currentUnit now u) = core u"
  "core (unorderedUnit now u) = core u" "core (supersededUnit now s u) = core u"
  by (simp_all add: core_def conflictUnit_def currentUnit_def unorderedUnit_def supersededUnit_def setTemporalStatus_def)

lemma core_id: "core u = core v \<Longrightarrow> uID u = uID v \<and> uCanonicalKey u = uCanonicalKey v \<and> uType u = uType v \<and> uContent u = uContent v
    \<and> uSources u = uSources v \<and> uDerivedFrom u = uDerivedFrom v"
  by (cases u; cases v) (simp add: core_def)

lemma core_tagged [simp]: "core (tagged lib u) = core u"
  by (auto simp: tagged_def tagFact_def core_def syncTemporalFields_def Let_def split: option.splits prod.splits)

lemma tagged_status [simp]: "uStatus (tagged lib u) = uStatus u" "uID (tagged lib u) = uID u"
  by (auto simp: tagged_def tagFact_def syncTemporalFields_def Let_def split: option.splits prod.splits)

text \<open>What one step may do to the units outside and inside a set of indices.\<close>

definition touches :: "nat set \<Rightarrow> Unit list \<Rightarrow> Unit list \<Rightarrow> bool" where
  "touches I us us' \<longleftrightarrow> length us' = length us \<and> map core us' = map core us \<and> (\<forall>k. k \<notin> I \<longrightarrow> us' ! k = us ! k)"

lemma touches_refl: "touches I us us"
  by (simp add: touches_def)

lemma touches_trans: "touches I us us1 \<Longrightarrow> touches J us1 us2 \<Longrightarrow> touches (I \<union> J) us us2"
  by (auto simp: touches_def)

lemma touches_mono: "touches I us us' \<Longrightarrow> I \<subseteq> J \<Longrightarrow> touches J us us'"
  by (auto simp: touches_def)

lemma touches_update: "core (f (us ! i)) = core (us ! i) \<Longrightarrow> touches {i} us (updateAt i f us)"
proof (cases "i < length us")
  case True
  assume c: "core (f (us ! i)) = core (us ! i)"
  then have "(map core us)[i := core (us ! i)] = map core us" using True by (metis list_update_id nth_map)
  with c show ?thesis by (simp add: touches_def updateAt_def map_update)
qed (simp add: touches_def updateAt_def list_update_beyond)

lemma touches_core: "touches I us us' \<Longrightarrow> k < length us \<Longrightarrow> core (us' ! k) = core (us ! k)"
  by (auto simp: touches_def dest: arg_cong [of _ _ "\<lambda>l. l ! k"])

subsection \<open>Links\<close>

text \<open>A relation that says what the units say: one fact superseded by an active one of a newer version.\<close>

definition linked :: "Lib \<Rightarrow> member set \<Rightarrow> Unit list \<Rightarrow> Relation \<Rightarrow> bool" where
  "linked lib M us r \<longleftrightarrow> (\<exists>a b. a \<in> M \<and> b \<in> M \<and> older lib a b \<and> snd a \<noteq> snd b
     \<and> rlType r = RelationSupersedes \<and> rlSubjectUnitID r = uID (us ! snd a) \<and> rlObjectUnitID r = uID (us ! snd b)
     \<and> uStatus (us ! snd a) = UnitSuperseded \<and> uSupersededBy (us ! snd a) = uID (us ! snd b) \<and> uStatus (us ! snd b) = UnitActive
     \<and> set (rlSources r) = set (uSources (us ! snd a)) \<union> set (uSources (us ! snd b)))"

lemma linked_mono: "A \<subseteq> B \<Longrightarrow> linked lib A us r \<Longrightarrow> linked lib B us r"
  unfolding linked_def by blast

text \<open>Superseded facts of a set of indices that no relation accounts for.\<close>

definition accounted :: "nat set \<Rightarrow> Unit list \<Rightarrow> Relation list \<Rightarrow> bool" where
  "accounted I us rs \<longleftrightarrow> (\<forall>i \<in> I. uStatus (us ! i) = UnitSuperseded \<longrightarrow> (\<exists>r \<in> set rs. rlSubjectUnitID r = uID (us ! i)))"

lemma statuses [simp]: "uStatus (conflictUnit now u) = UnitConflicted" "uStatus (currentUnit now u) = UnitActive"
  "uStatus (unorderedUnit now u) = UnitConflicted" "uStatus (supersededUnit now s u) = UnitSuperseded"
  "uSupersededBy (supersededUnit now s u) = s" "uID (supersededUnit now s u) = uID u" "uID (currentUnit now u) = uID u"
  by (simp_all add: conflictUnit_def currentUnit_def unorderedUnit_def supersededUnit_def setTemporalStatus_def)

lemma relation_simps [simp]: "rlType (newTemporalRelation lib b g t s o' c st now) = t"
  "rlSubjectUnitID (newTemporalRelation lib b g t s o' c st now) = uID s" "rlObjectUnitID (newTemporalRelation lib b g t s o' c st now) = uID o'"
  "set (rlSources (newTemporalRelation lib b g t s o' c st now)) = set (uSources s) \<union> set (uSources o')"
  by (simp_all add: newTemporalRelation_def SortEvidenceSources_def)

lemma supersede_fold:
  assumes "distinct (map snd (olds @ [newest]))" "snd ` set (olds @ [newest]) \<subseteq> {..< length us}"
    "uStatus (us ! snd newest) = UnitActive"
    "fold (supersede lib baseID generation now newest) olds (us, rs) = (us', rs')"
  shows "touches (snd ` set olds) us us' \<and> us' ! snd newest = us ! snd newest
    \<and> (\<exists>new. rs' = rs @ new \<and> list_all (linked lib (set (olds @ [newest])) us') new \<and> accounted (snd ` set olds) us' new)"
  using assms
proof (induction olds arbitrary: us rs)
  case Nil
  then show ?case by (auto simp: touches_refl accounted_def)
next
  case (Cons a olds)
  let ?i = "snd a" and ?n = "snd newest"
  have ne: "?i \<noteq> ?n" "?i \<notin> snd ` set olds" and b: "?i < length us" "?n < length us" using Cons.prems(1,2) by auto
  define us1 where "us1 = (if older lib a newest then updateAt ?i (supersededUnit now (uID (us ! ?n))) us else updateAt ?i (unorderedUnit now) us)"
  define new1 where "new1 = (if older lib a newest then [newTemporalRelation lib baseID generation RelationSupersedes (us1 ! ?i) (us1 ! ?n)
     (''supersedes:'' @ uCanonicalKey (us1 ! ?i) @ '':'' @ uCanonicalKey (us1 ! ?n)) (uContent (us1 ! ?i) @ '' is superseded by '' @ uContent (us1 ! ?n)) now] else [])"
  have step: "supersede lib baseID generation now newest a (us, rs) = (us1, rs @ new1)"
    by (simp add: supersede_def us1_def new1_def Let_def)
  have t1: "touches {?i} us us1" unfolding us1_def by (auto intro: touches_update)
  have n1: "us1 ! ?n = us ! ?n" using ne by (auto simp: us1_def updateAt_def)
  have i1: "us1 ! ?i = (if older lib a newest then supersededUnit now (uID (us ! ?n)) (us ! ?i) else unorderedUnit now (us ! ?i))"
    using b by (simp add: us1_def updateAt_def)
  have len: "length us1 = length us" using t1 by (simp add: touches_def)
  have fold1: "fold (supersede lib baseID generation now newest) olds (us1, rs @ new1) = (us', rs')"
    using Cons.prems(4) by (simp add: step)
  from Cons.IH [OF _ _ _ fold1] Cons.prems(1-3) n1 len obtain new where
    ih: "touches (snd ` set olds) us1 us'" "us' ! ?n = us1 ! ?n" "rs' = (rs @ new1) @ new"
      "list_all (linked lib (set (olds @ [newest])) us') new" "accounted (snd ` set olds) us' new" by auto
  have i': "us' ! ?i = us1 ! ?i" using ih(1) ne(2) by (auto simp: touches_def)
  have "list_all (linked lib (set ((a # olds) @ [newest])) us') new"
    using ih(4) linked_mono [of "set (olds @ [newest])" "set ((a # olds) @ [newest])"] unfolding list_all_iff by auto
  moreover have "list_all (linked lib (set ((a # olds) @ [newest])) us') new1"
  proof (cases "older lib a newest")
    case True
    have "linked lib (set ((a # olds) @ [newest])) us' (hd new1)"
      unfolding linked_def using True ne(1) Cons.prems(3) i' i1 ih(2) n1
      by (intro exI [of _ a] exI [of _ newest]) (simp add: new1_def)
    with True show ?thesis by (simp add: new1_def)
  qed (simp add: new1_def)
  moreover have "accounted (snd ` set (a # olds)) us' (new1 @ new)"
    using ih(5) i' i1 by (auto simp: accounted_def new1_def)
  moreover have "touches (snd ` set (a # olds)) us us'" using touches_trans [OF t1 ih(1)] by simp
  ultimately show ?case using ih(2,3) n1 by (intro conjI exI [of _ "new1 @ new"]) simp_all
qed

lemma settleChain_ok:
  assumes "g \<noteq> []" "distinct (map snd g)" "snd ` set g \<subseteq> {..< length us}"
    "settleChain lib baseID generation now g (us, rs) = (us', rs')"
  shows "touches (snd ` set g) us us' \<and> (\<exists>new. rs' = rs @ new \<and> list_all (linked lib (set g) us') new
    \<and> (accounted (snd ` set g) us [] \<longrightarrow> accounted (snd ` set g) us' new))"
proof -
  let ?n = "last g" and ?s = "chainStart lib g (last g) (length g - 1)"
  let ?olds = "take (length g - 1 - ?s) (drop ?s g)"
  define us1 where "us1 = updateAt (snd ?n) (currentUnit now) us"
  have olds: "?olds = drop ?s (butlast g)" by (simp add: butlast_conv_take drop_take)
  have split: "g = butlast g @ [?n]" using assms(1) by simp
  then have parts: "g = (take ?s (butlast g) @ ?olds) @ [?n]" unfolding olds by simp
  have sub: "set (?olds @ [?n]) \<subseteq> set g" using parts by (metis (no_types, lifting) Un_iff set_append subsetI)
  have d: "distinct (map snd (?olds @ [?n]))"
    using assms(2) by (subst (asm) parts) auto
  have t1: "touches {snd ?n} us us1" by (simp add: us1_def touches_update)
  have n: "snd ?n < length us" using assms(3) last_in_set [OF assms(1)] by auto
  have len: "length us1 = length us" using t1 by (simp add: touches_def)
  have b: "snd ` set (?olds @ [?n]) \<subseteq> {..< length us1}" unfolding len using image_mono [OF sub, of snd] assms(3) by (rule subset_trans)
  have act: "uStatus (us1 ! snd ?n) = UnitActive" using n by (simp add: us1_def updateAt_def)
  have f: "fold (supersede lib baseID generation now ?n) ?olds (us1, rs) = (us', rs')"
    using assms(4) by (simp add: settleChain_def us1_def Let_def)
  from supersede_fold [OF d b act f] obtain new where
    s: "touches (snd ` set ?olds) us1 us'" "us' ! snd ?n = us1 ! snd ?n" "rs' = rs @ new"
      "list_all (linked lib (set (?olds @ [?n])) us') new" "accounted (snd ` set ?olds) us' new" by blast
  have "touches (snd ` set g) us us'" using touches_trans [OF t1 s(1)] by (rule touches_mono) (use sub in auto)
  moreover have "list_all (linked lib (set g) us') new"
    using s(4) linked_mono [OF sub] unfolding list_all_iff by blast
  moreover have "accounted (snd ` set g) us' new" if a: "accounted (snd ` set g) us []"
    unfolding accounted_def
  proof (intro ballI impI)
    fix i assume i: "i \<in> snd ` set g" "uStatus (us' ! i) = UnitSuperseded"
    show "\<exists>r \<in> set new. rlSubjectUnitID r = uID (us' ! i)"
    proof (cases "i \<in> snd ` set ?olds")
      case True
      with s(5) i(2) show ?thesis by (auto simp: accounted_def)
    next
      case False
      have "i \<noteq> snd ?n" using i(2) s(2) act by auto
      then have "us' ! i = us ! i" using False s(1) t1 by (auto simp: touches_def)
      with a i show ?thesis by (auto simp: accounted_def)
    qed
  qed
  ultimately show ?thesis using s(3) by blast
qed

lemma conflict_fold:
  "snd ` set ms \<subseteq> {..< length us} \<Longrightarrow> touches (snd ` set ms) us (fold (\<lambda>m. updateAt (snd m) (conflictUnit now)) ms us)
    \<and> (\<forall>i \<in> snd ` set ms. uStatus (fold (\<lambda>m. updateAt (snd m) (conflictUnit now)) ms us ! i) = UnitConflicted)"
proof (induction ms arbitrary: us)
  case (Cons m ms)
  let ?us = "updateAt (snd m) (conflictUnit now) us" and ?f = "fold (\<lambda>m. updateAt (snd m) (conflictUnit now)) ms"
  have t: "touches {snd m} us ?us" by (simp add: touches_update)
  then have "snd ` set ms \<subseteq> {..< length ?us}" using Cons.prems by (simp add: touches_def)
  from Cons.IH [OF this] have ih: "touches (snd ` set ms) ?us (?f ?us)" "\<forall>i \<in> snd ` set ms. uStatus (?f ?us ! i) = UnitConflicted"
    by blast+
  have "uStatus (?f ?us ! snd m) = UnitConflicted"
  proof (cases "snd m \<in> snd ` set ms")
    case False
    then have "?f ?us ! snd m = ?us ! snd m" using ih(1) by (simp add: touches_def)
    then show ?thesis using Cons.prems by (simp add: updateAt_def)
  qed (use ih(2) in blast)
  with touches_trans [OF t ih(1)] ih(2) show ?case by simp
qed (simp add: touches_refl)

lemma accounted_subset: "accounted I us rs \<Longrightarrow> J \<subseteq> I \<Longrightarrow> accounted J us rs"
  by (auto simp: accounted_def)

text \<open>What the treatment of a group establishes.\<close>

definition groupDone :: "Lib \<Rightarrow> member set \<Rightarrow> Unit list \<times> Relation list \<Rightarrow> Unit list \<times> Relation list \<Rightarrow> bool" where
  "groupDone lib M st st' \<longleftrightarrow> touches (snd ` M) (fst st) (fst st') \<and> (\<exists>new. snd st' = snd st @ new \<and> list_all (linked lib M (fst st')) new
    \<and> (accounted (snd ` M) (fst st) [] \<longrightarrow> accounted (snd ` M) (fst st') new))"

lemma reconcileGroup_ok:
  assumes "g \<noteq> []" "distinct (map snd g)" "snd ` set g \<subseteq> {..< length (fst st)}"
  shows "groupDone lib (set g) st (reconcileGroup lib baseID generation now g st)"
proof -
  let ?d = "latestDuplicates lib g" and ?n = "length g"
  let ?dup = "drop (?n - ?d) g" and ?rest = "take (?n - ?d) g"
  obtain us rs where st: "st = (us, rs)" by (cases st)
  show ?thesis
  proof (cases "1 < ?d")
    case False
    obtain us' rs' where r: "settleChain lib baseID generation now g (us, rs) = (us', rs')" by fastforce
    have "snd ` set g \<subseteq> {..< length us}" using assms(3) st by simp
    from settleChain_ok [OF assms(1,2) this r] False r show ?thesis by (simp add: groupDone_def reconcileGroup_def st Let_def)
  next
    case True
    have g: "set ?dup \<subseteq> set g" "set ?rest \<subseteq> set g" "set g = set ?rest \<union> set ?dup"
      by (auto dest: in_set_dropD in_set_takeD) (metis Un_iff append_take_drop_id set_append)
    define us1 where "us1 = fold (\<lambda>m. updateAt (snd m) (conflictUnit now)) ?dup us"
    have "snd ` set ?dup \<subseteq> {..< length us}" using g(1) assms(3) st by auto
    from conflict_fold [OF this, of now] have c: "touches (snd ` set ?dup) us us1" "\<forall>i \<in> snd ` set ?dup. uStatus (us1 ! i) = UnitConflicted"
      by (simp_all add: us1_def)
    have acc: "accounted (snd ` set g) us1 []" if a: "accounted (snd ` set g) us []"
      unfolding accounted_def
    proof (intro ballI impI)
      fix i assume i: "i \<in> snd ` set g" "uStatus (us1 ! i) = UnitSuperseded"
      then have "i \<notin> snd ` set ?dup" using c(2) by auto
      then have "us1 ! i = us ! i" using c(1) by (simp add: touches_def)
      with a i show "\<exists>r \<in> set []. rlSubjectUnitID r = uID (us1 ! i)" by (auto simp: accounted_def)
    qed
    show ?thesis
    proof (cases "?rest = []")
      case empty: True
      have "touches (snd ` set g) us us1" using c(1) by (rule touches_mono) (use g(1) in auto)
      moreover have "reconcileGroup lib baseID generation now g st = (us1, rs)"
        using True empty by (simp add: reconcileGroup_def us1_def st Let_def)
      ultimately show ?thesis using acc by (simp add: groupDone_def st)
    next
      case False
      obtain us' rs' where r: "settleChain lib baseID generation now ?rest (us1, rs) = (us', rs')" by fastforce
      have d: "distinct (map snd ?rest)" using assms(2) by (simp add: take_map [symmetric])
      have b: "snd ` set ?rest \<subseteq> {..< length us1}" using g(2) assms(3) st c(1) by (auto simp: touches_def)
      from settleChain_ok [OF False d b r] obtain new where
        s: "touches (snd ` set ?rest) us1 us'" "rs' = rs @ new" "list_all (linked lib (set ?rest) us') new"
          "accounted (snd ` set ?rest) us1 [] \<longrightarrow> accounted (snd ` set ?rest) us' new" by blast
      have disj: "snd ` set ?rest \<inter> snd ` set ?dup = {}"
      proof -
        have "set (map snd ?rest) \<inter> set (map snd ?dup) = {}"
          using assms(2) unfolding take_map [symmetric] drop_map [symmetric] by (intro set_take_disj_set_drop_if_distinct) auto
        then show ?thesis by simp
      qed
      have "touches (snd ` set g) us us'" using touches_trans [OF c(1) s(1)] by (rule touches_mono) (use g in auto)
      moreover have "list_all (linked lib (set g) us') new" using s(3) linked_mono [OF g(2)] unfolding list_all_iff by blast
      moreover have "accounted (snd ` set g) us' new" if a: "accounted (snd ` set g) us []"
        unfolding accounted_def
      proof (intro ballI impI)
        fix i assume i: "i \<in> snd ` set g" "uStatus (us' ! i) = UnitSuperseded"
        have "i \<in> snd ` set ?rest"
        proof (rule ccontr)
          assume n: "i \<notin> snd ` set ?rest"
          then have "i \<in> snd ` set ?dup" using i(1) unfolding g(3) image_Un by simp
          moreover have "us' ! i = us1 ! i" using n s(1) by (simp add: touches_def)
          ultimately show False using c(2) i(2) by auto
        qed
        moreover have "accounted (snd ` set ?rest) us1 []" by (rule accounted_subset [OF acc [OF a] image_mono [OF g(2)]])
        ultimately show "\<exists>r \<in> set new. rlSubjectUnitID r = uID (us' ! i)" using s(4) i(2) by (auto simp: accounted_def)
      qed
      moreover have "reconcileGroup lib baseID generation now g st = (us', rs')"
        using True False r by (simp add: reconcileGroup_def us1_def st Let_def)
      ultimately show ?thesis using s(2) by (simp add: groupDone_def st)
    qed
  qed
qed

subsection \<open>All groups\<close>

lemma linked_keep: "linked lib M us r \<Longrightarrow> touches J us us' \<Longrightarrow> J \<inter> snd ` M = {} \<Longrightarrow> linked lib M us' r"
proof -
  assume l: "linked lib M us r" and t: "touches J us us'" and d: "J \<inter> snd ` M = {}"
  then have same: "us' ! snd a = us ! snd a" if "a \<in> M" for a using that by (auto simp: touches_def)
  from l show ?thesis unfolding linked_def by (metis same)
qed

lemma accounted_keep: "accounted I us rs \<Longrightarrow> touches J us us' \<Longrightarrow> J \<inter> I = {} \<Longrightarrow> accounted I us' (rs @ later)"
proof -
  assume a: "accounted I us rs" and t: "touches J us us'" and d: "J \<inter> I = {}"
  then have same: "us' ! i = us ! i" if "i \<in> I" for i using that by (auto simp: touches_def)
  from a show ?thesis unfolding accounted_def using same by auto
qed

lemma groups_fold:
  assumes "\<And>s. s \<in> set ss \<Longrightarrow> G s \<noteq> [] \<and> distinct (map snd (G s)) \<and> snd ` set (G s) \<subseteq> {..< length (fst st)}"
    "\<And>s t. s \<in> set ss \<Longrightarrow> t \<in> set ss \<Longrightarrow> s \<noteq> t \<Longrightarrow> snd ` set (G s) \<inter> snd ` set (G t) = {}" "distinct ss"
    "fold (\<lambda>s. reconcileGroup lib baseID generation now (G s)) ss st = (us', rs')" "snd st = []"
  shows "touches (\<Union>s \<in> set ss. snd ` set (G s)) (fst st) us' \<and> (\<forall>r \<in> set rs'. \<exists>s \<in> set ss. linked lib (set (G s)) us' r)
    \<and> ((\<forall>s \<in> set ss. accounted (snd ` set (G s)) (fst st) []) \<longrightarrow> accounted (\<Union>s \<in> set ss. snd ` set (G s)) us' rs')"
  using assms
proof (induction ss arbitrary: us' rs' rule: rev_induct)
  case Nil
  then show ?case by (auto simp: touches_refl accounted_def)
next
  case (snoc s ss)
  obtain us1 rs1 where f: "fold (\<lambda>s. reconcileGroup lib baseID generation now (G s)) ss st = (us1, rs1)" by fastforce
  let ?I = "\<lambda>s. snd ` set (G s)"
  have ih: "touches (\<Union>s \<in> set ss. ?I s) (fst st) us1" "\<forall>r \<in> set rs1. \<exists>s \<in> set ss. linked lib (set (G s)) us1 r"
    "(\<forall>s \<in> set ss. accounted (?I s) (fst st) []) \<longrightarrow> accounted (\<Union>s \<in> set ss. ?I s) us1 rs1"
    using snoc.IH [OF _ _ _ f snoc.prems(5)] snoc.prems(1,2,3) by auto
  have g: "reconcileGroup lib baseID generation now (G s) (us1, rs1) = (us', rs')" using snoc.prems(4) f by simp
  have len: "length us1 = length (fst st)" using ih(1) by (simp add: touches_def)
  have "G s \<noteq> []" "distinct (map snd (G s))" "?I s \<subseteq> {..< length (fst (us1, rs1))}" using snoc.prems(1) [of s] len by simp_all
  from reconcileGroup_ok [OF this, of lib baseID generation now] g obtain new where
    d: "touches (?I s) us1 us'" "rs' = rs1 @ new" "list_all (linked lib (set (G s)) us') new"
      "accounted (?I s) us1 [] \<longrightarrow> accounted (?I s) us' new" by (auto simp: groupDone_def)
  have disj: "?I s \<inter> ?I t = {}" if "t \<in> set ss" for t using snoc.prems(2) [of s t] snoc.prems(3) that by auto
  have "touches (\<Union>s \<in> set (ss @ [s]). ?I s) (fst st) us'" using touches_trans [OF ih(1) d(1)] by (rule touches_mono) auto
  moreover have "\<exists>t \<in> set (ss @ [s]). linked lib (set (G t)) us' r" if "r \<in> set rs'" for r
  proof (cases "r \<in> set new")
    case True
    with d(3) show ?thesis by (auto simp: list_all_iff)
  next
    case False
    then have "r \<in> set rs1" using that d(2) by simp
    with ih(2) obtain t where t: "t \<in> set ss" "linked lib (set (G t)) us1 r" by blast
    from linked_keep [OF t(2) d(1) disj [OF t(1)]] t(1) show ?thesis by auto
  qed
  moreover have "accounted (\<Union>s \<in> set (ss @ [s]). ?I s) us' rs'" if none: "\<forall>s \<in> set (ss @ [s]). accounted (?I s) (fst st) []"
  proof -
    have a: "accounted (\<Union>s \<in> set ss. ?I s) us' rs'"
      unfolding d(2) by (rule accounted_keep [OF _ d(1)]) (use disj ih(3) none in auto)
    have "accounted (?I s) us1 ([] @ [])"
      by (rule accounted_keep [OF _ ih(1)]) (use disj none in auto)
    then have "accounted (?I s) us' new" using d(4) by simp
    then have "accounted (?I s) us' rs'" unfolding d(2) accounted_def by auto
    with a show ?thesis unfolding accounted_def by auto
  qed
  ultimately show ?case by blast
qed

lemma map_filter_indices: "map snd (List.map_filter (\<lambda>i. map_option (\<lambda>v. (v, i)) (f i)) xs) = filter (\<lambda>i. f i \<noteq> None) xs"
  by (induction xs) (auto simp: List.map_filter_def)

definition memberVersion :: "Lib \<Rightarrow> Unit list \<Rightarrow> string \<Rightarrow> nat \<Rightarrow> string option" where
  "memberVersion lib us scope i = (case tagFact lib (us ! i) of None \<Rightarrow> None | Some (s, v, _) \<Rightarrow> if s = scope then Some v else None)"

lemma memberVersion_iff: "memberVersion lib us scope i \<noteq> None \<longleftrightarrow> map_option fst (tagFact lib (us ! i)) = Some scope"
  by (cases "tagFact lib (us ! i)") (auto simp: memberVersion_def split: if_splits)

lemma scopeMembers_eq: "scopeMembers lib us scope = List.map_filter (\<lambda>i. map_option (\<lambda>v. (v, i)) (memberVersion lib us scope i)) [0 ..< length us]"
  unfolding scopeMembers_def by (rule arg_cong [of _ _ "\<lambda>f. List.map_filter f [0 ..< length us]"])
    (auto simp: memberVersion_def fun_eq_iff split: option.splits prod.splits)

lemma scopeMembers_indices: "map snd (scopeMembers lib us scope) = filter (\<lambda>i. memberVersion lib us scope i \<noteq> None) [0 ..< length us]"
  unfolding scopeMembers_eq by (rule map_filter_indices)

lemma scopeMembers_set: "snd ` set (scopeMembers lib us scope) = {i. i < length us \<and> map_option fst (tagFact lib (us ! i)) = Some scope}"
proof -
  have "snd ` set (scopeMembers lib us scope) = set (map snd (scopeMembers lib us scope))" by simp
  also have "\<dots> = {i. i < length us \<and> memberVersion lib us scope i \<noteq> None}" unfolding scopeMembers_indices by auto
  finally show ?thesis unfolding memberVersion_iff .
qed

lemma scopesOf_members: "scope \<in> set (scopesOf lib us) \<longleftrightarrow> (\<exists>i < length us. map_option fst (tagFact lib (us ! i)) = Some scope)"
proof -
  have "set (List.map_filter f xs) = {y. \<exists>x \<in> set xs. f x = Some y}" for f :: "Unit \<Rightarrow> string option" and xs
    by (induction xs) (auto simp: List.map_filter_def)
  then have "set (scopesOf lib us) = {s. \<exists>u \<in> set us. map_option fst (tagFact lib u) = Some s}" by (simp add: scopesOf_def)
  moreover have "(\<exists>u \<in> set us. P u) \<longleftrightarrow> (\<exists>i < length us. P (us ! i))" for P
    using list_ex_iff [of P us] list_ex_length [of P us] by simp
  ultimately show ?thesis by simp
qed

lemma reconcile_ok:
  assumes sorter: "\<And>lt xs. mset (sortSlice lt xs) = mset xs"
    and r: "reconcileTemporalUnits lib sortSlice us baseID generation now = (out, rs)"
  shows "length out = length us \<and> map core out = map core us
    \<and> (\<forall>r \<in> set rs. \<exists>scope. linked lib (set (scopeMembers lib us scope)) out r)
    \<and> (list_all (\<lambda>u. uStatus u \<noteq> UnitSuperseded) us \<longrightarrow>
        (\<forall>i < length us. uStatus (out ! i) = UnitSuperseded \<longrightarrow> (\<exists>r \<in> set rs. rlSubjectUnitID r = uID (out ! i))))"
proof -
  let ?tags = "map (tagged lib) us" and ?G = "\<lambda>s. sortSlice (memberLess lib (map (tagged lib) us)) (scopeMembers lib us s)"
  obtain us' rs' where f: "fold (\<lambda>s. reconcileGroup lib baseID generation now (?G s)) (scopesOf lib us) (?tags, []) = (us', rs')"
    by fastforce
  have o: "out = us'" "rs = sort_key rlID rs'" using r f by (simp_all add: reconcileTemporalUnits_def)
  have G: "mset (?G s) = mset (scopeMembers lib us s)" for s by (rule sorter)
  then have Gset: "set (?G s) = set (scopeMembers lib us s)" for s by (rule mset_eq_setD)
  have Gidx: "snd ` set (?G s) = {i. i < length us \<and> map_option fst (tagFact lib (us ! i)) = Some s}" for s
    unfolding Gset by (rule scopeMembers_set)
  have "mset (map snd (?G s)) = mset (map snd (scopeMembers lib us s))" for s using G by simp
  then have Gd: "distinct (map snd (?G s))" for s
    using mset_eq_imp_distinct_iff [of "map snd (?G s)" "map snd (scopeMembers lib us s)"] by (simp add: scopeMembers_indices)
  have Gne: "?G s \<noteq> []" if "s \<in> set (scopesOf lib us)" for s
  proof -
    have "snd ` set (?G s) \<noteq> {}" using that unfolding Gidx scopesOf_members by blast
    then show ?thesis by auto
  qed
  have disj: "snd ` set (?G s) \<inter> snd ` set (?G t) = {}" if "s \<noteq> t" for s t unfolding Gidx using that by auto
  have b: "snd ` set (?G s) \<subseteq> {..< length (fst (?tags, []))}" for s unfolding Gidx by auto
  let ?I = "\<Union>s \<in> set (scopesOf lib us). snd ` set (?G s)"
  have pre: "s \<in> set (scopesOf lib us) \<Longrightarrow> ?G s \<noteq> [] \<and> distinct (map snd (?G s)) \<and> snd ` set (?G s) \<subseteq> {..< length (fst (?tags, []))}" for s
    using Gne Gd b by blast
  have "distinct (scopesOf lib us)" by (simp add: scopesOf_def)
  from groups_fold [OF pre disj this f] have
    t: "touches ?I ?tags us'" and l: "\<forall>r \<in> set rs'. \<exists>s \<in> set (scopesOf lib us). linked lib (set (?G s)) us' r" and
    acc: "(\<forall>s \<in> set (scopesOf lib us). accounted (snd ` set (?G s)) ?tags []) \<longrightarrow> accounted ?I us' rs'" by simp_all
  have "\<exists>r \<in> set rs. rlSubjectUnitID r = uID (out ! i)"
    if none: "list_all (\<lambda>u. uStatus u \<noteq> UnitSuperseded) us" and i: "i < length us" "uStatus (out ! i) = UnitSuperseded" for i
  proof -
    have "accounted (snd ` set (?G s)) ?tags []" for s
      using none unfolding accounted_def Gidx by (auto simp: list_all_length)
    with acc have a: "accounted ?I us' rs'" by blast
    have "i \<in> ?I"
    proof (rule ccontr)
      assume "i \<notin> ?I"
      then have "us' ! i = ?tags ! i" using t unfolding touches_def by blast
      with i none show False by (simp add: o list_all_length)
    qed
    with a i(2) show ?thesis unfolding accounted_def o by auto
  qed
  moreover have "map core us' = map core us" using t by (simp add: touches_def comp_def)
  moreover have "length us' = length us" using t by (simp add: touches_def)
  ultimately show ?thesis using l unfolding Gset o by auto
qed

text \<open>
  C33: supersession is sound for every outcome of the sort: only status, successor, metadata and times of
  units change; each relation returned links a fact that is now superseded to an active fact of the same
  scope and a newer version, which it names as its successor, and carries the evidence of both; and a fact that was not superseded before is
  only superseded with such a relation.
\<close>

theorem supersession_sound:
  assumes "\<And>lt xs. mset (sortSlice lt xs) = mset xs"
    "reconcileTemporalUnits lib sortSlice us baseID generation now = (out, rs)"
  shows "map core out = map core us
    \<and> (\<forall>r \<in> set rs. \<exists>scope. linked lib (set (scopeMembers lib us scope)) out r)
    \<and> (list_all (\<lambda>u. uStatus u \<noteq> UnitSuperseded) us \<longrightarrow>
        (\<forall>i < length us. uStatus (out ! i) = UnitSuperseded \<longrightarrow> (\<exists>r \<in> set rs. rlSubjectUnitID r = uID (out ! i))))"
  using reconcile_ok [OF assms] by blast

subsection \<open>Concrete facts\<close>

definition demoLib :: Lib where
  "demoLib = \<lparr>lbLower = map asciiLower, lbEqualFold = (\<lambda>a b. map asciiLower a = map asciiLower b), lbIsFloat = (\<lambda>s. s \<noteq> []),
     lbTime = (\<lambda>_ _. None), lbSha = rev\<rparr>"

definition versioned :: "string \<Rightarrow> string \<Rightarrow> Unit" where
  "versioned key content = \<lparr>uID = key, uBaseID = ''b'', uGeneration = 1, uType = UnitFact,
     uTitle = ''t'', uCanonicalKey = key, uContent = content, uAliases = [], uParentUnitID = [], uConfidence = 1/2, uStatus = UnitActive,
     uValidFrom = 0, uValidTo = 0, uSupersededBy = [], uVersion = [], uPublishedAt = 0, uEffectiveAt = 0, uSourceAuthority = 0,
     uMetadata = Map.empty, uSources = [], uDerivedFrom = [], uCreatedAt = 1, uUpdatedAt = 1\<rparr>"

lemma insertBack_mset: "mset (insertBack lt x xs) = add_mset x (mset xs)"
  by (induction xs) auto

lemma insertionSort_mset: "mset (insertionSort lt xs) = mset xs"
proof -
  have "mset (fold (insertBack lt) xs ys) = mset xs + mset ys" for ys
    by (induction xs arbitrary: ys) (auto simp: insertBack_mset)
  then show ?thesis by (simp add: insertionSort_def)
qed

lemma supersession_sound_witness:
  "\<exists>out rs. reconcileTemporalUnits demoLib insertionSort [versioned ''z'' ''Version 1.2 supports foo 3'', versioned ''d'' ''Version 1.3 supports foo 3''] ''b'' 1 5 = (out, rs)
    \<and> map core out = map core [versioned ''z'' ''Version 1.2 supports foo 3'', versioned ''d'' ''Version 1.3 supports foo 3'']"
proof -
  obtain out rs where r: "reconcileTemporalUnits demoLib insertionSort
      [versioned ''z'' ''Version 1.2 supports foo 3'', versioned ''d'' ''Version 1.3 supports foo 3''] ''b'' 1 5 = (out, rs)" by fastforce
  from supersession_sound [OF insertionSort_mset r] r show ?thesis by blast
qed

text \<open>
  The comparison of members is no order, since versions that cannot be compared fall back to the key: of
  the same three facts, the version 1.3 or the version 1.2 ends up as the newest, depending on the order in
  which the sort meets them.
\<close>

definition demoGroup :: "Unit list" where
  "demoGroup = [versioned ''z'' ''version 1.2 uses b'', versioned ''m'' ''version 2 uses b'', versioned ''d'' ''version 1.3 uses b'']"

lemma newest_depends_on_order:
  "last (insertionSort (memberLess demoLib demoGroup) [(''1.2'', 0), (''2'', 1), (''1.3'', 2)]) = (''1.3'', 2)"
  "last (insertionSort (memberLess demoLib demoGroup) [(''2'', 1), (''1.3'', 2), (''1.2'', 0)]) = (''1.2'', 0)"
  "older demoLib (''1.2'', 0) (''1.3'', 2)"
  by code_simp+

end
