(* ===== verification/SemMergeProperties.thy ===== *)
theory SemMergeProperties
  imports SemMerge SemReconcileProperties
begin

text \<open>
  Incremental recompilation: the repair of provenance ends and computes the least set of units that lose all
  support, whatever the order of the map; and no evidence of a changed or deleted document survives from the
  previous generation.
\<close>

subsection \<open>Repairing provenance\<close>

text \<open>Units that must go: those dropped already, and those without evidence whose every origin goes.\<close>

inductive_set doomed :: "Unit set \<Rightarrow> string set \<Rightarrow> string set" for us dropped where
  dropped: "i \<in> dropped \<Longrightarrow> i \<in> doomed us dropped"
| unsupported: "u \<in> us \<Longrightarrow> uSources u = [] \<Longrightarrow> (\<And>t. t \<in> set (uDerivedFrom u) \<Longrightarrow> t \<in> doomed us dropped) \<Longrightarrow> uID u \<in> doomed us dropped"

lemma withoutRefs_simps [simp]: "uID (withoutRefs d u) = uID u" "uSources (withoutRefs d u) = uSources u"
  "uDerivedFrom (withoutRefs d u) = filter (\<lambda>t. t \<notin> d) (uDerivedFrom u)"
  by (simp_all add: withoutRefs_def Let_def)

definition keptRef :: "string set \<Rightarrow> string \<Rightarrow> string" where
  "keptRef d t = (if t \<in> d then [] else t)"

definition keptStatus :: "string set \<Rightarrow> string \<Rightarrow> string \<Rightarrow> string" where
  "keptStatus d t s = (if t \<noteq> [] \<and> t \<in> d \<and> s = UnitSuperseded then UnitActive else s)"

lemma withoutRefs_eq: "withoutRefs d u = u\<lparr>uDerivedFrom := filter (\<lambda>t. t \<notin> d) (uDerivedFrom u), uParentUnitID := keptRef d (uParentUnitID u),
    uSupersededBy := keptRef d (uSupersededBy u), uStatus := keptStatus d (uSupersededBy u) (uStatus u)\<rparr>"
proof -
  have p: "v\<lparr>uParentUnitID := uParentUnitID v\<rparr> = v" for v :: Unit by simp
  have s: "v\<lparr>uSupersededBy := uSupersededBy v, uStatus := uStatus v\<rparr> = v" for v :: Unit by simp
  have a: "(if uParentUnitID v \<noteq> [] \<and> uParentUnitID v \<in> d then v\<lparr>uParentUnitID := []\<rparr> else v)
     = v\<lparr>uParentUnitID := keptRef d (uParentUnitID v)\<rparr>" for v :: Unit
    using p [of v] by (auto simp: keptRef_def)
  have b: "(if uSupersededBy v \<noteq> [] \<and> uSupersededBy v \<in> d
     then v\<lparr>uSupersededBy := [], uStatus := (if uStatus v = UnitSuperseded then UnitActive else uStatus v)\<rparr> else v)
     = v\<lparr>uSupersededBy := keptRef d (uSupersededBy v), uStatus := keptStatus d (uSupersededBy v) (uStatus v)\<rparr>" for v :: Unit
    using s [of v] by (auto simp: keptRef_def keptStatus_def)
  show ?thesis unfolding withoutRefs_def Let_def a b by simp
qed

lemma keptRef_twice: "keptRef e (keptRef d t) = keptRef (d \<union> e) t"
  by (auto simp: keptRef_def)

lemma keptStatus_twice: "keptStatus e (keptRef d t) (keptStatus d t s) = keptStatus (d \<union> e) t s"
  by (auto simp: keptRef_def keptStatus_def)

lemma withoutRefs_twice: "withoutRefs e (withoutRefs d u) = withoutRefs (d \<union> e) u"
proof -
  have f: "filter (\<lambda>t. t \<notin> e) (filter (\<lambda>t. t \<notin> d) xs) = filter (\<lambda>t. t \<notin> d \<union> e) xs" for xs :: "string list"
    by (simp add: conj_commute)
  show ?thesis unfolding withoutRefs_eq using f [of "uDerivedFrom u"]
    by (simp add: keptRef_twice keptStatus_twice)
qed

lemma refsChanged_False: "\<not> refsChanged u (withoutRefs d u) \<Longrightarrow> withoutRefs d u = u"
proof -
  assume n: "\<not> refsChanged u (withoutRefs d u)"
  have "length (filter (\<lambda>t. t \<notin> d) (uDerivedFrom u)) = length (uDerivedFrom u)" using n by (simp add: refsChanged_def)
  then have "filter (\<lambda>t. t \<notin> d) (uDerivedFrom u) = uDerivedFrom u"
    by (metis filter_True length_filter_less less_irrefl)
  moreover have "keptRef d (uParentUnitID u) = uParentUnitID u" "keptRef d (uSupersededBy u) = uSupersededBy u"
    using n by (simp_all add: refsChanged_def withoutRefs_eq)
  moreover from this(2) have "keptStatus d (uSupersededBy u) (uStatus u) = uStatus u"
    by (auto simp: keptRef_def keptStatus_def split: if_splits)
  ultimately show ?thesis unfolding withoutRefs_eq by simp
qed

lemma refCount_withoutRefs: "refCount (withoutRefs d u) \<le> refCount u"
  "refsChanged u (withoutRefs d u) \<Longrightarrow> refCount (withoutRefs d u) < refCount u"
  "0 < refCount u"
proof -
  have l: "length (filter (\<lambda>t. t \<notin> d) (uDerivedFrom u)) \<le> length (uDerivedFrom u)" by simp
  have k: "(if keptRef d t = [] then 0 else 1) \<le> (if t = [] then 0 else (1 :: nat))"
    "keptRef d t \<noteq> t \<Longrightarrow> (if keptRef d t = [] then 0 else 1) < (if t = [] then 0 else (1 :: nat))" for t
    by (auto simp: keptRef_def split: if_splits)
  have c: "refCount (withoutRefs d u) = Suc (length (filter (\<lambda>t. t \<notin> d) (uDerivedFrom u))
      + (if keptRef d (uParentUnitID u) = [] then 0 else 1) + (if keptRef d (uSupersededBy u) = [] then 0 else 1))"
    by (simp add: refCount_def withoutRefs_eq)
  show "refCount (withoutRefs d u) \<le> refCount u"
    unfolding c unfolding refCount_def using l k(1) by (meson Suc_le_mono add_mono)
  assume "refsChanged u (withoutRefs d u)"
  then consider "length (filter (\<lambda>t. t \<notin> d) (uDerivedFrom u)) \<noteq> length (uDerivedFrom u)" | "keptRef d (uParentUnitID u) \<noteq> uParentUnitID u"
    | "keptRef d (uSupersededBy u) \<noteq> uSupersededBy u" by (auto simp: refsChanged_def withoutRefs_eq)
  then show "refCount (withoutRefs d u) < refCount u"
    unfolding c unfolding refCount_def
    by cases (use l k(1) [of "uParentUnitID u"] k(1) [of "uSupersededBy u"] k(2) [of "uParentUnitID u"] k(2) [of "uSupersededBy u"] in linarith)+
next
  show "0 < refCount u" by (simp add: refCount_def)
qed

text \<open>A unit of the original list, without some of the references dropped so far.\<close>

definition partly :: "Unit set \<Rightarrow> string set \<Rightarrow> Unit \<Rightarrow> bool" where
  "partly us dropped v \<longleftrightarrow> (\<exists>u \<in> us. \<exists>d \<subseteq> dropped. v = withoutRefs d u)"

lemma partlyE: "partly us d v \<Longrightarrow> (\<And>u x. u \<in> us \<Longrightarrow> x \<subseteq> d \<Longrightarrow> v = withoutRefs x u \<Longrightarrow> thesis) \<Longrightarrow> thesis"
  unfolding partly_def by blast

lemma partly_mono: "partly us d v \<Longrightarrow> d \<subseteq> e \<Longrightarrow> partly us e v"
  unfolding partly_def by blast

lemma partly_withoutRefs: "partly us d v \<Longrightarrow> partly us d (withoutRefs d v)"
  unfolding partly_def using withoutRefs_twice by (metis Un_least order_refl)

lemma fixPass_ok:
  assumes "list_all (partly us d) cur" "d \<subseteq> doomed us d0" "distinct (map uID cur)" "fixPass d cur = (cur', d', changed)"
  shows "d' \<subseteq> doomed us d0 \<and> list_all (partly us d') cur' \<and> distinct (map uID cur')
    \<and> uID ` set cur' \<subseteq> uID ` set cur \<and> d' = d \<union> (uID ` set cur - uID ` set cur') \<and> d \<subseteq> d'
    \<and> (changed \<longrightarrow> sum_list (map refCount cur') < sum_list (map refCount cur))
    \<and> (\<not> changed \<longrightarrow> cur' = cur \<and> d' = d \<and> list_all (\<lambda>v. withoutRefs d v = v \<and> (uSources v \<noteq> [] \<or> uDerivedFrom v \<noteq> [])) cur)
    \<and> sum_list (map refCount cur') \<le> sum_list (map refCount cur)"
  using assms
proof (induction d cur arbitrary: cur' d' changed rule: fixPass.induct)
  case (2 d v cur)
  let ?next = "withoutRefs d v"
  have v: "partly us d v" "list_all (partly us d) cur" "uID v \<notin> uID ` set cur" "distinct (map uID cur)" using 2(3,5) by simp_all
  show ?case
  proof (cases "uSources ?next = [] \<and> uDerivedFrom ?next = []")
    case True
    obtain c' e ch where p: "fixPass (insert (uID v) d) cur = (c', e, ch)" by (cases "fixPass (insert (uID v) d) cur") auto
    have r: "cur' = c'" "d' = e" "changed" using 2(6) True p by (simp_all add: Let_def)
    obtain u x where u: "u \<in> us" "x \<subseteq> d" "v = withoutRefs x u" using v(1) by (rule partlyE)
    have "uID u \<in> doomed us d0"
    proof (rule unsupported [OF u(1)])
      show "uSources u = []" using True u(3) by simp
      show "t \<in> doomed us d0" if "t \<in> set (uDerivedFrom u)" for t
      proof -
        have "t \<in> d" using True that u(2,3) by (auto simp: filter_empty_conv)
        with 2(4) show ?thesis by auto
      qed
    qed
    then have sub: "insert (uID v) d \<subseteq> doomed us d0" using 2(4) u(3) by simp
    have "list_all (partly us (insert (uID v) d)) cur" using v(2) partly_mono unfolding list_all_iff by blast
    note ih0 = 2(1) [OF refl True this sub v(4) p]
    have ih: "e \<subseteq> doomed us d0" "list_all (partly us e) c'" "distinct (map uID c')" "uID ` set c' \<subseteq> uID ` set cur"
        "e = insert (uID v) d \<union> (uID ` set cur - uID ` set c')" "sum_list (map refCount c') \<le> sum_list (map refCount cur)" "insert (uID v) d \<subseteq> e"
      by (insert ih0) (elim conjE, assumption)+
    have "d' = d \<union> (uID ` set (v # cur) - uID ` set cur')" using ih(4,5) r v(3) by auto
    moreover have "sum_list (map refCount cur') < sum_list (map refCount (v # cur))"
      using ih(6) r(1) refCount_withoutRefs(3) [of v] by simp
    ultimately show ?thesis using ih r by auto
  next
    case False
    obtain c' e ch where p: "fixPass d cur = (c', e, ch)" by (cases "fixPass d cur") auto
    let ?w = "if refsChanged v ?next then ?next else v"
    have "fixPass d (v # cur) = (?w # c', e, refsChanged v ?next \<or> ch)"
      unfolding fixPass.simps Let_def if_not_P [OF False] p by simp
    then have r: "cur' = ?w # c'" "d' = e" "changed = (refsChanged v ?next \<or> ch)" using 2(6) by simp_all
    note ih0 = 2(2) [OF refl False v(2) 2(4) v(4) p]
    have ih: "e \<subseteq> doomed us d0" "list_all (partly us e) c'" "distinct (map uID c')" "uID ` set c' \<subseteq> uID ` set cur"
        "e = d \<union> (uID ` set cur - uID ` set c')" "d \<subseteq> e" "ch \<longrightarrow> sum_list (map refCount c') < sum_list (map refCount cur)"
        "\<not> ch \<longrightarrow> c' = cur \<and> e = d \<and> list_all (\<lambda>v. withoutRefs d v = v \<and> (uSources v \<noteq> [] \<or> uDerivedFrom v \<noteq> [])) cur"
        "sum_list (map refCount c') \<le> sum_list (map refCount cur)"
      by (insert ih0) (elim conjE, assumption)+
    have w: "?w = ?next" using refsChanged_False [of v d] by auto
    have pw: "partly us e ?w" unfolding w using partly_mono [OF partly_withoutRefs [OF v(1)] ih(6)] .
    have id: "uID ?w = uID v" by simp
    have "uID ?w \<notin> uID ` set c'" unfolding id using ih(4) v(3) by auto
    then have "distinct (map uID cur')" using ih(3) r(1) by simp
    moreover have "uID ` set cur' = insert (uID v) (uID ` set c')" using r(1) id by simp
    moreover have "d' = d \<union> (uID ` set (v # cur) - insert (uID v) (uID ` set c'))" using ih(5) r(2) v(3) by auto
    moreover have "list_all (partly us d') cur'" using pw ih(2) r(1,2) by simp
    moreover have "sum_list (map refCount cur') \<le> sum_list (map refCount (v # cur))"
      using ih(9) refCount_withoutRefs(1) [of d v] r(1) w by simp
    moreover have "sum_list (map refCount cur') < sum_list (map refCount (v # cur))" if changed
      using that r(1,3) ih(7,9) refCount_withoutRefs(1) [of d v] refCount_withoutRefs(2) [of v d] w by (cases ch) auto
    moreover have "cur' = v # cur \<and> d' = d \<and> list_all (\<lambda>v. withoutRefs d v = v \<and> (uSources v \<noteq> [] \<or> uDerivedFrom v \<noteq> [])) (v # cur)" if "\<not> changed"
      using that r ih(8) refsChanged_False [of v d] False by auto
    ultimately show ?thesis using ih(1,4,6) r(2) by auto
  qed
qed auto

lemma fixLoop_exact:
  assumes "list_all (partly (set us) d) cur" "d0 \<subseteq> d" "d \<subseteq> doomed (set us) d0" "distinct (map uID cur)" "distinct (map uID us)"
    "uID ` set cur = uID ` set us - d" "\<And>xs. mset (shuffle xs) = mset xs" "sum_list (map refCount cur) < n"
  shows "\<exists>out. fixLoop n shuffle d cur = Some out \<and> distinct (map uID out)
    \<and> set out = withoutRefs (doomed (set us) d0) ` {u \<in> set us. uID u \<notin> doomed (set us) d0}"
  using assms(1-4,6,8)
proof (induction n arbitrary: d cur)
  case (Suc n)
  let ?D = "doomed (set us) d0"
  have s: "set (shuffle cur) = set cur" using assms(7) by (rule mset_eq_setD)
  have ms: "mset (map uID (shuffle cur)) = mset (map uID cur)" "mset (map refCount (shuffle cur)) = mset (map refCount cur)"
    using assms(7) by simp_all
  have sd: "distinct (map uID (shuffle cur))" using ms(1) Suc.prems(4) by (metis mset_eq_imp_distinct_iff)
  have ss: "sum_list (map refCount (shuffle cur)) = sum_list (map refCount cur)" using ms(2) by (metis sum_mset_sum_list)
  have sp: "list_all (partly (set us) d) (shuffle cur)" using Suc.prems(1) s by (simp add: list_all_iff)
  obtain cur' d' ch where p: "fixPass d (shuffle cur) = (cur', d', ch)" by (cases "fixPass d (shuffle cur)") auto
  note ok = fixPass_ok [OF sp Suc.prems(3) sd p]
  show ?case
  proof (cases ch)
    case True
    have "uID ` set cur' = uID ` set us - d'" using ok Suc.prems(5) s by auto
    moreover have "sum_list (map refCount cur') < n" using ok True ss Suc.prems(6) by simp
    moreover have "d0 \<subseteq> d'" using ok Suc.prems(2) by blast
    ultimately have "\<exists>out. fixLoop n shuffle d' cur' = Some out \<and> distinct (map uID out) \<and> set out = withoutRefs ?D ` {u \<in> set us. uID u \<notin> ?D}"
      using Suc.IH [of d' cur'] ok by blast
    with p True show ?thesis by simp
  next
    case False
    then have c: "cur' = shuffle cur" "d' = d"
      "list_all (\<lambda>v. withoutRefs d v = v \<and> (uSources v \<noteq> [] \<or> uDerivedFrom v \<noteq> [])) (shuffle cur)" using ok by simp_all
    have form: "\<exists>u \<in> set us. v = withoutRefs d u" if "v \<in> set cur" for v
    proof -
      have "partly (set us) d v" using Suc.prems(1) that by (simp add: list_all_iff)
      then obtain u x where u: "u \<in> set us" "x \<subseteq> d" "v = withoutRefs x u" by (rule partlyE)
      have "v = withoutRefs d v" using c(3) that s by (simp add: list_all_iff)
      also have "\<dots> = withoutRefs (x \<union> d) u" by (simp add: u(3) withoutRefs_twice)
      finally show ?thesis using u(1,2) by (auto simp: Un_absorb1)
    qed
    have find: "withoutRefs d u \<in> set cur" if "u \<in> set us" "uID u \<notin> d" for u
    proof -
      have "uID u \<in> uID ` set cur" using that Suc.prems(5) by auto
      then obtain v where v: "v \<in> set cur" "uID v = uID u" by auto
      obtain w where w: "w \<in> set us" "v = withoutRefs d w" using form [OF v(1)] by blast
      have "w = u" using assms(5) that(1) w v(2) inj_onD [of uID "set us" w u] by (simp add: distinct_map)
      with w v show ?thesis by simp
    qed
    have "?D \<subseteq> d"
    proof
      fix i assume "i \<in> ?D"
      then show "i \<in> d"
      proof induction
        case (unsupported u)
        show ?case
        proof (rule ccontr)
          assume "uID u \<notin> d"
          from find [OF unsupported(1) this] c(3) s have "uSources u \<noteq> [] \<or> filter (\<lambda>t. t \<notin> d) (uDerivedFrom u) \<noteq> []"
            by (auto simp: list_all_iff)
          with unsupported(2,4) show False by (auto simp: filter_empty_conv)
        qed
      qed (use Suc.prems(2) in auto)
    qed
    with Suc.prems(3) have D: "?D = d" by auto
    have "set cur = withoutRefs d ` {u \<in> set us. uID u \<notin> d}"
    proof (intro equalityI subsetI)
      fix v assume v: "v \<in> set cur"
      obtain u where u: "u \<in> set us" "v = withoutRefs d u" using form [OF v] by blast
      have "uID v \<in> uID ` set us - d" using v Suc.prems(5) by auto
      with u show "v \<in> withoutRefs d ` {u \<in> set us. uID u \<notin> d}" by auto
    qed (use find in auto)
    with p False c s sd D show ?thesis by simp
  qed
qed simp

text \<open>
  C34: the repair of provenance ends for every order in which the map is traversed, and what is left does not
  depend on it: the units that are not doomed, each without its references to doomed ones.
\<close>

theorem provenance_repair_exact:
  assumes "distinct (map uID us)" "uID ` set us \<inter> gone = {}" "\<And>xs. mset (shuffle xs) = mset xs"
  shows "\<exists>out. fixRetainedProvenance shuffle us gone = Some out \<and> distinct (map uID out)
    \<and> set out = withoutRefs (doomed (set us) gone) ` {u \<in> set us. uID u \<notin> doomed (set us) gone}"
proof -
  have "withoutRefs {} u = u" for u by (cases u) (simp add: withoutRefs_def Let_def)
  then have "list_all (partly (set us) gone) us" unfolding partly_def list_all_iff by (metis empty_subsetI)
  moreover have "gone \<subseteq> doomed (set us) gone" using doomed.dropped by auto
  moreover have "uID ` set us = uID ` set us - gone" using assms(2) by auto
  ultimately show ?thesis unfolding fixRetainedProvenance_def
    using fixLoop_exact [of us gone us gone shuffle "Suc (sum_list (map refCount us))"] assms(1,3) by simp
qed


definition bare :: "string \<Rightarrow> EvidenceSource list \<Rightarrow> string list \<Rightarrow> Unit" where
  "bare i ss ds = \<lparr>uID = i, uBaseID = ''b'', uGeneration = 1, uType = UnitFact, uTitle = ''t'', uCanonicalKey = i, uContent = ''c'', uAliases = [],
     uParentUnitID = [], uConfidence = 1/2, uStatus = UnitActive, uValidFrom = 0, uValidTo = 0, uSupersededBy = [], uVersion = [], uPublishedAt = 0,
     uEffectiveAt = 0, uSourceAuthority = 0, uMetadata = Map.empty, uSources = ss, uDerivedFrom = ds, uCreatedAt = 1, uUpdatedAt = 1\<rparr>"

definition demoSource :: "string \<Rightarrow> EvidenceSource" where
  "demoSource d = \<lparr>esUnitID = [], esDocumentID = d, esIndexGeneration = 1, esSourceVersion = 1, esNodeID = ''n'', esChunkID = [],
     esSourceAnchor = [], esSourceOrder = 0\<rparr>"

definition demoChain :: "Unit list" where
  "demoChain = [bare ''q'' [] [''p''], bare ''p'' [] [''x''], bare ''r'' [demoSource ''d''] [''q'']]"

lemma provenance_repair_exact_witness:
  "(\<exists>out. fixRetainedProvenance rev demoChain {''x''} = Some out \<and> distinct (map uID out)
      \<and> set out = withoutRefs (doomed (set demoChain) {''x''}) ` {u \<in> set demoChain. uID u \<notin> doomed (set demoChain) {''x''}})
    \<and> ''q'' \<in> doomed (set demoChain) {''x''}"
proof
  show "\<exists>out. fixRetainedProvenance rev demoChain {''x''} = Some out \<and> distinct (map uID out)
      \<and> set out = withoutRefs (doomed (set demoChain) {''x''}) ` {u \<in> set demoChain. uID u \<notin> doomed (set demoChain) {''x''}}"
    by (rule provenance_repair_exact) (simp_all add: demoChain_def bare_def)
  have "uID (bare ''p'' [] [''x'']) \<in> doomed (set demoChain) {''x''}"
    by (rule doomed.unsupported) (auto simp: demoChain_def bare_def intro: doomed.dropped)
  then have "uID (bare ''q'' [] [''p'']) \<in> doomed (set demoChain) {''x''}"
    by (intro doomed.unsupported) (auto simp: demoChain_def bare_def)
  then show "''q'' \<in> doomed (set demoChain) {''x''}" by (simp add: bare_def)
qed

subsection \<open>Evidence of changed documents\<close>

definition unordered :: "EvidenceSource \<Rightarrow> EvidenceSource" where
  "unordered s = s\<lparr>esSourceOrder := 0\<rparr>"

text \<open>Evidence that does not come from the previous text of a changed or deleted document.\<close>

definition fresh :: "string set \<Rightarrow> Compilation \<Rightarrow> EvidenceSource \<Rightarrow> bool" where
  "fresh dirty delta s \<longleftrightarrow> esDocumentID s \<notin> dirty \<or> (\<exists>v \<in> set (cpUnits delta). unordered s \<in> unordered ` set (uSources v))
     \<or> (\<exists>r \<in> set (cpRelations delta). unordered s \<in> unordered ` set (rlSources r))"

definition freshUnit :: "string set \<Rightarrow> Compilation \<Rightarrow> Unit \<Rightarrow> bool" where
  "freshUnit dirty delta u \<longleftrightarrow> list_all (fresh dirty delta) (uSources u)"

definition freshRelation :: "string set \<Rightarrow> Compilation \<Rightarrow> Relation \<Rightarrow> bool" where
  "freshRelation dirty delta r \<longleftrightarrow> list_all (fresh dirty delta) (rlSources r)"

lemma fresh_order [simp]: "fresh dirty delta (s\<lparr>esSourceOrder := n\<rparr>) = fresh dirty delta s"
  by (simp add: fresh_def unordered_def)

lemma fresh_clean: "list_all (fresh dirty delta) (cleanSources dirty ss)"
  by (auto simp: cleanSources_def list_all_iff fresh_def)

lemma freshUnit_delta: "list_all (freshUnit dirty delta) (cpUnits delta)"
  unfolding list_all_iff freshUnit_def fresh_def by blast

lemma freshRelation_delta: "list_all (freshRelation dirty delta) (cpRelations delta)"
  unfolding list_all_iff freshRelation_def fresh_def by blast

lemma putKeyed_all:
  assumes "\<And>y x. P y \<Longrightarrow> P x \<Longrightarrow> P (f y x)"
  shows "list_all P xs \<Longrightarrow> list_all P ys \<Longrightarrow> list_all P (fold (putKeyed key f) xs ys)"
proof (induction xs arbitrary: ys)
  case (Cons x xs)
  have "list_all P (putKeyed key f x ys)" using Cons.prems assms by (auto simp: putKeyed_def list_all_iff)
  with Cons show ?case by simp
qed simp

lemma sanitized_fresh: "list_all (freshUnit dirty delta) (fst (sanitizePreviousUnits us dirty))"
proof -
  have "list_all (freshUnit dirty delta) acc \<Longrightarrow> list_all (freshUnit dirty delta) (fst (fold (\<lambda>u (retained, dropped).
     if staleSummary dirty u then (retained, insert (uID u) dropped)
     else (let next = u\<lparr>uSources := cleanSources dirty (uSources u)\<rparr> in
       if uSources next = [] \<and> uDerivedFrom next = [] then (retained, insert (uID u) dropped)
       else (putUnit next retained, dropped))) us (acc, gone)))" for acc gone
  proof (induction us arbitrary: acc gone)
    case (Cons u us)
    let ?next = "u\<lparr>uSources := cleanSources dirty (uSources u)\<rparr>"
    have "freshUnit dirty delta ?next" by (simp add: freshUnit_def fresh_clean)
    then have "list_all (freshUnit dirty delta) (putUnit ?next acc)" using Cons.prems by (auto simp: putUnit_def list_all_iff)
    then show ?case using Cons.IH Cons.prems by (simp add: Let_def)
  qed simp
  then show ?thesis by (simp add: sanitizePreviousUnits_def)
qed

lemma fixPass_sources: "uSources ` set (fst (fixPass d us)) \<subseteq> uSources ` set us"
proof (induction d us rule: fixPass.induct)
  case (2 d u us)
  have s: "uSources (if c then withoutRefs d u else u) = uSources u" for c by simp
  show ?case
  proof (cases "uSources (withoutRefs d u) = [] \<and> uDerivedFrom (withoutRefs d u) = []")
    case True
    have "fst (fixPass d (u # us)) = fst (fixPass (insert (uID u) d) us)"
      unfolding fixPass.simps Let_def if_P [OF True] by (simp split: prod.split)
    with 2(1) [OF refl True] show ?thesis by (simp add: subset_insertI2)
  next
    case False
    have "fst (fixPass d (u # us)) = (if refsChanged u (withoutRefs d u) then withoutRefs d u else u) # fst (fixPass d us)"
      unfolding fixPass.simps Let_def if_not_P [OF False] by (simp split: prod.split)
    with 2(2) [OF refl False] s show ?thesis by auto
  qed
qed simp

lemma fixLoop_sources:
  assumes "\<And>xs. mset (shuffle xs) = mset xs"
  shows "fixLoop n shuffle d us = Some out \<Longrightarrow> uSources ` set out \<subseteq> uSources ` set us"
proof (induction n arbitrary: d us)
  case (Suc n)
  have s: "set (shuffle us) = set us" using assms by (rule mset_eq_setD)
  obtain us' d' ch where p: "fixPass d (shuffle us) = (us', d', ch)" by (cases "fixPass d (shuffle us)") auto
  have "uSources ` set us' \<subseteq> uSources ` set us" using fixPass_sources [of d "shuffle us"] p s by simp
  moreover have "uSources ` set out \<subseteq> uSources ` set us'" using Suc.prems p Suc.IH [of d' us'] by (cases ch) simp_all
  ultimately show ?case by blast
qed simp

lemma freshUnit_sources:
  assumes "uSources ` set us \<subseteq> uSources ` set vs" "list_all (freshUnit dirty delta) vs"
  shows "list_all (freshUnit dirty delta) us"
proof -
  have "freshUnit dirty delta u" if "u \<in> set us" for u
  proof -
    from that assms(1) have "uSources u \<in> uSources ` set vs" by blast
    then obtain v where "v \<in> set vs" "uSources u = uSources v" by (elim imageE) auto
    with assms(2) show ?thesis by (simp add: freshUnit_def list_all_iff)
  qed
  then show ?thesis by (simp add: list_all_iff)
qed

lemma sanitizePreviousRelations_fresh: "list_all (freshRelation dirty delta) (sanitizePreviousRelations rs units dirty)"
proof (induction rs)
  case (Cons r rs)
  have c: "list_all (fresh dirty delta) (cleanSources dirty (rlSources r))" by (rule fresh_clean)
  show ?case using Cons c by (auto simp: sanitizePreviousRelations_def List.map_filter_simps freshRelation_def Let_def)
qed (simp add: sanitizePreviousRelations_def List.map_filter_simps)

lemma firstByKey_subset: "set (firstByKey seen ss) \<subseteq> set ss"
  by (induction seen ss rule: firstByKey.induct) auto

lemma mergeSources_fresh:
  assumes "list_all (fresh dirty delta) xs" "list_all (fresh dirty delta) ys"
  shows "list_all (fresh dirty delta) (mergeSources xs ys)"
proof -
  let ?out = "SortEvidenceSources (firstByKey {} (xs @ ys))"
  have "set ?out \<subseteq> set xs \<union> set ys" using firstByKey_subset [of "{}" "xs @ ys"] by (auto simp: SortEvidenceSources_def)
  then have "list_all (fresh dirty delta) ?out" using assms by (auto simp: list_all_iff)
  then show ?thesis by (auto simp: mergeSources_def Let_def list_all_iff dest: set_zip_rightD)
qed

lemma mergeUnits_fresh: "freshUnit dirty delta y \<Longrightarrow> freshUnit dirty delta x \<Longrightarrow> freshUnit dirty delta (mergeUnits y x now)"
  by (simp add: freshUnit_def mergeUnits_def mergeSources_fresh)

lemma mergedUnits_fresh:
  assumes "list_all (freshUnit dirty delta) retained" "\<And>xs. mset (shuffle xs) = mset xs"
  shows "list_all (freshUnit dirty delta) (mergedUnits lib shuffle retained delta now)"
proof -
  let ?remap = "remapUnit lib (cpBaseID delta) (cpGeneration delta) (remapIDs lib retained (cpGeneration delta)) now"
  have "set (shuffle retained) = set retained" using assms(2) by (rule mset_eq_setD)
  then have "list_all (freshUnit dirty delta) (map ?remap (shuffle retained))"
    using assms(1) by (auto simp: list_all_iff freshUnit_def remapUnit_def)
  then have "list_all (freshUnit dirty delta) (fold (putKeyed unitKey (\<lambda>y x. x)) (map ?remap (shuffle retained)) [])"
    by (rule putKeyed_all [rotated]) simp_all
  then show ?thesis unfolding mergedUnits_def Let_def fold_map comp_def
    by (intro putKeyed_all mergeUnits_fresh freshUnit_delta)
qed

lemma mergedRelations_fresh:
  assumes "list_all (freshRelation dirty delta) retained" "list_all (freshRelation dirty delta) temporal"
  shows "list_all (freshRelation dirty delta) (mergedRelations lib ids retained temporal delta now)"
proof -
  let ?remap = "remapRelation lib (cpBaseID delta) (cpGeneration delta) ids now"
  have "rlSources s = rlSources r" if "?remap r = Some s" for r s
    using that by (auto simp: remapRelation_def split: option.splits)
  then have "list_all (freshRelation dirty delta) (List.map_filter ?remap retained)" using assms(1)
    by (induction retained) (auto simp: List.map_filter_simps freshRelation_def split: option.split)
  then show ?thesis unfolding mergedRelations_def Let_def
    using assms(2) by (intro putKeyed_all freshRelation_delta) simp_all
qed

lemma reconcile_fresh:
  assumes "\<And>lt xs. mset (sortSlice lt xs) = mset xs" "reconcileTemporalUnits lib sortSlice us b g now = (out, rs)"
    "list_all (freshUnit dirty delta) us"
  shows "list_all (freshUnit dirty delta) out \<and> list_all (freshRelation dirty delta) rs"
proof
  note ok = reconcile_ok [OF assms(1,2)]
  have c: "map core out = map core us" using ok by blast
  have "map uSources out = map (uSources \<circ> core) out" by (simp add: core_def)
  also have "\<dots> = map (uSources \<circ> core) us" using c by (metis map_map)
  finally have "map uSources out = map uSources us" by (simp add: core_def)
  then have "uSources ` set out \<subseteq> uSources ` set us" by (metis set_map subset_refl)
  then show f: "list_all (freshUnit dirty delta) out" using assms(3) by (rule freshUnit_sources)
  have "freshRelation dirty delta r" if "r \<in> set rs" for r
  proof -
    from that ok obtain scope where "linked lib (set (scopeMembers lib us scope)) out r" by blast
    then obtain i j where m: "i \<in> snd ` set (scopeMembers lib us scope)" "j \<in> snd ` set (scopeMembers lib us scope)"
      "set (rlSources r) = set (uSources (out ! i)) \<union> set (uSources (out ! j))" unfolding linked_def by blast
    have "i < length out" "j < length out" using m(1,2) ok unfolding scopeMembers_set by simp_all
    then have "freshUnit dirty delta (out ! i)" "freshUnit dirty delta (out ! j)" using f by (simp_all add: list_all_length)
    with m(3) show ?thesis by (auto simp: freshRelation_def freshUnit_def list_all_iff)
  qed
  then show "list_all (freshRelation dirty delta) rs" by (simp add: list_all_iff)
qed

text \<open>
  C35: a successful merge is a valid compilation of the new generation, and no evidence in it comes from the
  previous text of a changed or deleted document: whatever cites such a document was compiled anew.
\<close>

theorem merge_keeps_fresh_evidence:
  assumes "\<And>lt xs. mset (sortSlice lt xs) = mset xs" "\<And>xs. mset (shuffle xs) = mset xs"
    "MergeIncremental lib sortSlice shuffle previous delta dirty deleted current now = Inr out"
  shows "compilationValidate (lbSha lib) out = None \<and> cpBaseID out = cpBaseID previous \<and> cpGeneration out = cpGeneration delta
    \<and> list_all (freshUnit (dirty \<union> deleted) delta) (cpUnits out) \<and> list_all (freshRelation (dirty \<union> deleted) delta) (cpRelations out)"
proof -
  let ?d = "dirty \<union> deleted"
  obtain sanitized gone where san: "sanitizePreviousUnits (cpUnits previous) ?d = (sanitized, gone)" by fastforce
  have base: "cpBaseID previous = cpBaseID delta" "0 < now"
    using assms(3) by (auto simp: MergeIncremental_def split: if_splits)
  obtain retained where ret: "fixRetainedProvenance shuffle sanitized gone = Some retained"
    using assms(3) base san by (cases "fixRetainedProvenance shuffle sanitized gone") (auto simp: MergeIncremental_def)
  let ?rels = "sanitizePreviousRelations (cpRelations previous) (uID ` set retained) ?d"
  obtain us temporal where rec: "reconcileTemporalUnits lib sortSlice (shuffle (mergedUnits lib shuffle retained delta now))
      (cpBaseID delta) (cpGeneration delta) now = (us, temporal)" by fastforce
  have "list_all (freshUnit ?d delta) sanitized" using sanitized_fresh [of ?d delta "cpUnits previous"] san by simp
  then have "list_all (freshUnit ?d delta) retained"
    using freshUnit_sources fixLoop_sources [OF assms(2)] ret unfolding fixRetainedProvenance_def by blast
  then have m: "list_all (freshUnit ?d delta) (mergedUnits lib shuffle retained delta now)" using assms(2) by (rule mergedUnits_fresh)
  have "set (shuffle xs) = set xs" for xs using assms(2) by (rule mset_eq_setD)
  then have "list_all (freshUnit ?d delta) (shuffle (mergedUnits lib shuffle retained delta now))" using m by (simp add: list_all_iff)
  from reconcile_fresh [OF assms(1) rec this] have
    f: "list_all (freshUnit ?d delta) us" "list_all (freshRelation ?d delta) temporal" by simp_all
  have "list_all (freshRelation ?d delta) (mergedRelations lib (remapIDs lib retained (cpGeneration delta)) ?rels temporal delta now)"
    using sanitizePreviousRelations_fresh f(2) by (rule mergedRelations_fresh)
  with f(1) base assms(3) show ?thesis
    by (auto simp: MergeIncremental_def san ret rec Let_def list_all_iff split: option.splits)
qed

definition mergeDemo :: "int \<Rightarrow> Unit list \<Rightarrow> Compilation" where
  "mergeDemo g us = \<lparr>cpBaseID = ''b'', cpGeneration = g, cpState = CompilationBuilding, cpCompiler = ''c'', cpCompilerVersion = ''1'',
     cpModel = ''m'', cpModelVersion = ''1'', cpPromptVersion = ''1'', cpSourceDocumentIDs = [], cpMetadata = Map.empty, cpUnits = us,
     cpRelations = [], cpCreatedAt = 1, cpCompletedAt = 0\<rparr>"

text \<open>The document \<open>x\<close> was changed: the fact \<open>p\<close> had its evidence there, \<open>r\<close> in \<open>d\<close>; the new text supports \<open>r\<close>.\<close>

definition demoPrevious :: Compilation where
  "demoPrevious = mergeDemo 1 [bare ''p'' [demoSource ''x''] [], bare ''r'' [demoSource ''d''] []]"

definition demoDelta :: Compilation where
  "demoDelta = mergeDemo 2 [(bare ''r'' [(demoSource ''x'')\<lparr>esSourceVersion := 2\<rparr>] [])\<lparr>uID := UnitID rev ''b'' 2 UnitFact ''r'', uGeneration := 2\<rparr>]"

lemma demoMerge: "case MergeIncremental demoLib insertionSort rev demoPrevious demoDelta {''x''} {} [''d'', ''x''] 5 of
    Inl e \<Rightarrow> False | Inr c \<Rightarrow> map uCanonicalKey (cpUnits c) = [''r''] \<and> map (map esDocumentID \<circ> uSources) (cpUnits c) = [[''d'', ''x'']]"
  by code_simp

lemma merge_keeps_fresh_evidence_witness:
  "\<exists>out. MergeIncremental demoLib insertionSort rev demoPrevious demoDelta {''x''} {} [''d'', ''x''] 5 = Inr out
    \<and> compilationValidate rev out = None \<and> map uCanonicalKey (cpUnits out) = [''r'']
    \<and> list_all (freshUnit ({''x''} \<union> {}) demoDelta) (cpUnits out)"
proof (cases "MergeIncremental demoLib insertionSort rev demoPrevious demoDelta {''x''} {} [''d'', ''x''] 5")
  case (Inr out)
  have m: "mset (rev xs) = mset xs" for xs :: "Unit list" by simp
  have "lbSha demoLib = rev" by (simp add: demoLib_def)
  with merge_keeps_fresh_evidence [OF insertionSort_mset m Inr] Inr demoMerge show ?thesis by simp
qed (use demoMerge in simp)

subsection \<open>Successors of relations\<close>

text \<open>
  Validation looks the successor of a relation up among the relations, the merge among the units: a superseded
  relation whose successor is kept is made active again.
\<close>

lemma successor_relation_forgotten:
  assumes "rlSubjectUnitID r \<in> units" "rlObjectUnitID r \<in> units" "rlType r = RelationDerivedFrom" "rlStatus r = UnitSuperseded"
    "rlSupersededBy r = rlID s" "rlID s \<noteq> []" "rlID s \<notin> units"
  shows "map rlStatus (sanitizePreviousRelations [r] units dirty) = [UnitActive]"
  using assms by (simp add: sanitizePreviousRelations_def List.map_filter_simps)

end
