(* ===== verification/SemQuery.thy ===== *)
theory SemQuery
  imports SemReconcile
begin

text \<open>
  Reading a question for time and versions (the queries of \<open>internal/semantic/temporal.go\<close> and the range parser of
  \<open>history.go\<close>): markers, version mentions, explicit and relative ranges, the version of a source document,
  and which units a query may see. An instant is its Unix second. A slice that Go refuses at run time is None.
\<close>

subsection \<open>Text\<close>

definition dedupeStrings :: "string list \<Rightarrow> string list" where
  "dedupeStrings xs = rev (remdups (rev xs))"

definition normalizeSearchText :: "Lib \<Rightarrow> string \<Rightarrow> string" where
  "normalizeSearchText lib value = joinWith '' '' (fieldsOf (lbLower lib (trimSpace value)))"

text \<open>\<open>unicode.Is(unicode.Han, r)\<close>\<close>

definition hanRanges :: "(nat \<times> nat) list" where
  "hanRanges = [(0x2E80, 0x2E99), (0x2E9B, 0x2EF3), (0x2F00, 0x2FD5), (0x3005, 0x3005), (0x3007, 0x3007), (0x3021, 0x3029),
     (0x3038, 0x303B), (0x3400, 0x4DBF), (0x4E00, 0x9FFF), (0xF900, 0xFA6D), (0xFA70, 0xFAD9), (0x16FE2, 0x16FE3),
     (0x16FF0, 0x16FF1), (0x20000, 0x2A6DF), (0x2A700, 0x2B739), (0x2B740, 0x2B81D), (0x2B820, 0x2CEA1),
     (0x2CEB0, 0x2EBE0), (0x2F800, 0x2FA1D), (0x30000, 0x3134A), (0x31350, 0x323AF)]"

definition hanRune :: "nat \<Rightarrow> bool" where
  "hanRune r \<longleftrightarrow> list_ex (\<lambda>(a, b). a \<le> r \<and> r \<le> b) hanRanges"

lemma hanRune_code [code]: "hanRune r = (if r < 128 then False else list_ex (\<lambda>(a, b). a \<le> r \<and> r \<le> b) hanRanges)"
  by (simp add: hanRune_def hanRanges_def)

definition containsHan :: "string \<Rightarrow> bool" where
  "containsHan value \<longleftrightarrow> list_ex hanRune (runes value)"

definition isASCIIPunctuation :: "nat \<Rightarrow> bool" where
  "isASCIIPunctuation n \<longleftrightarrow> (33 \<le> n \<and> n \<le> 47) \<or> (58 \<le> n \<and> n \<le> 64) \<or> (91 \<le> n \<and> n \<le> 96) \<or> (123 \<le> n \<and> n \<le> 126)"

text \<open>One byte turned into a rune: a byte above ASCII is U+FFFD, neither space nor punctuation.\<close>

definition boundaryByte :: "char \<Rightarrow> bool" where
  "boundaryByte c \<longleftrightarrow> (9 \<le> byteOf c \<and> byteOf c \<le> 13) \<or> byteOf c = 32 \<or> isASCIIPunctuation (byteOf c)"

definition containsTemporalMarker :: "string \<Rightarrow> string \<Rightarrow> bool" where
  "containsTemporalMarker normalized marker \<longleftrightarrow> (case indexOf normalized marker of None \<Rightarrow> False
     | Some i \<Rightarrow> containsHan marker \<or> (i = 0 \<or> boundaryByte (normalized ! (i - 1))) \<and>
         (length normalized \<le> i + length marker \<or> boundaryByte (normalized ! (i + length marker))))"

definition containsAny :: "string \<Rightarrow> string list \<Rightarrow> bool" where
  "containsAny normalized markers = list_ex (containsTemporalMarker normalized) markers"

subsection \<open>Ranges\<close>

abbreviation "RangeVersion \<equiv> ''VERSION''"
abbreviation "RangeTime \<equiv> ''TIME''"
abbreviation "RangeAmbiguous \<equiv> ''AMBIGUOUS''"
abbreviation "RangeEvent \<equiv> ''EVENT''"

record RangeBoundary =
  rbValue :: string
  rbResolvedVersion :: string
  rbTime :: "int option"
  rbInclusive :: bool

record TemporalRange =
  trKind :: string
  trStart :: "RangeBoundary option"
  trEnd :: "RangeBoundary option"
  trAmbiguous :: bool
  trScope :: string
  trConfidence :: rat
  trDiagnostics :: "string list"

definition yearPattern :: rx where
  "yearPattern = seqs [oneOf ''2'', oneOf ''0'', digitCls, digitCls]"

definition rangeFromDatePattern :: rx where
  "rangeFromDatePattern = seqs [Wordb, Grp 1 yearPattern, oneOf ''-'', twoDigits 2, oneOf ''-'', twoDigits 3, Wordb]"

definition spaces1 :: rx where
  "spaces1 = plus1 (Cls (\<lambda>r. r \<in> {9, 10, 12, 13, 32}))"

definition anyRune :: rx where
  "anyRune = Cls (\<lambda>r. r \<noteq> 10)"

definition markerPattern :: "string list \<Rightarrow> rx" where
  "markerPattern ws = seqs [Wordb, alts (map litFold ws), Wordb, spaces1, Grp 1 (plus1 anyRune), Eol]"

definition rangeMarkerPatterns :: "(string \<times> rx \<times> bool) list" where
  "rangeMarkerPatterns = [
     (''before'', markerPattern [''before'', ''prior to'', ''earlier than''], False),
     (''until'', markerPattern [''until'', ''through'', ''through the end of''], True),
     (''after'', markerPattern [''after'', ''later than''], False),
     (''since'', markerPattern [''since'', ''from''], True)]"

definition rangePairPattern :: rx where
  "rangePairPattern = seqs [Wordb, opt (Seq (litFold ''from'') spaces1), Grp 1 (Seq anyRune (Lazy anyRune)), spaces1,
     alts (map litFold [''to'', ''through'', ''until'']), spaces1, Grp 2 (plus1 anyRune), Eol]"

definition versionBoundary :: "Lib \<Rightarrow> string \<Rightarrow> bool \<Rightarrow> RangeBoundary option" where
  "versionBoundary lib value inclusive = (case FindStringSubmatch semanticVersionPattern (lbLower lib (trimSpace value)) of None \<Rightarrow> None
     | Some g \<Rightarrow> if g 3 \<noteq> [] then None
       else (case (if g 1 = [] then NormalizeVersionIdentity (lbLower lib) value else Some (g 1)) of None \<Rightarrow> None
         | Some normalized \<Rightarrow> (case parseVersionIdentity (lbLower lib) normalized of None \<Rightarrow> None
           | Some i \<Rightarrow> if viKnownOrder i then Some \<lparr>rbValue = normalized, rbResolvedVersion = [], rbTime = None, rbInclusive = inclusive\<rparr> else None)))"

definition timeBoundary :: "Lib \<Rightarrow> string \<Rightarrow> bool \<Rightarrow> RangeBoundary option" where
  "timeBoundary lib value inclusive = (case FindStringSubmatch rangeFromDatePattern value of None \<Rightarrow> None
     | Some g \<Rightarrow> map_option (\<lambda>t. \<lparr>rbValue = [], rbResolvedVersion = [], rbTime = Some t, rbInclusive = inclusive\<rparr>)
         (lbTime lib ''2006-01-02'' (g 1 @ ''-'' @ g 2 @ ''-'' @ g 3)))"

definition parseRangeEndpoint :: "Lib \<Rightarrow> string \<Rightarrow> bool \<Rightarrow> (RangeBoundary \<times> string) option" where
  "parseRangeEndpoint lib value inclusive = (case versionBoundary lib value inclusive of Some b \<Rightarrow> Some (b, RangeVersion)
     | None \<Rightarrow> map_option (\<lambda>b. (b, RangeTime)) (timeBoundary lib value inclusive))"

definition compareRangeBoundaries :: "Lib \<Rightarrow> RangeBoundary \<Rightarrow> RangeBoundary \<Rightarrow> string \<Rightarrow> int option" where
  "compareRangeBoundaries lib left right kind = (if kind = RangeVersion then compareVersions lib (rbValue left) (rbValue right)
     else if kind = RangeTime then (case (rbTime left, rbTime right) of (Some a, Some b) \<Rightarrow> Some (if a < b then -1 else if b < a then 1 else 0) | _ \<Rightarrow> None)
     else None)"

definition oneSided :: "string \<Rightarrow> string \<Rightarrow> RangeBoundary \<Rightarrow> TemporalRange" where
  "oneSided marker kind b = (let upper = marker \<in> {''before'', ''until''} in
     \<lparr>trKind = kind, trStart = (if upper then None else Some b), trEnd = (if upper then Some b else None), trAmbiguous = False, trScope = [],
      trConfidence = fl (93 / 100), trDiagnostics = [marker @ ''-range'']\<rparr>)"

definition trimSet :: "string \<Rightarrow> string \<Rightarrow> string" where
  "trimSet cutset s = (let cs = map (\<lambda>c. [c]) cutset in trimRight cs (trimLeft cs s))"

text \<open>One marker; None goes on to the next.\<close>

definition markerRange :: "Lib \<Rightarrow> string \<Rightarrow> string \<times> rx \<times> bool \<Rightarrow> TemporalRange option" where
  "markerRange lib normalized m = (let (kind, pattern, inclusive) = m in
     case FindStringSubmatch pattern normalized of None \<Rightarrow> None
   | Some g \<Rightarrow> (case parseRangeEndpoint lib (g 1) inclusive of Some (b, k) \<Rightarrow> Some (oneSided kind k b)
     | None \<Rightarrow> if kind \<in> {''before'', ''after''} then
         (let event = trimSpace (trimSet '' ?.,;:!'' (g 1)) in
           if length event < 2 \<or> 80 < length event \<or> lbEqualFold lib event ''it'' \<or> lbEqualFold lib event ''that'' then None
           else Some (oneSided kind RangeEvent \<lparr>rbValue = event, rbResolvedVersion = [], rbTime = None, rbInclusive = inclusive\<rparr>))
       else None))"

definition historyAmbiguityMarkers :: "string list" where
  "historyAmbiguityMarkers = [''earlier'', ''early'', ''history'', ''historical'', ''previous'', ''prior'', ''past'', ''old version'', ''older version'',
     [CHR 0xE4, CHR 0xBB, CHR 0xA5, CHR 0xE5, CHR 0x89, CHR 0x8D], [CHR 0xE6, CHR 0x97, CHR 0xA9, CHR 0xE6, CHR 0x9C, CHR 0x9F],
     [CHR 0xE5, CHR 0x8E, CHR 0x86, CHR 0xE5, CHR 0x8F, CHR 0xB2], [CHR 0xE5, CHR 0xBD, CHR 0x93, CHR 0xE6, CHR 0x97, CHR 0xB6],
     [CHR 0xE8, CHR 0xBF, CHR 0x87, CHR 0xE5, CHR 0x8E, CHR 0xBB]]"

definition containsAnyHistoryAmbiguity :: "string \<Rightarrow> bool" where
  "containsAnyHistoryAmbiguity normalized = containsAny normalized historyAmbiguityMarkers"

definition ambiguousRange :: "string \<Rightarrow> rat \<Rightarrow> string \<Rightarrow> TemporalRange" where
  "ambiguousRange scope confidence diagnostic = \<lparr>trKind = RangeAmbiguous, trStart = None, trEnd = None, trAmbiguous = True, trScope = scope,
     trConfidence = confidence, trDiagnostics = [diagnostic]\<rparr>"

definition pairRange :: "Lib \<Rightarrow> string \<Rightarrow> TemporalRange option" where
  "pairRange lib normalized = (case FindStringSubmatch rangePairPattern normalized of None \<Rightarrow> None
     | Some g \<Rightarrow> (case (parseRangeEndpoint lib (g 1) True, parseRangeEndpoint lib (g 2) True) of
         (Some (left, leftKind), Some (right, rightKind)) \<Rightarrow> if leftKind \<noteq> rightKind then None
           else (let swap = (case compareRangeBoundaries lib left right leftKind of Some order \<Rightarrow> 0 < order | None \<Rightarrow> False) in
             Some \<lparr>trKind = leftKind, trStart = Some (if swap then right else left), trEnd = Some (if swap then left else right), trAmbiguous = False,
               trScope = [], trConfidence = fl (96 / 100), trDiagnostics = [''explicit-range'']\<rparr>)
       | _ \<Rightarrow> None))"

definition ParseTemporalRange :: "Lib \<Rightarrow> string \<Rightarrow> TemporalRange option" where
  "ParseTemporalRange lib query = (let normalized = normalizeSearchText lib query in
     case pairRange lib normalized of Some r \<Rightarrow> Some r
   | None \<Rightarrow> (case List.map_filter (markerRange lib normalized) rangeMarkerPatterns of r # _ \<Rightarrow> Some r
     | [] \<Rightarrow> if containsTemporalMarker normalized ''recent'' \<or> containsTemporalMarker normalized ''latest history''
         then Some (ambiguousRange ''recent'' (fl (76 / 100)) ''recent-history'')
       else if containsAnyHistoryAmbiguity normalized then Some (ambiguousRange ''earlier'' (fl (70 / 100)) ''ambiguous-history'')
       else None))"

text \<open>Whether a version belongs to a version range.\<close>

definition ContainsVersion :: "Lib \<Rightarrow> TemporalRange \<Rightarrow> string \<Rightarrow> bool" where
  "ContainsVersion lib r version \<longleftrightarrow> trKind r = RangeVersion \<and> trimSpace version \<noteq> []
     \<and> (case trStart r of None \<Rightarrow> True | Some b \<Rightarrow> (case compareVersions lib version (rbValue b) of None \<Rightarrow> False
          | Some order \<Rightarrow> 0 < order \<or> order = 0 \<and> rbInclusive b))
     \<and> (case trEnd r of None \<Rightarrow> True | Some b \<Rightarrow> (case compareVersions lib version (rbValue b) of None \<Rightarrow> False
          | Some order \<Rightarrow> order < 0 \<or> order = 0 \<and> rbInclusive b))"

subsection \<open>Queries\<close>

abbreviation "TemporalNone \<equiv> ''NONE''"
abbreviation "TemporalCurrent \<equiv> ''CURRENT''"
abbreviation "TemporalExplicitVersion \<equiv> ''AS_OF_VERSION''"
abbreviation "TemporalHistorical \<equiv> ''HISTORICAL''"
abbreviation "TemporalEvolution \<equiv> ''EVOLUTION''"
abbreviation "TemporalCompareVersions \<equiv> ''COMPARE_VERSIONS''"
abbreviation "TemporalValidity \<equiv> ''VALIDITY''"
abbreviation "TemporalRangeHistory \<equiv> ''RANGE_HISTORY''"

record TemporalQuery =
  tqIntent :: string
  tqVersions :: "string list"
  tqFromVersion :: string
  tqToVersion :: string
  tqConfidence :: rat
  tqSignals :: "string list"
  tqRange :: "TemporalRange option"

definition noTemporal :: "rat \<Rightarrow> TemporalQuery" where
  "noTemporal confidence = \<lparr>tqIntent = TemporalNone, tqVersions = [], tqFromVersion = [], tqToVersion = [], tqConfidence = confidence,
     tqSignals = [], tqRange = None\<rparr>"

definition orderedTemporalVersions :: "Lib \<Rightarrow> string list \<Rightarrow> string \<times> string" where
  "orderedTemporalVersions lib values = (if values = [] then ([], [])
     else if length values = 2 then (case compareVersions lib (values ! 0) (values ! 1) of
         Some order \<Rightarrow> if 0 < order then (values ! 1, values ! 0) else (values ! 0, values ! 1)
       | None \<Rightarrow> (values ! 0, values ! 1))
     else (hd values, last values))"

definition evolutionMarkers :: "string list" where
  "evolutionMarkers = [''what changed'', ''changed in'', ''how has'', ''how did'', ''evolution'', ''evolved'', ''when was'', ''when were'',
     ''when did'', ''introduced'', ''added in'', ''removed in'', ''deprecated'',
     [CHR 0xE4, CHR 0xBB, CHR 0x80, CHR 0xE4, CHR 0xB9, CHR 0x88, CHR 0xE6, CHR 0x97, CHR 0xB6, CHR 0xE5, CHR 0x80, CHR 0x99],
     [CHR 0xE4, CHR 0xBD, CHR 0x95, CHR 0xE6, CHR 0x97, CHR 0xB6, CHR 0xE5, CHR 0xBC, CHR 0x95, CHR 0xE5, CHR 0x85, CHR 0xA5],
     [CHR 0xE4, CHR 0xBD, CHR 0x95, CHR 0xE6, CHR 0x97, CHR 0xB6, CHR 0xE5, CHR 0x88, CHR 0xA0, CHR 0xE9, CHR 0x99, CHR 0xA4],
     [CHR 0xE5, CHR 0xA6, CHR 0x82, CHR 0xE4, CHR 0xBD, CHR 0x95, CHR 0xE6, CHR 0xBC, CHR 0x94, CHR 0xE8, CHR 0xBF, CHR 0x9B],
     [CHR 0xE6, CHR 0x9C, CHR 0x89, CHR 0xE4, CHR 0xBB, CHR 0x80, CHR 0xE4, CHR 0xB9, CHR 0x88, CHR 0xE5, CHR 0x8F, CHR 0x98, CHR 0xE5, CHR 0x8C, CHR 0x96]]"

definition validityMarkers :: "string list" where
  "validityMarkers = [''still'', ''currently valid'', ''still valid'', ''still supported'',
     [CHR 0xE8, CHR 0xBF, CHR 0x98, CHR 0xE6, CHR 0x9C, CHR 0x89, CHR 0xE6, CHR 0x95, CHR 0x88],
     [CHR 0xE7, CHR 0x8E, CHR 0xB0, CHR 0xE5, CHR 0x9C, CHR 0xA8, CHR 0xE8, CHR 0xBF, CHR 0x98]]"

definition historicalMarkers :: "string list" where
  "historicalMarkers = [''history'', ''historical'', ''old version'', ''older version'', ''previous'', ''prior'', ''past'', ''before'',
     [CHR 0xE5, CHR 0x8E, CHR 0x86, CHR 0xE5, CHR 0x8F, CHR 0xB2],
     [CHR 0xE6, CHR 0x97, CHR 0xA7, CHR 0xE7, CHR 0x89, CHR 0x88, CHR 0xE6, CHR 0x9C, CHR 0xAC],
     [CHR 0xE4, CHR 0xBB, CHR 0xA5, CHR 0xE5, CHR 0x89, CHR 0x8D], [CHR 0xE4, CHR 0xB9, CHR 0x8B, CHR 0xE5, CHR 0x89, CHR 0x8D],
     [CHR 0xE5, CHR 0xBD, CHR 0x93, CHR 0xE6, CHR 0x97, CHR 0xB6]]"

definition currentMarkers :: "string list" where
  "currentMarkers = [''current'', ''currently'', ''now'', ''latest'', ''newest'', ''today'',
     [CHR 0xE5, CHR 0xBD, CHR 0x93, CHR 0xE5, CHR 0x89, CHR 0x8D], [CHR 0xE7, CHR 0x8E, CHR 0xB0, CHR 0xE5, CHR 0x9C, CHR 0xA8],
     [CHR 0xE7, CHR 0x9B, CHR 0xAE, CHR 0xE5, CHR 0x89, CHR 0x8D], [CHR 0xE6, CHR 0x9C, CHR 0x80, CHR 0xE6, CHR 0x96, CHR 0xB0]]"

definition unversionedMarkers :: "string list" where
  "unversionedMarkers = [''what changed'', ''changed in'', ''evolution'', ''introduced'', ''removed'',
     [CHR 0xE4, CHR 0xBB, CHR 0x80, CHR 0xE4, CHR 0xB9, CHR 0x88, CHR 0xE6, CHR 0x97, CHR 0xB6, CHR 0xE5, CHR 0x80, CHR 0x99],
     [CHR 0xE5, CHR 0xA6, CHR 0x82, CHR 0xE4, CHR 0xBD, CHR 0x95, CHR 0xE6, CHR 0xBC, CHR 0x94, CHR 0xE8, CHR 0xBF, CHR 0x9B]]"

definition mentionedVersions :: "Lib \<Rightarrow> string \<Rightarrow> string list" where
  "mentionedVersions lib normalized = dedupeStrings (
     List.map_filter (\<lambda>g. NormalizeVersionIdentity (lbLower lib) (withSuffix (g 1) (g 2) (g 3))) (FindAllStringSubmatch semanticVersionPattern normalized 4)
     @ List.map_filter (\<lambda>g. NormalizeVersionIdentity (lbLower lib) (''rel-'' @ g 1)) (FindAllStringSubmatch releaseVersionPattern normalized 4))"

definition withIntent :: "string \<Rightarrow> rat \<Rightarrow> string \<Rightarrow> TemporalQuery \<Rightarrow> TemporalQuery" where
  "withIntent intent confidence signal q = q\<lparr>tqIntent := intent, tqConfidence := confidence, tqSignals := tqSignals q @ [signal]\<rparr>"

definition withEnds :: "string \<times> string \<Rightarrow> TemporalQuery \<Rightarrow> TemporalQuery" where
  "withEnds ends q = q\<lparr>tqFromVersion := fst ends, tqToVersion := snd ends\<rparr>"

text \<open>The chain of conditions that finds the first intent.\<close>

definition lexicalIntent :: "Lib \<Rightarrow> string \<Rightarrow> TemporalQuery \<Rightarrow> TemporalQuery" where
  "lexicalIntent lib normalized q = (let vs = tqVersions q; ends = orderedTemporalVersions lib vs; found = containsAny normalized in
     if 2 \<le> length vs \<and> found evolutionMarkers then withIntent TemporalEvolution (fl (95 / 100)) ''version-range-evolution'' (withEnds ends q)
     else if 2 \<le> length vs then withIntent TemporalCompareVersions (fl (94 / 100)) ''two-versions'' (withEnds ends q)
     else if found [''from '', '' from ''] \<and> found ['' to ''] \<and> 2 \<le> length vs
       then withIntent TemporalEvolution (fl (94 / 100)) ''version-range'' (withEnds ends q)
     else if found evolutionMarkers \<and> vs \<noteq> [] then withIntent TemporalEvolution (fl (88 / 100)) ''evolution'' (if length vs = 2 then withEnds ends q else q)
     else if vs \<noteq> [] then withIntent TemporalExplicitVersion (fl (96 / 100)) ''explicit-version'' (withEnds (hd vs, hd vs) q)
     else if found validityMarkers then withIntent TemporalValidity (fl (85 / 100)) ''validity'' q
     else if found historicalMarkers then withIntent TemporalHistorical (fl (82 / 100)) ''historical'' q
     else if found currentMarkers then withIntent TemporalCurrent (fl (88 / 100)) ''current'' q
     else q)"

definition withRange :: "TemporalRange \<Rightarrow> TemporalQuery \<Rightarrow> TemporalQuery" where
  "withRange r q = (let relative = (trKind r = RangeVersion \<and> (trStart r = None) \<noteq> (trEnd r = None)); q = q\<lparr>tqRange := Some r\<rparr> in
     if trKind r = RangeAmbiguous \<or> trAmbiguous r \<or> trKind r = RangeEvent \<or> relative
       then withIntent TemporalRangeHistory (trConfidence r) ''range-history'' q
     else if tqIntent q = TemporalNone then withIntent TemporalRangeHistory (trConfidence r) ''explicit-range-history'' q
     else q)"

definition ParseTemporalQuery :: "Lib \<Rightarrow> string \<Rightarrow> TemporalQuery" where
  "ParseTemporalQuery lib query = (let normalized = normalizeSearchText lib query in
     if normalized = [] then noTemporal 0
     else (let q = lexicalIntent lib normalized ((noTemporal 0)\<lparr>tqVersions := mentionedVersions lib normalized\<rparr>);
         q = (case ParseTemporalRange lib query of Some r \<Rightarrow> if trAmbiguous r \<and> tqVersions q \<noteq> [] then q else withRange r q | None \<Rightarrow> q) in
       if tqIntent q \<noteq> TemporalNone then q
       else if containsAny normalized unversionedMarkers then withIntent TemporalEvolution (fl (62 / 100)) ''evolution-no-version'' q
       else q))"

subsection \<open>Visibility\<close>

definition containsIdentity :: "Lib \<Rightarrow> string list \<Rightarrow> string \<Rightarrow> bool" where
  "containsIdentity lib values target = list_ex (\<lambda>v. lbEqualFold lib v target \<or> compareVersions lib v target = Some 0) values"

definition temporalVersionVisible :: "Lib \<Rightarrow> Unit \<Rightarrow> TemporalQuery \<Rightarrow> bool" where
  "temporalVersionVisible lib u q = (let statusOK = uStatus u \<in> {UnitActive, UnitConflicted}; version = uVersion u; intent = tqIntent q in
     if intent \<in> {TemporalCurrent, TemporalValidity} then statusOK
     else if intent \<in> {TemporalExplicitVersion, TemporalHistorical} then
       (if version \<noteq> [] \<and> tqVersions q \<noteq> [] then uStatus u \<noteq> UnitDeleted \<and> containsIdentity lib (tqVersions q) version else uStatus u = UnitActive)
     else if intent \<in> {TemporalEvolution, TemporalCompareVersions} then
       (if uStatus u = UnitDeleted then False
        else if tqVersions q = [] then statusOK \<or> uStatus u = UnitSuperseded
        else if version \<noteq> [] then containsIdentity lib (tqVersions q) version
        else statusOK)
     else if intent = TemporalRangeHistory then
       (if uStatus u = UnitDeleted then False
        else (case tqRange q of Some r \<Rightarrow> if version \<noteq> [] then ContainsVersion lib r version else statusOK \<or> uStatus u = UnitSuperseded
          | None \<Rightarrow> statusOK \<or> uStatus u = UnitSuperseded))
     else uStatus u = UnitActive)"

definition temporalVersionBoost :: "Lib \<Rightarrow> Unit \<Rightarrow> TemporalQuery \<Rightarrow> string \<Rightarrow> rat" where
  "temporalVersionBoost lib u q resolved = (let version = uVersion u; intent = tqIntent q in
     if intent \<in> {TemporalCurrent, TemporalValidity} then
       (if resolved \<noteq> [] \<and> version \<noteq> [] then (if compareVersions lib version resolved = Some 0 then 6 else -2)
        else if version \<noteq> [] then 1 / 2 else - (1 / 4))
     else if intent \<in> {TemporalExplicitVersion, TemporalHistorical} then
       (if version \<noteq> [] \<and> containsIdentity lib (tqVersions q) version then 8 else if version = [] then - (1 / 2) else 0)
     else if intent \<in> {TemporalEvolution, TemporalCompareVersions} then
       (if version \<noteq> [] \<and> containsIdentity lib (tqVersions q) version then 7 / 2 else 0)
     else 0)"

definition ResolveCurrentVersion :: "Lib \<Rightarrow> Compilation \<Rightarrow> string option" where
  "ResolveCurrentVersion lib c = LatestComparableVersion (lbLower lib) (lbEqualFold lib)
     (map uVersion (filter (\<lambda>u. uStatus u \<noteq> UnitDeleted \<and> uVersion u \<noteq> []) (cpUnits c)))"

definition temporalReason :: "Unit \<Rightarrow> string \<Rightarrow> string \<Rightarrow> string" where
  "temporalReason u intent resolved = (let version = trimSpace (metadataText (uMetadata u) ''temporal_version'');
       status = trimSpace (metadataText (uMetadata u) ''temporal_status'') in joinWith '', '' (
     (if version = [] then [] else [''source_version='' @ version]) @ (if status = [] then [] else [''status='' @ status])
     @ (if resolved = [] then [] else [''resolved_for_intent='' @ intent @ ''='' @ resolved])
     @ (if uSupersededBy u = [] then [] else [''superseded_by='' @ uSupersededBy u])))"

subsection \<open>The version of a source\<close>

abbreviation SourceAuthorityDefault :: int where "SourceAuthorityDefault \<equiv> 8"

definition NormalizeSourceAuthority :: "Lib \<Rightarrow> string \<Rightarrow> int" where
  "NormalizeSourceAuthority lib value = (let v = lbLower lib (trimSpace value) in
     if v \<in> {''release'', ''release_notes'', ''release-notes'', ''changelog''} then 1
     else if v \<in> {''product'', ''documentation'', ''docs''} then 2
     else if v \<in> {''specification'', ''spec''} then 2
     else if v \<in> {''code'', ''source''} then 3
     else if v = ''readme'' then 4
     else if v \<in> {''design'', ''old-design''} then 5
     else (case parseInt value of Some n \<Rightarrow> if 0 \<le> n \<and> n \<le> 100 then n else SourceAuthorityDefault | None \<Rightarrow> SourceAuthorityDefault))"

text \<open>\<open>time.Date(year, month, day, ...).Unix()\<close> in UTC; a month or day out of range moves on.\<close>

definition dateUnix :: "int \<Rightarrow> int \<Rightarrow> int \<Rightarrow> int" where
  "dateUnix year month day = (let y = year + (month - 1) div 12; m = (month - 1) mod 12 + 1;
       y' = (if m \<le> 2 then y - 1 else y); era = y' div 400; yoe = y' - era * 400;
       doy = (153 * (if 2 < m then m - 3 else m + 9) + 2) div 5 + day - 1 in
     (era * 146097 + yoe * 365 + yoe div 4 - yoe div 100 + doy - 719468) * 86400)"

definition titleDatePattern :: rx where
  "titleDatePattern = seqs [Wordb, Grp 1 yearPattern, oneOf ''-'', twoDigits 2, oneOf ''-'', twoDigits 3, Wordb]"

definition atoiOrZero :: "string \<Rightarrow> int" where
  "atoiOrZero s = (case parseInt s of None \<Rightarrow> 0 | Some n \<Rightarrow> n)"

definition versionInText :: "Lib \<Rightarrow> string \<Rightarrow> string" where
  "versionInText lib value = (let normalized = joinWith '' '' (fieldsOf (lbLower lib value));
       normalize = NormalizeVersionIdentity (lbLower lib);
       release = Option.bind (FindStringSubmatch releaseVersionPattern normalized) (\<lambda>g. normalize (''rel-'' @ g 1));
       spec = Option.bind (FindStringSubmatch threeGPPVersionPattern normalized) (\<lambda>g. normalize (''v'' @ g 1 @ g 2 @ g 3));
       compact = Option.bind (FindStringSubmatch compact3GPPPattern normalized) (\<lambda>g. normalize (''v'' @ g 1 @ g 2 @ g 3));
       semantic = Option.bind (FindStringSubmatch semanticVersionPattern normalized) (\<lambda>g. normalize (withSuffix (g 1) (g 2) (g 3))) in
     case List.map_filter id [release, spec, compact, semantic] of [] \<Rightarrow> [] | v # _ \<Rightarrow> v)"

text \<open>The position of the last dot is that of the lowered text, the slices are of the text itself.\<close>

definition firstTemporalVersionInText :: "Lib \<Rightarrow> string \<Rightarrow> string option" where
  "firstTemporalVersionInText lib value = (case lastIndexOf (lbLower lib value) ''.'' of None \<Rightarrow> Some (versionInText lib value)
     | Some i \<Rightarrow> if length value < Suc i then None
       else Some (versionInText lib (if lbLower lib (drop (Suc i) value) \<in> {''md'', ''txt'', ''json'', ''yaml'', ''yml'', ''html''}
         then take i value else value)))"

definition lookupKeys :: "(string \<rightharpoonup> string) \<Rightarrow> string list \<Rightarrow> string" where
  "lookupKeys metadata keys = (case filter (\<lambda>v. v \<noteq> []) (map (\<lambda>k. trimSpace (metadataText metadata k)) keys) of [] \<Rightarrow> [] | v # _ \<Rightarrow> v)"

record TemporalSource =
  tsVersion :: string
  tsPublished :: int
  tsEffective :: int
  tsAuthority :: int

definition ExtractTemporalSource :: "Lib \<Rightarrow> string \<Rightarrow> (string \<rightharpoonup> string) \<Rightarrow> TemporalSource option" where
  "ExtractTemporalSource lib title metadata = (let look = lookupKeys metadata;
       version = look [''knowledge_version'', ''document_version'', ''release'', ''version'', ''temporal_version''];
       dated = FindStringSubmatch titleDatePattern title;
       published = (case dated of None \<Rightarrow> parseTemporalTimestamp lib (look [''published_at'', ''published'', ''date'', ''revision_date''])
         | Some g \<Rightarrow> dateUnix (atoiOrZero (g 1)) (atoiOrZero (g 2)) (atoiOrZero (g 3)));
       versionSource = (if dated = None then title else ReplaceAllString titleDatePattern title '' '');
       authority = look [''source_authority'', ''source_priority''] in
     map_option (\<lambda>v. \<lparr>tsVersion = v, tsPublished = published,
         tsEffective = parseTemporalTimestamp lib (look [''effective_at'', ''effective'', ''valid_from'']),
         tsAuthority = (if authority = [] then SourceAuthorityDefault else NormalizeSourceAuthority lib authority)\<rparr>)
       (if version = [] then firstTemporalVersionInText lib versionSource else Some version))"

definition temporalMetadataFromSource :: "Lib \<Rightarrow> string \<Rightarrow> (string \<rightharpoonup> string) \<Rightarrow> (string \<rightharpoonup> string) option" where
  "temporalMetadataFromSource lib title metadata = map_option (\<lambda>s.
     [''temporal_source_authority'' \<mapsto> formatInt (tsAuthority s)]
     ++ (if tsVersion s = [] then Map.empty else [''temporal_version'' \<mapsto> tsVersion s])
     ++ (if 0 < tsPublished s then [''temporal_published_at'' \<mapsto> formatInt (tsPublished s)] else Map.empty)
     ++ (if 0 < tsEffective s then [''temporal_effective_at'' \<mapsto> formatInt (tsEffective s)] else Map.empty)) (ExtractTemporalSource lib title metadata)"

definition applyTemporalMetadata :: "Lib \<Rightarrow> Unit \<Rightarrow> string \<Rightarrow> (string \<rightharpoonup> string) \<Rightarrow> Unit option" where
  "applyTemporalMetadata lib u title metadata = map_option (\<lambda>m. u\<lparr>uMetadata := uMetadata u ++ m\<rparr>) (temporalMetadataFromSource lib title metadata)"

end
