(* ===== verification/SemSearch.thy ===== *)
theory SemSearch
  imports SemQuery SemProvenance
begin

text \<open>
  Searching compiled knowledge (\<open>internal/semantic/search.go\<close>) and routing a question (\<open>router.go\<close>).
  \<open>letter\<close> is \<open>unicode.IsLetter(r) || unicode.IsDigit(r)\<close>.
\<close>

subsection \<open>Routing\<close>

abbreviation "IntentFact \<equiv> ''fact''"
abbreviation "IntentLocalDocument \<equiv> ''local_document''"
abbreviation "IntentCrossDocument \<equiv> ''cross_document''"
abbreviation "IntentGlobal \<equiv> ''global''"
abbreviation "IntentComparison \<equiv> ''comparison''"
abbreviation "IntentMultiHop \<equiv> ''multi_hop''"
abbreviation "IntentTemporal \<equiv> ''temporal''"

record QueryPlan =
  qpQuery :: string
  qpNormalizedQuery :: string
  qpIntent :: string
  qpConfidence :: rat
  qpSignals :: "string \<Rightarrow> nat"
  qpPrimaryRetrieval :: string
  qpSecondaryRetrieval :: string
  qpUseSemanticMemory :: bool
  qpUseEvidence :: bool
  qpUseRelations :: bool
  qpUseHierarchicalSummary :: bool
  qpTemporal :: TemporalQuery
  qpCurrentVersion :: string
  qpTemporalDiagnostics :: "string list"

definition intentMarkers :: "(string \<times> string list) list" where
  "intentMarkers = [
     (IntentGlobal, [''overall'', ''whole knowledge base'', ''summarize'', ''summary'', ''overview'', ''what are the main'',
       [CHR 0xE5, CHR 0x85, CHR 0xA8, CHR 0xE5, CHR 0xB1, CHR 0x80], [CHR 0xE6, CHR 0x95, CHR 0xB4, CHR 0xE4, CHR 0xBD, CHR 0x93],
       [CHR 0xE6, CHR 0x80, CHR 0xBB, CHR 0xE7, CHR 0xBB, CHR 0x93], [CHR 0xE6, CHR 0xA6, CHR 0x82, CHR 0xE8, CHR 0xBF, CHR 0xB0],
       [CHR 0xE4, CHR 0xB8, CHR 0xBB, CHR 0xE8, CHR 0xA6, CHR 0x81, CHR 0xE8, CHR 0xAE, CHR 0xB2],
       [CHR 0xE5, CHR 0x85, CHR 0xA8, CHR 0xE9, CHR 0x83, CHR 0xA8]]),
     (IntentCrossDocument, [''across documents'', ''across the documents'', ''all documents'', ''different documents'', ''multiple documents'',
       ''each document'', [CHR 0xE8, CHR 0xB7, CHR 0xA8, CHR 0xE6, CHR 0x96, CHR 0x87, CHR 0xE6, CHR 0xA1, CHR 0xA3],
       [CHR 0xE5, CHR 0xA4, CHR 0x9A, CHR 0xE4, CHR 0xB8, CHR 0xAA, CHR 0xE6, CHR 0x96, CHR 0x87, CHR 0xE6, CHR 0xA1, CHR 0xA3],
       [CHR 0xE6, CHR 0x89, CHR 0x80, CHR 0xE6, CHR 0x9C, CHR 0x89, CHR 0xE6, CHR 0x96, CHR 0x87, CHR 0xE6, CHR 0xA1, CHR 0xA3],
       [CHR 0xE5, CHR 0x88, CHR 0x86, CHR 0xE5, CHR 0x88, CHR 0xAB]]),
     (IntentComparison, [''compare'', ''comparison'', ''difference'', ''differences'', ''differ'', '' versus '', '' vs '',
       [CHR 0xE6, CHR 0xAF, CHR 0x94, CHR 0xE8, CHR 0xBE, CHR 0x83], [CHR 0xE5, CHR 0x8C, CHR 0xBA, CHR 0xE5, CHR 0x88, CHR 0xAB],
       [CHR 0xE5, CHR 0xAF, CHR 0xB9, CHR 0xE6, CHR 0xAF, CHR 0x94], [CHR 0xE5, CHR 0xB7, CHR 0xAE, CHR 0xE5, CHR 0xBC, CHR 0x82]]),
     (IntentMultiHop, [''how does'', ''why does'', ''why do'', ''why is'', ''lead to'', ''leads to'', ''because'', ''cause'', ''affect'',
       ''relationship'', ''connected'', ''chain'', [CHR 0xE5, CHR 0xBD, CHR 0xB1, CHR 0xE5, CHR 0x93, CHR 0x8D],
       [CHR 0xE5, CHR 0xAF, CHR 0xBC, CHR 0xE8, CHR 0x87, CHR 0xB4], [CHR 0xE5, CHR 0x9B, CHR 0xA0, CHR 0xE4, CHR 0xB8, CHR 0xBA],
       [CHR 0xE4, CHR 0xB8, CHR 0xBA, CHR 0xE4, CHR 0xBB, CHR 0x80, CHR 0xE4, CHR 0xB9, CHR 0x88],
       [CHR 0xE5, CHR 0x85, CHR 0xB3, CHR 0xE7, CHR 0xB3, CHR 0xBB], [CHR 0xE9, CHR 0x93, CHR 0xBE, CHR 0xE8, CHR 0xB7, CHR 0xAF],
       [CHR 0xE4, CHR 0xBE, CHR 0x9D, CHR 0xE8, CHR 0xB5, CHR 0x96]]),
     (IntentTemporal, [''current'', ''latest'', ''newest'', ''before'', ''after'', ''as of'', ''history'', ''historical'', ''version'', ''when'',
       [CHR 0xE5, CHR 0xBD, CHR 0x93, CHR 0xE5, CHR 0x89, CHR 0x8D], [CHR 0xE6, CHR 0x9C, CHR 0x80, CHR 0xE6, CHR 0x96, CHR 0xB0],
       [CHR 0xE4, CHR 0xB9, CHR 0x8B, CHR 0xE5, CHR 0x89, CHR 0x8D], [CHR 0xE4, CHR 0xB9, CHR 0x8B, CHR 0xE5, CHR 0x90, CHR 0x8E],
       [CHR 0xE5, CHR 0x8E, CHR 0x86, CHR 0xE5, CHR 0x8F, CHR 0xB2], [CHR 0xE7, CHR 0x89, CHR 0x88, CHR 0xE6, CHR 0x9C, CHR 0xAC],
       [CHR 0xE4, CHR 0xBD, CHR 0x95, CHR 0xE6, CHR 0x97, CHR 0xB6], [CHR 0xE6, CHR 0x97, CHR 0xB6, CHR 0xE9, CHR 0x97, CHR 0xB4]]),
     (IntentLocalDocument, [''this document'', ''the document'', ''in this file'', [CHR 0xE6, CHR 0x9C, CHR 0xAC, CHR 0xE6, CHR 0x96, CHR 0x87],
       [CHR 0xE8, CHR 0xAF, CHR 0xA5, CHR 0xE6, CHR 0x96, CHR 0x87, CHR 0xE6, CHR 0xA1, CHR 0xA3],
       [CHR 0xE8, CHR 0xBF, CHR 0x99, CHR 0xE4, CHR 0xB8, CHR 0xAA, CHR 0xE6, CHR 0x96, CHR 0x87, CHR 0xE4, CHR 0xBB, CHR 0xB6]])]"

definition factMarkers :: "string list" where
  "factMarkers = [''what is'', ''how much'', ''how many'', ''which'', ''where'', [CHR 0xE5, CHR 0xA4, CHR 0x9A, CHR 0xE5, CHR 0xB0, CHR 0x91],
       [CHR 0xE6, CHR 0x98, CHR 0xAF, CHR 0xE4, CHR 0xBB, CHR 0x80, CHR 0xE4, CHR 0xB9, CHR 0x88],
       [CHR 0xE5, CHR 0x93, CHR 0xAA, CHR 0xE4, CHR 0xB8, CHR 0xAA],
       [CHR 0xE5, CHR 0x9C, CHR 0xA8, CHR 0xE5, CHR 0x93, CHR 0xAA, CHR 0xE9, CHR 0x87, CHR 0x8C]]"

text \<open>\<open>signals\<close>: two for every marker that occurs; a fact marker counts once, a question mark adds one.\<close>

definition markerSignals :: "Lib \<Rightarrow> string \<Rightarrow> string list \<Rightarrow> nat" where
  "markerSignals lib normalized markers = 2 * length (filter (\<lambda>m. m \<noteq> [] \<and> contains normalized m) (map (normalizeSearchText lib) markers))"

definition routeSignals :: "Lib \<Rightarrow> string \<Rightarrow> string \<Rightarrow> nat" where
  "routeSignals lib normalized intent = (case map_of intentMarkers intent of Some ms \<Rightarrow> markerSignals lib normalized ms
     | None \<Rightarrow> if intent = IntentFact then
         (if list_ex (contains normalized) factMarkers then 2 else 0)
         + (if contains normalized ''?'' \<or> contains normalized [CHR 0xEF, CHR 0xBC, CHR 0x9F] then 1 else 0)
       else 0)"

definition intentOrder :: "string list" where
  "intentOrder = [IntentTemporal, IntentMultiHop, IntentComparison, IntentCrossDocument, IntentGlobal, IntentLocalDocument, IntentFact]"

definition bestIntent :: "(string \<Rightarrow> nat) \<Rightarrow> string list \<Rightarrow> string \<times> nat \<Rightarrow> string \<times> nat" where
  "bestIntent signals = fold (\<lambda>c (intent, best). if best < signals c then (c, signals c) else (intent, best))"

definition clampRatio :: "nat \<Rightarrow> nat \<Rightarrow> rat" where
  "clampRatio best tot = min 1 (max (fl (35 / 100)) (fl (of_nat best / of_nat tot)))"

definition analytical :: "(string \<Rightarrow> nat) \<Rightarrow> bool" where
  "analytical signals \<longleftrightarrow> list_ex (\<lambda>i. signals IntentFact < signals i) [IntentGlobal, IntentCrossDocument, IntentComparison, IntentMultiHop]"

text \<open>A broad question that only mentions history keeps its analytical intent.\<close>

definition analyticalIntent :: "(string \<Rightarrow> nat) \<Rightarrow> string \<times> nat \<Rightarrow> string \<times> nat" where
  "analyticalIntent signals ib = bestIntent signals [IntentMultiHop, IntentComparison, IntentCrossDocument]
     (if 0 < signals IntentGlobal then (IntentGlobal, signals IntentGlobal) else ib)"

definition applyRouting :: "QueryPlan \<Rightarrow> QueryPlan" where
  "applyRouting plan = (let p = plan\<lparr>qpUseEvidence := True, qpUseSemanticMemory := True\<rparr>; intent = qpIntent plan in
     if intent = IntentGlobal then p\<lparr>qpPrimaryRetrieval := ''hierarchy'', qpSecondaryRetrieval := ''evidence'', qpUseHierarchicalSummary := True\<rparr>
     else if intent \<in> {IntentCrossDocument, IntentComparison} then
       p\<lparr>qpPrimaryRetrieval := ''hybrid'', qpSecondaryRetrieval := ''evidence'', qpUseHierarchicalSummary := True\<rparr>
     else if intent = IntentMultiHop then p\<lparr>qpPrimaryRetrieval := ''relation'', qpSecondaryRetrieval := ''evidence'', qpUseRelations := True\<rparr>
     else p\<lparr>qpPrimaryRetrieval := ''evidence'', qpSecondaryRetrieval := ''semantic''\<rparr>)"

definition RouteQuery :: "Lib \<Rightarrow> string \<Rightarrow> QueryPlan" where
  "RouteQuery lib query = (let normalized = normalizeSearchText lib query; signals = routeSignals lib normalized;
       ib = bestIntent signals intentOrder (IntentFact, signals IntentFact); tot = sum_list (map signals intentOrder);
       confidence = (if 0 < tot then clampRatio (snd ib) tot else fl (35 / 100));
       temporal = ParseTemporalQuery lib query;
       preserveHistory = (tqIntent temporal = TemporalRangeHistory \<and> analytical signals);
       temporal = (if preserveHistory then temporal\<lparr>tqIntent := TemporalHistorical, tqRange := None\<rparr> else temporal);
       ib = (if preserveHistory then analyticalIntent signals ib else ib);
       preserveIntent = (tqIntent temporal = TemporalExplicitVersion \<and> analytical signals);
       temporalWins = (tqIntent temporal \<noteq> TemporalNone \<and> \<not> preserveIntent \<and> \<not> preserveHistory);
       signals' = (if temporalWins then signals(IntentTemporal := signals IntentTemporal + 4) else signals);
       ib' = (if temporalWins \<and> snd ib < signals' IntentTemporal then (IntentTemporal, signals' IntentTemporal) else ib);
       confidence' = (if temporalWins then clampRatio (snd ib') (tot + 4) else confidence) in
     applyRouting \<lparr>qpQuery = trimSpace query, qpNormalizedQuery = normalized, qpIntent = fst ib', qpConfidence = confidence', qpSignals = signals',
       qpPrimaryRetrieval = [], qpSecondaryRetrieval = [], qpUseSemanticMemory = False, qpUseEvidence = False, qpUseRelations = False,
       qpUseHierarchicalSummary = False,
       qpTemporal = (if fst ib' = IntentTemporal \<and> tqIntent temporal = TemporalNone then noTemporal (fl (35 / 100)) else temporal),
       qpCurrentVersion = tqFromVersion temporal,
       qpTemporalDiagnostics = (if tqIntent temporal = TemporalCurrent then [''current resolution deferred to compiled knowledge validity''] else [])\<rparr>)"

subsection \<open>Terms\<close>

text \<open>The terms of a run of letters and of a run of Han runes, each a list of runes.\<close>

definition flushLatin :: "string \<Rightarrow> string list \<Rightarrow> string list" where
  "flushLatin normalized latin = (if latin = [] then [] else if 2 \<le> length latin \<or> length normalized = 1 then [concat latin] else [])"

fun runePairs :: "string list \<Rightarrow> string list" where
  "runePairs (a # b # rs) = (a @ b) # runePairs (b # rs)"
| "runePairs rs = []"

definition flushCJK :: "string list \<Rightarrow> string list" where
  "flushCJK cjk = (if length cjk = 1 then [concat cjk] else runePairs cjk)"

fun termRuns :: "(nat \<Rightarrow> bool) \<Rightarrow> string \<Rightarrow> string list \<Rightarrow> string list \<Rightarrow> string list \<Rightarrow> string list" where
  "termRuns letter normalized latin cjk [] = flushLatin normalized latin @ flushCJK cjk"
| "termRuns letter normalized latin cjk (s # rs) = (let r = fst (decodeRune s) in
     if hanRune r then flushLatin normalized latin @ termRuns letter normalized [] (cjk @ [s]) rs
     else if letter r then flushCJK cjk @ termRuns letter normalized (latin @ [s]) [] rs
     else flushLatin normalized latin @ flushCJK cjk @ termRuns letter normalized [] [] rs)"

definition SearchTerms :: "Lib \<Rightarrow> (nat \<Rightarrow> bool) \<Rightarrow> string \<Rightarrow> string list" where
  "SearchTerms lib letter query = (let normalized = normalizeSearchText lib query in
     dedupeStrings (filter (\<lambda>t. t \<noteq> []) (termRuns letter normalized [] [] (runeSlices normalized))))"

subsection \<open>Scores\<close>

definition DefaultSearchKinds :: "string list" where
  "DefaultSearchKinds = [UnitConcept, UnitTopic, UnitSummary]"

definition normalizedSearchKinds :: "string list \<Rightarrow> string list" where
  "normalizedSearchKinds kinds = (let valid = dedupeStrings (filter (\<lambda>k. k \<in> set unitKinds) (if kinds = [] then DefaultSearchKinds else kinds)) in
     if valid = [] then DefaultSearchKinds else sort valid)"

definition semanticKindPriority :: "string \<Rightarrow> nat" where
  "semanticKindPriority kind = (if kind = UnitConcept then 1 else if kind = UnitTopic then 2 else if kind = UnitSummary then 3
     else if kind = UnitFact then 4 else 5)"

text \<open>The score of one term, and whether the term counts as matched.\<close>

definition termScore :: "string \<Rightarrow> string \<Rightarrow> string \<Rightarrow> string list \<Rightarrow> string \<Rightarrow> rat \<times> bool" where
  "termScore title canonical content aliases t = (let
     (score, matched) = (if contains title t then (4, True) else if contains canonical t then (3, True)
       else if list_ex (\<lambda>a. contains a t) aliases then (3, True) else (0, False));
     inContent = contains content t; score = (if inContent then score + 1 else score) in
     (score, matched \<or> inContent \<and> score = 0))"

definition scoreSemanticUnit :: "Lib \<Rightarrow> Unit \<Rightarrow> string \<Rightarrow> string list \<Rightarrow> rat \<times> rat \<times> string list" where
  "scoreSemanticUnit lib u normalizedQuery terms = (let norm = normalizeSearchText lib;
       title = norm (uTitle u); canonical = norm (uCanonicalKey u); content = norm (uContent u);
       scored = map (\<lambda>t. (t, termScore title canonical content (map norm (uAliases u)) t)) terms;
       matched = map fst (filter (\<lambda>(t, s, m). m) scored); score = sum_list (map (\<lambda>(t, s, m). s) scored) in
     if matched = [] then (0, 0, [])
     else (let coverage = fl (of_nat (length matched) / of_nat (length terms)); score = fl (score * coverage);
         score = (if contains title normalizedQuery \<or> contains canonical normalizedQuery then fl (score + 5)
           else if contains content normalizedQuery then fl (score + 2) else score);
         score = (if uDerivedFrom u = [] then score else fl (score + fl (of_nat (min (length (uDerivedFrom u)) 8) * fl (1 / 20)))) in
       (score, coverage, matched)))"

subsection \<open>Search\<close>

record SearchOptions =
  soQuery :: string
  soTopK :: int
  soKinds :: "string list"
  soIntent :: string
  soTemporal :: "TemporalQuery option"

record SearchHit =
  shUnit :: Unit
  shScore :: rat
  shCoverage :: rat
  shMatchedTerms :: "string list"
  shEvidence :: "EvidenceSource list"

record SearchResponse =
  srQuery :: string
  srNormalizedQuery :: string
  srTerms :: "string list"
  srRequestedKinds :: "string list"
  srGeneration :: int
  srRouting :: QueryPlan
  srHits :: "SearchHit list"

datatype SearchError = NoScope | EmptySearch | EvidenceError SemError

text \<open>The score of a unit a query may see; None skips it.\<close>

definition scoreHit :: "Lib \<Rightarrow> string \<Rightarrow> TemporalQuery \<Rightarrow> string \<Rightarrow> string list \<Rightarrow> string \<Rightarrow> string list \<Rightarrow> Unit \<Rightarrow> SearchHit option" where
  "scoreHit lib intent temporal resolved kinds normalized terms u = (
     if \<not> temporalVersionVisible lib u temporal \<or> uType u \<notin> set kinds then None
     else (let (score, coverage, matched) = scoreSemanticUnit lib u normalized terms;
         (score, coverage, matched) = (if score \<le> 0 \<and> intent = IntentGlobal \<and> uType u \<in> {UnitTopic, UnitSummary}
           then (fl (of_nat (length (uDerivedFrom u)) * fl (1 / 10)), 1, [''global'']) else (score, coverage, matched)) in
       if score \<le> 0 \<or> matched = [] then None
       else (let score = (if tqIntent temporal \<noteq> TemporalNone then fl (score + temporalVersionBoost lib u temporal resolved) else score) in
         if tqIntent temporal \<noteq> TemporalNone \<and> score \<le> 0 then None
         else Some \<lparr>shUnit = u, shScore = score, shCoverage = coverage, shMatchedTerms = matched, shEvidence = []\<rparr>)))"

definition hitKey :: "SearchHit \<Rightarrow> rat \<times> rat \<times> nat \<times> string" where
  "hitKey h = (- shScore h, - shCoverage h, semanticKindPriority (uType (shUnit h)), uCanonicalKey (shUnit h))"

fun attachEvidence :: "Unit list \<Rightarrow> SearchHit list \<Rightarrow> SemError + SearchHit list" where
  "attachEvidence us [] = Inr []"
| "attachEvidence us (h # hs) = bindr (ResolveEvidence us (uID (shUnit h))) (\<lambda>e.
     bindr (attachEvidence us hs) (\<lambda>hs'. Inr (h\<lparr>shEvidence := e\<rparr> # hs')))"

definition clampTopK :: "int \<Rightarrow> nat" where
  "clampTopK k = nat (if k \<le> 0 then 10 else if 50 < k then 50 else k)"

text \<open>The plan of a search: an explicit scope replaces the one read from the question.\<close>

definition searchRouting :: "Lib \<Rightarrow> Compilation \<Rightarrow> SearchOptions \<Rightarrow> QueryPlan \<times> string" where
  "searchRouting lib c opts = (let plan = RouteQuery lib (soQuery opts);
       plan = (case soTemporal opts of None \<Rightarrow> plan | Some t \<Rightarrow> plan\<lparr>qpTemporal := t\<rparr>) in
     if tqIntent (qpTemporal plan) \<in> {TemporalCurrent, TemporalValidity} then (case ResolveCurrentVersion lib c of
         Some v \<Rightarrow> (plan\<lparr>qpCurrentVersion := v, qpTemporalDiagnostics := qpTemporalDiagnostics plan
           @ [''resolved current_version='' @ v @ '' from compiled source validity'']\<rparr>, v)
       | None \<Rightarrow> (plan\<lparr>qpCurrentVersion := [], qpTemporalDiagnostics := qpTemporalDiagnostics plan
           @ [''current_version=UNKNOWN: no authoritative comparable version order'']\<rparr>, []))
     else (plan, []))"

definition searchCandidates :: "Lib \<Rightarrow> (nat \<Rightarrow> bool) \<Rightarrow> Compilation \<Rightarrow> SearchOptions \<Rightarrow> SearchHit list" where
  "searchCandidates lib letter c opts = (let (plan, resolved) = searchRouting lib c opts;
       intent = (if soIntent opts = [] then qpIntent plan else soIntent opts) in
     sort_key hitKey (List.map_filter (scoreHit lib intent (qpTemporal plan) resolved (normalizedSearchKinds (soKinds opts))
       (normalizeSearchText lib (soQuery opts)) (SearchTerms lib letter (soQuery opts))) (cpUnits c)))"

definition SearchCompilation :: "Lib \<Rightarrow> (nat \<Rightarrow> bool) \<Rightarrow> Compilation \<Rightarrow> SearchOptions \<Rightarrow> SearchError + SearchResponse" where
  "SearchCompilation lib letter c opts = (if blank (cpBaseID c) \<or> cpGeneration c \<le> 0 then Inl NoScope
     else (let terms = SearchTerms lib letter (soQuery opts) in
       if terms = [] then Inl EmptySearch
       else (case attachEvidence (cpUnits c) (take (clampTopK (soTopK opts)) (searchCandidates lib letter c opts)) of
         Inl e \<Rightarrow> Inl (EvidenceError e)
       | Inr hits \<Rightarrow> Inr \<lparr>srQuery = soQuery opts, srNormalizedQuery = normalizeSearchText lib (soQuery opts), srTerms = terms,
           srRequestedKinds = normalizedSearchKinds (soKinds opts), srGeneration = cpGeneration c,
           srRouting = fst (searchRouting lib c opts), srHits = hits\<rparr>)))"

end
