(* ===== verification/SemSearchProperties.thy ===== *)
theory SemSearchProperties
  imports SemSearch SemReconcileProperties
begin

text \<open>
  What a question is read as (\<open>internal/semantic/temporal.go\<close>, \<open>history.go\<close>) and what a search over compiled
  knowledge returns (\<open>search.go\<close>): the shape of a temporal query, the hits a search may return, and the evidence
  they carry.
\<close>

subsection \<open>Temporal queries\<close>

lemma FindAll_length: "length (FindAllStringSubmatch r s n) \<le> n"
  by (simp add: FindAllStringSubmatch_def Let_def)

lemma map_filter_length: "length (List.map_filter f xs) \<le> length xs"
  by (simp add: List.map_filter_def)

lemma mentionedVersions_bound: "distinct (mentionedVersions lib normalized) \<and> length (mentionedVersions lib normalized) \<le> 8"
proof -
  let ?a = "List.map_filter (\<lambda>g. NormalizeVersionIdentity (lbLower lib) (withSuffix (g 1) (g 2) (g 3))) (FindAllStringSubmatch semanticVersionPattern normalized 4)"
  let ?b = "List.map_filter (\<lambda>g. NormalizeVersionIdentity (lbLower lib) (''rel-'' @ g 1)) (FindAllStringSubmatch releaseVersionPattern normalized 4)"
  have "length ?a \<le> 4" by (rule order_trans [OF map_filter_length FindAll_length])
  moreover have "length ?b \<le> 4" by (rule order_trans [OF map_filter_length FindAll_length])
  ultimately have "length (?a @ ?b) \<le> 8" by simp
  moreover have "length (remdups (rev (?a @ ?b))) \<le> length (?a @ ?b)" using length_remdups_leq [of "rev (?a @ ?b)"] by simp
  ultimately show ?thesis by (simp add: mentionedVersions_def dedupeStrings_def)
qed

text \<open>Comparing in the other order gives the opposite sign, whatever the two texts are.\<close>

lemma compare_opposite:
  assumes "\<And>a b. lbEqualFold lib a b = lbEqualFold lib b a"
  shows "compareVersions lib b a = map_option uminus (compareVersions lib a b)"
proof (cases "lbEqualFold lib a b")
  case True
  then show ?thesis using assms [of a b] by (simp add: CompareVersionIdentity_def)
next
  case False
  then have "\<not> lbEqualFold lib b a" using assms [of a b] by simp
  note f = False this
  show ?thesis
  proof (cases "parseVersionIdentity (lbLower lib) a = None \<or> parseVersionIdentity (lbLower lib) b = None")
    case True
    with f show ?thesis by (auto simp: CompareVersionIdentity_def split: option.splits)
  next
    case False
    then obtain x y where "parseVersionIdentity (lbLower lib) a = Some x" "parseVersionIdentity (lbLower lib) b = Some y" by auto
    with f show ?thesis by (simp add: CompareVersionIdentity_def compareParts_swap [of "viParts y" "viParts x"])
  qed
qed

lemma orderedTemporalVersions_order:
  assumes "\<And>a b. lbEqualFold lib a b = lbEqualFold lib b a" "length vs = 2"
    "compareVersions lib (fst (orderedTemporalVersions lib vs)) (snd (orderedTemporalVersions lib vs)) = Some order"
  shows "order \<le> 0"
proof -
  obtain a b where vs: "vs = [a, b]" using assms(2) by (auto simp: numeral_2_eq_2 length_Suc_conv)
  show ?thesis
  proof (cases "compareVersions lib a b")
    case None
    then show ?thesis using assms(3) by (simp add: vs orderedTemporalVersions_def)
  next
    case (Some n)
    moreover have "compareVersions lib b a = Some (- n)" unfolding compare_opposite [OF assms(1), of b a] Some by simp
    ultimately show ?thesis using assms(3) by (cases "0 < n") (simp_all add: vs orderedTemporalVersions_def)
  qed
qed

lemma orderedTemporalVersions_set: "vs \<noteq> [] \<Longrightarrow> fst (orderedTemporalVersions lib vs) \<in> set vs \<and> snd (orderedTemporalVersions lib vs) \<in> set vs"
proof -
  assume vs: "vs \<noteq> []"
  have "length vs = 2 \<Longrightarrow> vs ! 0 \<in> set vs \<and> vs ! 1 \<in> set vs" by auto
  with vs show ?thesis by (auto simp: orderedTemporalVersions_def split: option.splits)
qed

definition intents :: "string set" where
  "intents = {TemporalNone, TemporalCurrent, TemporalExplicitVersion, TemporalHistorical, TemporalEvolution, TemporalCompareVersions,
     TemporalValidity, TemporalRangeHistory}"

text \<open>What the first chain of conditions leaves in the query.\<close>

definition consistentIntent :: "Lib \<Rightarrow> TemporalQuery \<Rightarrow> bool" where
  "consistentIntent lib q \<longleftrightarrow> tqIntent q \<in> intents \<and> 0 \<le> tqConfidence q \<and> tqConfidence q \<le> 1
     \<and> (tqIntent q = TemporalNone \<longrightarrow> tqVersions q = [])
     \<and> (tqIntent q = TemporalExplicitVersion \<longrightarrow> tqVersions q = [tqFromVersion q] \<and> tqToVersion q = tqFromVersion q)
     \<and> (tqIntent q = TemporalCompareVersions \<longrightarrow> 2 \<le> length (tqVersions q))
     \<and> (tqIntent q \<in> {TemporalCurrent, TemporalValidity, TemporalHistorical} \<longrightarrow> tqVersions q = [])
     \<and> (tqFromVersion q, tqToVersion q) \<in> {([], [])} \<union> set (tqVersions q) \<times> set (tqVersions q)
     \<and> (tqVersions q = [] \<longrightarrow> tqFromVersion q = [])
     \<and> (length (tqVersions q) = 2 \<longrightarrow> (\<forall>order. compareVersions lib (tqFromVersion q) (tqToVersion q) = Some order \<longrightarrow> order \<le> 0))"

lemma lexicalIntent_consistent:
  assumes sym: "\<And>a b. lbEqualFold lib a b = lbEqualFold lib b a"
  shows "consistentIntent lib (lexicalIntent lib normalized ((noTemporal 0)\<lparr>tqVersions := vs\<rparr>))"
proof -
  have ends: "vs \<noteq> [] \<Longrightarrow> fst (orderedTemporalVersions lib vs) \<in> set vs \<and> snd (orderedTemporalVersions lib vs) \<in> set vs"
    by (rule orderedTemporalVersions_set)
  have ord: "length vs = 2 \<Longrightarrow> compareVersions lib (fst (orderedTemporalVersions lib vs)) (snd (orderedTemporalVersions lib vs)) = Some order
      \<Longrightarrow> order \<le> 0" for order by (rule orderedTemporalVersions_order [OF sym])
  have two: "\<not> 2 \<le> length vs \<Longrightarrow> vs \<noteq> [] \<Longrightarrow> vs = [hd vs]" by (cases vs) (auto simp: Suc_le_eq)
  have c: "0 \<le> fl x \<and> fl x \<le> 1" if "0 \<le> x" "x \<le> 1" for x by (rule fl_le_one [OF that])
  show ?thesis
  proof (cases "2 \<le> length vs")
    case True
    then have "vs \<noteq> []" by auto
    with True ends ord show ?thesis
      by (auto simp: lexicalIntent_def Let_def consistentIntent_def withIntent_def withEnds_def noTemporal_def intents_def c)
  next
    case False
    show ?thesis
    proof (cases "vs = []")
      case True
      then show ?thesis
        by (auto simp: lexicalIntent_def Let_def consistentIntent_def withIntent_def withEnds_def noTemporal_def intents_def c)
    next
      case one: False
      then obtain v where "vs = [v]" using two False by blast
      then show ?thesis
        by (auto simp: lexicalIntent_def Let_def consistentIntent_def withIntent_def withEnds_def noTemporal_def intents_def c)
    qed
  qed
qed

text \<open>What a range may be: an explicit pair never runs backwards, and a range without ends is marked ambiguous.\<close>

definition consistentRange :: "Lib \<Rightarrow> TemporalRange \<Rightarrow> bool" where
  "consistentRange lib r \<longleftrightarrow> trKind r \<in> {RangeVersion, RangeTime, RangeEvent, RangeAmbiguous} \<and> 0 \<le> trConfidence r \<and> trConfidence r \<le> 1
     \<and> (trAmbiguous r \<longleftrightarrow> trKind r = RangeAmbiguous)
     \<and> (trAmbiguous r \<longleftrightarrow> trStart r = None \<and> trEnd r = None)
     \<and> (\<forall>a b order. trStart r = Some a \<longrightarrow> trEnd r = Some b \<longrightarrow> compareRangeBoundaries lib a b (trKind r) = Some order \<longrightarrow> order \<le> 0)"

lemma parseRangeEndpoint_kind: "parseRangeEndpoint lib v i = Some (b, k) \<Longrightarrow> k = RangeVersion \<or> k = RangeTime"
  by (auto simp: parseRangeEndpoint_def split: option.splits)

lemma compareRange_opposite:
  assumes "\<And>a b. lbEqualFold lib a b = lbEqualFold lib b a"
  shows "compareRangeBoundaries lib b a k = map_option uminus (compareRangeBoundaries lib a b k)"
  using compare_opposite [OF assms, of "rbValue b" "rbValue a"] by (auto simp: compareRangeBoundaries_def split: option.splits)

lemma pairRange_consistent:
  assumes sym: "\<And>a b. lbEqualFold lib a b = lbEqualFold lib b a" and r: "pairRange lib normalized = Some r"
  shows "consistentRange lib r"
proof -
  obtain left right k where k: "k = RangeVersion \<or> k = RangeTime" and
    c: "r = (let swap = (case compareRangeBoundaries lib left right k of Some order \<Rightarrow> 0 < order | None \<Rightarrow> False) in
      \<lparr>trKind = k, trStart = Some (if swap then right else left), trEnd = Some (if swap then left else right), trAmbiguous = False,
       trScope = [], trConfidence = fl (96 / 100), trDiagnostics = [''explicit-range'']\<rparr>)"
  proof -
    obtain g where g: "FindStringSubmatch rangePairPattern normalized = Some g" using r by (auto simp: pairRange_def split: option.splits)
    obtain left k where l: "parseRangeEndpoint lib (g 1) True = Some (left, k)"
      using r by (cases "parseRangeEndpoint lib (g 1) True") (auto simp: pairRange_def g)
    obtain right k' where rt: "parseRangeEndpoint lib (g 2) True = Some (right, k')"
      using r l by (cases "parseRangeEndpoint lib (g 2) True") (auto simp: pairRange_def g)
    have "k' = k" using r by (simp add: pairRange_def g l [simplified] rt split: if_splits)
    with r have "r = (let swap = (case compareRangeBoundaries lib left right k of Some order \<Rightarrow> 0 < order | None \<Rightarrow> False) in
      \<lparr>trKind = k, trStart = Some (if swap then right else left), trEnd = Some (if swap then left else right), trAmbiguous = False,
       trScope = [], trConfidence = fl (96 / 100), trDiagnostics = [''explicit-range'']\<rparr>)"
      by (simp add: pairRange_def g l [simplified] rt Let_def)
    with parseRangeEndpoint_kind [OF l] show ?thesis by (rule that)
  qed
  have conf: "0 \<le> fl (96 / 100) \<and> fl (96 / 100) \<le> 1" by (rule fl_le_one) simp_all
  show ?thesis
  proof (cases "compareRangeBoundaries lib left right k")
    case None
    with k conf show ?thesis by (auto simp: c consistentRange_def)
  next
    case (Some n)
    moreover have "compareRangeBoundaries lib right left k = Some (- n)" unfolding compareRange_opposite [OF sym, of right left] Some by simp
    ultimately show ?thesis using k conf by (cases "0 < n") (auto simp: c consistentRange_def)
  qed
qed

lemma oneSided_consistent: "k \<in> {RangeVersion, RangeTime, RangeEvent} \<Longrightarrow> consistentRange lib (oneSided m k b)"
  using fl_le_one [of "93 / 100"] by (auto simp: oneSided_def Let_def consistentRange_def)

lemma markerRange_consistent: "markerRange lib normalized m = Some r \<Longrightarrow> consistentRange lib r"
  by (auto simp: markerRange_def Let_def split: option.splits prod.splits if_splits
      intro!: oneSided_consistent dest: parseRangeEndpoint_kind)

lemma ParseTemporalRange_consistent:
  assumes sym: "\<And>a b. lbEqualFold lib a b = lbEqualFold lib b a" and r: "ParseTemporalRange lib query = Some r"
  shows "consistentRange lib r"
proof -
  let ?n = "normalizeSearchText lib query"
  have amb: "consistentRange lib (ambiguousRange s (fl q) d)" if "0 \<le> q" "q \<le> 1" for s q d
    using fl_le_one [OF that] by (simp add: ambiguousRange_def consistentRange_def)
  have m: "consistentRange lib x" if "x \<in> set (List.map_filter (markerRange lib ?n) rangeMarkerPatterns)" for x
    using that markerRange_consistent by (auto simp: List.map_filter_def)
  show ?thesis
  proof (cases "pairRange lib ?n")
    case (Some x)
    with r pairRange_consistent [OF sym] show ?thesis by (simp add: ParseTemporalRange_def)
  next
    case None
    show ?thesis
    proof (cases "List.map_filter (markerRange lib ?n) rangeMarkerPatterns")
      case Nil
      with None r show ?thesis by (auto simp: ParseTemporalRange_def Let_def split: if_splits intro!: amb)
    next
      case (Cons x xs)
      with None r m [of x] show ?thesis by (simp add: ParseTemporalRange_def)
    qed
  qed
qed

text \<open>A query with its range.\<close>

definition consistentQuery :: "Lib \<Rightarrow> TemporalQuery \<Rightarrow> bool" where
  "consistentQuery lib q \<longleftrightarrow> consistentIntent lib q
     \<and> (tqIntent q = TemporalNone \<longrightarrow> tqRange q = None) \<and> (tqIntent q = TemporalRangeHistory \<longrightarrow> tqRange q \<noteq> None)
     \<and> (\<forall>r. tqRange q = Some r \<longrightarrow> consistentRange lib r \<and> (trAmbiguous r \<longrightarrow> tqVersions q = [] \<and> tqIntent q = TemporalRangeHistory))"

lemma withRange_consistent:
  assumes "consistentIntent lib q" "consistentRange lib r" "trAmbiguous r \<longrightarrow> tqVersions q = []"
  shows "consistentQuery lib (withRange r q) \<and> tqIntent (withRange r q) \<noteq> TemporalNone"
proof -
  define a where "a \<longleftrightarrow> trKind r = RangeAmbiguous \<or> trAmbiguous r \<or> trKind r = RangeEvent
    \<or> trKind r = RangeVersion \<and> (trStart r = None) \<noteq> (trEnd r = None)"
  have h: "consistentQuery lib (withIntent TemporalRangeHistory (trConfidence r) s (q\<lparr>tqRange := Some r\<rparr>))
      \<and> tqIntent (withIntent TemporalRangeHistory (trConfidence r) s (q\<lparr>tqRange := Some r\<rparr>)) \<noteq> TemporalNone" for s
    using assms by (simp add: consistentQuery_def consistentIntent_def withIntent_def intents_def) (simp add: consistentRange_def)
  have k: "consistentQuery lib (q\<lparr>tqRange := Some r\<rparr>)" if "tqIntent q \<noteq> TemporalNone" "\<not> a"
    using assms that by (simp add: consistentQuery_def consistentIntent_def a_def)
  have w: "withRange r q = (if a then withIntent TemporalRangeHistory (trConfidence r) ''range-history'' (q\<lparr>tqRange := Some r\<rparr>)
    else if tqIntent q = TemporalNone then withIntent TemporalRangeHistory (trConfidence r) ''explicit-range-history'' (q\<lparr>tqRange := Some r\<rparr>)
    else q\<lparr>tqRange := Some r\<rparr>)"
  proof -
    have same: "tqIntent (q\<lparr>tqRange := Some r\<rparr>) = tqIntent q" by simp
    show ?thesis unfolding withRange_def Let_def a_def same by (rule refl)
  qed
  show ?thesis
  proof (cases a)
    case True
    with w h show ?thesis by simp
  next
    case False
    with w h k show ?thesis by (cases "tqIntent q = TemporalNone") simp_all
  qed
qed

lemma lexicalIntent_fields: "tqRange (lexicalIntent lib n q) = tqRange q \<and> tqVersions (lexicalIntent lib n q) = tqVersions q
    \<and> (tqIntent q = TemporalNone \<longrightarrow> tqIntent (lexicalIntent lib n q) \<noteq> TemporalRangeHistory)"
  by (auto simp: lexicalIntent_def Let_def withIntent_def withEnds_def)

text \<open>C38: whatever the question, the temporal query read from it is well formed: at most eight distinct versions, a
  confidence between 0 and 1, one of the eight intents, an as-of query names exactly its one version, a comparison at least two,
  a current, validity or historical query none, the two ends are versions of the query and in order when they can be compared,
  and a range (present whenever the intent asks for one) has its ends in order and is ambiguous exactly when it has no end.\<close>

theorem temporal_query_wellformed:
  assumes "\<And>a b. lbEqualFold lib a b = lbEqualFold lib b a"
  shows "distinct (tqVersions (ParseTemporalQuery lib query)) \<and> length (tqVersions (ParseTemporalQuery lib query)) \<le> 8
    \<and> consistentQuery lib (ParseTemporalQuery lib query)"
proof -
  let ?n = "normalizeSearchText lib query"
  let ?q = "lexicalIntent lib ?n ((noTemporal 0)\<lparr>tqVersions := mentionedVersions lib ?n\<rparr>)"
  have i: "consistentIntent lib ?q" by (rule lexicalIntent_consistent) (rule assms)
  have f: "tqRange ?q = None" "tqVersions ?q = mentionedVersions lib ?n" "tqIntent ?q \<noteq> TemporalRangeHistory"
    using lexicalIntent_fields [of lib ?n "(noTemporal 0)\<lparr>tqVersions := mentionedVersions lib ?n\<rparr>"] by (simp_all add: noTemporal_def)
  have q: "consistentQuery lib ?q" using i f by (simp add: consistentQuery_def)
  have e: "consistentQuery lib (withIntent TemporalEvolution (fl (62 / 100)) s ?q)" if "tqIntent ?q = TemporalNone" for s
    using i f that fl_le_one [of "62 / 100"] by (auto simp: consistentQuery_def consistentIntent_def withIntent_def intents_def)
  have v: "tqVersions (withRange r x) = tqVersions x" for r x by (simp add: withRange_def Let_def withIntent_def)
  have v': "tqVersions (withIntent a b c x) = tqVersions x" for a b c x by (simp add: withIntent_def)
  have empty: "consistentQuery lib (noTemporal 0)" by (simp add: consistentQuery_def consistentIntent_def noTemporal_def intents_def)
  have "consistentQuery lib (ParseTemporalQuery lib query) \<and> tqVersions (ParseTemporalQuery lib query) \<in> {[], mentionedVersions lib ?n}"
  proof (cases "?n = []")
    case True
    then show ?thesis using empty by (simp add: ParseTemporalQuery_def noTemporal_def)
  next
    case n: False
    show ?thesis
    proof (cases "ParseTemporalRange lib query")
      case None
      with n q e f(2) show ?thesis by (auto simp: ParseTemporalQuery_def Let_def v')
    next
      case (Some r)
      note c = ParseTemporalRange_consistent [OF assms Some]
      show ?thesis
      proof (cases "trAmbiguous r \<and> tqVersions ?q \<noteq> []")
        case True
        with Some n q e f(2) show ?thesis by (auto simp: ParseTemporalQuery_def Let_def v')
      next
        case False
        with withRange_consistent [OF i c] have "consistentQuery lib (withRange r ?q) \<and> tqIntent (withRange r ?q) \<noteq> TemporalNone" by blast
        moreover have "ParseTemporalQuery lib query = withRange r ?q"
          unfolding ParseTemporalQuery_def Let_def Some if_not_P [OF n] option.case if_not_P [OF False] by (rule if_P) (use calculation in blast)
        ultimately show ?thesis by (simp add: v f(2))
      qed
    qed
  qed
  with mentionedVersions_bound [of lib ?n] show ?thesis by auto
qed

subsection \<open>Search\<close>

text \<open>Whether a unit answers a question: its kind was asked for, the temporal query lets it be seen, and its score is positive.\<close>

lemma scoreHit_sound:
  assumes "scoreHit lib intent temporal resolved kinds normalized terms u = Some h"
  shows "shUnit h = u \<and> uType u \<in> set kinds \<and> temporalVersionVisible lib u temporal \<and> 0 < shScore h \<and> shMatchedTerms h \<noteq> []"
  using assms by (auto simp: scoreHit_def Let_def split: if_splits prod.splits)

lemma visible_not_deleted: "temporalVersionVisible lib u q \<Longrightarrow> uStatus u \<noteq> UnitDeleted"
  by (auto simp: temporalVersionVisible_def Let_def split: if_splits option.splits)

lemma attachEvidence_Inr:
  "attachEvidence us hs = Inr out \<Longrightarrow> length out = length hs \<and> map hitKey out = map hitKey hs \<and> map shUnit out = map shUnit hs
    \<and> map shScore out = map shScore hs \<and> map shMatchedTerms out = map shMatchedTerms hs
    \<and> (\<forall>h \<in> set out. ResolveEvidence us (uID (shUnit h)) = Inr (shEvidence h))"
proof (induction hs arbitrary: out)
  case (Cons h hs)
  then obtain e rest where "ResolveEvidence us (uID (shUnit h)) = Inr e" "attachEvidence us hs = Inr rest"
    "out = h\<lparr>shEvidence := e\<rparr> # rest" by (auto simp: bindr_Inr)
  with Cons.IH [of rest] show ?case by (simp add: hitKey_def)
qed simp

lemma attachEvidence_total:
  "(\<And>h. h \<in> set hs \<Longrightarrow> \<exists>e. ResolveEvidence us (uID (shUnit h)) = Inr e) \<Longrightarrow> \<exists>out. attachEvidence us hs = Inr out"
proof (induction hs)
  case (Cons h hs)
  obtain e where "ResolveEvidence us (uID (shUnit h)) = Inr e" using Cons.prems [of h] by auto
  moreover obtain out where "attachEvidence us hs = Inr out" using Cons by auto
  ultimately show ?case by simp
qed simp

lemma map_filter_mem: "x \<in> set (List.map_filter f xs) \<longleftrightarrow> (\<exists>y \<in> set xs. f y = Some x)"
  unfolding List.map_filter_def by (auto simp: image_iff intro!: bexI [where x = "_"])

text \<open>The first elements of a sorted list: they are sorted, and what is left out is no better.\<close>

lemma sorted_prefix:
  fixes f :: "'a \<Rightarrow> 'k::linorder"
  shows "sorted (map f (take k (sort_key f xs)))
    \<and> (x \<in> set xs \<longrightarrow> x \<in> set (take k (sort_key f xs)) \<or> length (take k (sort_key f xs)) = k \<and> (\<forall>y \<in> set (take k (sort_key f xs)). f y \<le> f x))"
proof -
  let ?s = "sort_key f xs"
  have s: "sorted (map f (take k ?s @ drop k ?s))" by simp
  have a: "sorted (map f (take k ?s))" "\<forall>y \<in> set (take k ?s). \<forall>z \<in> set (drop k ?s). f y \<le> f z"
    using s unfolding map_append sorted_append by auto
  have "x \<in> set xs \<Longrightarrow> x \<notin> set (take k ?s) \<Longrightarrow> x \<in> set (drop k ?s)"
    using set_append [of "take k ?s" "drop k ?s"] by auto
  moreover have "z \<in> set (drop k ?s) \<Longrightarrow> length (take k ?s) = k" for z by (cases "k \<le> length ?s") auto
  ultimately show ?thesis using a by blast
qed

lemma clampTopK_bound: "1 \<le> clampTopK k \<and> clampTopK k \<le> 50"
  by (cases "k \<le> 0"; cases "50 < k") (simp_all add: clampTopK_def nat_le_iff le_nat_iff)

text \<open>How one unit of a compilation answers the options of a search.\<close>

definition answers :: "Lib \<Rightarrow> (nat \<Rightarrow> bool) \<Rightarrow> Compilation \<Rightarrow> SearchOptions \<Rightarrow> Unit \<Rightarrow> SearchHit option" where
  "answers lib letter c opts = scoreHit lib (if soIntent opts = [] then qpIntent (fst (searchRouting lib c opts)) else soIntent opts)
     (qpTemporal (fst (searchRouting lib c opts))) (snd (searchRouting lib c opts)) (normalizedSearchKinds (soKinds opts))
     (normalizeSearchText lib (soQuery opts)) (SearchTerms lib letter (soQuery opts))"

lemma searchCandidates_answers: "searchCandidates lib letter c opts = sort_key hitKey (List.map_filter (answers lib letter c opts) (cpUnits c))"
  by (simp add: searchCandidates_def answers_def Let_def split: prod.split)

lemma SearchCompilation_Inr:
  assumes "SearchCompilation lib letter c opts = Inr r"
  obtains "attachEvidence (cpUnits c) (take (clampTopK (soTopK opts)) (searchCandidates lib letter c opts)) = Inr (srHits r)"
    "srRequestedKinds r = normalizedSearchKinds (soKinds opts)" "srRouting r = fst (searchRouting lib c opts)"
  using assms by (auto simp: SearchCompilation_def Let_def split: if_splits sum.splits)

text \<open>C39: what a successful search returns: at most \<open>top_k\<close> and never more than 50 hits, sorted from the best down; each is a unit of
  the compilation that is not deleted, has a requested kind and may be seen under the temporal scope of the reported plan, with
  a positive score and at least one matched term, and carries exactly the evidence the unit resolves to; and every unit that
  answers the question is among the hits unless the list is full of hits at least as good.\<close>

theorem search_contract:
  assumes "SearchCompilation lib letter c opts = Inr r"
  shows "length (srHits r) \<le> clampTopK (soTopK opts) \<and> clampTopK (soTopK opts) \<le> 50 \<and> sorted (map hitKey (srHits r))
    \<and> (\<forall>h \<in> set (srHits r). shUnit h \<in> set (cpUnits c) \<and> uStatus (shUnit h) \<noteq> UnitDeleted \<and> uType (shUnit h) \<in> set (srRequestedKinds r)
        \<and> temporalVersionVisible lib (shUnit h) (qpTemporal (srRouting r)) \<and> 0 < shScore h \<and> shMatchedTerms h \<noteq> []
        \<and> ResolveEvidence (cpUnits c) (uID (shUnit h)) = Inr (shEvidence h))
    \<and> (\<forall>u h. u \<in> set (cpUnits c) \<longrightarrow> answers lib letter c opts u = Some h \<longrightarrow> (\<exists>g \<in> set (srHits r). shUnit g = u)
        \<or> length (srHits r) = clampTopK (soTopK opts) \<and> (\<forall>g \<in> set (srHits r). hitKey g \<le> hitKey h))"
proof -
  let ?cands = "List.map_filter (answers lib letter c opts) (cpUnits c)" and ?k = "clampTopK (soTopK opts)"
  let ?first = "take ?k (sort_key hitKey ?cands)"
  from SearchCompilation_Inr [OF assms] have a: "attachEvidence (cpUnits c) ?first = Inr (srHits r)"
    and k: "srRequestedKinds r = normalizedSearchKinds (soKinds opts)" and p: "srRouting r = fst (searchRouting lib c opts)"
    unfolding searchCandidates_answers by auto
  note e = attachEvidence_Inr [OF a]
  have same: "f ` set (srHits r) = f ` set ?first" if "map f (srHits r) = map f ?first" for f :: "SearchHit \<Rightarrow> 'z"
    using arg_cong [OF that, of set] by simp
  have nth_same: "f (srHits r ! i) = f (?first ! i)" if "map f (srHits r) = map f ?first" "i < length (srHits r)" for f :: "SearchHit \<Rightarrow> 'z" and i
    using that e nth_map [of i "srHits r" f] nth_map [of i ?first f] by metis
  have len: "length (srHits r) \<le> ?k" "length (srHits r) = length ?first" using e by simp_all
  have srt: "sorted (map hitKey (srHits r))" using e sorted_prefix [of hitKey ?k ?cands] by simp
  have sound: "shUnit h \<in> set (cpUnits c) \<and> uStatus (shUnit h) \<noteq> UnitDeleted \<and> uType (shUnit h) \<in> set (srRequestedKinds r)
        \<and> temporalVersionVisible lib (shUnit h) (qpTemporal (srRouting r)) \<and> 0 < shScore h \<and> shMatchedTerms h \<noteq> []
        \<and> ResolveEvidence (cpUnits c) (uID (shUnit h)) = Inr (shEvidence h)" if h: "h \<in> set (srHits r)" for h
  proof -
    obtain i where i: "i < length (srHits r)" "h = srHits r ! i" using h by (auto simp: in_set_conv_nth)
    define g where "g = ?first ! i"
    have ig: "i < length ?first" using i(1) len(2) by simp
    then have "g \<in> set ?cands" unfolding g_def using nth_mem [OF ig] set_take_subset [of ?k "sort_key hitKey ?cands"] by auto
    then obtain u where u: "u \<in> set (cpUnits c)" "answers lib letter c opts u = Some g" by (auto simp: map_filter_mem)
    have eq: "shUnit h = shUnit g" "shScore h = shScore g" "shMatchedTerms h = shMatchedTerms g"
      unfolding i(2) g_def by (rule nth_same [OF _ i(1)]; use e in blast)+
    from scoreHit_sound [OF u(2) [unfolded answers_def]] u(1) visible_not_deleted e h show ?thesis by (auto simp: eq k p)
  qed
  have complete: "(\<exists>g \<in> set (srHits r). shUnit g = u) \<or> length (srHits r) = ?k \<and> (\<forall>g \<in> set (srHits r). hitKey g \<le> hitKey h)"
    if u: "u \<in> set (cpUnits c)" "answers lib letter c opts u = Some h" for u h
  proof -
    have hu: "shUnit h = u" using scoreHit_sound [OF u(2) [unfolded answers_def]] by simp
    have "h \<in> set ?cands" using u by (auto simp: map_filter_mem)
    with sorted_prefix [of hitKey ?k ?cands h]
    consider "h \<in> set ?first" | "length ?first = ?k" "\<forall>y \<in> set ?first. hitKey y \<le> hitKey h" by blast
    then show ?thesis
    proof cases
      case 1
      then have "u \<in> shUnit ` set (srHits r)" using same [of shUnit] e hu by auto
      then show ?thesis by auto
    next
      case 2
      have "hitKey ` set (srHits r) = hitKey ` set ?first" by (rule same) (use e in blast)
      with 2 len(2) show ?thesis by (metis imageE imageI)
    qed
  qed
  show ?thesis using len(1) clampTopK_bound srt sound complete by blast
qed

lemma search_total:
  assumes "compilationValidate sha c = None" "SearchTerms lib letter (soQuery opts) \<noteq> []"
  shows "\<exists>r. SearchCompilation lib letter c opts = Inr r
    \<and> (\<forall>h \<in> set (srHits r). shEvidence h \<noteq> [] \<and> list_all (\<lambda>s. sourceValidate s = None) (shEvidence h))"
proof -
  let ?first = "take (clampTopK (soTopK opts)) (searchCandidates lib letter c opts)"
  have mem: "shUnit h \<in> set (cpUnits c)" if "h \<in> set ?first" for h
  proof -
    have "h \<in> set (List.map_filter (answers lib letter c opts) (cpUnits c))"
      using that set_take_subset [of "clampTopK (soTopK opts)" "searchCandidates lib letter c opts"] by (auto simp: searchCandidates_answers)
    then obtain u where "u \<in> set (cpUnits c)" "answers lib letter c opts u = Some h" by (auto simp: map_filter_mem)
    then show ?thesis using scoreHit_sound [of lib _ _ _ _ _ _ u h] by (auto simp: answers_def)
  qed
  have "\<exists>e. ResolveEvidence (cpUnits c) (uID (shUnit h)) = Inr e" if "h \<in> set ?first" for h
    using validated_resolves [OF assms(1) mem [OF that]] by blast
  then obtain out where out: "attachEvidence (cpUnits c) ?first = Inr out" using attachEvidence_total by blast
  have scope: "\<not> (blank (cpBaseID c) \<or> cpGeneration c \<le> 0)"
    using assms(1) by (auto simp: compilationValidate_def check_def split: if_splits)
  obtain r where r: "SearchCompilation lib letter c opts = Inr r" "srHits r = out"
    using scope assms(2) out by (simp add: SearchCompilation_def Let_def)
  have "shEvidence h \<noteq> [] \<and> list_all (\<lambda>s. sourceValidate s = None) (shEvidence h)" if h: "h \<in> set out" for h
  proof -
    note e = attachEvidence_Inr [OF out]
    have "shUnit h \<in> shUnit ` set ?first" using e h by (metis image_eqI list.set_map)
    then have "shUnit h \<in> set (cpUnits c)" using mem by auto
    from validated_resolves [OF assms(1) this] e h show ?thesis by auto
  qed
  with r show ?thesis by auto
qed

text \<open>C40: over a compilation that passed validation a search never fails on its evidence: with a question that has at least one
  term it returns a response, and every hit carries at least one source, each of them valid.\<close>

theorem search_succeeds:
  assumes "compilationValidate sha c = None" "SearchTerms lib letter (soQuery opts) \<noteq> []"
  shows "\<exists>r. SearchCompilation lib letter c opts = Inr r
    \<and> (\<forall>h \<in> set (srHits r). shEvidence h \<noteq> [] \<and> list_all (\<lambda>s. sourceValidate s = None) (shEvidence h))"
  using assms by (rule search_total)

subsection \<open>Concrete searches\<close>

definition asciiLetter :: "nat \<Rightarrow> bool" where
  "asciiLetter r \<longleftrightarrow> 48 \<le> r \<and> r \<le> 57 \<or> 97 \<le> r \<and> r \<le> 122 \<or> 65 \<le> r \<and> r \<le> 90"

definition demoSearch :: "string \<Rightarrow> SearchOptions" where
  "demoSearch query = \<lparr>soQuery = query, soTopK = 3, soKinds = [UnitFact, UnitConcept], soIntent = IntentFact, soTemporal = Some (noTemporal 0)\<rparr>"

definition titled :: "string \<Rightarrow> Unit" where
  "titled s = demoFact\<lparr>uTitle := s\<rparr>"

definition searchable :: Compilation where
  "searchable = demoCompilation\<lparr>cpUnits := [titled ''the writer lock'', demoConcept]\<rparr>"

lemma temporal_query_wellformed_witness:
  "distinct (tqVersions (ParseTemporalQuery demoLib ''2.1 or 1.9'')) \<and> tqFromVersion (ParseTemporalQuery demoLib ''2.1 or 1.9'') = ''1.9''"
proof -
  have "lbEqualFold demoLib a b = lbEqualFold demoLib b a" for a b by (auto simp: demoLib_def)
  from temporal_query_wellformed [OF this, of "''2.1 or 1.9''"]
  have "distinct (tqVersions (ParseTemporalQuery demoLib ''2.1 or 1.9''))" by blast
  moreover have "tqFromVersion (ParseTemporalQuery demoLib ''2.1 or 1.9'') = ''1.9''" by code_simp
  ultimately show ?thesis by blast
qed

text \<open>With an explicit intent and scope the question is not read for one.\<close>

lemma answers_explicit:
  assumes "soIntent opts \<noteq> []" "soTemporal opts = Some t" "tqIntent t \<notin> {TemporalCurrent, TemporalValidity}"
  shows "answers lib letter c opts = scoreHit lib (soIntent opts) t [] (normalizedSearchKinds (soKinds opts))
     (normalizeSearchText lib (soQuery opts)) (SearchTerms lib letter (soQuery opts))"
  using assms by (simp add: answers_def searchRouting_def Let_def)

lemma demoSearch_answers:
  "map (\<lambda>u. map_option shMatchedTerms (answers demoLib asciiLetter searchable (demoSearch ''lock'') u)) (cpUnits searchable) = [Some [''lock''], None]"
proof -
  have "soIntent (demoSearch ''lock'') \<noteq> []" "soTemporal (demoSearch ''lock'') = Some (noTemporal 0)"
    "tqIntent (noTemporal 0) \<notin> {TemporalCurrent, TemporalValidity}" by (simp_all add: demoSearch_def noTemporal_def)
  note e = answers_explicit [OF this]
  show ?thesis unfolding e by code_simp
qed

lemma demoSearch_total: "\<exists>r. SearchCompilation demoLib asciiLetter searchable (demoSearch ''lock'') = Inr r"
proof -
  have "compilationValidate demoSha searchable = None" by code_simp
  moreover have "SearchTerms demoLib asciiLetter (soQuery (demoSearch ''lock'')) \<noteq> []" by code_simp
  ultimately show ?thesis using search_total by blast
qed

lemma search_contract_witness:
  "\<exists>r. SearchCompilation demoLib asciiLetter searchable (demoSearch ''lock'') = Inr r \<and> map shUnit (srHits r) \<noteq> []"
proof -
  obtain r where r: "SearchCompilation demoLib asciiLetter searchable (demoSearch ''lock'') = Inr r" using demoSearch_total by blast
  obtain h where "answers demoLib asciiLetter searchable (demoSearch ''lock'') (titled ''the writer lock'') = Some h"
    using demoSearch_answers by (auto simp: searchable_def)
  moreover have "titled ''the writer lock'' \<in> set (cpUnits searchable)" by (simp add: searchable_def)
  moreover have "clampTopK (soTopK (demoSearch ''lock'')) = 3" by code_simp
  ultimately have "srHits r \<noteq> []" using search_contract [OF r] by fastforce
  with r show ?thesis by auto
qed

lemma search_succeeds_witness: "\<exists>r. SearchCompilation demoLib asciiLetter demoCompilation (demoSearch ''lock'') = Inr r"
proof -
  have "SearchTerms demoLib asciiLetter (soQuery (demoSearch ''lock'')) \<noteq> []" by code_simp
  from search_succeeds [OF demoCompilation_ok this] show ?thesis by blast
qed

text \<open>A term that only occurs in the content scores nothing: its point is added before the code asks whether the score is zero, so the
  term never counts as matched and the unit is never found.\<close>

lemma content_term_unmatched:
  "termScore ''intro'' ''intro'' ''the writer holds the lock'' [] ''lock'' = (1, False)"
  "answers demoLib asciiLetter demoCompilation (demoSearch ''lock'') (demoFact\<lparr>uTitle := ''intro'', uContent := ''the writer holds the lock''\<rparr>) = None"
proof -
  show "termScore ''intro'' ''intro'' ''the writer holds the lock'' [] ''lock'' = (1, False)" by code_simp
  have "soIntent (demoSearch ''lock'') \<noteq> []" "soTemporal (demoSearch ''lock'') = Some (noTemporal 0)"
    "tqIntent (noTemporal 0) \<notin> {TemporalCurrent, TemporalValidity}" by (simp_all add: demoSearch_def noTemporal_def)
  note e = answers_explicit [OF this]
  show "answers demoLib asciiLetter demoCompilation (demoSearch ''lock'')
    (demoFact\<lparr>uTitle := ''intro'', uContent := ''the writer holds the lock''\<rparr>) = None" unfolding e by code_simp
qed

text \<open>A marker is looked for at its first occurrence only: \<open>now\<close> inside \<open>knowledge\<close> hides the word that follows.\<close>

lemma marker_hidden_by_prefix:
  "\<not> containsTemporalMarker ''knowledge now'' ''now''" "containsTemporalMarker ''is it valid now'' ''now''"
  "tqIntent (ParseTemporalQuery demoLib ''knowledge now'') = TemporalNone"
  by code_simp+

text \<open>A range that is not about versions hides every unit that has one.\<close>

lemma event_range_hides_versions:
  "trKind r \<noteq> RangeVersion \<Longrightarrow> tqIntent q = TemporalRangeHistory \<Longrightarrow> tqRange q = Some r \<Longrightarrow> uVersion u \<noteq> [] \<Longrightarrow>
    \<not> temporalVersionVisible lib u q"
  by (simp add: temporalVersionVisible_def Let_def ContainsVersion_def)

text \<open>The markers of a comparison lose their spaces before they are looked for, so \<open>vs\<close> is found inside a word.\<close>

lemma marker_spaces_lost: "0 < routeSignals demoLib ''devs'' IntentComparison"
proof -
  have "case map_of intentMarkers IntentComparison of Some ms \<Rightarrow> '' vs '' \<in> set ms | None \<Rightarrow> False" by (simp add: intentMarkers_def)
  then obtain ms where ms: "map_of intentMarkers IntentComparison = Some ms" "'' vs '' \<in> set ms" by (auto split: option.splits)
  have "normalizeSearchText demoLib '' vs '' = ''vs'' \<and> contains ''devs'' ''vs''" by code_simp
  with ms(2) have "''vs'' \<in> set (filter (\<lambda>m. m \<noteq> [] \<and> contains ''devs'' m) (map (normalizeSearchText demoLib) ms))"
    by (auto intro!: image_eqI [where x = "'' vs ''"])
  then have "0 < length (filter (\<lambda>m. m \<noteq> [] \<and> contains ''devs'' m) (map (normalizeSearchText demoLib) ms))"
    by (rule length_pos_if_in_set)
  then show ?thesis using ms(1) by (simp add: routeSignals_def markerSignals_def)
qed

text \<open>Three versions are not put in order: the ends are the first and the last as they were written.\<close>

lemma three_versions_unordered:
  "orderedTemporalVersions demoLib [''1.10'', ''1.11'', ''1.9''] = (''1.10'', ''1.9'')"
  by code_simp

text \<open>A title whose lower case form is longer than the title: the position found in the lowered text is past the end of the title.\<close>

lemma longer_lower_panics:
  assumes "lbLower lib ''AAA.md'' = ''aaaaaaaaa.md''"
  shows "firstTemporalVersionInText lib ''AAA.md'' = None"
proof -
  have "lastIndexOf ''aaaaaaaaa.md'' ''.'' = Some 9" by code_simp
  then show ?thesis by (simp add: firstTemporalVersionInText_def assms)
qed

end
