(* ===== verification/OpUrl.thy ===== *)
theory OpUrl
  imports Tables Base64 "HOL-Library.Char_ord" "HOL-Library.List_Lexorder" "HOL-Library.Product_Lexorder" "HOL-Library.Multiset"
begin

text \<open>
  URL captures (\<open>internal/operations/url.go\<close>): the bytes an operation fetched, stored once, consumed after
  the document is published, and expired. \<open>sha\<close> is SHA-256; a NULL body is the empty one. An identifier and
  a reading of the clock are arguments, and so is the table an earlier read of the same call saw.
\<close>

abbreviation MaxURLCaptureBytes :: int where "MaxURLCaptureBytes \<equiv> 10485760"

abbreviation urlRetention :: int where "urlRetention \<equiv> 604800000"

abbreviation urlBatchSize :: nat where "urlBatchSize \<equiv> 100"

subsection \<open>Rows\<close>

datatype URLState = URLReady | URLConsumed | URLFailed

record URLCapture =
  ucpID :: string
  ucpOperationID :: string
  ucpRawURL :: string
  ucpFinalURL :: string
  ucpContentType :: string
  ucpSHA256 :: string
  ucpSizeBytes :: int
  ucpState :: URLState
  ucpBody :: string
  ucpCreatedAt :: int
  ucpUpdatedAt :: int
  ucpExpiresAt :: int

datatype URLError = URLTooLarge | URLNotUsable URLState | URLNotFound | URLStore

interpretation urls: row_store "sel_by ucpOperationID" "upd_by ucpOperationID" ins_by ucpOperationID "uniq_by ucpOperationID"
  by (rule row_store_by)

subsection \<open>Operations\<close>

definition GetURLCapture :: "URLCapture list \<Rightarrow> string \<Rightarrow> URLError + URLCapture" where
  "GetURLCapture rows operationID = (case sel_by ucpOperationID rows operationID of None \<Rightarrow> Inl URLNotFound | Some c \<Rightarrow> Inr c)"

definition newCapture :: "(string \<Rightarrow> string) \<Rightarrow> string \<Rightarrow> int \<Rightarrow> string \<Rightarrow> string \<Rightarrow> string \<Rightarrow> string \<Rightarrow> string \<Rightarrow> URLCapture" where
  "newCapture sha i current operationID rawURL finalURL contentType body =
     \<lparr>ucpID = i, ucpOperationID = operationID, ucpRawURL = rawURL, ucpFinalURL = finalURL, ucpContentType = contentType,
      ucpSHA256 = hexEncode (sha body), ucpSizeBytes = int (length body), ucpState = URLReady, ucpBody = body,
      ucpCreatedAt = current, ucpUpdatedAt = current, ucpExpiresAt = current + urlRetention\<rparr>"

text \<open>
  The insert: both keys are unique and the operation exists (\<open>known\<close>). \<open>failing\<close> is a write error of the
  database.
\<close>

definition insertCapture :: "(string \<Rightarrow> bool) \<Rightarrow> bool \<Rightarrow> URLCapture \<Rightarrow> URLCapture list \<Rightarrow> URLError + URLCapture list" where
  "insertCapture known failing c rows = (if failing \<or> \<not> known (ucpOperationID c) \<or> ucpID c \<in> ucpID ` set rows
     \<or> sel_by ucpOperationID rows (ucpOperationID c) \<noteq> None then Inl URLStore else Inr (ins_by c rows))"

definition EnsureURLCapture :: "(string \<Rightarrow> string) \<Rightarrow> (string \<Rightarrow> bool) \<Rightarrow> bool \<Rightarrow> string \<Rightarrow> int \<Rightarrow> URLCapture list
    \<Rightarrow> string \<Rightarrow> string \<Rightarrow> string \<Rightarrow> string \<Rightarrow> string \<Rightarrow> URLCapture list \<Rightarrow> (URLError + URLCapture) \<times> URLCapture list" where
  "EnsureURLCapture sha known failing i current seen operationID rawURL finalURL contentType body rows =
     (if MaxURLCaptureBytes < int (length body) then (Inl URLTooLarge, rows)
      else case GetURLCapture seen operationID of
        Inr existing \<Rightarrow> (if ucpState existing \<noteq> URLReady \<or> ucpBody existing = [] then Inl (URLNotUsable (ucpState existing)) else Inr existing, rows)
      | Inl _ \<Rightarrow> (let c = newCapture sha i current operationID rawURL finalURL contentType body in
          case insertCapture known failing c rows of Inl e \<Rightarrow> (Inl e, rows) | Inr rows' \<Rightarrow> (Inr c, rows')))"

definition clearBody :: "int \<Rightarrow> URLCapture \<Rightarrow> URLCapture" where
  "clearBody current c = c\<lparr>ucpState := URLConsumed, ucpBody := [], ucpUpdatedAt := current\<rparr>"

definition ConsumeURLCapture :: "int \<Rightarrow> string \<Rightarrow> URLCapture list \<Rightarrow> URLCapture list" where
  "ConsumeURLCapture current operationID rows =
     upd_by ucpOperationID operationID (\<lambda>c. ucpState c = URLReady) (clearBody current) rows"

subsection \<open>Expiry\<close>

definition urlExpirable :: "int \<Rightarrow> URLCapture \<Rightarrow> bool" where
  "urlExpirable t c \<longleftrightarrow> ucpState c \<noteq> URLConsumed \<and> ucpExpiresAt c < t"

definition urlBatch :: "int \<Rightarrow> URLCapture list \<Rightarrow> string list" where
  "urlBatch t rows = map ucpID (take urlBatchSize (sort_key (\<lambda>c. (ucpExpiresAt c, ucpID c)) (filter (urlExpirable t) rows)))"

definition expireURLBatch :: "int \<Rightarrow> URLCapture list \<Rightarrow> URLCapture list" where
  "expireURLBatch t rows = map (\<lambda>c. if ucpID c \<in> set (urlBatch t rows) \<and> ucpState c \<noteq> URLConsumed then clearBody t c else c) rows"

definition urlAffected :: "int \<Rightarrow> URLCapture list \<Rightarrow> nat" where
  "urlAffected t rows = length (filter (\<lambda>c. ucpID c \<in> set (urlBatch t rows) \<and> ucpState c \<noteq> URLConsumed) rows)"

definition urlBacklog :: "URLCapture list \<Rightarrow> nat" where
  "urlBacklog rows = length (filter (\<lambda>c. ucpState c \<noteq> URLConsumed) rows)"

lemma clearBody_simps [simp]: "ucpState (clearBody t c) = URLConsumed" "ucpOperationID (clearBody t c) = ucpOperationID c"
  "ucpID (clearBody t c) = ucpID c" "ucpBody (clearBody t c) = []"
  by (simp_all add: clearBody_def)

lemma urlBatch_hit: "i \<in> set (urlBatch t rows) \<Longrightarrow> \<exists>c \<in> set rows. ucpID c = i \<and> urlExpirable t c"
  by (auto simp: urlBatch_def dest!: in_set_takeD)

lemma expireURLBatch_backlog:
  assumes "urlAffected t rows \<noteq> 0"
  shows "urlBacklog (expireURLBatch t rows) < urlBacklog rows"
proof -
  from assms obtain c where c: "c \<in> set rows" "ucpID c \<in> set (urlBatch t rows)" "ucpState c \<noteq> URLConsumed"
    unfolding urlAffected_def by (auto simp: filter_empty_conv)
  show ?thesis unfolding urlBacklog_def expireURLBatch_def
    by (rule length_filter_map_less [where x = c]) (use c in \<open>auto split: if_splits\<close>)
qed

text \<open>The sweep: \<open>clock\<close> is read once per round; a round that clears fewer rows than the batch is the last.\<close>

function ExpireURLCaptures :: "(nat \<Rightarrow> int) \<Rightarrow> nat \<Rightarrow> URLCapture list \<Rightarrow> URLCapture list" where
  "ExpireURLCaptures clock k rows = (let rows' = expireURLBatch (clock k) rows in
     if urlAffected (clock k) rows < urlBatchSize then rows' else ExpireURLCaptures clock (Suc k) rows')"
  by pat_completeness auto
termination
  by (relation "measure (\<lambda>(clock, k, rows). urlBacklog rows)") (auto intro: expireURLBatch_backlog)

declare ExpireURLCaptures.simps [simp del]

subsection \<open>One table under all callers\<close>

text \<open>
  Executors of any operations and the sweep interleave; the batches of a sweep are steps of their own. The
  read of an \<open>Ensure\<close> is an earlier state of the table.
\<close>

inductive url_step :: "(string \<Rightarrow> string) \<Rightarrow> (string \<Rightarrow> bool) \<Rightarrow> URLCapture list \<Rightarrow> URLCapture list \<Rightarrow> bool" for sha known where
  ensure: "url_step sha known rows (snd (EnsureURLCapture sha known failing i t seen operationID rawURL finalURL contentType body rows))"
| consume: "url_step sha known rows (ConsumeURLCapture t operationID rows)"
| expire: "url_step sha known rows (expireURLBatch t rows)"

abbreviation url_reach :: "(string \<Rightarrow> string) \<Rightarrow> (string \<Rightarrow> bool) \<Rightarrow> URLCapture list \<Rightarrow> URLCapture list \<Rightarrow> bool" where
  "url_reach sha known \<equiv> (url_step sha known)\<^sup>*\<^sup>*"

text \<open>What a row is at any time.\<close>

definition captureOK :: "(string \<Rightarrow> string) \<Rightarrow> URLCapture \<Rightarrow> bool" where
  "captureOK sha c \<longleftrightarrow> (ucpState c = URLReady \<longrightarrow> ucpSHA256 c = hexEncode (sha (ucpBody c)) \<and> ucpSizeBytes c = int (length (ucpBody c))
       \<and> ucpSizeBytes c \<le> MaxURLCaptureBytes) \<and> (ucpState c \<noteq> URLReady \<longrightarrow> ucpState c = URLConsumed \<and> ucpBody c = [])"

definition tableOK :: "(string \<Rightarrow> string) \<Rightarrow> URLCapture list \<Rightarrow> bool" where
  "tableOK sha rows \<longleftrightarrow> uniq_by ucpOperationID rows \<and> distinct (map ucpID rows) \<and> list_all (captureOK sha) rows"

text \<open>What one row may become.\<close>

definition later :: "URLCapture \<Rightarrow> URLCapture \<Rightarrow> bool" where
  "later c d \<longleftrightarrow> d = c \<or> ucpState d = URLConsumed \<and> ucpBody d = [] \<and> (\<exists>t. d = clearBody t c)"

lemma clearBody_twice [simp]: "clearBody t (clearBody t' c) = clearBody t c"
  by (simp add: clearBody_def)

lemma later_clear: "later c d \<Longrightarrow> later c (clearBody t d)"
  unfolding later_def by (elim disjE exE conjE) auto

lemma captureOK_clear [simp]: "captureOK sha (clearBody t c)"
  by (simp add: captureOK_def)

lemma table_map:
  assumes "tableOK sha rows" "\<And>c. f c = c \<or> (\<exists>t. f c = clearBody t c)"
  shows "tableOK sha (map f rows)" "sel_by ucpOperationID rows k = Some c \<Longrightarrow> sel_by ucpOperationID (map f rows) k = Some (f c)"
proof -
  have k: "ucpOperationID (f c) = ucpOperationID c" "ucpID (f c) = ucpID c" for c
    using assms(2) [of c] by (elim disjE exE; simp)+
  have "captureOK sha (f c)" if "captureOK sha c" for c using assms(2) [of c] that by (elim disjE exE) simp_all
  then show "tableOK sha (map f rows)" using assms(1) k by (auto simp: tableOK_def uniq_by_def comp_def list_all_iff)
  show "sel_by ucpOperationID rows k = Some c \<Longrightarrow> sel_by ucpOperationID (map f rows) k = Some (f c)"
    by (simp add: sel_by_map k)
qed

lemma table_later:
  assumes "tableOK sha rows" "\<And>c. f c = c \<or> (\<exists>t. f c = clearBody t c)"
  shows "tableOK sha (map f rows) \<and> (\<forall>k c. sel_by ucpOperationID rows k = Some c \<longrightarrow>
    (\<exists>d. sel_by ucpOperationID (map f rows) k = Some d \<and> later c d))"
proof -
  have "later c (f c)" for c using assms(2) [of c] by (auto simp: later_def)
  then show ?thesis using table_map [OF assms] by blast
qed

lemma consume_map: "ConsumeURLCapture t operationID rows =
    map (\<lambda>c. if ucpOperationID c = operationID \<and> ucpState c = URLReady then clearBody t c else c) rows"
  by (simp add: ConsumeURLCapture_def upd_by_def)

lemma ensure_rows: "snd (EnsureURLCapture sha known failing i t seen operationID rawURL finalURL contentType body rows) = rows
    \<or> (\<exists>c. snd (EnsureURLCapture sha known failing i t seen operationID rawURL finalURL contentType body rows) = rows @ [c]
         \<and> captureOK sha c \<and> ucpID c \<notin> ucpID ` set rows \<and> sel_by ucpOperationID rows (ucpOperationID c) = None)"
proof (cases "\<exists>e. GetURLCapture seen operationID = Inl e \<and> \<not> MaxURLCaptureBytes < int (length body)")
  case True
  let ?c = "newCapture sha i t operationID rawURL finalURL contentType body"
  have "captureOK sha ?c" using True by (simp add: captureOK_def newCapture_def)
  moreover have "snd (EnsureURLCapture sha known failing i t seen operationID rawURL finalURL contentType body rows)
      = (case insertCapture known failing ?c rows of Inl e \<Rightarrow> rows | Inr rows' \<Rightarrow> rows')"
    using True by (auto simp: EnsureURLCapture_def Let_def split: sum.split)
  ultimately show ?thesis by (simp add: insertCapture_def ins_by_def)
next
  case False
  then show ?thesis by (auto simp: EnsureURLCapture_def split: sum.splits)
qed

lemma url_step_ok:
  assumes "url_step sha known rows rows'" "tableOK sha rows"
  shows "tableOK sha rows' \<and> (\<forall>k c. sel_by ucpOperationID rows k = Some c \<longrightarrow> (\<exists>d. sel_by ucpOperationID rows' k = Some d \<and> later c d))"
  using assms(1)
proof cases
  case (ensure failing i t seen operationID rawURL finalURL contentType body)
  show ?thesis
    using ensure_rows [of sha known failing i t seen operationID rawURL finalURL contentType body rows] ensure assms(2)
    by (auto simp: tableOK_def uniq_by_def sel_by_append later_def sel_by_None)
next
  case (consume t operationID)
  let ?f = "\<lambda>c. if ucpOperationID c = operationID \<and> ucpState c = URLReady then clearBody t c else c"
  have f: "?f c = c \<or> (\<exists>t. ?f c = clearBody t c)" for c by auto
  show ?thesis unfolding consume consume_map by (rule table_later [OF assms(2) f])
next
  case (expire t)
  let ?f = "\<lambda>c. if ucpID c \<in> set (urlBatch t rows) \<and> ucpState c \<noteq> URLConsumed then clearBody t c else c"
  have f: "?f c = c \<or> (\<exists>t. ?f c = clearBody t c)" for c by auto
  show ?thesis unfolding expire expireURLBatch_def by (rule table_later [OF assms(2) f])
qed

lemma url_reach_ok:
  assumes "url_reach sha known rows rows'" "tableOK sha rows"
  shows "tableOK sha rows' \<and> (\<forall>k c. sel_by ucpOperationID rows k = Some c \<longrightarrow> (\<exists>d. sel_by ucpOperationID rows' k = Some d \<and> later c d))"
  using assms
proof induction
  case (step rows' rows'')
  from url_step_ok [OF step(2)] step(3) [OF step(4)]
  have t: "tableOK sha rows''" and s: "\<And>k d. sel_by ucpOperationID rows' k = Some d \<Longrightarrow> \<exists>e. sel_by ucpOperationID rows'' k = Some e \<and> later d e" by auto
  have "\<exists>e. sel_by ucpOperationID rows'' k = Some e \<and> later c e" if "sel_by ucpOperationID rows k = Some c" for k c
  proof -
    from step(3) [OF step(4)] that obtain d where d: "sel_by ucpOperationID rows' k = Some d" "later c d" by blast
    from s [OF d(1)] obtain e where e: "sel_by ucpOperationID rows'' k = Some e" "later d e" by blast
    have "later c e" using d(2) e(2) later_clear [of c d] unfolding later_def [of d e] by auto
    with e(1) show ?thesis by blast
  qed
  with t show ?case by blast
qed (auto simp: later_def)

lemma Ensure_stored:
  assumes "EnsureURLCapture sha known failing i t seen k rawURL finalURL contentType body rows = (Inr c, rows')"
    "tableOK sha seen" "url_reach sha known seen rows"
  shows "(\<exists>d. sel_by ucpOperationID rows' k = Some d \<and> later c d) \<and> ucpState c = URLReady \<and> captureOK sha c"
proof (cases "sel_by ucpOperationID seen k")
  case None
  then have "rows' = rows @ [c]" "c = newCapture sha i t k rawURL finalURL contentType body" "sel_by ucpOperationID rows k = None" "\<not> MaxURLCaptureBytes < int (length body)"
    using assms(1) by (auto simp: EnsureURLCapture_def GetURLCapture_def insertCapture_def Let_def ins_by_def newCapture_def split: if_splits)
  then show ?thesis by (auto simp: sel_by_append newCapture_def captureOK_def later_def)
next
  case (Some e)
  then have "rows' = rows" "c = e" "ucpState c = URLReady"
    using assms(1) by (auto simp: EnsureURLCapture_def GetURLCapture_def split: if_splits)
  moreover have "captureOK sha e" using Some assms(2) by (auto simp: tableOK_def list_all_iff dest: sel_by_mem)
  ultimately show ?thesis using url_reach_ok [OF assms(3,2)] Some by blast
qed

text \<open>
  C36: the bytes of an operation are captured once: whatever other calls and sweeps run in between, a later
  successful \<open>EnsureURLCapture\<close> of the same operation returns the capture the earlier one returned, and it
  carries the digest and the size of its bytes.
\<close>

theorem captured_bytes_immutable:
  assumes "url_reach sha known [] seen" "url_reach sha known seen rows"
    "EnsureURLCapture sha known failing i t seen k rawURL finalURL contentType body rows = (Inr c, rows1)"
    "url_reach sha known rows1 seen'" "url_reach sha known seen' rows2"
    "EnsureURLCapture sha known failing' i' t' seen' k rawURL' finalURL' contentType' body' rows2 = (Inr d, rows3)"
  shows "d = c \<and> rows3 = rows2 \<and> ucpSHA256 c = hexEncode (sha (ucpBody c)) \<and> ucpSizeBytes c = int (length (ucpBody c))"
proof -
  have e: "tableOK sha []" by (simp add: tableOK_def uniq_by_def)
  note seen = url_reach_ok [OF assms(1) e]
  note rows = url_reach_ok [OF assms(2)]
  obtain c' where c': "sel_by ucpOperationID rows1 k = Some c'" "later c c'" "ucpState c = URLReady" "captureOK sha c"
    using Ensure_stored [OF assms(3) _ assms(2)] seen by blast
  have "url_step sha known rows rows1" using url_step.ensure [of sha known rows failing i t seen k rawURL finalURL contentType body] assms(3) by simp
  then have "tableOK sha rows1" using url_step_ok rows seen by blast
  from url_reach_ok [OF assms(4) this] c'(1) obtain d' where d': "sel_by ucpOperationID seen' k = Some d'" "later c' d'" by blast
  have r: "d = d'" "rows3 = rows2" "ucpState d = URLReady"
    using assms(6) d'(1) by (auto simp: EnsureURLCapture_def GetURLCapture_def split: if_splits)
  then have "c' = d'" "c' = c" using c'(2) d'(2) by (auto simp: later_def)
  with r c'(3,4) show ?thesis by (simp add: captureOK_def)
qed

text \<open>An empty page is stored but never usable again: the second call refuses a capture that is ready.\<close>

lemma empty_capture_unusable:
  "fst (EnsureURLCapture sha known failing' i' t' (snd (EnsureURLCapture sha (\<lambda>_. True) False i t [] k u f ct [] [])) k u f ct [] rows)
    = Inl (URLNotUsable URLReady)"
  by (simp add: EnsureURLCapture_def GetURLCapture_def insertCapture_def newCapture_def ins_by_def sel_by_def Let_def)

text \<open>The sweep leaves nothing that is expired at the last reading of the clock.\<close>

lemma short_batch_complete:
  assumes "distinct (map ucpID rows)" "urlAffected t rows < urlBatchSize"
  shows "\<forall>c \<in> set (expireURLBatch t rows). \<not> urlExpirable t c"
proof -
  let ?all = "sort_key (\<lambda>c. (ucpExpiresAt c, ucpID c)) (filter (urlExpirable t) rows)"
  let ?hit = "filter (\<lambda>c. ucpID c \<in> set (urlBatch t rows) \<and> ucpState c \<noteq> URLConsumed) rows"
  have "mset (map ucpID ?all) = mset (map ucpID (filter (urlExpirable t) rows))" by simp
  moreover have "distinct (map ucpID (filter (urlExpirable t) rows))" using assms(1) by (rule distinct_map_filter)
  ultimately have "distinct (map ucpID ?all)" by (metis mset_eq_imp_distinct_iff)
  then have d: "distinct (urlBatch t rows)" unfolding urlBatch_def take_map [symmetric] by (rule distinct_take)
  have "set (urlBatch t rows) \<subseteq> ucpID ` set ?hit"
  proof
    fix i assume i: "i \<in> set (urlBatch t rows)"
    then obtain c where "c \<in> set rows" "ucpID c = i" "urlExpirable t c" using urlBatch_hit by blast
    with i show "i \<in> ucpID ` set ?hit" by (auto simp: urlExpirable_def)
  qed
  then have "length (urlBatch t rows) \<le> card (ucpID ` set ?hit)" using d card_mono [of "ucpID ` set ?hit" "set (urlBatch t rows)"] distinct_card [OF d] by simp
  also have "\<dots> \<le> length ?hit" using card_image_le [of "set ?hit" ucpID] card_length [of ?hit] by simp
  finally have "length (urlBatch t rows) < urlBatchSize" using assms(2) by (simp add: urlAffected_def)
  then have "take urlBatchSize ?all = ?all" by (simp add: urlBatch_def)
  then have "set (urlBatch t rows) = ucpID ` {c \<in> set rows. urlExpirable t c}" unfolding urlBatch_def by simp
  then show ?thesis by (auto simp: expireURLBatch_def urlExpirable_def)
qed

lemma url_sweep_complete:
  "distinct (map ucpID rows) \<Longrightarrow> \<exists>n \<ge> k. \<forall>c \<in> set (ExpireURLCaptures clock k rows). \<not> urlExpirable (clock n) c"
proof (induction clock k rows rule: ExpireURLCaptures.induct)
  case (1 clock k rows)
  show ?case
  proof (cases "urlAffected (clock k) rows < urlBatchSize")
    case True
    then show ?thesis using short_batch_complete [OF "1.prems"] by (subst ExpireURLCaptures.simps) (auto simp: Let_def)
  next
    case False
    have "map ucpID (expireURLBatch (clock k) rows) = map ucpID rows" by (simp add: expireURLBatch_def)
    with "1.IH" [OF refl False] "1.prems" obtain n where "Suc k \<le> n"
      "\<forall>c \<in> set (ExpireURLCaptures clock (Suc k) (expireURLBatch (clock k) rows)). \<not> urlExpirable (clock n) c" by auto
    with False show ?thesis by (subst ExpireURLCaptures.simps) (auto simp: Let_def intro: Suc_leD)
  qed
qed

subsection \<open>A retry\<close>

definition demoCapture :: URLCapture where
  "demoCapture = newCapture rev ''i'' 5 ''op'' ''u'' ''u'' ''t'' ''abc''"

text \<open>The page has changed by the time of the retry, which works with the bytes of the first fetch.\<close>

lemma captured_bytes_immutable_witness:
  "\<exists>d. EnsureURLCapture rev (\<lambda>_. True) False ''j'' 9 [demoCapture] ''op'' ''u'' ''u'' ''t'' ''changed'' [demoCapture] = (Inr d, [demoCapture])
    \<and> d = demoCapture \<and> ucpSHA256 d = hexEncode (rev (ucpBody d))"
proof -
  have a: "EnsureURLCapture rev (\<lambda>_. True) False ''i'' 5 [] ''op'' ''u'' ''u'' ''t'' ''abc'' [] = (Inr demoCapture, [demoCapture])"
    by (simp add: EnsureURLCapture_def GetURLCapture_def insertCapture_def demoCapture_def newCapture_def ins_by_def sel_by_def Let_def)
  have b: "EnsureURLCapture rev (\<lambda>_. True) False ''j'' 9 [demoCapture] ''op'' ''u'' ''u'' ''t'' ''changed'' [demoCapture] = (Inr demoCapture, [demoCapture])"
    by (simp add: EnsureURLCapture_def GetURLCapture_def demoCapture_def newCapture_def sel_by_def)
  from captured_bytes_immutable [OF rtranclp.rtrancl_refl rtranclp.rtrancl_refl a rtranclp.rtrancl_refl rtranclp.rtrancl_refl b]
  show ?thesis using b by simp
qed

end
