(* ===== verification/DocIR.thy ===== *)
theory DocIR
  imports Base64 GoNumber Complex_Main
begin

text \<open>
  The structured document (\<open>internal/documentir/document.go\<close>): nodes in document order with parent links,
  deterministic identifiers, validation, lookups, the text projection and the degraded form of plain text.
  \<open>sha\<close> is SHA-256, \<open>marshal\<close> the JSON encoding of an anchor. Confidences and boxes are opaque numbers.
\<close>

abbreviation "IRVersion \<equiv> ''document-ir/v1''"
abbreviation "TypeDocument \<equiv> ''document''"
abbreviation "TypeHeading \<equiv> ''heading''"
abbreviation "TypeParagraph \<equiv> ''paragraph''"

subsection \<open>Data\<close>

type_synonym BBox = "rat \<times> rat \<times> rat \<times> rat"

record SourceAnchor =
  saKind :: string
  saPage :: int
  saSlide :: int
  saShape :: string
  saSheet :: string
  saCellRange :: string
  saSection :: string
  saParagraph :: int
  saBlock :: int
  saLogicalPath :: string
  saBBox :: "BBox option"

record Node =
  ndID :: string
  ndType :: string
  ndDocumentID :: string
  ndParentID :: string
  ndChildrenIDs :: "string list"
  ndOrder :: int
  ndText :: string
  ndHeadingPath :: "string list"
  ndSourceAnchor :: SourceAnchor
  ndPageNumber :: int
  ndSlideNumber :: int
  ndSheetName :: string
  ndBBox :: "BBox option"
  ndMetadata :: "string \<rightharpoonup> string"
  ndParser :: string
  ndParserVersion :: string
  ndConfidence :: rat

record Relationship =
  rsID :: string
  rsFromNodeID :: string
  rsToNodeID :: string
  rsType :: string
  rsOrder :: int

text \<open>The three lookups a document caches: positions by text, children by parent, position by identifier.\<close>

record NodeIndex =
  niText :: "string \<Rightarrow> nat list"
  niChildren :: "string \<Rightarrow> nat list"
  niIDs :: "string \<rightharpoonup> nat"

record Document =
  dcIRVersion :: string
  dcDocumentID :: string
  dcTitle :: string
  dcParser :: string
  dcParserVersion :: string
  dcParseConfig :: "string \<rightharpoonup> string"
  dcNodes :: "Node list"
  dcRelationships :: "Relationship list"
  dcIndex :: "NodeIndex option"

datatype DocError = NilDocument | EmptyDocumentID | BadVersion string | NodeIncomplete | DuplicateNode string | MissingParent string string

subsection \<open>Identifiers\<close>

definition NodeID :: "(string \<Rightarrow> string) \<Rightarrow> (SourceAnchor \<Rightarrow> string) \<Rightarrow> string \<Rightarrow> string \<Rightarrow> string \<Rightarrow> SourceAnchor \<Rightarrow> string" where
  "NodeID sha marshal documentID nodeType logicalPosition anchor = ''node_'' @ hexEncode (take 16
     (sha (joinWith [CHR 0x00] [documentID, nodeType, logicalPosition, marshal anchor])))"

definition RelationshipID :: "(string \<Rightarrow> string) \<Rightarrow> string \<Rightarrow> string \<Rightarrow> string \<Rightarrow> string" where
  "RelationshipID sha src target relation = ''rel_'' @ hexEncode (take 16 (sha (src @ [CHR 0x00] @ target @ [CHR 0x00] @ relation)))"

text \<open>\<open>%06d\<close> of a position.\<close>

definition sixDigits :: "nat \<Rightarrow> string" where
  "sixDigits n = (let d = formatInt (int n) in replicate (6 - length d) CHR ''0'' @ d)"

subsection \<open>Validation\<close>

fun checkNodes :: "string set \<Rightarrow> Node list \<Rightarrow> DocError option" where
  "checkNodes seen [] = None"
| "checkNodes seen (n # ns) = (if ndID n = [] \<or> ndType n = [] then Some NodeIncomplete
     else if ndID n \<in> seen then Some (DuplicateNode (ndID n))
     else checkNodes (insert (ndID n) seen) ns)"

fun checkParents :: "string set \<Rightarrow> Node list \<Rightarrow> DocError option" where
  "checkParents seen [] = None"
| "checkParents seen (n # ns) = (if ndParentID n \<noteq> [] \<and> ndParentID n \<notin> seen then Some (MissingParent (ndID n) (ndParentID n))
     else checkParents seen ns)"

definition documentValidate :: "Document \<Rightarrow> DocError option" where
  "documentValidate d = (if dcIRVersion d \<noteq> IRVersion then Some (BadVersion (dcIRVersion d))
     else case checkNodes {} (dcNodes d) of Some e \<Rightarrow> Some e | None \<Rightarrow> checkParents (ndID ` set (dcNodes d)) (dcNodes d))"

subsection \<open>Binding\<close>

definition logicalOf :: "nat \<Rightarrow> Node \<Rightarrow> string" where
  "logicalOf i n = (if saLogicalPath (ndSourceAnchor n) \<noteq> [] then saLogicalPath (ndSourceAnchor n) else sixDigits i)"

definition newNodeID :: "(string \<Rightarrow> string) \<Rightarrow> (SourceAnchor \<Rightarrow> string) \<Rightarrow> string \<Rightarrow> nat \<Rightarrow> Node \<Rightarrow> string" where
  "newNodeID sha marshal documentID i n = NodeID sha marshal documentID (ndType n) (logicalOf i n) (ndSourceAnchor n)"

text \<open>A missing key of a Go map of strings is the empty string.\<close>

definition lookupID :: "(string \<rightharpoonup> string) \<Rightarrow> string \<Rightarrow> string" where
  "lookupID m k = (case m k of None \<Rightarrow> [] | Some v \<Rightarrow> v)"

definition oldToNew :: "(nat \<Rightarrow> Node \<Rightarrow> string) \<Rightarrow> Node list \<Rightarrow> (string \<rightharpoonup> string)" where
  "oldToNew newID ns = fold (\<lambda>(i, n) m. m(ndID n \<mapsto> newID i n)) (enumerate 0 ns) Map.empty"

definition renameNodes :: "(nat \<Rightarrow> Node \<Rightarrow> string) \<Rightarrow> string \<Rightarrow> Node list \<Rightarrow> Node list" where
  "renameNodes newID documentID ns = map (\<lambda>(i, n). n\<lparr>ndDocumentID := documentID, ndID := newID i n,
     ndParentID := lookupID (oldToNew newID ns) (ndParentID n), ndChildrenIDs := []\<rparr>) (enumerate 0 ns)"

text \<open>The loop that fills the children of every parent.\<close>

definition indexesByID :: "Node list \<Rightarrow> (string \<rightharpoonup> nat)" where
  "indexesByID ns = fold (\<lambda>(i, n) m. m(ndID n \<mapsto> i)) (enumerate 0 ns) Map.empty"

definition addChild :: "(string \<rightharpoonup> nat) \<Rightarrow> Node \<Rightarrow> Node list \<Rightarrow> Node list" where
  "addChild indexes n ns = (if ndParentID n = [] then ns
     else case indexes (ndParentID n) of None \<Rightarrow> ns
     | Some p \<Rightarrow> ns[p := (ns ! p)\<lparr>ndChildrenIDs := ndChildrenIDs (ns ! p) @ [ndID n]\<rparr>])"

definition fillChildren :: "Node list \<Rightarrow> Node list" where
  "fillChildren ns = fold (addChild (indexesByID ns)) ns ns"

definition renameRelationship :: "(string \<Rightarrow> string) \<Rightarrow> (string \<rightharpoonup> string) \<Rightarrow> Relationship \<Rightarrow> Relationship" where
  "renameRelationship sha m r = (let src = lookupID m (rsFromNodeID r); target = lookupID m (rsToNodeID r) in
     r\<lparr>rsFromNodeID := src, rsToNodeID := target, rsID := RelationshipID sha src target (rsType r)\<rparr>)"

text \<open>The receiver is a pointer: the error comes with the document as it was left.\<close>

definition BindDocument :: "(string \<Rightarrow> string) \<Rightarrow> (SourceAnchor \<Rightarrow> string) \<Rightarrow> Document option \<Rightarrow> string \<Rightarrow> DocError option \<times> Document option" where
  "BindDocument sha marshal receiver documentID = (case receiver of None \<Rightarrow> (Some NilDocument, None)
   | Some d \<Rightarrow> if trimSpace documentID = [] then (Some EmptyDocumentID, Some d)
     else (let d = d\<lparr>dcIndex := None\<rparr>; d = (if dcIRVersion d = [] then d\<lparr>dcIRVersion := IRVersion\<rparr> else d) in
       if dcIRVersion d \<noteq> IRVersion then (Some (BadVersion (dcIRVersion d)), Some d)
       else (let newID = newNodeID sha marshal documentID;
           bound = d\<lparr>dcNodes := fillChildren (renameNodes newID documentID (dcNodes d)),
             dcRelationships := map (renameRelationship sha (oldToNew newID (dcNodes d))) (dcRelationships d), dcDocumentID := documentID\<rparr> in
         (documentValidate bound, Some bound))))"

subsection \<open>Lookups\<close>

text \<open>Nodes without text are in none of the three lookups.\<close>

definition textNodes :: "Node list \<Rightarrow> (nat \<times> Node) list" where
  "textNodes ns = filter (\<lambda>(i, n). trimSpace (ndText n) \<noteq> []) (enumerate 0 ns)"

definition buildIndex :: "Node list \<Rightarrow> NodeIndex" where
  "buildIndex ns = \<lparr>niText = (\<lambda>t. map fst (filter (\<lambda>(i, n). trimSpace (ndText n) = t) (textNodes ns))),
     niChildren = (\<lambda>p. map fst (filter (\<lambda>(i, n). ndParentID n \<noteq> [] \<and> ndParentID n = p) (textNodes ns))),
     niIDs = fold (\<lambda>(i, n) m. m(ndID n \<mapsto> i)) (textNodes ns) Map.empty\<rparr>"

definition NodeTextIndex :: "Document \<Rightarrow> NodeIndex \<times> Document" where
  "NodeTextIndex d = (case dcIndex d of Some ix \<Rightarrow> (ix, d)
     | None \<Rightarrow> (let ix = buildIndex (dcNodes d) in (ix, d\<lparr>dcIndex := Some ix\<rparr>)))"

definition NodeChildrenIndex :: "Document \<Rightarrow> (string \<Rightarrow> nat list) \<times> Document" where
  "NodeChildrenIndex d = (let (ix, d) = NodeTextIndex d in (niChildren ix, d))"

definition NodeByID :: "Document \<Rightarrow> string \<Rightarrow> Node option \<times> Document" where
  "NodeByID d i = (let (ix, d) = NodeTextIndex d in (map_option ((!) (dcNodes d)) (niIDs ix i), d))"

subsection \<open>Text\<close>

definition documentText :: "Document \<Rightarrow> string" where
  "documentText d = (let parts = map (trimSpace \<circ> ndText) (filter (\<lambda>n. ndType n \<noteq> TypeDocument \<and> trimSpace (ndText n) \<noteq> []) (dcNodes d)) in
     case dcNodes d of n # _ \<Rightarrow> if parts = [] then trimSpace (ndText n) else joinWith [CHR 0x0A, CHR 0x0A] parts
     | [] \<Rightarrow> joinWith [CHR 0x0A, CHR 0x0A] parts)"

definition SortNodes :: "Document \<Rightarrow> Document" where
  "SortNodes d = d\<lparr>dcNodes := sort_key ndOrder (dcNodes d)\<rparr>"

subsection \<open>Plain text\<close>

definition emptyAnchor :: SourceAnchor where
  "emptyAnchor = \<lparr>saKind = ''logical'', saPage = 0, saSlide = 0, saShape = [], saSheet = [], saCellRange = [], saSection = [],
     saParagraph = 0, saBlock = 0, saLogicalPath = [], saBBox = None\<rparr>"

definition textNode :: "string \<Rightarrow> string \<Rightarrow> string \<Rightarrow> string \<Rightarrow> string \<Rightarrow> int \<Rightarrow> string \<Rightarrow> string list \<Rightarrow> SourceAnchor \<Rightarrow> Node" where
  "textNode parserName parserVersion i nodeType parent order text headingPath anchor =
     \<lparr>ndID = i, ndType = nodeType, ndDocumentID = [], ndParentID = parent, ndChildrenIDs = [], ndOrder = order, ndText = text,
      ndHeadingPath = headingPath, ndSourceAnchor = anchor, ndPageNumber = 0, ndSlideNumber = 0, ndSheetName = [], ndBBox = None,
      ndMetadata = Map.empty, ndParser = parserName, ndParserVersion = parserVersion, ndConfidence = 0\<rparr>"

text \<open>The state of the loop over the parts: nodes so far, index of the parent, headings above, number of the next part.\<close>

record FromTextState =
  ftNodes :: "Node list"
  ftParent :: nat
  ftHeadingPath :: "string list"
  ftOrder :: nat

definition addPart :: "string \<Rightarrow> string \<Rightarrow> string \<Rightarrow> FromTextState \<Rightarrow> FromTextState" where
  "addPart parserName parserVersion raw st = (let part = trimSpace raw; k = formatInt (int (ftOrder st)); parent = ndID (ftNodes st ! ftParent st) in
     if part = [] then st
     else if hasPrefix part ''#'' then (let
         level = length (takeWhile (\<lambda>c. c = CHR ''#'') part);
         label = trimSpace (trimLeft [''#''] part);
         level = min level (length (ftHeadingPath st) + 1);
         path = take (min (level - 1) (length (ftHeadingPath st))) (ftHeadingPath st) @ [label];
         anchor = emptyAnchor\<lparr>saSection := joinWith '' / '' path, saLogicalPath := ''heading/'' @ k\<rparr> in
       if label = [] then st
       else \<lparr>ftNodes = ftNodes st @ [textNode parserName parserVersion (''tmp:heading/'' @ k) TypeHeading parent (int (ftOrder st)) label path anchor],
         ftParent = length (ftNodes st), ftHeadingPath = path, ftOrder = Suc (ftOrder st)\<rparr>)
     else (let anchor = emptyAnchor\<lparr>saSection := joinWith '' / '' (ftHeadingPath st), saLogicalPath := ''paragraph/'' @ k\<rparr> in
       st\<lparr>ftNodes := ftNodes st @ [textNode parserName parserVersion (''tmp:paragraph/'' @ k) TypeParagraph parent (int (ftOrder st)) part (ftHeadingPath st) anchor],
         ftOrder := Suc (ftOrder st)\<rparr>))"

definition FromText :: "string \<Rightarrow> string \<Rightarrow> string \<Rightarrow> string \<Rightarrow> Document" where
  "FromText title text parserName parserVersion = (let
     documentNode = textNode parserName parserVersion ''tmp:document'' TypeDocument [] 0 (trimSpace text) [] (emptyAnchor\<lparr>saLogicalPath := ''document''\<rparr>);
     st = fold (addPart parserName parserVersion) (splitOn (trimSpace text) [CHR 0x0A, CHR 0x0A])
       \<lparr>ftNodes = [documentNode], ftParent = 0, ftHeadingPath = [], ftOrder = 0\<rparr> in
     \<lparr>dcIRVersion = IRVersion, dcDocumentID = [], dcTitle = trimSpace title, dcParser = parserName, dcParserVersion = parserVersion,
      dcParseConfig = Map.empty, dcNodes = ftNodes st, dcRelationships = [], dcIndex = None\<rparr>)"

end
