(* ===== verification/DocProperties.thy ===== *)
theory DocProperties
  imports DocIR
begin

text \<open>
  What binding makes of the parent links, and what the plain text form becomes when it is bound. That
  digests of different positions differ is the hypothesis \<open>distinct\<close> on the new identifiers.
\<close>

subsection \<open>Maps built from positions\<close>

lemma fold_positions_other: "x \<notin> key ` set ns \<Longrightarrow> fold (\<lambda>(i, n) m. m(key n \<mapsto> val i n)) (enumerate k ns) m x = m x"
  by (induction ns arbitrary: k m) auto

lemma fold_positions: "distinct (map key ns) \<Longrightarrow> i < length ns \<Longrightarrow>
    fold (\<lambda>(i, n) m. m(key n \<mapsto> val i n)) (enumerate k ns) m (key (ns ! i)) = Some (val (k + i) (ns ! i))"
proof (induction ns arbitrary: i k m)
  case (Cons n ns)
  show ?case
  proof (cases i)
    case 0
    have "fold (\<lambda>(i, n) m. m(key n \<mapsto> val i n)) (enumerate k (n # ns)) m (key n) = Some (val k n)"
      using Cons.prems(1) fold_positions_other [of "key n" key ns val "Suc k" "m(key n \<mapsto> val k n)"] by (simp del: fun_upd_apply add: fun_upd_same)
    with 0 show ?thesis by (simp del: fun_upd_apply)
  next
    case (Suc j)
    with Cons.prems Cons.IH [of j "Suc k"] show ?thesis by simp
  qed
qed simp

definition newIDs :: "(nat \<Rightarrow> Node \<Rightarrow> string) \<Rightarrow> Node list \<Rightarrow> string list" where
  "newIDs newID ns = map (\<lambda>(i, n). newID i n) (enumerate 0 ns)"

lemma newIDs_nth: "i < length ns \<Longrightarrow> newIDs newID ns ! i = newID i (ns ! i)"
  by (simp add: newIDs_def nth_enumerate_eq)

lemma newIDs_length [simp]: "length (newIDs newID ns) = length ns"
  by (simp add: newIDs_def)

lemma renameNodes_length [simp]: "length (renameNodes newID documentID ns) = length ns"
  by (simp add: renameNodes_def)

lemma renameNodes_nth: "i < length ns \<Longrightarrow> renameNodes newID documentID ns ! i = (ns ! i)\<lparr>ndDocumentID := documentID, ndID := newID i (ns ! i),
    ndParentID := lookupID (oldToNew newID ns) (ndParentID (ns ! i)), ndChildrenIDs := []\<rparr>"
  by (simp add: renameNodes_def nth_enumerate_eq)

lemma renameNodes_ids: "map ndID (renameNodes newID documentID ns) = newIDs newID ns"
  by (rule nth_equalityI) (simp_all add: renameNodes_nth newIDs_nth)

lemma oldToNew_known: "distinct (map ndID ns) \<Longrightarrow> j < length ns \<Longrightarrow> lookupID (oldToNew newID ns) (ndID (ns ! j)) = newID j (ns ! j)"
  using fold_positions [of ndID ns j newID 0 Map.empty] by (simp add: oldToNew_def lookupID_def)

lemma oldToNew_other: "x \<notin> ndID ` set ns \<Longrightarrow> lookupID (oldToNew newID ns) x = []"
  using fold_positions_other [of x ndID ns newID 0 Map.empty] by (simp add: oldToNew_def lookupID_def)

subsection \<open>Children\<close>

definition childrenOf :: "string \<Rightarrow> Node list \<Rightarrow> string list" where
  "childrenOf p ms = map ndID (filter (\<lambda>n. ndParentID n \<noteq> [] \<and> ndParentID n = p) ms)"

lemma addChild_fold:
  assumes "distinct (map ndID ns)" "\<And>j. j < length ns \<Longrightarrow> ix (ndID (ns ! j)) = Some j" "\<And>x. x \<notin> ndID ` set ns \<Longrightarrow> ix x = None"
  shows "length (fold (addChild ix) ms ns) = length ns \<and> (\<forall>j < length ns. fold (addChild ix) ms ns ! j
    = (ns ! j)\<lparr>ndChildrenIDs := ndChildrenIDs (ns ! j) @ childrenOf (ndID (ns ! j)) ms\<rparr>)"
proof (induction ms rule: rev_induct)
  case (snoc n ms)
  let ?f = "fold (addChild ix) ms ns" and ?p = "ndParentID n"
  have len: "length ?f = length ns" and nth: "\<And>j. j < length ns \<Longrightarrow> ?f ! j
      = (ns ! j)\<lparr>ndChildrenIDs := ndChildrenIDs (ns ! j) @ childrenOf (ndID (ns ! j)) ms\<rparr>" using snoc by blast+
  have step: "fold (addChild ix) (ms @ [n]) ns = addChild ix n ?f" by simp
  have cs: "?p = [] \<or> ?p \<noteq> [] \<and> ?p \<notin> ndID ` set ns \<or> (\<exists>p. ?p \<noteq> [] \<and> p < length ns \<and> ndID (ns ! p) = ?p)"
    by (metis imageE in_set_conv_nth)
  consider "?p = []" | "?p \<noteq> []" "?p \<notin> ndID ` set ns" | p where "?p \<noteq> []" "p < length ns" "ndID (ns ! p) = ?p"
    using cs by blast
  then show ?case
  proof cases
    case 1
    then have "addChild ix n ?f = ?f" by (simp add: addChild_def)
    with 1 show ?thesis unfolding step using len nth by (simp add: childrenOf_def)
  next
    case 2
    then have "childrenOf (ndID (ns ! j)) (ms @ [n]) = childrenOf (ndID (ns ! j)) ms" if "j < length ns" for j
      using that nth_mem [OF that] by (auto simp: childrenOf_def)
    moreover have "addChild ix n ?f = ?f" using 2 assms(3) [of ?p] by (simp add: addChild_def)
    ultimately show ?thesis unfolding step using len nth by simp
  next
    case 3
    have u: "ndID (ns ! j) = ?p \<longleftrightarrow> j = p" if "j < length ns" for j
      using assms(1) that 3(2,3) by (metis distinct_conv_nth length_map nth_map)
    have "ix ?p = Some p" using assms(2) [OF 3(2)] 3(3) by simp
    then have s: "addChild ix n ?f = ?f[p := (?f ! p)\<lparr>ndChildrenIDs := ndChildrenIDs (?f ! p) @ [ndID n]\<rparr>]"
      using 3(1) by (simp add: addChild_def)
    have "childrenOf (ndID (ns ! j)) (ms @ [n]) = childrenOf (ndID (ns ! j)) ms @ (if j = p then [ndID n] else [])" if "j < length ns" for j
      using u [OF that] 3(1) by (auto simp: childrenOf_def)
    then show ?thesis unfolding step s using 3(2) len nth by (simp add: nth_list_update)
  qed
qed (simp add: childrenOf_def)

lemma fillChildren_nth:
  assumes "distinct (map ndID ns)"
  shows "length (fillChildren ns) = length ns"
    "j < length ns \<Longrightarrow> fillChildren ns ! j = (ns ! j)\<lparr>ndChildrenIDs := ndChildrenIDs (ns ! j) @ childrenOf (ndID (ns ! j)) ns\<rparr>"
  using addChild_fold [OF assms, of "indexesByID ns" ns] fold_positions [OF assms, of _ "\<lambda>i n. i" 0 Map.empty]
    fold_positions_other [of _ ndID ns "\<lambda>i n. i" 0 Map.empty] by (simp_all add: fillChildren_def indexesByID_def)

subsection \<open>Validation\<close>

lemma checkNodes_None: "checkNodes seen ns = None \<longleftrightarrow> list_all (\<lambda>n. ndID n \<noteq> [] \<and> ndType n \<noteq> []) ns \<and> distinct (map ndID ns) \<and> ndID ` set ns \<inter> seen = {}"
  by (induction seen ns rule: checkNodes.induct) auto

lemma checkParents_None: "checkParents seen ns = None \<longleftrightarrow> list_all (\<lambda>n. ndParentID n = [] \<or> ndParentID n \<in> seen) ns"
  by (induction seen ns rule: checkParents.induct) auto

lemma documentValidate_None: "documentValidate d = None \<longleftrightarrow> dcIRVersion d = IRVersion
    \<and> list_all (\<lambda>n. ndID n \<noteq> [] \<and> ndType n \<noteq> []) (dcNodes d) \<and> distinct (map ndID (dcNodes d))
    \<and> list_all (\<lambda>n. ndParentID n = [] \<or> ndParentID n \<in> ndID ` set (dcNodes d)) (dcNodes d)"
  using checkNodes_None [of "{}" "dcNodes d"] by (auto simp: documentValidate_def checkParents_None split: option.splits)

subsection \<open>Binding\<close>

text \<open>A document as parsers build it: identifiers and parents refer to each other.\<close>

definition parserDocument :: "Document \<Rightarrow> bool" where
  "parserDocument d \<longleftrightarrow> dcIRVersion d \<in> {[], IRVersion} \<and> distinct (map ndID (dcNodes d))
     \<and> list_all (\<lambda>n. ndID n \<noteq> [] \<and> ndType n \<noteq> []) (dcNodes d)"

lemma NodeID_nonempty: "NodeID sha marshal d t l a \<noteq> []"
  by (simp add: NodeID_def)

text \<open>The parent of a node as a position.\<close>

definition parentAt :: "Node list \<Rightarrow> nat \<Rightarrow> nat \<Rightarrow> bool" where
  "parentAt ns i j \<longleftrightarrow> i < length ns \<and> j < length ns \<and> ndParentID (ns ! i) \<noteq> [] \<and> ndParentID (ns ! i) = ndID (ns ! j)"

lemma bind_parent:
  assumes "distinct (map ndID ns)" "list_all (\<lambda>n. ndID n \<noteq> []) ns" "distinct (newIDs newID ns)" "\<And>i n. newID i n \<noteq> []"
  shows "parentAt (renameNodes newID documentID ns) i j \<longleftrightarrow> parentAt ns i j"
proof (cases "i < length ns \<and> j < length ns")
  case True
  let ?p = "ndParentID (ns ! i)" and ?new = "\<lambda>k. newID k (ns ! k)"
  have ids: "ndID (renameNodes newID documentID ns ! j) = ?new j" using True by (simp add: renameNodes_nth)
  have par: "ndParentID (renameNodes newID documentID ns ! i) = lookupID (oldToNew newID ns) ?p" using True by (simp add: renameNodes_nth)
  show ?thesis
  proof (cases "?p \<in> ndID ` set ns")
    case False
    have "ns ! j \<in> set ns" using True by simp
    with False have "?p \<noteq> ndID (ns ! j)" by blast
    then show ?thesis unfolding parentAt_def par oldToNew_other [OF False] by simp
  next
    case pin: True
    then obtain k where k: "k < length ns" "ndID (ns ! k) = ?p" by (auto simp: in_set_conv_nth)
    have "?p \<noteq> []" using k assms(2) unfolding list_all_length by fastforce
    moreover have "lookupID (oldToNew newID ns) ?p = ?new k" using oldToNew_known [OF assms(1) k(1)] k(2) by simp
    moreover have "?new k = ?new j \<longleftrightarrow> k = j" using assms(3) k(1) True
      by (metis distinct_conv_nth newIDs_length newIDs_nth)
    moreover have "ndID (ns ! j) = ?p \<longleftrightarrow> k = j" using assms(1) k True by (metis distinct_conv_nth length_map nth_map)
    ultimately show ?thesis using True assms(4) unfolding parentAt_def par ids renameNodes_length by (metis (no_types))
  qed
qed (auto simp: parentAt_def)

lemma BindDocument_ok:
  assumes "parserDocument d" "trimSpace documentID \<noteq> []"
    "distinct (newIDs (newNodeID sha marshal documentID) (dcNodes d))"
  shows "\<exists>b. BindDocument sha marshal (Some d) documentID = (None, Some b) \<and> length (dcNodes b) = length (dcNodes d)
    \<and> documentValidate b = None \<and> dcDocumentID b = documentID
    \<and> (\<forall>i < length (dcNodes d). ndText (dcNodes b ! i) = ndText (dcNodes d ! i) \<and> ndType (dcNodes b ! i) = ndType (dcNodes d ! i)
        \<and> ndDocumentID (dcNodes b ! i) = documentID)
    \<and> (\<forall>i j. parentAt (dcNodes b) i j \<longleftrightarrow> parentAt (dcNodes d) i j)
    \<and> (\<forall>j < length (dcNodes d). ndChildrenIDs (dcNodes b ! j) = map (\<lambda>i. ndID (dcNodes b ! i)) (filter (\<lambda>i. parentAt (dcNodes b) i j) [0 ..< length (dcNodes d)]))"
proof -
  let ?new = "newNodeID sha marshal documentID" and ?ns = "dcNodes d"
  let ?r = "renameNodes ?new documentID ?ns"
  have d: "dcIRVersion d \<in> {[], IRVersion}" "distinct (map ndID ?ns)" "list_all (\<lambda>n. ndID n \<noteq> [] \<and> ndType n \<noteq> []) ?ns"
    using assms(1) by (simp_all add: parserDocument_def)
  have ne: "?new i n \<noteq> []" for i n by (simp add: newNodeID_def NodeID_nonempty)
  have rd: "distinct (map ndID ?r)" using assms(3) by (simp add: renameNodes_ids)
  define b where "b = d\<lparr>dcIRVersion := IRVersion, dcIndex := None, dcNodes := fillChildren ?r,
     dcRelationships := map (renameRelationship sha (oldToNew ?new ?ns)) (dcRelationships d), dcDocumentID := documentID\<rparr>"
  have nth: "dcNodes b ! j = (?r ! j)\<lparr>ndChildrenIDs := childrenOf (ndID (?r ! j)) ?r\<rparr>" if "j < length ?ns" for j
    using fillChildren_nth(2) [OF rd, of j] that by (simp add: b_def renameNodes_nth)
  have len: "length (dcNodes b) = length ?ns" using fillChildren_nth(1) [OF rd] by (simp add: b_def)
  have ids: "map ndID (dcNodes b) = map ndID ?r" by (rule nth_equalityI) (simp_all add: len nth)
  have pa: "parentAt (dcNodes b) i j \<longleftrightarrow> parentAt ?r i j" for i j
    by (cases "i < length ?ns \<and> j < length ?ns") (auto simp: parentAt_def len nth)
  have par: "parentAt ?r i j \<longleftrightarrow> parentAt ?ns i j" for i j
    using bind_parent [OF d(2) _ assms(3) ne] d(3) by (simp add: list_all_iff)
  have bind: "BindDocument sha marshal (Some d) documentID = (documentValidate b, Some b)"
  proof -
    have "(if dcIRVersion (d\<lparr>dcIndex := None\<rparr>) = [] then d\<lparr>dcIndex := None, dcIRVersion := IRVersion\<rparr> else d\<lparr>dcIndex := None\<rparr>)
        = d\<lparr>dcIRVersion := IRVersion, dcIndex := None\<rparr>" using d(1) by (cases d) auto
    with assms(2) show ?thesis by (simp add: BindDocument_def Let_def b_def)
  qed
  have valid: "documentValidate b = None"
  proof -
    have "ndID n \<noteq> [] \<and> ndType n \<noteq> []" if "n \<in> set (dcNodes b)" for n
      using that d(3) ne by (auto simp: in_set_conv_nth len nth renameNodes_nth list_all_length)
    moreover have "ndParentID n = [] \<or> ndParentID n \<in> ndID ` set (dcNodes b)" if n: "n \<in> set (dcNodes b)" for n
    proof -
      obtain i where i: "i < length ?ns" "n = dcNodes b ! i" using n by (auto simp: in_set_conv_nth len)
      let ?p = "ndParentID (?ns ! i)"
      have p: "ndParentID n = lookupID (oldToNew ?new ?ns) ?p" using i by (simp add: nth renameNodes_nth)
      show ?thesis
      proof (cases "?p \<in> ndID ` set ?ns")
        case True
        then obtain k where k: "k < length ?ns" "ndID (?ns ! k) = ?p" by (metis imageE in_set_conv_nth)
        then have "ndParentID n = ndID (dcNodes b ! k)" using p oldToNew_known [OF d(2) k(1), of ?new] by (simp add: nth renameNodes_nth)
        with k(1) len show ?thesis by simp
      qed (simp add: p oldToNew_other)
    qed
    ultimately show ?thesis using rd unfolding documentValidate_None ids by (simp add: list_all_iff b_def)
  qed
  have ch: "ndChildrenIDs (dcNodes b ! j) = map (\<lambda>i. ndID (dcNodes b ! i)) (filter (\<lambda>i. parentAt (dcNodes b) i j) [0 ..< length ?ns])"
    if j: "j < length ?ns" for j
  proof -
    have r: "?r = map ((!) ?r) [0 ..< length ?ns]" by (rule nth_equalityI) simp_all
    have "ndChildrenIDs (dcNodes b ! j) = map ndID (filter (\<lambda>n. ndParentID n \<noteq> [] \<and> ndParentID n = ndID (?r ! j)) ?r)"
      using j by (simp add: nth childrenOf_def)
    also have "\<dots> = map (ndID \<circ> (!) ?r) (filter ((\<lambda>n. ndParentID n \<noteq> [] \<and> ndParentID n = ndID (?r ! j)) \<circ> (!) ?r) [0 ..< length ?ns])"
      by (subst r) (simp add: filter_map)
    also have "\<dots> = map (\<lambda>i. ndID (dcNodes b ! i)) (filter (\<lambda>i. parentAt (dcNodes b) i j) [0 ..< length ?ns])"
      using j by (auto intro!: map_cong filter_cong simp: pa parentAt_def nth len)
    finally show ?thesis .
  qed
  have f: "ndText (dcNodes b ! i) = ndText (?ns ! i) \<and> ndType (dcNodes b ! i) = ndType (?ns ! i) \<and> ndDocumentID (dcNodes b ! i) = documentID"
    if "i < length ?ns" for i using that by (simp add: nth renameNodes_nth)
  show ?thesis using bind valid len f pa par ch by (intro exI [of _ b]) (simp add: b_def)
qed


subsection \<open>Plain text\<close>

lemma natDigits_inject [simp]: "natDigits m = natDigits n \<longleftrightarrow> m = n"
  by (metis option.inject parseDigits_natDigits)

text \<open>The text a part contributes to the searchable text.\<close>

definition visiblePart :: "string \<Rightarrow> string option" where
  "visiblePart raw = (let part = trimSpace raw; label = trimSpace (trimLeft [''#''] part) in
     if part = [] then None else if hasPrefix part ''#'' then (if label = [] then None else Some label) else Some part)"

definition tmpID :: "nat \<Rightarrow> string \<Rightarrow> bool" where
  "tmpID k i \<longleftrightarrow> i = ''tmp:heading/'' @ natDigits k \<or> i = ''tmp:paragraph/'' @ natDigits k"

definition fromTextOK :: "FromTextState \<Rightarrow> bool" where
  "fromTextOK st \<longleftrightarrow> ftParent st < length (ftNodes st) \<and> distinct (map ndID (ftNodes st))
     \<and> list_all (\<lambda>n. ndType n \<noteq> [] \<and> (ndID n = ''tmp:document'' \<or> (\<exists>k < ftOrder st. tmpID k (ndID n)))) (ftNodes st)
     \<and> list_all (\<lambda>n. ndParentID n = [] \<or> ndParentID n \<in> ndID ` set (ftNodes st)) (ftNodes st)"

lemma tmpID_fresh: "tmpID k i \<Longrightarrow> tmpID j i \<Longrightarrow> j = k"
  by (auto simp: tmpID_def)

lemma tmpID_not_document: "tmpID k i \<Longrightarrow> i \<noteq> ''tmp:document''"
  by (auto simp: tmpID_def)

lemma addPart_append:
  assumes "addPart pn pv raw st = st' " "visiblePart raw = Some t"
  shows "\<exists>n. ftNodes st' = ftNodes st @ [n] \<and> ndText n = t \<and> ndType n \<in> {TypeHeading, TypeParagraph} \<and> tmpID (ftOrder st) (ndID n)
    \<and> ndParentID n = ndID (ftNodes st ! ftParent st) \<and> ftOrder st' = Suc (ftOrder st) \<and> ftParent st' \<in> {ftParent st, length (ftNodes st)}"
  using assms by (auto simp: addPart_def visiblePart_def Let_def textNode_def tmpID_def formatInt_def split: if_splits)

lemma addPart_same: "visiblePart raw = None \<Longrightarrow> addPart pn pv raw st = st"
  by (auto simp: addPart_def visiblePart_def Let_def split: if_splits)

lemma addPart_ok: "fromTextOK st \<Longrightarrow> fromTextOK (addPart pn pv raw st)"
proof (cases "visiblePart raw")
  case (Some t)
  assume ok: "fromTextOK st"
  obtain n where n: "ftNodes (addPart pn pv raw st) = ftNodes st @ [n]" "ndType n \<in> {TypeHeading, TypeParagraph}" "tmpID (ftOrder st) (ndID n)"
    "ndParentID n = ndID (ftNodes st ! ftParent st)" "ftOrder (addPart pn pv raw st) = Suc (ftOrder st)"
    "ftParent (addPart pn pv raw st) \<in> {ftParent st, length (ftNodes st)}" using addPart_append [OF refl Some, of pn pv st] by blast
  have "ndID n \<notin> ndID ` set (ftNodes st)"
  proof
    assume "ndID n \<in> ndID ` set (ftNodes st)"
    then obtain m where "m \<in> set (ftNodes st)" "ndID m = ndID n" by auto
    with ok have "ndID n = ''tmp:document'' \<or> (\<exists>k < ftOrder st. tmpID k (ndID n))" unfolding fromTextOK_def list_all_iff by metis
    with n(3) tmpID_fresh [of "ftOrder st" "ndID n"] tmpID_not_document show False by blast
  qed
  moreover have "ndParentID n \<in> ndID ` set (ftNodes st)" using ok n(4) by (simp add: fromTextOK_def)
  moreover have "ndID m = ''tmp:document'' \<or> (\<exists>k < Suc (ftOrder st). tmpID k (ndID m))" if "m \<in> set (ftNodes st)" for m
    using ok that unfolding fromTextOK_def list_all_iff by (meson less_SucI)
  moreover have "\<exists>k < Suc (ftOrder st). tmpID k (ndID n)" using n(3) by blast
  moreover have "ndType n \<noteq> []" using n(2) by auto
  ultimately show ?thesis using ok n(1,5,6) unfolding fromTextOK_def list_all_iff n(1,5) by auto
qed (simp add: addPart_same)

lemma addPart_fold:
  "fromTextOK st \<Longrightarrow> fromTextOK (fold (addPart pn pv) parts st)
    \<and> (\<exists>ns. ftNodes (fold (addPart pn pv) parts st) = ftNodes st @ ns \<and> map ndText ns = List.map_filter visiblePart parts
        \<and> list_all (\<lambda>n. ndType n \<noteq> TypeDocument) ns)"
proof (induction parts arbitrary: st)
  case (Cons raw parts)
  let ?st = "addPart pn pv raw st"
  from Cons.IH [OF addPart_ok [OF Cons.prems]] obtain ns where
    ih: "fromTextOK (fold (addPart pn pv) parts ?st)" "ftNodes (fold (addPart pn pv) parts ?st) = ftNodes ?st @ ns"
      "map ndText ns = List.map_filter visiblePart parts" "list_all (\<lambda>n. ndType n \<noteq> TypeDocument) ns" by blast
  show ?case
  proof (cases "visiblePart raw")
    case None
    with ih show ?thesis by (simp add: addPart_same List.map_filter_simps)
  next
    case (Some t)
    obtain n where n: "ftNodes ?st = ftNodes st @ [n]" "ndText n = t" "ndType n \<in> {TypeHeading, TypeParagraph}"
      using addPart_append [OF refl Some, of pn pv st] by blast
    then have "ndType n \<noteq> TypeDocument" by auto
    with n(1,2) ih Some show ?thesis by (intro conjI exI [of _ "n # ns"]) (simp_all add: List.map_filter_simps)
  qed
qed (simp add: List.map_filter_simps)

definition textParts :: "string \<Rightarrow> string list" where
  "textParts text = List.map_filter visiblePart (splitOn (trimSpace text) [CHR 0x0A, CHR 0x0A])"

lemma visiblePart_trimmed: "visiblePart raw = Some t \<Longrightarrow> t \<noteq> [] \<and> trimSpace t = t"
  by (auto simp: visiblePart_def Let_def split: if_splits)

lemma FromText_nodes: "\<exists>ns d. dcNodes (FromText title text pn pv) = d # ns \<and> ndType d = TypeDocument \<and> ndText d = trimSpace text
    \<and> map ndText ns = textParts text \<and> list_all (\<lambda>n. ndType n \<noteq> TypeDocument) ns \<and> parserDocument (FromText title text pn pv)"
proof -
  define d where "d = textNode pn pv ''tmp:document'' TypeDocument [] 0 (trimSpace text) [] (emptyAnchor\<lparr>saLogicalPath := ''document''\<rparr>)"
  define st where "st = \<lparr>ftNodes = [d], ftParent = 0, ftHeadingPath = [], ftOrder = 0\<rparr>"
  have "fromTextOK st" by (simp add: st_def d_def textNode_def fromTextOK_def)
  from addPart_fold [OF this, of pn pv "splitOn (trimSpace text) [CHR 0x0A, CHR 0x0A]"] obtain ns where
    ns: "fromTextOK (fold (addPart pn pv) (splitOn (trimSpace text) [CHR 0x0A, CHR 0x0A]) st)"
      "ftNodes (fold (addPart pn pv) (splitOn (trimSpace text) [CHR 0x0A, CHR 0x0A]) st) = d # ns" "map ndText ns = textParts text"
      "list_all (\<lambda>n. ndType n \<noteq> TypeDocument) ns" by (auto simp: st_def textParts_def)
  have f: "dcNodes (FromText title text pn pv) = d # ns" "dcIRVersion (FromText title text pn pv) = IRVersion"
    using ns(2) unfolding st_def d_def by (simp_all add: FromText_def Let_def)
  have "ndID n \<noteq> []" if "tmpID k (ndID n)" for k n using that by (auto simp: tmpID_def)
  then have "parserDocument (FromText title text pn pv)" using ns(1) unfolding fromTextOK_def ns(2)
    by (auto simp: parserDocument_def f list_all_iff)
  with f(1) ns(3,4) show ?thesis by (intro exI [of _ ns] exI [of _ d]) (simp add: d_def textNode_def)
qed

text \<open>
  the degraded document of a plain text can be bound, and its searchable text is the text of its parts, in
  order and without heading marks, or the whole text when no part says anything.
\<close>

theorem plain_text_document:
  assumes "trimSpace documentID \<noteq> []"
    "distinct (newIDs (newNodeID sha marshal documentID) (dcNodes (FromText title body pn pv)))"
  shows "\<exists>b. BindDocument sha marshal (Some (FromText title body pn pv)) documentID = (None, Some b)
    \<and> documentText b = (if textParts body = [] then trimSpace body else joinWith [CHR 0x0A, CHR 0x0A] (textParts body))"
proof -
  let ?f = "FromText title body pn pv"
  obtain ns d where f: "dcNodes ?f = d # ns" "ndType d = TypeDocument" "ndText d = trimSpace body" "map ndText ns = textParts body"
    "list_all (\<lambda>n. ndType n \<noteq> TypeDocument) ns" "parserDocument ?f" using FromText_nodes [of title body pn pv] by blast
  from BindDocument_ok [OF f(6) assms] obtain b where b: "BindDocument sha marshal (Some ?f) documentID = (None, Some b)"
    "length (dcNodes b) = length (dcNodes ?f)"
    "\<forall>i < length (dcNodes ?f). ndText (dcNodes b ! i) = ndText (dcNodes ?f ! i) \<and> ndType (dcNodes b ! i) = ndType (dcNodes ?f ! i)" by blast
  obtain d' ns' where b': "dcNodes b = d' # ns'" using b(2) f(1) by (cases "dcNodes b") auto
  have m: "map ndText (dcNodes b) = map ndText (dcNodes ?f)" "map ndType (dcNodes b) = map ndType (dcNodes ?f)"
    using b(2,3) by (auto intro: nth_equalityI)
  have tx: "map ndText ns' = textParts body" "ndText d' = trimSpace body" "ndType d' = TypeDocument" "list_all (\<lambda>t. t \<noteq> TypeDocument) (map ndType ns')"
    using m f(1-5) b' by (simp_all add: list_all_iff)
  have trimmed: "trimSpace t = t \<and> t \<noteq> []" if "t \<in> set (textParts body)" for t
    using that visiblePart_trimmed by (auto simp: textParts_def List.map_filter_def)
  have "trimSpace (ndText n) = ndText n \<and> ndText n \<noteq> [] \<and> ndType n \<noteq> TypeDocument" if "n \<in> set ns'" for n
  proof -
    have "ndText n \<in> set (textParts body)" using that tx(1) by (metis image_eqI image_set)
    with trimmed tx(4) that show ?thesis by (auto simp: list_all_iff)
  qed
  then have "filter (\<lambda>n. ndType n \<noteq> TypeDocument \<and> trimSpace (ndText n) \<noteq> []) ns' = ns'" "map (trimSpace \<circ> ndText) ns' = map ndText ns'"
    by (auto simp: filter_id_conv)
  with b(1) tx(1-3) show ?thesis by (intro exI [of _ b]) (auto simp: documentText_def b' Let_def)
qed

subsection \<open>Concrete documents\<close>

definition demoText :: string where
  "demoText = ''# A'' @ [CHR 0x0A, CHR 0x0A] @ ''first'' @ [CHR 0x0A, CHR 0x0A] @ ''# B'' @ [CHR 0x0A, CHR 0x0A] @ ''second''"

abbreviation demoDocument :: Document where
  "demoDocument \<equiv> FromText ''t'' demoText ''p'' ''1''"

lemma demo_distinct: "distinct (newIDs (newNodeID rev saLogicalPath ''doc'') (dcNodes demoDocument))"
  by code_simp

lemma demo_parts: "textParts demoText = [''A'', ''first'', ''B'', ''second'']"
  by code_simp

lemma demo_id: "trimSpace ''doc'' \<noteq> []"
  by code_simp


lemma plain_text_document_witness:
  "\<exists>b. BindDocument rev saLogicalPath (Some demoDocument) ''doc'' = (None, Some b)
    \<and> documentText b = joinWith [CHR 0x0A, CHR 0x0A] [''A'', ''first'', ''B'', ''second'']"
  using plain_text_document [OF demo_id demo_distinct] by (simp add: demo_parts)

text \<open>
  Every heading is attached to the heading before it, whatever their levels: the second section of the document
  above lies inside the first, although its heading path does not say so.
\<close>

lemma headings_nest:
  "map (\<lambda>n. (ndID n, ndParentID n, ndHeadingPath n)) (filter (\<lambda>n. ndType n = TypeHeading) (dcNodes demoDocument))
    = [(''tmp:heading/0'', ''tmp:document'', [''A'']), (''tmp:heading/2'', ''tmp:heading/0'', [''B''])]"
  by code_simp

text \<open>A node without text cannot be looked up by its identifier.\<close>

lemma textless_node_not_found:
  assumes "trimSpace (ndText n) = []" "dcNodes d = [n]" "dcIndex d = None"
  shows "fst (NodeByID d (ndID n)) = None"
  using assms by (simp add: NodeByID_def NodeTextIndex_def buildIndex_def textNodes_def Let_def)

end
