(* ===== verification/Spec2Isabelle.thy ===== *)
theory Spec2Isabelle
  imports OpProperties OpUploadProperties WriterProperties ChunkProperties TokenEstimate EvidenceProperties
    PdfProperties PdfLZW PdfSyntaxProperties OpReadProperties OpItems OpCredential JobsProperties
    RetrievalProperties Rerank SemMergeProperties SemSearchProperties OpUrl DocProperties
begin

text \<open>
  Verification development of Shutu-Knowledge, a knowledge base service written in Go.

  \<^bold>\<open>The program.\<close> Commands arrive over HTTP or MCP and are accepted as durable \<^emph>\<open>operations\<close> (package
  \<open>internal/operations\<close>); workers claim them from SQLite, run an executor and record the outcome.
  All writes to SQLite pass through one writer goroutine (\<open>internal/storage/writer.go\<close>). Executors parse
  documents (\<open>internal/parser\<close>), split them into chunks (\<open>internal/chunk\<close>), index them and later compose
  evidence windows for answers (\<open>internal/evidence\<close>).

  \<^bold>\<open>Shared theories.\<close> \<open>Prelude\<close>: Go integers over \<open>int\<close> (\<open>wrap64\<close> where arithmetic can leave the range),
  error results as sums, list facts. \<open>Tables\<close>: SQL tables as lists of rows with the interface
  \<open>row_store\<close> (select, guarded update, insert), interpreted for operations, uploads, items and keys.
  \<open>GoText\<close>, \<open>GoNumber\<close>, \<open>GoFloat\<close>, \<open>Base64\<close>: the parts of \<open>strings\<close>, \<open>unicode\<close>, \<open>utf8\<close>, \<open>strconv\<close>, \<open>math\<close> and
  \<open>encoding/base64\<close> the code calls; a string is its bytes, a \<open>float64\<close> a rational rounded to 53 bits after
  each operation. \<open>Admission\<close>: the contract of reserving and giving back capacity, with the process-wide
  semaphore (\<open>internal/scheduler/admission.go\<close>) and the operation scheduler as providers. \<open>Channels\<close>:
  buffered channels as bounded queues.

  \<^bold>\<open>Operations.\<close> \<open>OpScheduler\<close> models resource limits, budgets and the reservation counters of
  \<open>service.go\<close>; \<open>OpRows\<close> the durable tables; \<open>OpLifecycle\<close> claim, report, finish, cancel, retry and restart
  recovery, one function per transaction (what the caller read before the transaction is an
  argument, since other transactions commit in between); \<open>OpSubmit\<close> acceptance and idempotent replay;
  \<open>OpUploads\<close> staged uploads. \<open>OpRowMachine\<close> states the life of one row as a step relation and shows that
  every transaction moves rows by its steps; \<open>OpService\<close> and \<open>OpMachine\<close> put the transactions, the
  scheduler and restarts together as the step relation \<open>svc_step\<close> with its invariant. The properties are
  in \<open>OpProperties\<close> (what every reachable state satisfies: settled rows are frozen, attempts are bounded,
  revisions never go back, reservations are conserved; claim order; replay of a command; one recorded
  outcome; recovery; payload expiry) and \<open>OpUploadProperties\<close> (uploads under any interleaving of their
  handlers). \<open>OpQuery\<close> and \<open>OpReadProperties\<close> cover \<open>query.go\<close> and \<open>util.go\<close>: the view of a row, cursors, and
  that reading all pages gives every operation asked for once. \<open>OpItems\<close> covers \<open>items.go\<close> with the adapters of
  \<open>internal/app/operations.go\<close>: a committed item is final. \<open>OpCredential\<close> covers \<open>credential.go\<close>: the whole life
  of a signed credential through rotation and revocation. \<open>OpUrl\<close> covers \<open>url.go\<close>: the first bytes fetched for an
  operation stay its source until they are consumed or expire.

  \<^bold>\<open>Storage.\<close> \<open>Writer\<close> models the three bounded queues, admission, the two \<open>select\<close> statements of the loop
  (every ready case is a possible choice), stop and counters; \<open>WriterProperties\<close> shows exactly-once
  replies, balanced counters and the bound on control bursts.

  \<^bold>\<open>Jobs.\<close> \<open>Jobs\<close> models the in-process job manager \<open>internal/jobs/manager.go\<close>: registry, queues, workers, progress
  and persisted rows; \<open>JobsProperties\<close> is its step relation, in which clients, workers, failing writes,
  shutdown and restarts interleave, with the shape of the rows, at most one call of a job's function and
  the finality of a settled row.

  \<^bold>\<open>Chunking and evidence.\<close> \<open>Chunker\<close> is \<open>chunk.go\<close> and \<open>split.go\<close>; \<open>ChunkProperties\<close> shows that windows lose and
  repeat nothing and what refinement establishes; \<open>TokenEstimate\<close> that the estimate computed in
  floating point is an exact integer formula. \<open>EvidenceFit\<close> and \<open>Evidence\<close> are \<open>fit.go\<close> and \<open>evidence.go\<close>;
  \<open>EvidenceProperties\<close> shows the budget, the offsets and the order of a composed window, each as an
  instance of the locale \<open>excerpt_property\<close>.

  \<^bold>\<open>Ranking.\<close> \<open>Retrieval\<close> is \<open>internal/retrieval/retrieval.go\<close>; \<open>RetrievalProperties\<close> shows what \<open>Rank\<close> returns,
  that its scores stay between zero and one in floating point, and that diversification is a greedy
  permutation. \<open>Rerank\<close> is \<open>internal/rerank\<close>: score validation, micro-batches and the circuit breaker with the
  number of calls that reach a provider during an outage.

  \<^bold>\<open>Compiled knowledge.\<close> \<open>GoRegexp\<close> is a backtracking matcher for the regular expressions of package \<open>regexp\<close> the
  code uses. \<open>SemModel\<close> is \<open>internal/semantic/model.go\<close>: units, relations and their validation; \<open>SemProvenance\<close>
  shows that the cycle check is exact and that validated evidence resolves. \<open>SemTemporal\<close> is the order of
  version identities of \<open>temporal.go\<close>; \<open>SemReconcile\<close> the supersession of versioned facts in
  \<open>compiler.go\<close>, with \<open>SemReconcileProperties\<close> for every result of \<open>sort.Slice\<close>; \<open>SemMerge\<close> is \<open>incremental.go\<close>,
  and \<open>SemMergeProperties\<close> shows that the repair of provenance is a least fixpoint and that no stale evidence
  survives a merge. \<open>SemQuery\<close> is the rest of \<open>temporal.go\<close> and the parsing of \<open>history.go\<close>: the temporal query read
  from a question and what it lets be seen; \<open>SemSearch\<close> is \<open>router.go\<close> and \<open>search.go\<close>. \<open>SemSearchProperties\<close>
  shows that every query read is well formed, what a search returns, and that a search over a validated
  compilation never fails on its evidence.

  \<^bold>\<open>Documents.\<close> \<open>DocIR\<close> is \<open>internal/documentir/document.go\<close>: nodes, binding to a document, lookups and the document
  of a plain text; \<open>DocProperties\<close> shows that binding keeps the tree.

  \<^bold>\<open>PDF images.\<close> \<open>PdfSyntax\<close> is the dictionary scanner \<open>pdf_dictionary.go\<close>; \<open>PdfFilters\<close> and \<open>PdfCodecs\<close> are
  \<open>pdf_filters.go\<close> over \<open>8 word\<close> bytes; \<open>PdfProperties\<close>, \<open>PdfLZW\<close> and \<open>PdfSyntaxProperties\<close> show that the
  decoders invert reference encoders and what malformed input gives. An index that Go would refuse
  at run time is the error \<open>SlicePanic\<close>.

  \<^bold>\<open>Termination.\<close> Recursion is structural or has a measure, except two loops that are
  \<open>partial_function (option)\<close>: \<open>lzwLoop\<close>, shown to return on every stream, and \<open>enforceLoop\<close>, shown to return
  for every window as each round drops or shortens an excerpt. \<open>drainN\<close> takes the length of the queue it
  drains as fuel, \<open>listAll\<close> the number of rows plus one, \<open>visit\<close> and \<open>collect\<close> the number of units plus one (each
  level of the recursion marks a unit), \<open>fixLoop\<close> the number of references plus one (each pass that changes something removes one).

  \<^bold>\<open>Parameters.\<close> \<open>decay\<close> (\<open>math.Pow\<close>), \<open>lower\<close> (\<open>strings.ToLower\<close>), \<open>logf\<close> (\<open>math.Log\<close>), \<open>order\<close> (a range over a map), \<open>inflate\<close> (\<open>compress/zlib\<close>), \<open>sha\<close> and \<open>mac\<close>
  (digests), \<open>enc\<close>, \<open>marshal\<close>, \<open>unmarshal\<close> (\<open>encoding/json\<close>), \<open>safe\<close> (redaction by regular expressions),
  \<open>Lib\<close> (string folding, \<open>ParseFloat\<close>, \<open>time.Parse\<close>, SHA-256), \<open>sortSlice\<close> and \<open>shuffle\<close> (\<open>sort.Slice\<close> and the order of a map),
  \<open>enrich\<close> and \<open>free\<close> (the snapshot resolver and the disk probe of \<open>Submit\<close>), random identifiers, and every
  reading of the clock. The object a third-party PDF library returns enters as its description string.

  \<^bold>\<open>Not modelled.\<close> HTTP and MCP handlers, child processes, model servers, logging and the command line
  are glue over the network and the operating system. Parsers of HTML, Office files and PDF text
  depend on third-party libraries. The knowledge store and the schema models are
  mostly SQL over many tables; the semantic compiler's collection of concepts and facts from documents is not modelled. Within \<open>operations\<close>: wake-up channels, metrics, URL captures and
  resource probes.
\<close>

end
